(* ===== verification/Prelude.thy ===== *)
theory Prelude
  imports Main "HOL-Library.Word"
begin

section \<open>Shared types, C library functions and generic lemmas\<close>

text \<open>
  The types and helpers every component of the development uses: machine integers as words,
  bytes and strings, and the functions of the C and C++ standard libraries the sources call
  (character classes, \<open>c_str\<close>, \<open>substr\<close>, \<open>getline\<close> with a delimiter, decimal output and
  input). A \<^typ>\<open>string\<close> is a list of 8-bit characters, as \<open>std::string\<close> is; data on the wire
  is a list of \<^typ>\<open>8 word\<close>. Character classes are those of the "C" locale.
\<close>

unbundle bit_operations_syntax

type_synonym byte = "8 word"
type_synonym u16 = "16 word"
type_synonym u32 = "32 word"
type_synonym u64 = "64 word"

named_theorems wire_simps \<open>lengths and shapes of wire encodings\<close>
named_theorems frame_rules \<open>fields an operation does not change\<close>

subsection \<open>Bytes and characters\<close>

definition byte_of_char :: "char \<Rightarrow> byte" where
  "byte_of_char c = word_of_nat (of_char c)"

definition char_of_byte :: "byte \<Rightarrow> char" where
  "char_of_byte b = char_of (unat b)"

definition bytes_of :: "string \<Rightarrow> byte list" where
  "bytes_of s = map byte_of_char s"

definition string_of_bytes :: "byte list \<Rightarrow> string" where
  "string_of_bytes bs = map char_of_byte bs"

lemma of_char_less_256: "(of_char c :: nat) < 256"
  by (rule nat_of_char_less_256)

lemma unat_less_256: "unat (b :: byte) < 256"
  using unsigned_less [of b, where ?'a = nat] by simp

lemma char_of_byte_of_char [simp]: "char_of_byte (byte_of_char c) = c"
  by (simp add: char_of_byte_def byte_of_char_def unat_of_nat of_char_less_256)

lemma byte_of_char_of_byte [simp]: "byte_of_char (char_of_byte b) = b"
proof -
  have "unat b < 256" by (rule unat_less_256)
  then show ?thesis by (simp add: char_of_byte_def byte_of_char_def)
qed

lemma string_of_bytes_of [simp]: "string_of_bytes (bytes_of s) = s"
  by (induction s) (simp_all add: string_of_bytes_def bytes_of_def)

lemma bytes_of_string_of [simp]: "bytes_of (string_of_bytes bs) = bs"
  by (induction bs) (simp_all add: string_of_bytes_def bytes_of_def)

lemma bytes_of_append [simp]: "bytes_of (s @ t) = bytes_of s @ bytes_of t"
  by (simp add: bytes_of_def)

lemma length_bytes_of [simp]: "length (bytes_of s) = length s"
  by (simp add: bytes_of_def)

lemma length_string_of_bytes [simp]: "length (string_of_bytes s) = length s"
  by (simp add: string_of_bytes_def)

lemma bytes_of_inject [simp]: "bytes_of s = bytes_of t \<longleftrightarrow> s = t"
  by (metis string_of_bytes_of)

text \<open>A property of the bytes below a bound is checked value by value.\<close>

lemma byte_below:
  assumes "unat (b :: byte) < n" and "list_all P (map word_of_nat [0..<n])"
  shows "P b"
proof -
  have "unat b \<in> set [0..<n]" using assms(1) by simp
  with assms(2) have "P (word_of_nat (unat b))" unfolding list_all_iff by (metis image_eqI set_map)
  then show ?thesis by simp
qed

subsection \<open>Masks and shifts as arithmetic\<close>

lemma unat_and_mask: "unat (w AND mask k) = unat w mod 2 ^ k"
  for w :: "'a::len word"
  unfolding take_bit_eq_mask [symmetric] unsigned_take_bit_eq by (rule take_bit_eq_mod)

lemma unat_drop_bit: "unat (drop_bit k w) = unat w div 2 ^ k"
  for w :: "'a::len word"
  unfolding unsigned_drop_bit_eq by (simp add: take_bit_nat_eq_self drop_bit_eq_div)

lemma unat_push_bit: "unat (push_bit k w) = unat w * 2 ^ k mod 2 ^ LENGTH('a)"
  for w :: "'a::len word"
  unfolding unsigned_push_bit_eq by (simp add: take_bit_eq_mod push_bit_eq_mult)

lemma unat_ucast_up: "LENGTH('a::len) \<le> LENGTH('b::len) \<Longrightarrow> unat (ucast (w :: 'a word) :: 'b word) = unat w"
proof -
  assume le: "LENGTH('a) \<le> LENGTH('b)"
  have "unat w < 2 ^ LENGTH('b)"
    using unsigned_less [of w, where ?'a = nat] le
    by (meson less_le_trans one_le_numeral power_increasing)
  then show ?thesis by (simp add: unsigned_ucast_eq take_bit_nat_eq_self)
qed

lemma mask_numerals:
  "(0x3 :: 'a::len word) = mask 2" "(0xf :: 'a word) = mask 4" "(0x3f :: 'a word) = mask 6"
  "(0x7f :: 'a word) = mask 7" "(0xff :: 'a word) = mask 8"
  by (simp_all add: mask_eq_exp_minus_1)

subsection \<open>Character classes\<close>

abbreviation code :: "char \<Rightarrow> nat" where
  "code c \<equiv> of_char c"

definition c_isspace :: "char \<Rightarrow> bool" where
  "c_isspace c \<longleftrightarrow> code c = 32 \<or> 9 \<le> code c \<and> code c \<le> 13"

definition c_isdigit :: "char \<Rightarrow> bool" where
  "c_isdigit c \<longleftrightarrow> 48 \<le> code c \<and> code c \<le> 57"

definition c_isupper :: "char \<Rightarrow> bool" where
  "c_isupper c \<longleftrightarrow> 65 \<le> code c \<and> code c \<le> 90"

definition c_islower :: "char \<Rightarrow> bool" where
  "c_islower c \<longleftrightarrow> 97 \<le> code c \<and> code c \<le> 122"

definition c_isalpha :: "char \<Rightarrow> bool" where
  "c_isalpha c \<longleftrightarrow> c_isupper c \<or> c_islower c"

definition c_isalnum :: "char \<Rightarrow> bool" where
  "c_isalnum c \<longleftrightarrow> c_isalpha c \<or> c_isdigit c"

definition c_tolower :: "char \<Rightarrow> char" where
  "c_tolower c = (if c_isupper c then char_of (code c + 32) else c)"

lemma code_tolower: "code (c_tolower c) = (if c_isupper c then code c + 32 else code c)"
  by (auto simp: c_tolower_def c_isupper_def)

lemma tolower_idem [simp]: "c_tolower (c_tolower c) = c_tolower c"
  by (auto simp: c_tolower_def c_isupper_def)

lemma tolower_lower: "\<not> c_isupper (c_tolower c)"
  by (auto simp: c_tolower_def c_isupper_def)

definition NUL :: char where
  "NUL = CHR 0x00"

definition CR :: char where
  "CR = CHR 0x0D"

definition LF :: char where
  "LF = CHR 0x0A"

definition CRLF :: string where
  "CRLF = [CR, LF]"

subsection \<open>C strings and substrings\<close>

text \<open>A \<open>std::string\<close> read through \<open>c_str()\<close> ends at its first NUL.\<close>

definition c_str :: "string \<Rightarrow> string" where
  "c_str s = takeWhile (\<lambda>c. c \<noteq> NUL) s"

lemma c_str_id: "NUL \<notin> set s \<Longrightarrow> c_str s = s"
  by (auto simp: c_str_def takeWhile_eq_all_conv)

lemma c_str_append: "NUL \<notin> set s \<Longrightarrow> c_str (s @ t) = s @ c_str t"
  unfolding c_str_def by (rule takeWhile_append2) auto

lemma NUL_notin_c_str: "NUL \<notin> set (c_str s)"
  by (auto simp: c_str_def dest: set_takeWhileD)

text \<open>
  \<open>std::string::substr(pos, n)\<close>: \<^term>\<open>None\<close> is the \<open>std::out_of_range\<close> exception thrown when
  \<open>pos\<close> is past the end; a count of \<^term>\<open>None\<close> is \<open>npos\<close>, to the end of the string.
\<close>

definition substr :: "string \<Rightarrow> nat \<Rightarrow> nat option \<Rightarrow> string option" where
  "substr s pos n =
     (if length s < pos then None
      else Some (case n of None \<Rightarrow> drop pos s | Some k \<Rightarrow> take k (drop pos s)))"

subsection \<open>Splitting with std::getline\<close>

text \<open>
  \<open>while (std::getline(stream, token, d))\<close> over a string: the tokens between delimiters. An empty
  rest after the last delimiter yields no token, since the extraction then fails at end of file.
\<close>

function getlines :: "char \<Rightarrow> string \<Rightarrow> string list" where
  "getlines d [] = []"
| "getlines d (c # s) =
     takeWhile (\<lambda>x. x \<noteq> d) (c # s) #
     getlines d (drop 1 (dropWhile (\<lambda>x. x \<noteq> d) (c # s)))"
  by pat_completeness auto
termination
proof (relation "measure (\<lambda>(d, s). length s)")
  fix d :: char and c :: char and s :: string
  have "length (dropWhile (\<lambda>x. x \<noteq> d) (c # s)) \<le> length (c # s)"
    by (rule length_dropWhile_le)
  then show "((d, drop 1 (dropWhile (\<lambda>x. x \<noteq> d) (c # s))), d, c # s)
      \<in> measure (\<lambda>(d, s). length s)"
    by simp
qed simp

declare getlines.simps [simp del]

lemma getlines_Nil [simp]: "getlines d [] = []"
  by (simp add: getlines.simps)

lemma getlines_no_delim: "s \<noteq> [] \<Longrightarrow> d \<notin> set s \<Longrightarrow> getlines d s = [s]"
proof (cases s)
  case (Cons c r)
  assume d: "d \<notin> set s"
  then have "takeWhile (\<lambda>x. x \<noteq> d) s = s" and "dropWhile (\<lambda>x. x \<noteq> d) s = []"
    by (auto simp: takeWhile_eq_all_conv dropWhile_eq_Nil_conv)
  then show ?thesis by (simp add: Cons getlines.simps)
qed simp

lemma getlines_delim: "d \<notin> set s \<Longrightarrow> getlines d (s @ d # r) = s # getlines d r"
proof -
  assume d: "d \<notin> set s"
  have t: "takeWhile (\<lambda>x. x \<noteq> d) (s @ d # r) = s"
    using d by (subst takeWhile_append2) auto
  have u: "dropWhile (\<lambda>x. x \<noteq> d) (s @ d # r) = d # r"
    using d by (subst dropWhile_append2) auto
  obtain c q where cq: "s @ d # r = c # q" by (cases "s @ d # r") auto
  have "getlines d (c # q) =
      takeWhile (\<lambda>x. x \<noteq> d) (c # q) # getlines d (drop 1 (dropWhile (\<lambda>x. x \<noteq> d) (c # q)))"
    by (simp add: getlines.simps)
  then show ?thesis unfolding cq [symmetric] t u by simp
qed

subsection \<open>Decimal output and input\<close>

definition digit_char :: "nat \<Rightarrow> char" where
  "digit_char n = char_of (48 + n)"

definition digit_val :: "char \<Rightarrow> nat" where
  "digit_val c = code c - 48"

fun string_of_nat :: "nat \<Rightarrow> string" where
  "string_of_nat n =
     (if n < 10 then [digit_char n] else string_of_nat (n div 10) @ [digit_char (n mod 10)])"

declare string_of_nat.simps [simp del]

definition string_of_int :: "int \<Rightarrow> string" where
  "string_of_int i = (if i < 0 then CHR ''-'' # string_of_nat (nat (- i)) else string_of_nat (nat i))"

definition digits_val :: "string \<Rightarrow> nat" where
  "digits_val s = foldl (\<lambda>n c. 10 * n + digit_val c) 0 s"

lemma code_digit_char: "n < 10 \<Longrightarrow> code (digit_char n) = 48 + n"
  by (simp add: digit_char_def)

lemma digit_char_props:
  assumes "n < 10"
  shows "c_isdigit (digit_char n)" and "digit_val (digit_char n) = n"
  using assms by (simp_all add: c_isdigit_def digit_val_def code_digit_char)

lemma string_of_nat_digits: "\<forall>c \<in> set (string_of_nat n). c_isdigit c"
proof (induction n rule: string_of_nat.induct)
  case (1 n)
  then show ?case
    by (cases "n < 10") (auto simp: string_of_nat.simps [of n] digit_char_props)
qed

lemma string_of_nat_nonempty [simp]: "string_of_nat n \<noteq> []"
  by (simp add: string_of_nat.simps [of n])

lemma digits_val_snoc: "digits_val (s @ [c]) = 10 * digits_val s + digit_val c"
  by (simp add: digits_val_def)

lemma digits_val_string_of_nat [simp]: "digits_val (string_of_nat n) = n"
proof (induction n rule: string_of_nat.induct)
  case (1 n)
  show ?case
  proof (cases "n < 10")
    case True
    then show ?thesis
      by (simp add: string_of_nat.simps [of n] digits_val_def digit_char_props)
  next
    case False
    with "1" have "digits_val (string_of_nat n) = 10 * (n div 10) + n mod 10"
      by (simp add: string_of_nat.simps [of n] digits_val_snoc digit_char_props)
    then show ?thesis by simp
  qed
qed

lemma string_of_nat_inject: "string_of_nat m = string_of_nat n \<longleftrightarrow> m = n"
  by (metis digits_val_string_of_nat)

text \<open>
  The numeric prefix of a string after leading white space: sign and digits. \<open>atoi\<close> and the
  extraction \<open>stream >> x\<close> for an \<open>int\<close> both read this prefix and ignore what follows it.
\<close>

definition skip_space :: "string \<Rightarrow> string" where
  "skip_space s = dropWhile c_isspace s"

definition signed_prefix :: "string \<Rightarrow> bool \<times> string" where
  "signed_prefix s =
     (case s of
        c # r \<Rightarrow> (if c = CHR ''-'' then (True, takeWhile c_isdigit r)
                  else if c = CHR ''+'' then (False, takeWhile c_isdigit r)
                  else (False, takeWhile c_isdigit s))
      | [] \<Rightarrow> (False, []))"

definition prefix_int :: "string \<Rightarrow> int" where
  "prefix_int s =
     (let (neg, ds) = signed_prefix s; v = int (digits_val ds) in if neg then - v else v)"

definition int_max :: int where
  "int_max = 2147483647"

definition int_min :: int where
  "int_min = - 2147483648"

text \<open>
  \<open>int x = init; stream >> x;\<close> on a stream that holds \<open>s\<close>. At end of file the sentry fails and
  the variable keeps its old value; text with no digit stores 0; a value out of range stores the
  nearest limit of \<open>int\<close>.
\<close>

definition extract_int :: "int \<Rightarrow> string \<Rightarrow> int" where
  "extract_int init s =
     (let r = skip_space s in
      if r = [] then init else max int_min (min int_max (prefix_int r)))"

text \<open>
  \<open>atoi\<close>, as the C library does it: \<open>strtol\<close> saturates at the limits of \<open>long\<close> and the result is
  converted to \<open>int\<close>, which keeps the low 32 bits.
\<close>

definition long_max :: int where
  "long_max = 9223372036854775807"

definition long_min :: int where
  "long_min = - 9223372036854775808"

definition atoi :: "string \<Rightarrow> int" where
  "atoi s =
     (let v = max long_min (min long_max (prefix_int (skip_space (c_str s))))
      in sint (word_of_int v :: 32 word))"

lemma skip_space_digits: "s \<noteq> [] \<Longrightarrow> c_isdigit (hd s) \<Longrightarrow> skip_space s = s"
  by (cases s) (auto simp: skip_space_def c_isdigit_def c_isspace_def)

lemma isdigit_not_sign: "c_isdigit c \<Longrightarrow> c \<noteq> CHR ''-'' \<and> c \<noteq> CHR ''+''"
  by (auto simp: c_isdigit_def)

lemma takeWhile_string_of_nat:
  "r = [] \<or> \<not> c_isdigit (hd r) \<Longrightarrow> takeWhile c_isdigit (string_of_nat n @ r) = string_of_nat n"
  using string_of_nat_digits [of n]
  by (cases r) (auto simp: takeWhile_append2 takeWhile_eq_all_conv)

lemma hd_string_of_nat: "c_isdigit (hd (string_of_nat n))"
  using string_of_nat_digits [of n] string_of_nat_nonempty [of n] hd_in_set by blast

lemma prefix_int_string_of_nat:
  assumes "r = [] \<or> \<not> c_isdigit (hd r)"
  shows "prefix_int (string_of_nat n @ r) = int n"
proof -
  obtain c q where cq: "string_of_nat n = c # q" by (cases "string_of_nat n") auto
  with hd_string_of_nat [of n] have "c_isdigit c" by simp
  then have "signed_prefix (string_of_nat n @ r) =
      (False, takeWhile c_isdigit (string_of_nat n @ r))"
    using isdigit_not_sign [of c] by (simp add: signed_prefix_def cq)
  then show ?thesis
    using takeWhile_string_of_nat [OF assms, of n] by (simp add: prefix_int_def)
qed

lemma extract_int_string_of_nat:
  assumes "int n \<le> int_max" and "r = [] \<or> \<not> c_isdigit (hd r)"
  shows "extract_int init (string_of_nat n @ r) = int n"
proof -
  have "skip_space (string_of_nat n @ r) = string_of_nat n @ r"
    by (rule skip_space_digits) (simp_all add: hd_string_of_nat)
  then show ?thesis
    using assms by (simp add: extract_int_def prefix_int_string_of_nat int_min_def int_max_def)
qed

end
