(* ===== verification/SelectInterrupt.thy ===== *)
theory SelectInterrupt
  imports Prelude
begin

section \<open>Waking up a poll: the pipe and the eventfd\<close>

text \<open>
  \<^verbatim>\<open>IXSelectInterruptPipe.cpp\<close>, \<^verbatim>\<open>IXSelectInterruptEventFd.cpp\<close>, \<^verbatim>\<open>IXSelectInterrupt.cpp\<close> and
  \<^verbatim>\<open>IXSelectInterruptFactory.cpp\<close>. A sending thread wakes the polling thread by writing a 64-bit
  request code; the polling thread reads it back. The pipe keeps the codes apart and in order, a
  law stated once as the locale \<open>wakeup_channel\<close> and discharged for the pipe; an eventfd adds them
  up. What \<open>pipe\<close>, \<open>fcntl\<close> and \<open>eventfd\<close> return is an argument of the \<open>init\<close> functions. A pipe is
  non-blocking: a write of eight bytes succeeds as a whole or, when the pipe is full, fails.
\<close>

subsection \<open>The request channel as an interface\<close>

text \<open>Sequences of requests and of reads, over any channel.\<close>

fun notify_all :: "('s \<Rightarrow> u64 \<Rightarrow> bool \<times> 's) \<Rightarrow> 's \<Rightarrow> u64 list \<Rightarrow> bool list \<times> 's" where
  "notify_all nf s [] = ([], s)"
| "notify_all nf s (v # vs) =
     (case nf s v of (ok, s1) \<Rightarrow> case notify_all nf s1 vs of (oks, s2) \<Rightarrow> (ok # oks, s2))"

fun read_n :: "('s \<Rightarrow> u64 \<times> 's) \<Rightarrow> nat \<Rightarrow> 's \<Rightarrow> u64 list \<times> 's" where
  "read_n rd 0 s = ([], s)"
| "read_n rd (Suc n) s = (case rd s of (v, s1) \<Rightarrow> case read_n rd n s1 of (vs, s2) \<Rightarrow> (v # vs, s2))"

locale wakeup_channel =
  fixes notify :: "'s \<Rightarrow> u64 \<Rightarrow> bool \<times> 's"
    and read :: "'s \<Rightarrow> u64 \<times> 's"
    and pending :: "'s \<Rightarrow> u64 list"
    and ready :: "'s \<Rightarrow> bool"
  assumes notify_ok: "notify s v = (True, s') \<Longrightarrow> pending s' = pending s @ [v] \<and> ready s' = ready s"
    and notify_failed: "notify s v = (False, s') \<Longrightarrow> s' = s"
    and read_first: "ready s \<Longrightarrow> pending s = v # vs \<Longrightarrow> read s = (w, s') \<Longrightarrow>
      w = v \<and> pending s' = vs \<and> ready s'"
    and read_none: "pending s = [] \<Longrightarrow> read s = (w, s') \<Longrightarrow> w = 0 \<and> s' = s"
begin

lemma notify_all_pending:
  "notify_all notify s vs = (oks, s') \<Longrightarrow>
   length oks = length vs \<and> ready s' = ready s \<and> pending s' = pending s @ map fst (filter snd (zip vs oks))"
proof (induction vs arbitrary: s oks s')
  case (Cons v vs)
  obtain ok s1 where n: "notify s v = (ok, s1)" by (cases "notify s v")
  obtain oks' s2 where a: "notify_all notify s1 vs = (oks', s2)" by (cases "notify_all notify s1 vs")
  have eq: "oks = ok # oks'" "s' = s2" using Cons.prems n a by auto
  show ?case
    using Cons.IH [OF a] n eq notify_ok [of s v s1] notify_failed [of s v s1] by (cases ok) auto
qed simp

lemma read_n_pending:
  "ready s \<Longrightarrow> n \<le> length (pending s) \<Longrightarrow> read_n read n s = (vs, s') \<Longrightarrow>
   vs = take n (pending s) \<and> pending s' = drop n (pending s)"
proof (induction n arbitrary: s vs s')
  case (Suc n)
  obtain v ps where p: "pending s = v # ps" using Suc.prems by (cases "pending s") auto
  obtain w s1 where r: "read s = (w, s1)" by (cases "read s")
  obtain ws s2 where a: "read_n read n s1 = (ws, s2)" by (cases "read_n read n s1")
  show ?case
    using Suc.IH [OF _ _ a] Suc.prems p r a read_first [OF _ p r] by auto
qed simp

text \<open>Requests that were accepted are read back one by one, in the order they were made.\<close>

lemma requests_in_order:
  assumes "ready s" "pending s = []" "notify_all notify s vs = (oks, s')" "list_all id oks"
    and "read_n read (length vs) s' = (ws, s'')"
  shows "ws = vs \<and> pending s'' = []"
proof -
  have len: "length oks = length vs" and rd: "ready s'"
    and pend: "pending s' = map fst (filter snd (zip vs oks))"
    using notify_all_pending [OF assms(3)] assms(1,2) by auto
  have "pending s' = vs"
    unfolding pend using len assms(4) by (induction vs oks rule: list_induct2') auto
  then show ?thesis using read_n_pending [OF rd _ assms(5)] by simp
qed

end

subsection \<open>SelectInterruptPipe\<close>

text \<open>The two descriptors of \<open>_fildes\<close> and the codes in the pipe, oldest first.\<close>

record SelectInterruptPipe =
  fildes_read :: int
  fildes_write :: int
  pipe_data :: "u64 list"
  pipe_capacity :: nat

definition SelectInterruptPipe_new :: "nat \<Rightarrow> SelectInterruptPipe" where
  "SelectInterruptPipe_new cap =
     \<lparr> fildes_read = -1, fildes_write = -1, pipe_data = [], pipe_capacity = cap \<rparr>"

text \<open>What the system answers to \<open>pipe\<close> and to the two \<open>fcntl\<close> calls, and \<open>strerror(errno)\<close>.\<close>

record pipe_os =
  pipe_ret :: "(int \<times> int) option"
  fcntl_read_ok :: bool
  fcntl_write_ok :: bool
  pipe_strerror :: string

definition fcntl_error :: "string \<Rightarrow> string" where
  "fcntl_error e = ''SelectInterruptPipe::init() failed in fcntl(..., O_NONBLOCK) call'' @ '' : '' @ e"

text \<open>The result is the flag, the error message and the object; \<^const>\<open>None\<close> is a failed assertion.\<close>

definition pipe_init :: "pipe_os \<Rightarrow> SelectInterruptPipe \<Rightarrow> (bool \<times> string \<times> SelectInterruptPipe) option" where
  "pipe_init os p =
     (if fildes_read p \<noteq> -1 \<or> fildes_write p \<noteq> -1 then None
      else case pipe_ret os of
        None \<Rightarrow> Some (False, ''SelectInterruptPipe::init() failed in pipe() call'' @ '' : '' @ pipe_strerror os, p)
      | Some (r, w) \<Rightarrow>
          if \<not> fcntl_read_ok os then Some (False, fcntl_error (pipe_strerror os), p\<lparr>fildes_read := -1, fildes_write := -1\<rparr>)
          else if \<not> fcntl_write_ok os then Some (False, fcntl_error (pipe_strerror os), p\<lparr>fildes_read := -1, fildes_write := -1\<rparr>)
          else Some (True, [], p\<lparr>fildes_read := r, fildes_write := w\<rparr>))"

definition pipe_notify :: "SelectInterruptPipe \<Rightarrow> u64 \<Rightarrow> bool \<times> SelectInterruptPipe" where
  "pipe_notify p value =
     (if fildes_write p = -1 then (False, p)
      else if length (pipe_data p) < pipe_capacity p then (True, p\<lparr>pipe_data := pipe_data p @ [value]\<rparr>)
      else (False, p))"

definition pipe_read :: "SelectInterruptPipe \<Rightarrow> u64 \<times> SelectInterruptPipe" where
  "pipe_read p =
     (if fildes_read p = -1 then (0, p)
      else case pipe_data p of [] \<Rightarrow> (0, p) | v # vs \<Rightarrow> (v, p\<lparr>pipe_data := vs\<rparr>))"

definition pipe_clear :: "SelectInterruptPipe \<Rightarrow> bool" where
  "pipe_clear p = True"

definition pipe_getFd :: "SelectInterruptPipe \<Rightarrow> int" where
  "pipe_getFd p = fildes_read p"

definition pipe_ready :: "SelectInterruptPipe \<Rightarrow> bool" where
  "pipe_ready p \<longleftrightarrow> fildes_read p \<noteq> -1"

interpretation pipe: wakeup_channel pipe_notify pipe_read pipe_data pipe_ready
  by unfold_locales
    (auto simp: pipe_notify_def pipe_read_def pipe_ready_def split: if_splits list.splits)

subsection \<open>SelectInterrupt and the factory\<close>

text \<open>The base class, used where there is no pipe: nothing is ever delivered.\<close>

definition base_init :: "unit \<Rightarrow> bool" where
  "base_init s = True"

definition base_notify :: "unit \<Rightarrow> u64 \<Rightarrow> bool \<times> unit" where
  "base_notify s value = (True, s)"

definition base_read :: "unit \<Rightarrow> u64 \<times> unit" where
  "base_read s = (0, s)"

definition base_clear :: "unit \<Rightarrow> bool" where
  "base_clear s = True"

definition base_getFd :: "unit \<Rightarrow> int" where
  "base_getFd s = -1"

datatype select_interrupt_kind = PipeInterrupt | NoInterrupt

definition createSelectInterrupt :: "bool \<Rightarrow> select_interrupt_kind" where
  "createSelectInterrupt linux_or_apple = (if linux_or_apple then PipeInterrupt else NoInterrupt)"

subsection \<open>SelectInterruptEventFd\<close>

text \<open>
  The descriptor and the kernel's counter. A write adds to the counter (and fails, on a
  non-blocking descriptor, when the sum would exceed \<^term>\<open>(2::nat) ^ 64 - 2\<close>); a read returns the
  counter and resets it, and fails when it is zero, which leaves \<open>value\<close> at 0.
\<close>

record SelectInterruptEventFd =
  eventfd :: int
  counter :: u64

definition SelectInterruptEventFd_new :: SelectInterruptEventFd where
  "SelectInterruptEventFd_new = \<lparr> eventfd = -1, counter = 0 \<rparr>"

definition eventfd_init :: "int \<Rightarrow> bool \<Rightarrow> string \<Rightarrow> SelectInterruptEventFd \<Rightarrow> (bool \<times> string \<times> SelectInterruptEventFd) option" where
  "eventfd_init fd fcntl_ok strerr e =
     (if eventfd e \<noteq> -1 then None
      else if fd < 0 then Some (False, ''SelectInterruptEventFd::init() failed in eventfd()'' @ '' : '' @ strerr, e\<lparr>eventfd := -1\<rparr>)
      else if \<not> fcntl_ok then Some (False, ''SelectInterruptEventFd::init() failed in fcntl() call'' @ '' : '' @ strerr, e\<lparr>eventfd := -1\<rparr>)
      else Some (True, [], \<lparr>eventfd = fd, counter = 0\<rparr>))"

definition eventfd_write :: "SelectInterruptEventFd \<Rightarrow> u64 \<Rightarrow> bool \<times> SelectInterruptEventFd" where
  "eventfd_write e value =
     (if unat value + unat (counter e) < 2 ^ 64 - 1 then (True, e\<lparr>counter := counter e + value\<rparr>) else (False, e))"

definition eventfd_notify :: "SelectInterruptEventFd \<Rightarrow> u64 \<Rightarrow> bool \<times> SelectInterruptEventFd" where
  "eventfd_notify e value = (if eventfd e = -1 then (False, e) else eventfd_write e value)"

definition eventfd_read :: "SelectInterruptEventFd \<Rightarrow> u64 \<times> SelectInterruptEventFd" where
  "eventfd_read e = (if eventfd e = -1 then (0, e) else (counter e, e\<lparr>counter := 0\<rparr>))"

definition eventfd_clear :: "SelectInterruptEventFd \<Rightarrow> bool \<times> SelectInterruptEventFd" where
  "eventfd_clear e = (if eventfd e = -1 then (False, e) else eventfd_write e 0)"

definition eventfd_getFd :: "SelectInterruptEventFd \<Rightarrow> int" where
  "eventfd_getFd e = eventfd e"

subsection \<open>Properties\<close>

text \<open>
  A pipe that was initialised delivers every accepted wake-up request, in order and unmerged:
  after any sequence of \<open>notify\<close> calls on a fresh pipe, as many \<open>read\<close> calls return exactly the
  requests whose \<open>notify\<close> returned true, and no request is refused before the pipe is full.
\<close>

theorem pipe_requests_in_order:
  assumes "pipe_init os (SelectInterruptPipe_new cap) = Some (True, msg, p)"
    and "pipe_ret os = Some (r, w)" "r \<noteq> -1" "w \<noteq> -1"
    and "length vs \<le> cap"
    and "notify_all pipe_notify p vs = (oks, p')"
    and "read_n pipe_read (length vs) p' = (ws, p'')"
  shows "list_all id oks \<and> ws = vs \<and> pipe_data p'' = []"
proof -
  have p: "fildes_read p = r" "fildes_write p = w" "pipe_data p = []" "pipe_capacity p = cap"
    using assms(1,2) by (auto simp: pipe_init_def SelectInterruptPipe_new_def split: if_splits)
  have accepted: "list_all id oks"
    if "notify_all pipe_notify q vs = (oks, q')" "fildes_write q \<noteq> -1"
      "length (pipe_data q) + length vs \<le> pipe_capacity q" for q q' oks vs
    using that
  proof (induction vs arbitrary: q oks q')
    case (Cons v vs)
    let ?q = "q\<lparr>pipe_data := pipe_data q @ [v]\<rparr>"
    have n: "pipe_notify q v = (True, ?q)" using Cons.prems by (simp add: pipe_notify_def)
    obtain oks' q2 where a: "notify_all pipe_notify ?q vs = (oks', q2)" by (cases "notify_all pipe_notify ?q vs")
    show ?case using Cons.IH [OF a] Cons.prems n a by auto
  qed auto
  have oks: "list_all id oks" by (rule accepted [OF assms(6)]) (use p assms in auto)
  show ?thesis
    using pipe.requests_in_order [OF _ _ assms(6) oks assms(7)] p assms(3) oks
    by (simp add: pipe_ready_def)
qed

theorem pipe_requests_in_order_witness:
  "let os = \<lparr>pipe_ret = Some (5, 6), fcntl_read_ok = True, fcntl_write_ok = True, pipe_strerror = []\<rparr>;
       p = \<lparr>fildes_read = 5, fildes_write = 6, pipe_data = [], pipe_capacity = 4\<rparr>;
       p' = p\<lparr>pipe_data := [1, 2]\<rparr>
   in pipe_init os (SelectInterruptPipe_new 4) = Some (True, [], p) \<and>
      notify_all pipe_notify p [1, 2] = ([True, True], p') \<and>
      read_n pipe_read 2 p' = ([1, 2], p) \<and>
      list_all id [True, True] \<and> [1, 2] = [1, 2::u64] \<and> pipe_data p = []"
proof -
  let ?os = "\<lparr>pipe_ret = Some (5, 6), fcntl_read_ok = True, fcntl_write_ok = True, pipe_strerror = []\<rparr>"
  let ?p = "\<lparr>fildes_read = 5, fildes_write = 6, pipe_data = [], pipe_capacity = 4\<rparr>"
  let ?p' = "?p\<lparr>pipe_data := [1, 2]\<rparr>"
  have 1: "pipe_init ?os (SelectInterruptPipe_new 4) = Some (True, [], ?p)"
    by (simp add: pipe_init_def SelectInterruptPipe_new_def)
  have 2: "notify_all pipe_notify ?p [1, 2] = ([True, True], ?p')"
    by (simp add: pipe_notify_def)
  have 3: "read_n pipe_read (length [1, 2 :: u64]) ?p' = ([1, 2], ?p)"
    by (simp add: pipe_read_def numeral_2_eq_2)
  show ?thesis
    using pipe_requests_in_order [OF 1 _ _ _ _ 2 3] 1 2 3 by (simp add: numeral_2_eq_2)
qed

text \<open>
  On the eventfd variant two wake-up requests that are not read in between are merged into
  their sum: two send requests (code 1) read back as one close request (code 2).
\<close>

theorem eventfd_merges_requests:
  assumes "eventfd_init fd True strerr SelectInterruptEventFd_new = Some (True, msg, e)"
    and "eventfd_notify e v = (ok1, e1)" "eventfd_notify e1 w = (ok2, e2)"
    and "unat v + unat w < 2 ^ 64 - 1"
  shows "ok1 \<and> ok2 \<and> fst (eventfd_read e2) = v + w \<and> fst (eventfd_read (snd (eventfd_read e2))) = 0"
proof -
  have e: "eventfd e \<noteq> -1" "counter e = 0"
    using assms(1) by (auto simp: eventfd_init_def SelectInterruptEventFd_new_def split: if_splits)
  then show ?thesis
    using assms(2-4) by (auto simp: eventfd_notify_def eventfd_write_def eventfd_read_def ac_simps)
qed

theorem eventfd_merges_requests_witness:
  "let e = \<lparr>eventfd = 7, counter = 0\<rparr>
   in eventfd_init 7 True [] SelectInterruptEventFd_new = Some (True, [], e) \<and>
      eventfd_notify e 1 = (True, e\<lparr>counter := 1\<rparr>) \<and>
      eventfd_notify (e\<lparr>counter := 1\<rparr>) 1 = (True, e\<lparr>counter := 2\<rparr>) \<and>
      fst (eventfd_read (e\<lparr>counter := 2\<rparr>)) = 2"
proof -
  let ?e = "\<lparr>eventfd = 7, counter = 0\<rparr>"
  have 1: "eventfd_init 7 True [] SelectInterruptEventFd_new = Some (True, [], ?e)"
    by (simp add: eventfd_init_def SelectInterruptEventFd_new_def)
  have 2: "eventfd_notify ?e 1 = (True, ?e\<lparr>counter := 1\<rparr>)"
    and 3: "eventfd_notify (?e\<lparr>counter := 1\<rparr>) 1 = (True, ?e\<lparr>counter := 2\<rparr>)"
    by (simp_all add: eventfd_notify_def eventfd_write_def)
  show ?thesis
    using eventfd_merges_requests [OF 1 2 3] 1 2 3 by simp
qed

end
