(* ===== verification/Socket.thy ===== *)
theory Socket
  imports SelectInterrupt "HOL-Library.Monad_Syntax"
begin

section \<open>Sockets, cancellation and the blocking reads and writes\<close>

text \<open>
  \<^verbatim>\<open>IXSocket.cpp\<close>, \<^verbatim>\<open>IXSocket.h\<close> and \<^verbatim>\<open>IXCancellationRequest.cpp\<close>, for plain sockets on Linux. What the
  operating system answers is part of the state: the outcomes of the coming \<open>send\<close>, \<open>recv\<close> and
  \<open>poll\<close> calls are lists the calls consume (an exhausted list means \<open>EAGAIN\<close>, respectively a poll
  that times out), and the bytes \<open>send\<close> took are collected in \<open>wire_out\<close>. \<open>errno\<close> is a field, since
  \<open>isWaitNeeded\<close> reads it also after calls that succeeded. A cancellation callback is a function
  of the number of times it was asked. Loops that may run forever are
  \<open>partial_function (option)\<close>: \<^const>\<open>None\<close> is a call that does not return. The lengths the code
  holds in an \<open>int\<close> are taken to be below \<^term>\<open>(2::nat) ^ 31\<close>.
\<close>

subsection \<open>State\<close>

datatype PollResultType =
  ReadyForRead | ReadyForWrite | Timeout | PollError | SendRequest | CloseRequest

text \<open>\<open>SendAccept n\<close>: the system takes at most \<open>n\<close> bytes. \<open>RecvData []\<close>: end of stream.
  \<open>PollReady r x e\<close>: \<open>r\<close> says whether the requested event is set for the socket, \<open>x\<close> whether
  another one is (error, hang up), \<open>e\<close> is \<open>SO_ERROR\<close>.\<close>

datatype send_os = SendAccept nat | SendFail int
datatype recv_os = RecvData "byte list" | RecvFail int
datatype poll_os = PollFail int | PollReady bool bool int

record socket =
  sockfd :: int
  interrupt :: SelectInterruptPipe
  sys_errno :: int
  sys_sends :: "send_os list"
  sys_recvs :: "recv_os list"
  sys_polls :: "poll_os list"
  wire_out :: "byte list"
  closed_fds :: "int list"
  poll_timeouts :: "int list"
  cancel_queries :: nat
  progress_calls :: "(nat \<times> nat) list"

definition kSendRequest :: u64 where
  "kSendRequest = 1"

definition kCloseRequest :: u64 where
  "kCloseRequest = 2"

definition socket_kChunkSize :: nat where
  "socket_kChunkSize = 32768"

definition EAGAIN :: int where
  "EAGAIN = 11"

definition EBADF :: int where
  "EBADF = 9"

definition EINPROGRESS :: int where
  "EINPROGRESS = 115"

subsection \<open>Cancellation\<close>

text \<open>Times are nanoseconds; \<open>clock k\<close> and \<open>flag k\<close> are the system clock and the atomic flag when
  the request is asked for the \<open>k\<close>-th time.\<close>

definition makeCancellationRequestWithTimeout ::
  "int \<Rightarrow> (nat \<Rightarrow> bool) \<Rightarrow> int \<Rightarrow> (nat \<Rightarrow> int) \<Rightarrow> nat \<Rightarrow> bool" where
  "makeCancellationRequestWithTimeout secs flag start clock k =
     (if flag k then True else if clock k - start > secs * 1000000000 then True else False)"

definition ask :: "(nat \<Rightarrow> bool) \<Rightarrow> socket \<Rightarrow> bool \<times> socket" where
  "ask cancel s = (cancel (cancel_queries s), s\<lparr>cancel_queries := cancel_queries s + 1\<rparr>)"

subsection \<open>System calls\<close>

definition isWaitNeeded :: "socket \<Rightarrow> bool" where
  "isWaitNeeded s = (sys_errno s = EAGAIN \<or> sys_errno s = EINPROGRESS)"

definition socket_send :: "socket \<Rightarrow> byte list \<Rightarrow> int \<times> socket" where
  "socket_send s buffer =
     (if sockfd s = -1 then (-1, s\<lparr>sys_errno := EBADF\<rparr>)
      else case sys_sends s of
        [] \<Rightarrow> (-1, s\<lparr>sys_errno := EAGAIN\<rparr>)
      | SendAccept n # os \<Rightarrow>
          (int (min n (length buffer)), s\<lparr>sys_sends := os, wire_out := wire_out s @ take n buffer\<rparr>)
      | SendFail e # os \<Rightarrow> (-1, s\<lparr>sys_sends := os, sys_errno := e\<rparr>))"

definition socket_recv :: "socket \<Rightarrow> nat \<Rightarrow> int \<times> byte list \<times> socket" where
  "socket_recv s len =
     (if sockfd s = -1 then (-1, [], s\<lparr>sys_errno := EBADF\<rparr>)
      else case sys_recvs s of
        [] \<Rightarrow> (-1, [], s\<lparr>sys_errno := EAGAIN\<rparr>)
      | RecvData bs # os \<Rightarrow>
          if length bs \<le> len then (int (length bs), bs, s\<lparr>sys_recvs := os\<rparr>)
          else (int len, take len bs, s\<lparr>sys_recvs := RecvData (drop len bs) # os\<rparr>)
      | RecvFail e # os \<Rightarrow> (-1, [], s\<lparr>sys_recvs := os, sys_errno := e\<rparr>))"

definition next_poll :: "socket \<Rightarrow> poll_os \<times> socket" where
  "next_poll s = (case sys_polls s of [] \<Rightarrow> (PollReady False False 0, s) | p # os \<Rightarrow> (p, s\<lparr>sys_polls := os\<rparr>))"

subsection \<open>Socket\<close>

definition Socket_new :: "int \<Rightarrow> SelectInterruptPipe \<Rightarrow> socket" where
  "Socket_new fd p = \<lparr> sockfd = fd, interrupt = p, sys_errno = 0, sys_sends = [], sys_recvs = [], sys_polls = [],
     wire_out = [], closed_fds = [], poll_timeouts = [], cancel_queries = 0, progress_calls = [] \<rparr>"

text \<open>The wake-up branch of \<open>poll\<close>: the code that was read decides, any other value leaves the
  initial \<open>ReadyForRead\<close>.\<close>

definition request_result :: "u64 \<Rightarrow> PollResultType" where
  "request_result value =
     (if value = kSendRequest then SendRequest else if value = kCloseRequest then CloseRequest else ReadyForRead)"

definition socket_poll :: "bool \<Rightarrow> int \<Rightarrow> socket \<Rightarrow> PollResultType \<times> socket" where
  "socket_poll readyToRead timeoutMs s0 =
     (case next_poll (s0\<lparr>poll_timeouts := poll_timeouts s0 @ [timeoutMs]\<rparr>) of
        (PollFail e, s) \<Rightarrow> (PollError, s\<lparr>sys_errno := e\<rparr>)
      | (PollReady ready other so_error, s) \<Rightarrow>
          let interruptFd = pipe_getFd (interrupt s);
              woken = (interruptFd \<noteq> -1 \<and> pipe_data (interrupt s) \<noteq> [])
          in if \<not> ready \<and> \<not> other \<and> \<not> woken then (Timeout, s)
             else if woken then
               (case pipe_read (interrupt s) of (value, p) \<Rightarrow> (request_result value, s\<lparr>interrupt := p\<rparr>))
             else if readyToRead \<and> ready then (ReadyForRead, s)
             else if \<not> readyToRead \<and> ready then
               (if so_error \<noteq> 0 then (PollError, s\<lparr>sys_errno := so_error\<rparr>) else (ReadyForWrite, s))
             else (ReadyForRead, s))"

definition isReadyToRead :: "int \<Rightarrow> socket \<Rightarrow> PollResultType \<times> socket" where
  "isReadyToRead timeoutMs s = (if sockfd s = -1 then (PollError, s) else socket_poll True timeoutMs s)"

definition isReadyToWrite :: "int \<Rightarrow> socket \<Rightarrow> PollResultType \<times> socket" where
  "isReadyToWrite timeoutMs s = (if sockfd s = -1 then (PollError, s) else socket_poll False timeoutMs s)"

definition wakeUpFromPoll :: "u64 \<Rightarrow> socket \<Rightarrow> bool \<times> socket" where
  "wakeUpFromPoll wakeUpCode s =
     (case pipe_notify (interrupt s) wakeUpCode of (ok, p) \<Rightarrow> (ok, s\<lparr>interrupt := p\<rparr>))"

definition socket_close :: "socket \<Rightarrow> socket" where
  "socket_close s =
     (if sockfd s = -1 then s else s\<lparr>closed_fds := closed_fds s @ [sockfd s], sockfd := -1\<rparr>)"

definition socket_init :: "pipe_os \<Rightarrow> socket \<Rightarrow> (bool \<times> string \<times> socket) option" where
  "socket_init os s = map_option (\<lambda>(ok, msg, p). (ok, msg, s\<lparr>interrupt := p\<rparr>)) (pipe_init os (interrupt s))"

subsection \<open>Blocking, cancellable transfers\<close>

partial_function (option) writeBytes_loop :: "(nat \<Rightarrow> bool) \<Rightarrow> byte list \<Rightarrow> socket \<Rightarrow> (bool \<times> socket) option" where
  "writeBytes_loop cancel rest s0 =
     (case ask cancel s0 of (c, s) \<Rightarrow>
        if c then Some (False, s)
        else case socket_send s rest of (ret, s1) \<Rightarrow>
          if 0 < ret then
            (if ret = int (length rest) then Some (True, s1) else writeBytes_loop cancel (drop (nat ret) rest) s1)
          else if ret < 0 \<and> isWaitNeeded s1 then writeBytes_loop cancel rest s1
          else Some (False, s1))"

definition writeBytes :: "(nat \<Rightarrow> bool) \<Rightarrow> string \<Rightarrow> socket \<Rightarrow> (bool \<times> socket) option" where
  "writeBytes cancel str s = writeBytes_loop cancel (bytes_of str) s"

partial_function (option) readByte :: "(nat \<Rightarrow> bool) \<Rightarrow> socket \<Rightarrow> (char option \<times> socket) option" where
  "readByte cancel s0 =
     (case ask cancel s0 of (c, s) \<Rightarrow>
        if c then Some (None, s)
        else case socket_recv s 1 of (ret, bs, s1) \<Rightarrow>
          if ret = 1 then Some (Some (char_of_byte (hd bs)), s1)
          else if ret < 0 \<and> isWaitNeeded s1 then
            (case isReadyToRead 1 s1 of (r, s2) \<Rightarrow> if r = PollError then Some (None, s2) else readByte cancel s2)
          else Some (None, s1))"

definition line_complete :: "string \<Rightarrow> bool" where
  "line_complete line =
     (let i = length line in \<not> (i < 2 \<or> (line ! (i - 2) \<noteq> CR \<and> line ! (i - 1) \<noteq> LF)))"

partial_function (option) readLine_loop :: "(nat \<Rightarrow> bool) \<Rightarrow> string \<Rightarrow> socket \<Rightarrow> (bool \<times> string \<times> socket) option" where
  "readLine_loop cancel line s =
     (if line_complete line then Some (True, line, s)
      else Option.bind (readByte cancel s) (\<lambda>(c, s1).
        case c of None \<Rightarrow> Some (False, line, s1) | Some ch \<Rightarrow> readLine_loop cancel (line @ [ch]) s1))"

definition readLine :: "(nat \<Rightarrow> bool) \<Rightarrow> socket \<Rightarrow> (bool \<times> string \<times> socket) option" where
  "readLine cancel s = readLine_loop cancel [] s"

text \<open>\<open>readBytes\<close> appends the range from the buffer's start to \<open>ret\<close> places further also when
  \<open>ret\<close> is -1: an invalid range, \<open>ReadFault\<close>.\<close>

datatype read_result = ReadOk string | ReadFailed | ReadFault

partial_function (option) readBytes_loop :: "nat \<Rightarrow> (nat \<Rightarrow> bool) \<Rightarrow> byte list \<Rightarrow> socket \<Rightarrow> (read_result \<times> socket) option" where
  "readBytes_loop len cancel out s0 =
     (if length out = len then Some (ReadOk (string_of_bytes out), s0)
      else case ask cancel s0 of (c, s) \<Rightarrow>
        if c then Some (ReadFailed, s)
        else case socket_recv s (min socket_kChunkSize (len - length out)) of (ret, bs, s1) \<Rightarrow>
          if ret \<le> 0 \<and> \<not> isWaitNeeded s1 then Some (ReadFailed, s1)
          else if ret < 0 then Some (ReadFault, s1)
          else let out' = out @ bs;
                   s2 = s1\<lparr>progress_calls := progress_calls s1 @ [(length out', len)]\<rparr>
               in case isReadyToRead 1 s2 of (r, s3) \<Rightarrow>
                 if r = PollError then Some (ReadFailed, s3) else readBytes_loop len cancel out' s3)"

definition readBytes :: "nat \<Rightarrow> (nat \<Rightarrow> bool) \<Rightarrow> socket \<Rightarrow> (read_result \<times> socket) option" where
  "readBytes len cancel s = readBytes_loop len cancel [] s"

subsection \<open>What the calls leave alone\<close>

lemma ask_simps [simp]:
  "fst (ask cancel s) = cancel (cancel_queries s)"
  "cancel_queries (snd (ask cancel s)) = Suc (cancel_queries s)"
  by (simp_all add: ask_def)

lemma send_frame [frame_rules]:
  assumes "socket_send s buf = (ret, s')"
  shows "cancel_queries s' = cancel_queries s" "sockfd s' = sockfd s" "sys_recvs s' = sys_recvs s"
    "interrupt s' = interrupt s" "sys_polls s' = sys_polls s"
  using assms by (auto simp: socket_send_def split: if_splits list.splits send_os.splits)

lemma recv_frame [frame_rules]:
  assumes "socket_recv s n = (ret, bs, s')"
  shows "cancel_queries s' = cancel_queries s" "sockfd s' = sockfd s" "wire_out s' = wire_out s"
    "interrupt s' = interrupt s" "sys_polls s' = sys_polls s" "sys_sends s' = sys_sends s"
  using assms by (auto simp: socket_recv_def split: if_splits list.splits recv_os.splits)

lemma socket_poll_frame:
  assumes "socket_poll b t s = (r, s')"
  shows "cancel_queries s' = cancel_queries s" "sockfd s' = sockfd s" "wire_out s' = wire_out s"
    "sys_recvs s' = sys_recvs s" "sys_sends s' = sys_sends s" "set (sys_polls s') \<subseteq> set (sys_polls s)"
    "closed_fds s' = closed_fds s"
  using assms
  by (auto simp: socket_poll_def next_poll_def Let_def split: if_splits list.splits poll_os.splits prod.splits)

lemma isReadyToRead_frame [frame_rules]:
  assumes "isReadyToRead t s = (r, s')"
  shows "cancel_queries s' = cancel_queries s" "sockfd s' = sockfd s" "wire_out s' = wire_out s"
    "sys_recvs s' = sys_recvs s" "sys_sends s' = sys_sends s" "set (sys_polls s') \<subseteq> set (sys_polls s)"
    "closed_fds s' = closed_fds s"
  using assms socket_poll_frame [of True t s r s'] by (auto simp: isReadyToRead_def split: if_splits)

lemma isReadyToWrite_frame [frame_rules]:
  assumes "isReadyToWrite t s = (r, s')"
  shows "cancel_queries s' = cancel_queries s" "sockfd s' = sockfd s" "wire_out s' = wire_out s"
    "sys_recvs s' = sys_recvs s" "sys_sends s' = sys_sends s" "set (sys_polls s') \<subseteq> set (sys_polls s)"
    "closed_fds s' = closed_fds s"
  using assms socket_poll_frame [of False t s r s'] by (auto simp: isReadyToWrite_def split: if_splits)

subsection \<open>Termination under cancellation\<close>

text \<open>Every iteration asks for cancellation once, so the number of queries left until the request
  is granted bounds the loop.\<close>

lemma writeBytes_loop_returns:
  assumes "cancel n" "cancel_queries s \<le> n"
  shows "\<exists>r. writeBytes_loop cancel rest s = Some r"
  using assms(2)
proof (induction "n - cancel_queries s" arbitrary: s rest rule: less_induct)
  case less
  show ?case
  proof (cases "cancel (cancel_queries s)")
    case True
    then show ?thesis by (subst writeBytes_loop.simps) (auto simp: ask_def)
  next
    case False
    then have lt: "cancel_queries s < n" using assms(1) less.prems by (metis le_neq_implies_less)
    obtain ret s1 where snd: "socket_send (snd (ask cancel s)) rest = (ret, s1)"
      by (cases "socket_send (snd (ask cancel s)) rest")
    have q: "cancel_queries s1 = Suc (cancel_queries s)" using send_frame(1) [OF snd] by simp
    have rec: "\<exists>r. writeBytes_loop cancel rest' s1 = Some r" for rest'
      by (rule less.hyps) (use q lt in auto)
    show ?thesis
      by (subst writeBytes_loop.simps) (use rec False snd in \<open>auto simp: split_beta\<close>)
  qed
qed

lemma readByte_returns:
  assumes "cancel n" "cancel_queries s \<le> n"
  shows "\<exists>r s'. readByte cancel s = Some (r, s') \<and> cancel_queries s < cancel_queries s' \<and>
    (r \<noteq> None \<longrightarrow> cancel_queries s' \<le> n)"
  using assms(2)
proof (induction "n - cancel_queries s" arbitrary: s rule: less_induct)
  case less
  show ?case
  proof (cases "cancel (cancel_queries s)")
    case True
    then show ?thesis by (subst readByte.simps) (auto simp: ask_def)
  next
    case False
    then have lt: "cancel_queries s < n" using assms(1) less.prems by (metis le_neq_implies_less)
    obtain ret bs s1 where rcv: "socket_recv (snd (ask cancel s)) 1 = (ret, bs, s1)"
      by (cases "socket_recv (snd (ask cancel s)) 1")
    obtain r s2 where rdy: "isReadyToRead 1 s1 = (r, s2)" by (cases "isReadyToRead 1 s1")
    have q: "cancel_queries s1 = Suc (cancel_queries s)" "cancel_queries s2 = Suc (cancel_queries s)"
      using recv_frame(1) [OF rcv] isReadyToRead_frame(1) [OF rdy] by simp_all
    have rec: "\<exists>r s'. readByte cancel s2 = Some (r, s') \<and> cancel_queries s2 < cancel_queries s' \<and>
      (r \<noteq> None \<longrightarrow> cancel_queries s' \<le> n)"
      by (rule less.hyps) (use q lt in auto)
    show ?thesis
      by (subst readByte.simps) (use rec False rcv rdy q lt in \<open>auto simp: split_beta\<close>)
  qed
qed

lemma readLine_loop_returns:
  assumes "cancel n" "cancel_queries s \<le> n"
  shows "\<exists>r. readLine_loop cancel line s = Some r"
  using assms(2)
proof (induction "n - cancel_queries s" arbitrary: s line rule: less_induct)
  case less
  obtain c s1 where rd: "readByte cancel s = Some (c, s1)" "cancel_queries s < cancel_queries s1"
    "c \<noteq> None \<longrightarrow> cancel_queries s1 \<le> n"
    using readByte_returns [of cancel n s] assms(1) less.prems by auto
  show ?case
  proof (cases c)
    case None
    then show ?thesis by (subst readLine_loop.simps) (use rd in auto)
  next
    case (Some ch)
    have "\<exists>r. readLine_loop cancel (line @ [ch]) s1 = Some r"
      by (rule less.hyps) (use rd Some less.prems in auto)
    then show ?thesis by (subst readLine_loop.simps) (use rd Some in auto)
  qed
qed

lemma readBytes_loop_returns:
  assumes "cancel n" "cancel_queries s \<le> n"
  shows "\<exists>r. readBytes_loop len cancel out s = Some r"
  using assms(2)
proof (induction "n - cancel_queries s" arbitrary: s out rule: less_induct)
  case less
  show ?case
  proof (cases "cancel (cancel_queries s)")
    case True
    then show ?thesis by (subst readBytes_loop.simps) (auto simp: ask_def)
  next
    case False
    then have lt: "cancel_queries s < n" using assms(1) less.prems by (metis le_neq_implies_less)
    let ?k = "min socket_kChunkSize (len - length out)"
    obtain ret bs s1 where rcv: "socket_recv (snd (ask cancel s)) ?k = (ret, bs, s1)"
      by (cases "socket_recv (snd (ask cancel s)) ?k")
    let ?s2 = "s1\<lparr>progress_calls := progress_calls s1 @ [(length (out @ bs), len)]\<rparr>"
    obtain r s3 where rdy: "isReadyToRead 1 ?s2 = (r, s3)" by (cases "isReadyToRead 1 ?s2")
    have q: "cancel_queries s3 = Suc (cancel_queries s)"
      using recv_frame(1) [OF rcv] isReadyToRead_frame(1) [OF rdy] by simp
    have rec: "\<exists>r. readBytes_loop len cancel (out @ bs) s3 = Some r"
      by (rule less.hyps) (use q lt in auto)
    show ?thesis
      by (subst readBytes_loop.simps) (use rec False rcv rdy in \<open>auto simp: split_beta Let_def\<close>)
  qed
qed

text \<open>
  C30. The blocking transfers used during the HTTP upgrade always return when they are given a
  cancellation request with a timeout: as soon as one of the coming queries is made later than
  \<open>secs\<close> seconds after the request was created, or with the cancellation flag set, \<open>writeBytes\<close>,
  \<open>readByte\<close>, \<open>readLine\<close> and \<open>readBytes\<close> all return, whatever the peer and the system do.
\<close>

theorem transfers_return_at_timeout:
  assumes "cancel_queries s \<le> k"
    and "flag k \<or> clock k - start > secs * 1000000000"
    and "cancel = makeCancellationRequestWithTimeout secs flag start clock"
  shows "(\<exists>r. writeBytes cancel str s = Some r) \<and> (\<exists>r. readByte cancel s = Some r) \<and>
         (\<exists>r. readLine cancel s = Some r) \<and> (\<exists>r. readBytes len cancel s = Some r)"
proof -
  have c: "cancel k" using assms(2,3) by (auto simp: makeCancellationRequestWithTimeout_def)
  show ?thesis
    unfolding writeBytes_def readLine_def readBytes_def
    using c assms(1) writeBytes_loop_returns [of cancel k s] readByte_returns [of cancel k s]
      readLine_loop_returns [of cancel k s] readBytes_loop_returns [of cancel k s] by blast
qed

theorem transfers_return_at_timeout_witness:
  "let s = Socket_new 3 (SelectInterruptPipe_new 8);
       cancel = makeCancellationRequestWithTimeout 5 (\<lambda>_. False) 0 (\<lambda>k. int k * 1000000000)
   in (\<exists>r. writeBytes cancel ''GET'' s = Some r) \<and> (\<exists>r. readByte cancel s = Some r) \<and>
      (\<exists>r. readLine cancel s = Some r) \<and> (\<exists>r. readBytes 10 cancel s = Some r)"
  unfolding Let_def
  by (rule transfers_return_at_timeout [where k = 6 and flag = "\<lambda>_. False" and start = 0
        and clock = "\<lambda>k. int k * 1000000000" and secs = 5]) (simp_all add: Socket_new_def)

subsection \<open>Writing\<close>

lemma socket_send_effect:
  assumes "socket_send s buf = (ret, s')"
  shows "ret \<le> int (length buf) \<and> wire_out s' = wire_out s @ take (nat ret) buf"
  using assms by (auto simp: socket_send_def min_def split: if_splits list.splits send_os.splits)

lemma writeBytes_loop_effect:
  assumes "writeBytes_loop cancel rest s = Some y"
  shows "\<exists>k \<le> length rest. wire_out (snd y) = wire_out s @ take k rest \<and> (fst y \<longrightarrow> k = length rest)"
proof (rule writeBytes_loop.raw_induct [OF _ assms, where P = "\<lambda>cancel rest s y. \<exists>k \<le> length rest.
    wire_out (snd y) = wire_out s @ take k rest \<and> (fst y \<longrightarrow> k = length rest)"])
  fix loop :: "(nat \<Rightarrow> bool) \<Rightarrow> byte list \<Rightarrow> socket \<Rightarrow> (bool \<times> socket) option"
  fix cancel :: "nat \<Rightarrow> bool" and rest s y
  let ?Q = "\<lambda>rest s y. \<exists>k \<le> length rest. wire_out (snd y) = wire_out s @ take k rest \<and> (fst y \<longrightarrow> k = length rest)"
  assume rec: "\<And>cancel rest s y. loop cancel rest s = Some y \<Longrightarrow> ?Q rest s y"
  assume body: "(case ask cancel s of (c, s) \<Rightarrow> if c then Some (False, s)
       else case socket_send s rest of (ret, s1) \<Rightarrow>
         if 0 < ret then
           (if ret = int (length rest) then Some (True, s1) else loop cancel (drop (nat ret) rest) s1)
         else if ret < 0 \<and> isWaitNeeded s1 then loop cancel rest s1
         else Some (False, s1)) = Some y"
  obtain ret s1 where snd: "socket_send (snd (ask cancel s)) rest = (ret, s1)"
    by (cases "socket_send (snd (ask cancel s)) rest")
  have eff: "ret \<le> int (length rest)" "wire_out s1 = wire_out s @ take (nat ret) rest"
    using socket_send_effect [OF snd] by (simp_all add: ask_def)
  have "(if cancel (cancel_queries s) then Some (False, snd (ask cancel s))
     else if 0 < ret then
       (if ret = int (length rest) then Some (True, s1) else loop cancel (drop (nat ret) rest) s1)
     else if ret < 0 \<and> isWaitNeeded s1 then loop cancel rest s1 else Some (False, s1)) = Some y"
    using body by (simp only: split_beta snd ask_simps fst_conv snd_conv)
  then consider "y = (False, snd (ask cancel s))" | "0 < ret" "ret = int (length rest)" "y = (True, s1)"
    | "0 < ret" "loop cancel (drop (nat ret) rest) s1 = Some y" | "ret < 0" "loop cancel rest s1 = Some y"
    | "ret \<le> 0" "y = (False, s1)"
    by (metis not_less option.inject)
  then show "?Q rest s y"
  proof cases
    case 3
    obtain k where "k \<le> length rest - nat ret" "wire_out (snd y) = wire_out s1 @ take k (drop (nat ret) rest)"
      "fst y \<longrightarrow> k = length rest - nat ret"
      using rec [OF 3(2)] by auto
    then show ?thesis
      using eff by (intro exI [of _ "nat ret + k"]) (auto simp: take_add)
  next
    case 4
    then show ?thesis using rec [OF 4(2)] eff by simp
  qed (use eff in \<open>auto simp: ask_def\<close>)
qed

text \<open>
  \<open>writeBytes\<close> puts the string on the wire in order: whatever the sizes the system accepts per
  call, the bytes sent are a prefix of the string, and all of it when the call reports success.
\<close>

theorem writeBytes_sends_prefix:
  assumes "writeBytes cancel str s = Some (ok, s')"
  shows "\<exists>k \<le> length str. wire_out s' = wire_out s @ bytes_of (take k str) \<and> (ok \<longrightarrow> k = length str)"
  using writeBytes_loop_effect [OF assms [unfolded writeBytes_def]]
  by (auto simp: bytes_of_def take_map)

theorem writeBytes_sends_prefix_witness:
  "let s = (Socket_new 3 (SelectInterruptPipe_new 8))\<lparr>sys_sends := [SendAccept 2, SendFail EAGAIN, SendAccept 9]\<rparr>
   in \<exists>s'. writeBytes (\<lambda>_. False) ''GET /'' s = Some (True, s') \<and>
        (\<exists>k \<le> 5. wire_out s' = bytes_of (take k ''GET /'') \<and> k = 5)"
proof -
  let ?s = "(Socket_new 3 (SelectInterruptPipe_new 8))\<lparr>sys_sends := [SendAccept 2, SendFail EAGAIN, SendAccept 9]\<rparr>"
  have "\<exists>s'. writeBytes (\<lambda>_. False) ''GET /'' ?s = Some (True, s')"
    unfolding writeBytes_def
    by (simp add: writeBytes_loop.simps ask_def Socket_new_def socket_send_def isWaitNeeded_def bytes_of_def)
  then obtain s' where s': "writeBytes (\<lambda>_. False) ''GET /'' ?s = Some (True, s')" by blast
  show ?thesis
    using writeBytes_sends_prefix [OF s'] s' by (simp add: Socket_new_def)
qed

subsection \<open>Reading\<close>

text \<open>The bytes a receive script delivers before the stream ends or fails, and scripts without
  \<open>EAGAIN\<close>.\<close>

fun arriving :: "recv_os list \<Rightarrow> byte list" where
  "arriving [] = []"
| "arriving (RecvData bs # os) = (if bs = [] then [] else bs @ arriving os)"
| "arriving (RecvFail e # os) = (if e = EAGAIN \<or> e = EINPROGRESS then arriving os else [])"

definition no_poll_failure :: "socket \<Rightarrow> bool" where
  "no_poll_failure s = list_all (\<lambda>p. case p of PollFail e \<Rightarrow> False | _ \<Rightarrow> True) (sys_polls s)"

definition same_endpoint :: "socket \<Rightarrow> socket \<Rightarrow> bool" where
  "same_endpoint s s' \<longleftrightarrow> sockfd s' = sockfd s \<and> wire_out s' = wire_out s \<and> sys_sends s' = sys_sends s \<and>
     (no_poll_failure s \<longrightarrow> no_poll_failure s')"

lemma same_endpoint_refl [simp]: "same_endpoint s s"
  by (simp add: same_endpoint_def)

lemma same_endpoint_trans: "same_endpoint s s' \<Longrightarrow> same_endpoint s' s'' \<Longrightarrow> same_endpoint s s''"
  by (auto simp: same_endpoint_def)

lemma ask_endpoint [simp]: "same_endpoint s (snd (ask cancel s))" "sys_recvs (snd (ask cancel s)) = sys_recvs s"
  by (simp_all add: same_endpoint_def no_poll_failure_def ask_def)

lemma isReadyToRead_no_failure:
  assumes "sockfd s \<noteq> -1" "no_poll_failure s" "isReadyToRead t s = (r, s')"
  shows "r \<noteq> PollError"
proof -
  have np: "\<And>p. p \<in> set (sys_polls s) \<Longrightarrow> \<exists>a b c. p = PollReady a b c"
    using assms(2) by (auto simp: no_poll_failure_def list_all_iff split: poll_os.splits)
      (metis poll_os.exhaust)
  show ?thesis
    using assms np
    by (auto simp: isReadyToRead_def socket_poll_def next_poll_def Let_def request_result_def
      split: if_splits list.splits poll_os.splits prod.splits)
qed

lemma isReadyToRead_endpoint: "isReadyToRead t s = (r, s') \<Longrightarrow> same_endpoint s s' \<and> sys_recvs s' = sys_recvs s"
  using isReadyToRead_frame [of t s r s']
  by (auto simp: same_endpoint_def no_poll_failure_def list_all_iff)

lemma recv_data:
  assumes "sockfd s \<noteq> -1" "sys_recvs s = RecvData bs # os" "bs \<noteq> []" "0 < n"
  shows "\<exists>s'. socket_recv s n = (int (min n (length bs)), take n bs, s') \<and> same_endpoint s s' \<and>
    arriving (sys_recvs s') = drop n bs @ arriving os"
  using assms by (auto simp: socket_recv_def same_endpoint_def no_poll_failure_def min_def)

lemma readByte_arriving:
  assumes "sockfd s \<noteq> -1" "no_poll_failure s" "\<And>k. \<not> cancel k" "arriving (sys_recvs s) = b # bs"
  shows "\<exists>s'. readByte cancel s = Some (Some (char_of_byte b), s') \<and> same_endpoint s s' \<and> arriving (sys_recvs s') = bs"
  using assms(1,2,4)
proof (induction "length (sys_recvs s)" arbitrary: s rule: less_induct)
  case less
  let ?s = "snd (ask cancel s)"
  have fd: "sockfd ?s \<noteq> -1" using less.prems by (simp add: ask_def)
  obtain o1 os where rs: "sys_recvs s = o1 # os" using less.prems by (cases "sys_recvs s") auto
  show ?case
  proof (cases o1)
    case (RecvData ds)
    then obtain ds' where ds: "ds = b # ds'" "bs = ds' @ arriving os"
      using less.prems(3) rs by (cases ds) auto
    obtain s' where s': "socket_recv ?s 1 = (1, [b], s')" "same_endpoint ?s s'" "arriving (sys_recvs s') = bs"
      using recv_data [OF fd, of ds os 1] rs RecvData ds by auto
    then show ?thesis
      using assms(3) same_endpoint_trans [OF ask_endpoint(1) s'(2)]
      by (subst readByte.simps) (simp add: split_beta)
  next
    case (RecvFail e)
    then have e: "e = EAGAIN \<or> e = EINPROGRESS" and arr: "arriving os = b # bs"
      using less.prems(3) rs by (auto split: if_splits)
    let ?s1 = "?s\<lparr>sys_recvs := os, sys_errno := e\<rparr>"
    have rcv: "socket_recv ?s 1 = (-1, [], ?s1)"
      using fd rs RecvFail by (simp add: socket_recv_def)
    have ep1: "same_endpoint s ?s1"
      using ask_endpoint(1) [of s cancel] by (auto simp: same_endpoint_def no_poll_failure_def)
    obtain r s2 where rdy: "isReadyToRead 1 ?s1 = (r, s2)" by (cases "isReadyToRead 1 ?s1")
    have ep2: "same_endpoint ?s1 s2" "sys_recvs s2 = os" using isReadyToRead_endpoint [OF rdy] by simp_all
    have ep: "same_endpoint s s2" by (rule same_endpoint_trans [OF ep1 ep2(1)])
    have ok: "r \<noteq> PollError"
      by (rule isReadyToRead_no_failure [OF _ _ rdy]) (use ep1 less.prems in \<open>auto simp: same_endpoint_def\<close>)
    have "\<exists>s'. readByte cancel s2 = Some (Some (char_of_byte b), s') \<and> same_endpoint s2 s' \<and> arriving (sys_recvs s') = bs"
      by (rule less.hyps) (use ep ep2 rs arr less.prems in \<open>auto simp: same_endpoint_def\<close>)
    then show ?thesis
      using assms(3) rcv rdy ok e same_endpoint_trans [OF ep]
      by (subst readByte.simps) (auto simp: split_beta isWaitNeeded_def)
  qed
qed

lemma readLine_loop_arriving:
  assumes "sockfd s \<noteq> -1" "no_poll_failure s" "\<And>k. \<not> cancel k"
    and "arriving (sys_recvs s) = bytes_of todo @ rest"
    and "line_complete (line @ todo)"
    and "\<And>k. k < length todo \<Longrightarrow> \<not> line_complete (line @ take k todo)"
  shows "\<exists>s'. readLine_loop cancel line s = Some (True, line @ todo, s') \<and> same_endpoint s s' \<and>
    arriving (sys_recvs s') = rest"
  using assms(1,2,4-6)
proof (induction todo arbitrary: s line)
  case Nil
  then show ?case by (subst readLine_loop.simps) (simp add: bytes_of_def)
next
  case (Cons c todo)
  have nc: "\<not> line_complete line" using Cons.prems(5) [of 0] by simp
  have "arriving (sys_recvs s) = byte_of_char c # bytes_of todo @ rest"
    using Cons.prems(3) by (simp add: bytes_of_def)
  then obtain s1 where s1: "readByte cancel s = Some (Some c, s1)" "same_endpoint s s1"
    "arriving (sys_recvs s1) = bytes_of todo @ rest"
    using readByte_arriving [OF Cons.prems(1,2) assms(3)] by fastforce
  have "\<exists>s'. readLine_loop cancel (line @ [c]) s1 = Some (True, (line @ [c]) @ todo, s') \<and>
    same_endpoint s1 s' \<and> arriving (sys_recvs s') = rest"
  proof (rule Cons.IH)
    show "sockfd s1 \<noteq> -1" "no_poll_failure s1" using s1(2) Cons.prems by (auto simp: same_endpoint_def)
    show "\<not> line_complete ((line @ [c]) @ take k todo)" if "k < length todo" for k
      using Cons.prems(5) [of "Suc k"] that by simp
  qed (use s1 Cons.prems in auto)
  then show ?case
    using nc s1 same_endpoint_trans [OF s1(2)] by (subst readLine_loop.simps) auto
qed

lemma not_complete_before_CR:
  assumes "CR \<notin> set line" "LF \<notin> set line"
  shows "\<not> line_complete line" "\<not> line_complete (line @ [CR])"
proof -
  show "\<not> line_complete line"
  proof
    assume c: "line_complete line"
    then have "2 \<le> length line" by (simp add: line_complete_def Let_def not_less)
    then have "line ! (length line - 2) \<in> set line" "line ! (length line - 1) \<in> set line"
      by (simp_all add: nth_mem)
    then show False using assms c by (auto simp: line_complete_def Let_def)
  qed
  show "\<not> line_complete (line @ [CR])"
  proof (cases "line = []")
    case True
    then show ?thesis by (simp add: line_complete_def)
  next
    case False
    then have "last line \<noteq> CR" using assms(1) last_in_set by metis
    then have "line ! (length line - Suc 0) \<noteq> CR" using False by (simp add: last_conv_nth)
    then show ?thesis
      using False by (auto simp: line_complete_def Let_def nth_append CR_def LF_def)
  qed
qed

text \<open>
  \<open>readLine\<close> returns the next line, terminator included, and leaves what follows in the
  stream, however the line is cut into segments and however often the socket has to be waited for.
\<close>

theorem readLine_next_line:
  assumes "sockfd s \<noteq> -1" "no_poll_failure s"
    and "CR \<notin> set line" "LF \<notin> set line"
    and "arriving (sys_recvs s) = bytes_of (line @ CRLF) @ rest"
  shows "\<exists>s'. readLine (\<lambda>_. False) s = Some (True, line @ CRLF, s') \<and> arriving (sys_recvs s') = rest \<and>
    wire_out s' = wire_out s \<and> sockfd s' = sockfd s"
proof -
  have "\<exists>s'. readLine_loop (\<lambda>_. False) [] s = Some (True, [] @ (line @ CRLF), s') \<and> same_endpoint s s' \<and>
    arriving (sys_recvs s') = rest"
  proof (rule readLine_loop_arriving)
    show "line_complete ([] @ line @ CRLF)"
      by (simp add: line_complete_def Let_def nth_append CRLF_def)
    show "\<not> line_complete ([] @ take k (line @ CRLF))" if "k < length (line @ CRLF)" for k
    proof (cases "k \<le> length line")
      case True
      have "set (take k line) \<subseteq> set line" by (rule set_take_subset)
      then show ?thesis using True assms not_complete_before_CR(1) [of "take k line"] by auto
    next
      case False
      then have "take k (line @ CRLF) = line @ [CR]" using that by (simp add: CRLF_def take_Cons' not_le)
      then show ?thesis using not_complete_before_CR(2) assms by simp
    qed
  qed (use assms in auto)
  then show ?thesis by (auto simp: readLine_def same_endpoint_def)
qed

theorem readLine_next_line_witness:
  "let s = (Socket_new 3 (SelectInterruptPipe_new 8))\<lparr>sys_recvs :=
         [RecvData (bytes_of ''GET''), RecvFail EAGAIN, RecvData (bytes_of ('' / HTTP/1.1'' @ [CR])),
          RecvData (bytes_of ([LF] @ ''Host''))]\<rparr>
   in \<exists>s'. readLine (\<lambda>_. False) s = Some (True, ''GET / HTTP/1.1'' @ CRLF, s') \<and>
        arriving (sys_recvs s') = bytes_of ''Host''"
proof -
  let ?s = "(Socket_new 3 (SelectInterruptPipe_new 8))\<lparr>sys_recvs :=
         [RecvData (bytes_of ''GET''), RecvFail EAGAIN, RecvData (bytes_of ('' / HTTP/1.1'' @ [CR])),
          RecvData (bytes_of ([LF] @ ''Host''))]\<rparr>"
  have a: "arriving (sys_recvs ?s) = bytes_of (''GET / HTTP/1.1'' @ CRLF) @ bytes_of ''Host''"
    by (simp add: bytes_of_def CRLF_def)
  have s: "sockfd ?s \<noteq> -1" "no_poll_failure ?s" by (simp_all add: Socket_new_def no_poll_failure_def)
  show ?thesis
    using readLine_next_line [OF s _ _ a] by (auto simp: CR_def LF_def)
qed

lemma readBytes_loop_data:
  assumes "sockfd s \<noteq> -1" "no_poll_failure s" "\<And>k. \<not> cancel k"
    and "\<And>e. RecvFail e \<notin> set (sys_recvs s)"
    and "arriving (sys_recvs s) = data @ rest" "len = length out + length data"
  shows "\<exists>s'. readBytes_loop len cancel out s = Some (ReadOk (string_of_bytes (out @ data)), s') \<and>
    same_endpoint s s' \<and> arriving (sys_recvs s') = rest"
  using assms(1,2,4-6)
proof (induction "length data" arbitrary: s out data rule: less_induct)
  case less
  show ?case
  proof (cases "data = []")
    case True
    then show ?thesis using less.prems by (subst readBytes_loop.simps) simp
  next
    case False
    let ?s = "snd (ask cancel s)" and ?k = "min socket_kChunkSize (len - length out)"
    have k: "0 < ?k" "?k \<le> length data" using False less.prems by (auto simp: socket_kChunkSize_def)
    have fd: "sockfd ?s \<noteq> -1" using less.prems by (simp add: ask_def)
    obtain ds os where rs: "sys_recvs s = RecvData ds # os" "ds \<noteq> []" "ds @ arriving os = data @ rest"
    proof (cases "sys_recvs s")
      case Nil
      then show ?thesis using less.prems(4) False by simp
    next
      case (Cons o1 os)
      then show ?thesis using less.prems(3,4) False that by (cases o1) (auto split: if_splits)
    qed
    let ?n = "min ?k (length ds)"
    obtain s1 where rcv: "socket_recv ?s ?k = (int ?n, take ?k ds, s1)" and ep1: "same_endpoint ?s s1"
      and arr: "arriving (sys_recvs s1) = drop ?k ds @ arriving os"
      using recv_data [OF fd, of ds os ?k] rs k(1) by auto
    have n: "0 < ?n" "?n \<le> length data" using k rs(2) by auto
    have nofail: "\<And>e. RecvFail e \<notin> set (sys_recvs s1)"
      using less.prems(3) rs rcv fd by (auto simp: socket_recv_def split: if_splits)
    have tk: "take ?k ds = take ?n data"
      using arg_cong [OF rs(3), of "take ?n"] n by (simp add: min_def split: if_splits)
    have dr: "drop ?k ds @ arriving os = drop ?n data @ rest"
      using arg_cong [OF rs(3), of "drop ?n"] n by (simp add: min_def split: if_splits)
    let ?s2 = "s1\<lparr>progress_calls := progress_calls s1 @ [(length (out @ take ?k ds), len)]\<rparr>"
    have ep2: "same_endpoint s ?s2"
      using same_endpoint_trans [OF ask_endpoint(1) ep1] by (auto simp: same_endpoint_def no_poll_failure_def)
    obtain r s3 where rdy: "isReadyToRead 1 ?s2 = (r, s3)" by (cases "isReadyToRead 1 ?s2")
    have ep3: "same_endpoint s s3" "sys_recvs s3 = sys_recvs s1"
      using isReadyToRead_endpoint [OF rdy] same_endpoint_trans [OF ep2] by simp_all
    have ok: "r \<noteq> PollError"
      by (rule isReadyToRead_no_failure [OF _ _ rdy]) (use ep2 less.prems in \<open>auto simp: same_endpoint_def\<close>)
    have "\<exists>s'. readBytes_loop len cancel (out @ take ?n data) s3 =
        Some (ReadOk (string_of_bytes ((out @ take ?n data) @ drop ?n data)), s') \<and> same_endpoint s3 s' \<and>
        arriving (sys_recvs s') = rest"
      by (rule less.hyps) (use n ep3 nofail arr dr less.prems in \<open>auto simp: same_endpoint_def\<close>)
    then obtain s' where fin: "readBytes_loop len cancel (out @ take ?k ds) s3 = Some (ReadOk (string_of_bytes (out @ data)), s')"
      "same_endpoint s3 s'" "arriving (sys_recvs s') = rest"
      unfolding tk by auto
    have step: "readBytes_loop len cancel out s = readBytes_loop len cancel (out @ take ?k ds) s3"
    proof -
      have "length out \<noteq> len" "\<not> int ?n \<le> 0" "\<not> int ?n < 0" using False less.prems(5) n(1) by auto
      then show ?thesis
        by (subst readBytes_loop.simps)
          (simp only: ask_simps split_beta fst_conv snd_conv rcv rdy ok assms(3) Let_def if_False simp_thms)
    qed
    show ?thesis
      unfolding step using fin same_endpoint_trans [OF ep3(1)] by blast
  qed
qed

text \<open>
  \<open>readBytes\<close> returns exactly the number of bytes asked for, in order, when they arrive
  without the socket having to be waited for; the first \<open>EAGAIN\<close> on an incomplete read instead
  makes it append an invalid range.
\<close>

theorem readBytes_exact_or_fault:
  assumes "sockfd s \<noteq> -1" "no_poll_failure s" "0 < len"
  shows "(list_all (\<lambda>r. case r of RecvFail e \<Rightarrow> False | _ \<Rightarrow> True) (sys_recvs s) \<and> len \<le> length (arriving (sys_recvs s)) \<longrightarrow>
      (\<exists>s'. readBytes len (\<lambda>_. False) s = Some (ReadOk (string_of_bytes (take len (arriving (sys_recvs s)))), s') \<and>
        arriving (sys_recvs s') = drop len (arriving (sys_recvs s)))) \<and>
    (sys_recvs s = [] \<longrightarrow> (\<exists>s'. readBytes len (\<lambda>_. False) s = Some (ReadFault, s')))"
proof (intro conjI impI)
  assume a: "list_all (\<lambda>r. case r of RecvFail e \<Rightarrow> False | _ \<Rightarrow> True) (sys_recvs s) \<and> len \<le> length (arriving (sys_recvs s))"
  have "\<exists>s'. readBytes_loop len (\<lambda>_. False) [] s =
      Some (ReadOk (string_of_bytes ([] @ take len (arriving (sys_recvs s)))), s') \<and> same_endpoint s s' \<and>
    arriving (sys_recvs s') = drop len (arriving (sys_recvs s))"
    by (rule readBytes_loop_data) (use assms a in \<open>auto simp: list_all_iff\<close>)
  then show "\<exists>s'. readBytes len (\<lambda>_. False) s = Some (ReadOk (string_of_bytes (take len (arriving (sys_recvs s)))), s') \<and>
        arriving (sys_recvs s') = drop len (arriving (sys_recvs s))"
    by (auto simp: readBytes_def)
next
  assume "sys_recvs s = []"
  then show "\<exists>s'. readBytes len (\<lambda>_. False) s = Some (ReadFault, s')"
    unfolding readBytes_def using assms
    by (subst readBytes_loop.simps) (simp add: ask_def socket_recv_def isWaitNeeded_def)
qed

theorem readBytes_exact_or_fault_witness:
  "let s = (Socket_new 3 (SelectInterruptPipe_new 8))\<lparr>sys_recvs := [RecvData (bytes_of ''abc''), RecvData (bytes_of ''def'')]\<rparr>
   in \<exists>s'. readBytes 4 (\<lambda>_. False) s = Some (ReadOk ''abcd'', s') \<and> arriving (sys_recvs s') = bytes_of ''ef''"
proof -
  let ?s = "(Socket_new 3 (SelectInterruptPipe_new 8))\<lparr>sys_recvs := [RecvData (bytes_of ''abc''), RecvData (bytes_of ''def'')]\<rparr>"
  have a: "arriving (sys_recvs ?s) = bytes_of ''abcdef''" by (simp add: bytes_of_def)
  have s: "sockfd ?s \<noteq> -1" "no_poll_failure ?s" by (simp_all add: Socket_new_def no_poll_failure_def)
  have t: "take 4 (bytes_of ''abcdef'') = bytes_of ''abcd''" "drop 4 (bytes_of ''abcdef'') = bytes_of ''ef''"
    by (simp_all add: bytes_of_def)
  show ?thesis
    using readBytes_exact_or_fault [OF s, of 4] unfolding a t by auto
qed

end
