(* ===== verification/SocketConnect.thy ===== *)
theory SocketConnect
  imports Socket
begin

section \<open>Name resolution and connecting\<close>

text \<open>
  \<^verbatim>\<open>IXDNSLookup.cpp\<close>, \<^verbatim>\<open>IXSocketConnect.cpp\<close> and \<open>Socket::connect\<close>. The resolver of the C library
  and the messages of its errors are parameters, in the record \<open>net\<close>; an \<open>addrinfo\<close> is reduced to
  what the system answers when the code uses it: the descriptor \<open>::socket\<close> gives (negative when it
  fails) and the outcome of \<open>::connect\<close> (\<open>Some e\<close>: -1 with \<open>errno = e\<close>). The empty list is the
  null pointer. Polls, \<open>errno\<close>, closed descriptors and cancellation queries are those of the
  \<^typ>\<open>socket\<close> that connects. \<open>dns_done i\<close> is the background thread's flag at its \<open>i\<close>-th read.
\<close>

record addrinfo =
  ai_socket :: int
  ai_connect :: "int option"

record net =
  getaddrinfo :: "string \<Rightarrow> string \<Rightarrow> int + addrinfo list"
  gai_strerror :: "int \<Rightarrow> string"
  strerror :: "int \<Rightarrow> string"
  dns_done :: "nat \<Rightarrow> bool"

subsection \<open>DNSLookup\<close>

definition getAddrInfo :: "net \<Rightarrow> string \<Rightarrow> int \<Rightarrow> addrinfo list \<times> string" where
  "getAddrInfo net hostname port =
     (case getaddrinfo net (c_str hostname) (string_of_int port) of
        Inl e \<Rightarrow> ([], gai_strerror net e)
      | Inr res \<Rightarrow> (res, []))"

definition resolveUnCancellable :: "net \<Rightarrow> string \<Rightarrow> int \<Rightarrow> (nat \<Rightarrow> bool) \<Rightarrow> socket \<Rightarrow> addrinfo list \<times> string \<times> socket" where
  "resolveUnCancellable net hostname port cancel s =
     (case ask cancel s of (c, s1) \<Rightarrow>
        if c then ([], ''cancellation requested'', s1)
        else case getAddrInfo net hostname port of (res, err) \<Rightarrow> (res, if err = [] then ''no error'' else err, s1))"

text \<open>The wait loop; \<open>False\<close> is the cancelled exit.\<close>

partial_function (option) resolve_wait :: "net \<Rightarrow> (nat \<Rightarrow> bool) \<Rightarrow> nat \<Rightarrow> socket \<Rightarrow> (bool \<times> socket) option" where
  "resolve_wait net cancel i s =
     (if dns_done net i then Some (True, s)
      else case ask cancel s of (c, s1) \<Rightarrow>
        if c then Some (False, s1) else resolve_wait net cancel (i + 1) s1)"

definition resolveCancellable :: "net \<Rightarrow> string \<Rightarrow> int \<Rightarrow> (nat \<Rightarrow> bool) \<Rightarrow> socket \<Rightarrow> (addrinfo list \<times> string \<times> socket) option" where
  "resolveCancellable net hostname port cancel s = do {
     (finished, s1) \<leftarrow> resolve_wait net cancel 0 s;
     if \<not> finished then Some ([], ''cancellation requested'', s1)
     else case ask cancel s1 of (c, s2) \<Rightarrow>
       if c then Some ([], ''cancellation requested'', s2)
       else case getAddrInfo net hostname port of (res, err) \<Rightarrow> Some (res, err, s2)
   }"

definition resolve :: "net \<Rightarrow> bool \<Rightarrow> string \<Rightarrow> int \<Rightarrow> (nat \<Rightarrow> bool) \<Rightarrow> socket \<Rightarrow> (addrinfo list \<times> string \<times> socket) option" where
  "resolve net cancellable hostname port cancel s =
     (if cancellable then resolveCancellable net hostname port cancel s
      else Some (resolveUnCancellable net hostname port cancel s))"

subsection \<open>SocketConnect\<close>

definition close_fd :: "int \<Rightarrow> socket \<Rightarrow> socket" where
  "close_fd fd s = s\<lparr>closed_fds := closed_fds s @ [fd]\<rparr>"

text \<open>\<open>Socket::poll\<close> on a bare descriptor, without an interrupt object.\<close>

definition poll_fd :: "bool \<Rightarrow> int \<Rightarrow> socket \<Rightarrow> PollResultType \<times> socket" where
  "poll_fd readyToRead timeoutMs s =
     (case socket_poll readyToRead timeoutMs (s\<lparr>interrupt := SelectInterruptPipe_new 0\<rparr>) of
        (r, s1) \<Rightarrow> (r, s1\<lparr>interrupt := interrupt s\<rparr>))"

partial_function (option) connect_wait :: "net \<Rightarrow> (nat \<Rightarrow> bool) \<Rightarrow> int \<Rightarrow> socket \<Rightarrow> (int \<times> string \<times> socket) option" where
  "connect_wait net cancel fd s0 =
     (case ask cancel s0 of (c, s) \<Rightarrow>
        if c then Some (-1, ''Cancelled'', close_fd fd s)
        else case poll_fd False 10 s of (r, s1) \<Rightarrow>
          if r = Timeout then connect_wait net cancel fd s1
          else if r = ReadyForWrite then Some (fd, ''no error'', s1)
          else Some (-1, ''Connect error: '' @ strerror net (sys_errno s1), close_fd fd s1))"

definition connectToAddress :: "net \<Rightarrow> (nat \<Rightarrow> bool) \<Rightarrow> addrinfo \<Rightarrow> socket \<Rightarrow> (int \<times> string \<times> socket) option" where
  "connectToAddress net cancel address s =
     (let fd = ai_socket address in
      if fd < 0 then Some (-1, ''Cannot create a socket'', s)
      else case ai_connect address of
        None \<Rightarrow> connect_wait net cancel fd s
      | Some e \<Rightarrow>
          let s1 = s\<lparr>sys_errno := e\<rparr>
          in if \<not> isWaitNeeded s1 then Some (-1, strerror net e, close_fd fd s1)
             else connect_wait net cancel fd s1)"

fun connectToAny :: "net \<Rightarrow> (nat \<Rightarrow> bool) \<Rightarrow> addrinfo list \<Rightarrow> string \<Rightarrow> socket \<Rightarrow> (int \<times> string \<times> socket) option" where
  "connectToAny net cancel [] errMsg s = Some (-1, errMsg, s)"
| "connectToAny net cancel (address # rest) errMsg s = do {
     (fd, errMsg1, s1) \<leftarrow> connectToAddress net cancel address s;
     if fd \<noteq> -1 then Some (fd, errMsg1, s1) else connectToAny net cancel rest errMsg1 s1
   }"

definition SocketConnect_connect :: "net \<Rightarrow> string \<Rightarrow> int \<Rightarrow> (nat \<Rightarrow> bool) \<Rightarrow> socket \<Rightarrow> (int \<times> string \<times> socket) option" where
  "SocketConnect_connect net hostname port cancel s = do {
     (res, errMsg, s1) \<leftarrow> resolve net True hostname port cancel s;
     if res = [] then Some (-1, errMsg, s1) else connectToAny net cancel res errMsg s1
   }"

definition socket_connect :: "net \<Rightarrow> string \<Rightarrow> int \<Rightarrow> (nat \<Rightarrow> bool) \<Rightarrow> socket \<Rightarrow> (bool \<times> string \<times> socket) option" where
  "socket_connect net host port cancel s =
     (if \<not> pipe_clear (interrupt s) then Some (False, [], s)
      else do {
        (fd, errMsg, s1) \<leftarrow> SocketConnect_connect net host port cancel s;
        Some (fd \<noteq> -1, errMsg, s1\<lparr>sockfd := fd\<rparr>)
      })"

subsection \<open>Descriptors\<close>

lemma poll_fd_frame:
  assumes "poll_fd b t s = (r, s')"
  shows "cancel_queries s' = cancel_queries s" "closed_fds s' = closed_fds s"
  using assms socket_poll_frame(1,7) [of b t "s\<lparr>interrupt := SelectInterruptPipe_new 0\<rparr>"]
  by (auto simp: poll_fd_def split: prod.splits)

lemma connect_wait_effect:
  assumes "connect_wait net cancel fd s = Some y" "0 \<le> fd"
  shows "fst y = fd \<and> closed_fds (snd (snd y)) = closed_fds s \<or>
    fst y = -1 \<and> closed_fds (snd (snd y)) = closed_fds s @ [fd]"
proof -
  let ?Q = "\<lambda>fd s (y :: int \<times> string \<times> socket). fst y = fd \<and> closed_fds (snd (snd y)) = closed_fds s \<or>
    fst y = -1 \<and> closed_fds (snd (snd y)) = closed_fds s @ [fd]"
  show ?thesis
  proof (rule connect_wait.raw_induct [OF _ assms(1), where P = "\<lambda>net cancel fd s y. ?Q fd s y"])
    fix loop :: "net \<Rightarrow> (nat \<Rightarrow> bool) \<Rightarrow> int \<Rightarrow> socket \<Rightarrow> (int \<times> string \<times> socket) option"
    fix net cancel fd s y
    assume rec: "\<And>net cancel fd s y. loop net cancel fd s = Some y \<Longrightarrow> ?Q fd s y"
    assume body: "(case ask cancel s of (c, s) \<Rightarrow> if c then Some (-1, ''Cancelled'', close_fd fd s)
      else case poll_fd False 10 s of (r, s1) \<Rightarrow>
          if r = Timeout then loop net cancel fd s1
          else if r = ReadyForWrite then Some (fd, ''no error'', s1)
          else Some (-1, ''Connect error: '' @ strerror net (sys_errno s1), close_fd fd s1)) = Some y"
    obtain r s1 where p: "poll_fd False 10 (snd (ask cancel s)) = (r, s1)" by (cases "poll_fd False 10 (snd (ask cancel s))")
    have cl: "closed_fds s1 = closed_fds s" using poll_fd_frame(2) [OF p] by (simp add: ask_def)
    show "?Q fd s y"
      using body rec [of net cancel fd s1 y] cl p
      by (auto simp: split_beta ask_def close_fd_def split: if_splits)
  qed
qed

lemma connectToAddress_effect:
  assumes "connectToAddress net cancel a s = Some (fd, msg, s')"
  shows "closed_fds s' @ (if fd = -1 then [] else [fd]) = closed_fds s @ (if ai_socket a < 0 then [] else [ai_socket a])"
  using assms connect_wait_effect [of net cancel "ai_socket a" _ "(fd, msg, s')"]
  by (auto simp: connectToAddress_def Let_def close_fd_def split: if_splits option.splits)

lemma connectToAny_effect:
  assumes "connectToAny net cancel addrs e s = Some (fd, msg, s')"
  shows "\<exists>k \<le> length addrs. closed_fds s' @ (if fd = -1 then [] else [fd]) =
      closed_fds s @ filter (\<lambda>f. 0 \<le> f) (map ai_socket (take k addrs)) \<and> (fd = -1 \<longrightarrow> k = length addrs)"
  using assms
proof (induction addrs arbitrary: e s)
  case (Cons a addrs)
  obtain fd1 m1 s1 where one: "connectToAddress net cancel a s = Some (fd1, m1, s1)"
    using Cons.prems by (auto simp: bind_eq_Some_conv)
  note eff = connectToAddress_effect [OF one]
  show ?case
  proof (cases "fd1 = -1")
    case True
    obtain k where "k \<le> length addrs" "closed_fds s' @ (if fd = -1 then [] else [fd]) =
        closed_fds s1 @ filter (\<lambda>f. 0 \<le> f) (map ai_socket (take k addrs))" "fd = -1 \<longrightarrow> k = length addrs"
      using Cons.IH [of m1 s1] Cons.prems one True by auto
    then show ?thesis using eff True by (intro exI [of _ "Suc k"]) (auto split: if_splits)
  next
    case False
    then have "fd = fd1" "s' = s1" using Cons.prems one by auto
    then show ?thesis using eff False by (intro exI [of _ "Suc 0"]) (auto split: if_splits)
  qed
qed simp


definition demo_net :: net where
  "demo_net = \<lparr>getaddrinfo = (\<lambda>h p. Inr [\<lparr>ai_socket = 5, ai_connect = Some 111\<rparr>, \<lparr>ai_socket = 6, ai_connect = Some EINPROGRESS\<rparr>]),
     gai_strerror = (\<lambda>_. []), strerror = (\<lambda>_. ''Connection refused''), dns_done = (\<lambda>i. i = 2)\<rparr>"


subsection \<open>Returning\<close>

text \<open>A request that is granted stays granted: the flag stays set and the clock does not go back.\<close>

definition granted_from :: "(nat \<Rightarrow> bool) \<Rightarrow> nat \<Rightarrow> bool" where
  "granted_from cancel n \<longleftrightarrow> (\<forall>k \<ge> n. cancel k)"

lemma resolve_wait_returns:
  assumes "granted_from cancel n"
  shows "\<exists>r. resolve_wait net cancel i s = Some r"
proof (induction "n - cancel_queries s" arbitrary: s i rule: less_induct)
  case less
  show ?case
  proof (cases "cancel (cancel_queries s)")
    case True
    then show ?thesis by (subst resolve_wait.simps) (auto simp: ask_def)
  next
    case False
    then have "cancel_queries s < n" using assms not_less unfolding granted_from_def by blast
    then have "\<exists>r. resolve_wait net cancel (i + 1) (snd (ask cancel s)) = Some r"
      by (intro less) (simp add: ask_def)
    then show ?thesis using False by (subst resolve_wait.simps) (auto simp: ask_def)
  qed
qed

lemma connect_wait_returns:
  assumes "granted_from cancel n"
  shows "\<exists>r. connect_wait net cancel fd s = Some r"
proof (induction "n - cancel_queries s" arbitrary: s rule: less_induct)
  case less
  show ?case
  proof (cases "cancel (cancel_queries s)")
    case True
    then show ?thesis by (subst connect_wait.simps) (simp add: ask_def)
  next
    case False
    then have lt: "cancel_queries s < n" using assms not_less unfolding granted_from_def by blast
    obtain r s1 where p: "poll_fd False 10 (snd (ask cancel s)) = (r, s1)" by (cases "poll_fd False 10 (snd (ask cancel s))")
    have "\<exists>r. connect_wait net cancel fd s1 = Some r"
      by (rule less) (use lt poll_fd_frame(1) [OF p] in simp)
    then show ?thesis using False p by (subst connect_wait.simps) (auto simp: ask_def)
  qed
qed

lemma connectToAny_returns:
  assumes "granted_from cancel n"
  shows "\<exists>r. connectToAny net cancel addrs e s = Some r"
proof (induction addrs arbitrary: e s)
  case (Cons a addrs)
  have "\<exists>r. connectToAddress net cancel a s = Some r"
    using connect_wait_returns [OF assms] by (auto simp: connectToAddress_def Let_def split: option.splits)
  then show ?case using Cons.IH by (auto split: prod.splits)
qed simp

lemma socket_connect_returns:
  assumes "granted_from cancel n"
  shows "\<exists>ok msg s'. socket_connect net host port cancel s = Some (ok, msg, s')"
proof -
  obtain b s1 where w: "resolve_wait net cancel 0 s = Some (b, s1)"
    using resolve_wait_returns [OF assms, of net 0 s] by auto
  obtain res e s2 where r: "resolve net True host port cancel s = Some (res, e, s2)"
    unfolding resolve_def resolveCancellable_def w
    by (cases "getAddrInfo net host port"; cases "cancel (cancel_queries s1)"; cases b) (simp_all add: ask_def)
  obtain fd m s3 where "connectToAny net cancel res e s2 = Some (fd, m, s3)"
    using connectToAny_returns [OF assms, of net res e s2] by auto
  then show ?thesis
    by (auto simp: socket_connect_def pipe_clear_def SocketConnect_connect_def r)
qed

text \<open>
  Connecting returns: once the cancellation request is granted for good, by its flag or its
  timeout, neither the wait for the resolver nor the wait for a connection runs on, however slow the
  resolver is and whatever the polls answer.
\<close>

theorem connect_returns_when_cancelled:
  assumes "granted_from cancel n"
  shows "\<exists>ok msg s'. socket_connect net host port cancel s = Some (ok, msg, s')"
  by (rule socket_connect_returns [OF assms])

theorem connect_returns_when_cancelled_witness:
  "let cancel = makeCancellationRequestWithTimeout 3 (\<lambda>_. False) 0 (\<lambda>k. int k * 1000000)
   in granted_from cancel 3001 \<and>
      (\<exists>ok msg s'. socket_connect (demo_net\<lparr>dns_done := (\<lambda>_. False)\<rparr>) ''host'' 80 cancel
         (Socket_new (-1) (SelectInterruptPipe_new 8)) = Some (ok, msg, s'))"
proof -
  have g: "granted_from (makeCancellationRequestWithTimeout 3 (\<lambda>_. False) 0 (\<lambda>k. int k * 1000000)) 3001"
    by (simp add: granted_from_def makeCancellationRequestWithTimeout_def)
  show ?thesis using g connect_returns_when_cancelled [OF g] by (simp add: Let_def)
qed

subsection \<open>The lookup object and its background thread\<close>

text \<open>
  The object is shared by the waiting caller, which drops it when it leaves, and the detached thread,
  which holds a weak pointer and the raw \<open>this\<close>. \<open>self.lock()\<close> in the condition of the \<open>if\<close> makes a
  temporary that is gone when the body runs: it tests that the object is alive but does not keep it.
\<close>

datatype worker_pc = Looking | Storing "addrinfo list \<times> string" | Finished | WroteFreed
datatype caller_pc = Waiting | Cancelled | GotResult "addrinfo list \<times> string"

record dns_state =
  dns_alive :: bool
  dns_res :: "addrinfo list \<times> string"
  dns_flag :: bool
  worker :: worker_pc
  caller :: caller_pc

definition dns_start :: dns_state where
  "dns_start = \<lparr>dns_alive = True, dns_res = ([], []), dns_flag = False, worker = Looking, caller = Waiting\<rparr>"

inductive dns_step :: "addrinfo list \<times> string \<Rightarrow> dns_state \<Rightarrow> dns_state \<Rightarrow> bool" for r where
  lock_alive: "worker s = Looking \<Longrightarrow> dns_alive s \<Longrightarrow> dns_step r s (s\<lparr>worker := Storing r\<rparr>)"
| lock_gone: "worker s = Looking \<Longrightarrow> \<not> dns_alive s \<Longrightarrow> dns_step r s (s\<lparr>worker := Finished\<rparr>)"
| store: "worker s = Storing x \<Longrightarrow> dns_alive s \<Longrightarrow> dns_step r s (s\<lparr>dns_res := x, dns_flag := True, worker := Finished\<rparr>)"
| store_freed: "worker s = Storing x \<Longrightarrow> \<not> dns_alive s \<Longrightarrow> dns_step r s (s\<lparr>worker := WroteFreed\<rparr>)"
| cancelled: "caller s = Waiting \<Longrightarrow> dns_step r s (s\<lparr>caller := Cancelled, dns_alive := False\<rparr>)"
| get_result: "caller s = Waiting \<Longrightarrow> dns_flag s \<Longrightarrow> dns_step r s (s\<lparr>caller := GotResult (dns_res s), dns_alive := False\<rparr>)"

inductive_cases dns_stepE: "dns_step r s s'"

abbreviation dns_reachable :: "addrinfo list \<times> string \<Rightarrow> dns_state \<Rightarrow> bool" where
  "dns_reachable r \<equiv> (dns_step r)\<^sup>*\<^sup>* dns_start"

definition dns_inv :: "addrinfo list \<times> string \<Rightarrow> dns_state \<Rightarrow> bool" where
  "dns_inv r s \<longleftrightarrow>
     (dns_flag s \<longrightarrow> dns_res s = r \<and> worker s = Finished) \<and> (\<forall>x. worker s = Storing x \<longrightarrow> x = r) \<and>
     (caller s = Waiting \<longleftrightarrow> dns_alive s) \<and> (\<forall>x. caller s = GotResult x \<longrightarrow> x = r \<and> worker s = Finished) \<and>
     (worker s = WroteFreed \<longrightarrow> caller s = Cancelled)"

lemma dns_inv_step: "dns_step r s s' \<Longrightarrow> dns_inv r s \<Longrightarrow> dns_inv r s'"
  by (erule dns_stepE; cases "caller s") (auto simp: dns_inv_def)

lemma dns_inv_reachable: "dns_reachable r s \<Longrightarrow> dns_inv r s"
  by (induction rule: rtranclp_induct) (auto simp: dns_inv_step, simp add: dns_inv_def dns_start_def)

text \<open>
  A lookup whose result the caller takes is sound: the result is the one the resolver gave, and
  the background thread is done with the object. A caller that was cancelled can leave the thread
  between its liveness test and its stores, and only then does the thread write to the freed object.
\<close>

theorem dns_lookup_race:
  "(dns_reachable r s \<longrightarrow> (\<forall>x. caller s = GotResult x \<longrightarrow> x = r \<and> worker s = Finished)) \<and>
   (dns_reachable r s \<and> worker s = WroteFreed \<longrightarrow> caller s = Cancelled) \<and>
   (\<exists>s'. dns_reachable r s' \<and> worker s' = WroteFreed)"
proof (intro conjI)
  let ?a = "dns_start\<lparr>worker := Storing r\<rparr>"
  let ?b = "?a\<lparr>caller := Cancelled, dns_alive := False\<rparr>"
  have "dns_step r dns_start ?a" by (rule lock_alive) (simp_all add: dns_start_def)
  moreover have "dns_step r ?a ?b" by (rule cancelled) (simp add: dns_start_def)
  moreover have "dns_step r ?b (?b\<lparr>worker := WroteFreed\<rparr>)" by (rule store_freed [where x = r]) simp_all
  ultimately have "dns_reachable r (?b\<lparr>worker := WroteFreed\<rparr>)"
    by (meson rtranclp.rtrancl_into_rtrancl rtranclp.rtrancl_refl)
  then show "\<exists>s'. dns_reachable r s' \<and> worker s' = WroteFreed" by force
qed (use dns_inv_reachable [of r s] in \<open>auto simp: dns_inv_def\<close>)

theorem dns_lookup_race_witness:
  "let r = ([\<lparr>ai_socket = 5, ai_connect = None\<rparr>], []); s = dns_start\<lparr>worker := Finished, dns_res := r, dns_flag := True,
        caller := GotResult r, dns_alive := False\<rparr>
   in dns_reachable r s \<and> caller s = GotResult r \<and> worker s = Finished"
proof -
  let ?r = "([\<lparr>ai_socket = 5, ai_connect = None\<rparr>], []) :: addrinfo list \<times> string"
  let ?a = "dns_start\<lparr>worker := Storing ?r\<rparr>"
  let ?b = "?a\<lparr>dns_res := ?r, dns_flag := True, worker := Finished\<rparr>"
  let ?c = "?b\<lparr>caller := GotResult (dns_res ?b), dns_alive := False\<rparr>"
  have "dns_step ?r dns_start ?a" by (rule lock_alive) (simp_all add: dns_start_def)
  moreover have "dns_step ?r ?a ?b" by (rule store) (simp_all add: dns_start_def)
  moreover have "dns_step ?r ?b ?c" by (rule get_result) (simp_all add: dns_start_def)
  ultimately have "dns_reachable ?r ?c"
    by (meson rtranclp.rtrancl_into_rtrancl rtranclp.rtrancl_refl)
  then show ?thesis using dns_lookup_race [of ?r ?c] by (simp add: dns_start_def)
qed

end
