(* ===== verification/Frame.thy ===== *)
theory Frame
  imports Prelude
begin

section \<open>Frames on the wire\<close>

text \<open>
  The part of \<^verbatim>\<open>IXWebSocketTransport.cpp\<close> that turns a frame into bytes and back: the header that
  \<open>sendFragment\<close> builds, the header fields \<open>dispatch\<close> reads from the receive buffer, and the
  masking loops of \<open>appendToSendBuffer\<close> and \<open>unmaskReceiveBuffer\<close>. Lengths are \<^typ>\<open>u64\<close> as in the
  code, and the builder writes into a zeroed vector by index as the code does.
\<close>

subsection \<open>Header fields\<close>

record wsheader =
  header_size :: nat
  fin :: bool
  rsv1 :: bool
  rsv2 :: bool
  rsv3 :: bool
  mask :: bool
  opcode :: byte
  N0 :: nat
  N :: u64
  masking_key :: "byte list"

definition CONTINUATION :: byte where "CONTINUATION = 0"
definition TEXT_FRAME :: byte where "TEXT_FRAME = 1"
definition BINARY_FRAME :: byte where "BINARY_FRAME = 2"
definition CLOSE :: byte where "CLOSE = 8"
definition PING :: byte where "PING = 9"
definition PONG :: byte where "PONG = 0xa"

lemmas opcodes = CONTINUATION_def TEXT_FRAME_def BINARY_FRAME_def CLOSE_def PING_def PONG_def

text \<open>The fields in the first two bytes, and the size of the header they announce.\<close>

definition parse_start :: "byte list \<Rightarrow> wsheader" where
  "parse_start data =
     (let b0 = data ! 0; b1 = data ! 1; n0 = unat (b1 AND 0x7f); m = (b1 AND 0x80 = 0x80)
      in \<lparr> header_size = 2 + (if n0 = 126 then 2 else 0) + (if n0 = 127 then 8 else 0) + (if m then 4 else 0),
           fin = (b0 AND 0x80 = 0x80), rsv1 = (b0 AND 0x40 = 0x40), rsv2 = (b0 AND 0x20 = 0x20),
           rsv3 = (b0 AND 0x10 = 0x10), mask = m, opcode = b0 AND 0x0f, N0 = n0, N = 0, masking_key = [] \<rparr>)"

definition shl64 :: "byte \<Rightarrow> nat \<Rightarrow> u64" where
  "shl64 b k = push_bit k (ucast b)"

text \<open>The payload length and the position of the masking key.\<close>

definition parse_length :: "wsheader \<Rightarrow> byte list \<Rightarrow> u64 \<times> nat" where
  "parse_length ws data =
     (if N0 ws < 126 then (word_of_nat (N0 ws), 2)
      else if N0 ws = 126 then (shl64 (data ! 2) 8 OR shl64 (data ! 3) 0, 4)
      else (shl64 (data ! 2) 56 OR shl64 (data ! 3) 48 OR shl64 (data ! 4) 40 OR shl64 (data ! 5) 32 OR
            shl64 (data ! 6) 24 OR shl64 (data ! 7) 16 OR shl64 (data ! 8) 8 OR shl64 (data ! 9) 0, 10))"

definition parse_key :: "wsheader \<Rightarrow> byte list \<Rightarrow> nat \<Rightarrow> byte list" where
  "parse_key ws data i =
     (if mask ws then [data ! (i + 0), data ! (i + 1), data ! (i + 2), data ! (i + 3)] else [0, 0, 0, 0])"

definition parse_header :: "byte list \<Rightarrow> wsheader" where
  "parse_header data =
     (let ws = parse_start data; (n, i) = parse_length ws data
      in ws\<lparr> N := n, masking_key := parse_key ws data i \<rparr>)"

subsection \<open>Masking\<close>

text \<open>\<open>n\<close> bytes from position \<open>off\<close> on, each combined with the key byte its distance from \<open>off\<close>
  selects.\<close>

definition xor_at :: "nat \<Rightarrow> nat \<Rightarrow> byte list \<Rightarrow> byte list \<Rightarrow> byte list" where
  "xor_at off n key buf =
     map (\<lambda>(i, b). if off \<le> i \<and> i < off + n then b XOR key ! ((i - off) mod 4) else b) (enumerate 0 buf)"

subsection \<open>Building a header\<close>

definition key_bytes :: "u32 \<Rightarrow> byte list" where
  "key_bytes x = [ucast (drop_bit 24 x), ucast (drop_bit 16 x AND 0xff), ucast (drop_bit 8 x AND 0xff), ucast (x AND 0xff)]"

definition byte_of64 :: "u64 \<Rightarrow> nat \<Rightarrow> byte" where
  "byte_of64 n k = ucast (drop_bit k n AND 0xff)"

definition put_key :: "bool \<Rightarrow> nat \<Rightarrow> byte list \<Rightarrow> byte list \<Rightarrow> byte list" where
  "put_key useMask i key header =
     (if useMask then header[i := key ! 0, i + 1 := key ! 1, i + 2 := key ! 2, i + 3 := key ! 3] else header)"

definition build_header :: "bool \<Rightarrow> byte \<Rightarrow> bool \<Rightarrow> bool \<Rightarrow> u64 \<Rightarrow> byte list \<Rightarrow> byte list" where
  "build_header useMask type is_fin compress message_size key =
     (let zeroed = replicate (2 + (if message_size \<ge> 126 then 2 else 0) + (if message_size \<ge> 65536 then 6 else 0)
                      + (if useMask then 4 else 0)) (0 :: byte);
          h0 = zeroed[0 := type];
          h1 = (if is_fin then h0[0 := h0 ! 0 OR 0x80] else h0);
          h = (if compress \<and> type \<noteq> CONTINUATION then h1[0 := h1 ! 0 OR 0x40] else h1);
          m = (if useMask then 0x80 else 0)
      in if message_size < 126 then
           put_key useMask 2 key (h[1 := byte_of64 message_size 0 OR m])
         else if message_size < 65536 then
           put_key useMask 4 key (h[1 := 126 OR m, 2 := byte_of64 message_size 8, 3 := byte_of64 message_size 0])
         else
           put_key useMask 10 key
             (h[1 := 127 OR m, 2 := byte_of64 message_size 56, 3 := byte_of64 message_size 48,
                4 := byte_of64 message_size 40, 5 := byte_of64 message_size 32, 6 := byte_of64 message_size 24,
                7 := byte_of64 message_size 16, 8 := byte_of64 message_size 8, 9 := byte_of64 message_size 0]))"

subsection \<open>Masking is an involution\<close>

lemma length_xor_at [simp]: "length (xor_at off n key buf) = length buf"
  by (simp add: xor_at_def)

lemma nth_xor_at:
  "i < length buf \<Longrightarrow> xor_at off n key buf ! i =
     (if off \<le> i \<and> i < off + n then buf ! i XOR key ! ((i - off) mod 4) else buf ! i)"
  by (simp add: xor_at_def nth_enumerate_eq)

lemma xor_at_twice [simp]: "xor_at off n key (xor_at off n key buf) = buf"
  by (rule nth_equalityI) (simp_all add: nth_xor_at ac_simps)

lemma xor_at_zero: "xor_at off 0 key buf = buf"
  by (rule nth_equalityI) (auto simp: nth_xor_at)

lemma xor_at_append:
  "xor_at (length pre) n key (pre @ buf) = pre @ xor_at 0 n key buf"
  by (rule nth_equalityI) (auto simp: nth_append nth_xor_at)

lemma xor_at_suffix:
  "n \<le> length buf \<Longrightarrow> xor_at 0 n key (buf @ post) = xor_at 0 n key buf @ post"
  by (rule nth_equalityI) (auto simp: nth_append nth_xor_at)

lemma xor_at_framed:
  assumes "length pre = off" "length payload = n"
  shows "xor_at off n key (pre @ xor_at 0 n key payload @ post) = pre @ payload @ post"
  using xor_at_append [of pre n key "xor_at 0 n key payload @ post"] assms
  by (simp add: xor_at_suffix)

subsection \<open>The header as a list of fields\<close>

definition first_byte :: "byte \<Rightarrow> bool \<Rightarrow> bool \<Rightarrow> byte" where
  "first_byte type is_fin compress =
     type OR (if is_fin then 0x80 else 0) OR (if compress \<and> type \<noteq> CONTINUATION then 0x40 else 0)"

definition length_bytes :: "bool \<Rightarrow> u64 \<Rightarrow> byte list" where
  "length_bytes useMask n =
     (let m = (if useMask then 0x80 else 0) in
      if n < 126 then [byte_of64 n 0 OR m]
      else if n < 65536 then [126 OR m, byte_of64 n 8, byte_of64 n 0]
      else (127 OR m) # map (byte_of64 n) [56, 48, 40, 32, 24, 16, 8, 0])"

lemma header_start:
  "(let h0 = (z # zs)[0 := type];
        h1 = (if is_fin then h0[0 := h0 ! 0 OR 0x80] else h0)
    in if compress \<and> type \<noteq> CONTINUATION then h1[0 := h1 ! 0 OR 0x40] else h1) = first_byte type is_fin compress # zs"
  by (simp add: first_byte_def or.assoc Let_def)

lemma build_header_fields:
  assumes "length key = 4"
  shows "build_header useMask type is_fin compress n key =
    first_byte type is_fin compress # length_bytes useMask n @ (if useMask then key else [])"
proof -
  obtain a b c d where key: "key = [a, b, c, d]"
    using assms by (auto simp: numeral_eq_Suc length_Suc_conv)
  define F where "F = first_byte type is_fin compress"
  have step: "build_header useMask type is_fin compress n key =
     (let k = 1 + (if n \<ge> 126 then 2 else 0) + (if n \<ge> 65536 then 6 else 0) + (if useMask then 4 else 0);
          h = F # replicate k 0; m = (if useMask then 0x80 else 0)
      in if n < 126 then put_key useMask 2 key (h[1 := byte_of64 n 0 OR m])
         else if n < 65536 then put_key useMask 4 key (h[1 := 126 OR m, 2 := byte_of64 n 8, 3 := byte_of64 n 0])
         else put_key useMask 10 key
             (h[1 := 127 OR m, 2 := byte_of64 n 56, 3 := byte_of64 n 48, 4 := byte_of64 n 40, 5 := byte_of64 n 32,
                6 := byte_of64 n 24, 7 := byte_of64 n 16, 8 := byte_of64 n 8, 9 := byte_of64 n 0]))"
    unfolding build_header_def F_def Let_def
    using header_start [where z = "0 :: byte", unfolded Let_def] by (simp only: replicate.simps add_Suc one_add_one [symmetric] add.assoc plus_1_eq_Suc)
  have nums: "(2::nat) = Suc (Suc 0)" "(3::nat) = Suc (Suc (Suc 0))" "(4::nat) = Suc (Suc (Suc (Suc 0)))"
    "(5::nat) = Suc (Suc (Suc (Suc (Suc 0))))" "(6::nat) = Suc (Suc (Suc (Suc (Suc (Suc 0)))))"
    "(7::nat) = Suc (Suc (Suc (Suc (Suc (Suc (Suc 0))))))" "(8::nat) = Suc (Suc (Suc (Suc (Suc (Suc (Suc (Suc 0)))))))"
    "(9::nat) = Suc (Suc (Suc (Suc (Suc (Suc (Suc (Suc (Suc 0))))))))"
    "(10::nat) = Suc (Suc (Suc (Suc (Suc (Suc (Suc (Suc (Suc (Suc 0)))))))))" "(1::nat) = Suc 0"
    by simp_all
  consider "n < 126" "\<not> 126 \<le> n" "\<not> 65536 \<le> n" | "126 \<le> n" "\<not> n < 126" "n < 65536" "\<not> 65536 \<le> n"
    | "65536 \<le> n" "126 \<le> n" "\<not> n < 65536" "\<not> n < 126"
    by (force simp: word_less_nat_alt word_le_nat_alt)
  then show ?thesis
    unfolding step F_def [symmetric] unfolding length_bytes_def put_key_def Let_def key
    by cases (simp_all only: if_True if_False simp_thms nums add_Suc add_0 add_0_right add_Suc_right replicate.simps
      list_update.simps nat.case nth_Cons_0 nth_Cons_Suc list.map append.simps if_distrib split: if_split, simp_all)
qed

subsection \<open>Reading a header back\<close>

lemma first_byte_bits:
  assumes "unat type < 16"
  shows "(first_byte type is_fin compress AND 0x80 = 0x80) = is_fin"
    "(first_byte type is_fin compress AND 0x40 = 0x40) = (compress \<and> type \<noteq> CONTINUATION)"
    "first_byte type is_fin compress AND 0x20 \<noteq> 0x20" "first_byte type is_fin compress AND 0x10 \<noteq> 0x10"
    "first_byte type is_fin compress AND 0x0f = type"
proof -
  have "list_all (\<lambda>t. list_all (\<lambda>f. list_all (\<lambda>c.
      (let b = first_byte t f c in (b AND 0x80 = 0x80) = f \<and> (b AND 0x40 = 0x40) = (c \<and> t \<noteq> CONTINUATION) \<and>
        b AND 0x20 \<noteq> 0x20 \<and> b AND 0x10 \<noteq> 0x10 \<and> b AND 0x0f = t)) [True, False]) [True, False])
      (map word_of_nat [0..<16])"
    by code_simp
  from byte_below [OF assms this]
  show "(first_byte type is_fin compress AND 0x80 = 0x80) = is_fin"
    "(first_byte type is_fin compress AND 0x40 = 0x40) = (compress \<and> type \<noteq> CONTINUATION)"
    "first_byte type is_fin compress AND 0x20 \<noteq> 0x20" "first_byte type is_fin compress AND 0x10 \<noteq> 0x10"
    "first_byte type is_fin compress AND 0x0f = type"
    by (cases is_fin; cases compress; simp add: Let_def)+
qed

lemma byte_of64_0_small: "n < 126 \<Longrightarrow> unat (byte_of64 n 0) = unat n"
  unfolding byte_of64_def mask_numerals
  by (simp add: unsigned_ucast_eq unat_and_mask take_bit_eq_mod word_less_nat_alt)

lemma small_length_bits:
  assumes "unat (b :: byte) < 126"
  shows "(b OR (if m then 0x80 else 0)) AND 0x7f = b" "((b OR (if m then 0x80 else 0)) AND 0x80 = 0x80) = m"
proof -
  have "list_all (\<lambda>b :: byte. (b OR 0x80) AND 0x7f = b \<and> b AND 0x7f = b \<and> (b OR 0x80) AND 0x80 = 0x80 \<and> b AND 0x80 \<noteq> 0x80)
      (map word_of_nat [0..<126])"
    by code_simp
  from byte_below [OF assms this]
  show "(b OR (if m then 0x80 else 0)) AND 0x7f = b" "((b OR (if m then 0x80 else 0)) AND 0x80 = 0x80) = m"
    by (cases m; simp)+
qed

lemma bit_shl64_byte_of64:
  assumes "k + 8 \<le> 64"
  shows "bit (shl64 (byte_of64 n k) k) i \<longleftrightarrow> k \<le> i \<and> i < k + 8 \<and> bit n i"
  using assms
  by (auto simp: shl64_def byte_of64_def mask_numerals bit_simps bit_mask_iff)

lemma bit_small: "n < 65536 \<Longrightarrow> bit (n :: u64) i \<Longrightarrow> i < 16"
proof (rule ccontr)
  assume n: "n < 65536" and b: "bit n i" and i: "\<not> i < 16"
  have "unat (take_bit 16 n) = unat n"
    unfolding unsigned_take_bit_eq using n by (simp add: take_bit_nat_eq_self word_less_nat_alt)
  then have "n = take_bit 16 n" by (metis word_eq_iff_unsigned)
  then show False using b i by (metis bit_take_bit_iff)
qed

lemma decode_length16:
  assumes "n < 65536"
  shows "shl64 (byte_of64 n 8) 8 OR shl64 (byte_of64 n 0) 0 = n"
  by (rule bit_eqI) (use bit_small [OF assms] in \<open>auto simp: bit_or_iff bit_shl64_byte_of64\<close>)

lemma decode_length64:
  "shl64 (byte_of64 n 56) 56 OR shl64 (byte_of64 n 48) 48 OR shl64 (byte_of64 n 40) 40 OR shl64 (byte_of64 n 32) 32 OR
   shl64 (byte_of64 n 24) 24 OR shl64 (byte_of64 n 16) 16 OR shl64 (byte_of64 n 8) 8 OR shl64 (byte_of64 n 0) 0 = n"
proof (rule bit_eqI)
  fix i
  assume "possible_bit TYPE(u64) i"
  then have i: "i < 64" by simp
  show "bit (shl64 (byte_of64 n 56) 56 OR shl64 (byte_of64 n 48) 48 OR shl64 (byte_of64 n 40) 40 OR
     shl64 (byte_of64 n 32) 32 OR shl64 (byte_of64 n 24) 24 OR shl64 (byte_of64 n 16) 16 OR shl64 (byte_of64 n 8) 8 OR
     shl64 (byte_of64 n 0) 0) i = bit n i"
    unfolding bit_or_iff using i by (simp add: bit_shl64_byte_of64) linarith
qed

definition length_code :: "u64 \<Rightarrow> nat" where
  "length_code n = (if n < 126 then unat n else if n < 65536 then 126 else 127)"

definition built_header_size :: "bool \<Rightarrow> u64 \<Rightarrow> nat" where
  "built_header_size useMask n =
     2 + (if n < 126 then 0 else if n < 65536 then 2 else 8) + (if useMask then 4 else 0)"

lemma length_build_header [wire_simps]:
  "length key = 4 \<Longrightarrow> length (build_header useMask type is_fin compress n key) = built_header_size useMask n"
  by (auto simp: build_header_fields length_bytes_def built_header_size_def Let_def)

lemma parse_start_build:
  assumes "length key = 4" "unat type < 16"
  shows "parse_start (build_header useMask type is_fin compress n key @ rest) =
    \<lparr> header_size = built_header_size useMask n, fin = is_fin, rsv1 = (compress \<and> type \<noteq> CONTINUATION), rsv2 = False,
      rsv3 = False, mask = useMask, opcode = type, N0 = length_code n, N = 0, masking_key = [] \<rparr>"
proof -
  define b1 where "b1 = hd (length_bytes useMask n)"
  have b1: "unat (b1 AND 0x7f) = length_code n" "(b1 AND 0x80 = 0x80) = useMask"
  proof -
    consider "n < 126" | "\<not> n < 126" "n < 65536" | "\<not> n < 126" "\<not> n < 65536" by blast
    then show "unat (b1 AND 0x7f) = length_code n" "(b1 AND 0x80 = 0x80) = useMask"
    proof (atomize (full), cases)
      case 1
      then have "unat (byte_of64 n 0) < 126" by (simp add: byte_of64_0_small word_less_nat_alt)
      with 1 show "unat (b1 AND 0x7f) = length_code n \<and> (b1 AND 0x80 = 0x80) = useMask"
        by (simp only: b1_def length_bytes_def Let_def if_True list.sel small_length_bits length_code_def
            byte_of64_0_small simp_thms)
    qed (simp_all add: b1_def length_bytes_def Let_def length_code_def)
  qed
  have hd: "(build_header useMask type is_fin compress n key @ rest) ! 0 = first_byte type is_fin compress"
    "(build_header useMask type is_fin compress n key @ rest) ! 1 = b1"
    using assms(1) by (simp_all add: build_header_fields b1_def length_bytes_def Let_def)
  have lc: "length_code n \<le> 127" "(length_code n = 126) = (\<not> n < 126 \<and> n < 65536)"
    "(length_code n = 127) = (\<not> n < 126 \<and> \<not> n < 65536)"
    by (auto simp: length_code_def word_less_nat_alt)
  show ?thesis
    unfolding parse_start_def hd Let_def b1 first_byte_bits [OF assms(2)] lc
    using first_byte_bits(3,4) [OF assms(2), of is_fin compress]
    by (auto simp: built_header_size_def word_less_nat_alt)
qed

lemma parse_header_build:
  assumes "length key = 4" "unat type < 16"
  shows "parse_header (build_header useMask type is_fin compress n key @ rest) =
    \<lparr> header_size = built_header_size useMask n, fin = is_fin, rsv1 = (compress \<and> type \<noteq> CONTINUATION), rsv2 = False,
      rsv3 = False, mask = useMask, opcode = type, N0 = length_code n, N = n,
      masking_key = (if useMask then key else [0, 0, 0, 0]) \<rparr>"
proof -
  obtain a b c d where key: "key = [a, b, c, d]"
    using assms(1) by (auto simp: numeral_eq_Suc length_Suc_conv)
  consider "n < 126" | "\<not> n < 126" "n < 65536" | "\<not> n < 126" "\<not> n < 65536" by blast
  then show ?thesis
  proof cases
    case 1
    then show ?thesis
      unfolding parse_header_def parse_start_build [OF assms] Let_def
      by (simp add: parse_length_def parse_key_def length_code_def word_less_nat_alt build_header_fields key length_bytes_def)
  next
    case 2
    then show ?thesis
      unfolding parse_header_def parse_start_build [OF assms] Let_def
      using decode_length16 [of n]
      by (simp add: parse_length_def parse_key_def length_code_def build_header_fields key length_bytes_def)
  next
    case 3
    then show ?thesis
      unfolding parse_header_def parse_start_build [OF assms] Let_def
      using decode_length64 [of n]
      by (simp add: parse_length_def parse_key_def length_code_def build_header_fields key length_bytes_def)
  qed
qed

subsection \<open>Framing of a byte stream\<close>

text \<open>
  What the transport needs of a wire format: a frame is recognised at the front of the buffer as
  soon as all its bytes are there and not before. Then any cutting of the stream into reads gives
  the same frames in the same order.
\<close>

text \<open>All frames at the front of a buffer, and what is left.\<close>

fun decode_n :: "(byte list \<Rightarrow> ('f \<times> nat) option) \<Rightarrow> nat \<Rightarrow> byte list \<Rightarrow> 'f list \<times> byte list" where
  "decode_n dec 0 buf = ([], buf)"
| "decode_n dec (Suc k) buf =
     (case dec buf of
        None \<Rightarrow> ([], buf)
      | Some (f, n) \<Rightarrow> (case decode_n dec k (drop n buf) of (fs, r) \<Rightarrow> (f # fs, r)))"

definition decode_all :: "(byte list \<Rightarrow> ('f \<times> nat) option) \<Rightarrow> byte list \<Rightarrow> 'f list \<times> byte list" where
  "decode_all dec buf = decode_n dec (length buf) buf"

text \<open>The frames found so far and the bytes left after each of a sequence of reads.\<close>

fun feed :: "(byte list \<Rightarrow> ('f \<times> nat) option) \<Rightarrow> 'f list \<times> byte list \<Rightarrow> byte list list \<Rightarrow> 'f list \<times> byte list" where
  "feed dec st [] = st"
| "feed dec (fs, r) (seg # segs) =
     (case decode_all dec (r @ seg) of (gs, s) \<Rightarrow> feed dec (fs @ gs, s) segs)"

locale framing =
  fixes enc :: "'f \<Rightarrow> byte list" and dec :: "byte list \<Rightarrow> ('f \<times> nat) option" and valid :: "'f \<Rightarrow> bool"
  assumes dec_progress: "dec buf = Some (f, n) \<Longrightarrow> 0 < n \<and> n \<le> length buf"
    and dec_more: "dec buf = Some (f, n) \<Longrightarrow> dec (buf @ ext) = Some (f, n)"
    and dec_enc: "valid f \<Longrightarrow> dec (enc f) = Some (f, length (enc f))"
begin

lemma decode_n_more_fuel:
  assumes "length buf \<le> k" "length buf \<le> l"
  shows "decode_n dec k buf = decode_n dec l buf"
  using assms
proof (induction k arbitrary: l buf)
  case 0
  then have "buf = []" by simp
  then have "dec buf = None" using dec_progress [of buf] by (cases "dec buf") fastforce+
  then show ?case by (cases l) simp_all
next
  case (Suc k)
  show ?case
  proof (cases "dec buf")
    case None
    then show ?thesis by (cases l) simp_all
  next
    case (Some fn)
    obtain f n where fn: "fn = (f, n)" by (cases fn)
    have n: "0 < n" "n \<le> length buf" using dec_progress Some fn by auto
    then obtain m where l: "l = Suc m" using Suc.prems by (cases l) auto
    have "decode_n dec k (drop n buf) = decode_n dec m (drop n buf)"
      by (rule Suc.IH) (use n Suc.prems l in auto)
    then show ?thesis using Some fn l by simp
  qed
qed

lemma decode_all_step:
  "decode_all dec buf =
     (case dec buf of
        None \<Rightarrow> ([], buf)
      | Some (f, n) \<Rightarrow> (case decode_all dec (drop n buf) of (fs, r) \<Rightarrow> (f # fs, r)))"
proof (cases "length buf")
  case 0
  then have "dec buf = None" using dec_progress [of buf] by (cases "dec buf") fastforce+
  then show ?thesis using 0 by (simp add: decode_all_def)
next
  case (Suc k)
  have "decode_n dec k (drop n buf) = decode_n dec (length (drop n buf)) (drop n buf)" if "dec buf = Some (f, n)" for f n
    by (rule decode_n_more_fuel) (use dec_progress [OF that] Suc in auto)
  then show ?thesis
    unfolding decode_all_def Suc decode_n.simps by (auto split: option.split)
qed

text \<open>Decoding a buffer that grew is decoding the old part first and then what was left of it
  with the new part.\<close>

lemma decode_all_append:
  "decode_all dec (buf @ ext) =
     (case decode_all dec buf of (fs, r) \<Rightarrow> case decode_all dec (r @ ext) of (gs, s) \<Rightarrow> (fs @ gs, s))"
proof (induction "length buf" arbitrary: buf rule: less_induct)
  case less
  show ?case
  proof (cases "dec buf")
    case None
    then have "decode_all dec buf = ([], buf)" by (simp add: decode_all_step [of buf])
    then show ?thesis by (auto split: prod.split)
  next
    case (Some fn)
    obtain f n where fn: "fn = (f, n)" by (cases fn)
    have n: "0 < n" "n \<le> length buf" using dec_progress Some fn by auto
    have more: "dec (buf @ ext) = Some (f, n)" using dec_more Some fn by simp
    have "decode_all dec (drop n buf @ ext) =
        (case decode_all dec (drop n buf) of (fs, r) \<Rightarrow> case decode_all dec (r @ ext) of (gs, s) \<Rightarrow> (fs @ gs, s))"
      by (rule less.hyps) (use n in auto)
    then show ?thesis
      using Some fn n more by (simp add: decode_all_step [of buf] decode_all_step [of "buf @ ext"] split_beta)
  qed
qed

text \<open>A sequence of encoded frames decodes to these frames.\<close>

lemma decode_all_encoded:
  assumes "list_all valid fs" "dec [] = None"
  shows "decode_all dec (concat (map enc fs)) = (fs, [])"
  using assms(1)
proof (induction fs)
  case Nil
  then show ?case using assms(2) by (simp add: decode_all_step [of "[]"])
next
  case (Cons f fs)
  have "dec (enc f @ concat (map enc fs)) = Some (f, length (enc f))"
    using Cons.prems by (simp add: dec_enc dec_more)
  then show ?case
    using Cons by (simp add: decode_all_step [of "enc f @ _"])
qed

text \<open>The cutting into reads does not matter.\<close>

lemma decode_all_rest:
  assumes "decode_all dec buf = (fs, r)"
  shows "decode_all dec r = ([], r)"
  using assms
proof (induction "length buf" arbitrary: buf fs rule: less_induct)
  case less
  show ?case
  proof (cases "dec buf")
    case None
    then show ?thesis using less.prems by (simp add: decode_all_step [of buf] decode_all_step [of r])
  next
    case (Some fn)
    obtain f n where fn: "fn = (f, n)" by (cases fn)
    have n: "0 < n" "n \<le> length buf" using dec_progress Some fn by auto
    obtain gs where "decode_all dec (drop n buf) = (gs, r)"
      using less.prems Some fn by (auto simp: decode_all_step [of buf] split: prod.splits)
    then show ?thesis using less.hyps [of "drop n buf" gs] n by simp
  qed
qed

lemma feed_segments:
  assumes "decode_all dec r = ([], r)"
  shows "feed dec (fs, r) segs = (case decode_all dec (r @ concat segs) of (gs, s) \<Rightarrow> (fs @ gs, s))"
  using assms
proof (induction segs arbitrary: fs r)
  case (Cons seg segs)
  obtain gs s where d: "decode_all dec (r @ seg) = (gs, s)" by (cases "decode_all dec (r @ seg)")
  show ?case
    using Cons.IH [OF decode_all_rest [OF d], of "fs @ gs"] d
    by (simp add: decode_all_append [of "r @ seg" "concat segs", simplified] split_beta)
qed simp

end

subsection \<open>The model's frames\<close>

record frame =
  f_opcode :: byte
  f_fin :: bool
  f_rsv1 :: bool
  f_key :: "byte list option"
  f_payload :: "byte list"

text \<open>The bytes \<open>sendFragment\<close> and \<open>appendToSendBuffer\<close> put into the send buffer.\<close>

definition frame_bytes :: "frame \<Rightarrow> byte list" where
  "frame_bytes f =
     (let n = length (f_payload f); key = (case f_key f of None \<Rightarrow> [0, 0, 0, 0] | Some k \<Rightarrow> k)
      in build_header (f_key f \<noteq> None) (f_opcode f) (f_fin f) (f_rsv1 f) (word_of_nat n) key
         @ (if f_key f \<noteq> None then xor_at 0 n key (f_payload f) else f_payload f))"

text \<open>The frame \<open>dispatch\<close> finds at the front of the receive buffer, with its size, when the sum
  of header size and payload length does not wrap and the reserved bits 2 and 3 are clear.\<close>

definition next_frame :: "byte list \<Rightarrow> (frame \<times> nat) option" where
  "next_frame buf =
     (if length buf < 2 then None
      else if length buf < header_size (parse_start buf) then None
      else let ws = parse_header buf; hs = header_size ws; n = unat (N ws)
           in if rsv2 ws \<or> rsv3 ws \<or> length buf < hs + n then None
              else Some (\<lparr> f_opcode = opcode ws, f_fin = fin ws, f_rsv1 = rsv1 ws,
                    f_key = (if mask ws then Some (masking_key ws) else None),
                    f_payload = take n (drop hs (if mask ws then xor_at hs n (masking_key ws) buf else buf)) \<rparr>, hs + n))"

definition valid_frame :: "frame \<Rightarrow> bool" where
  "valid_frame f \<longleftrightarrow> unat (f_opcode f) < 16 \<and> (f_rsv1 f \<longrightarrow> f_opcode f \<noteq> CONTINUATION) \<and>
     (case f_key f of None \<Rightarrow> True | Some k \<Rightarrow> length k = 4) \<and> length (f_payload f) < 2 ^ 63"

lemma parse_start_append:
  "2 \<le> length buf \<Longrightarrow> parse_start (buf @ ext) = parse_start buf"
  by (cases buf) (auto simp: parse_start_def nth_append)

lemma header_size_parse_start: "header_size (parse_start buf) =
  2 + (if N0 (parse_start buf) = 126 then 2 else 0) + (if N0 (parse_start buf) = 127 then 8 else 0) +
  (if mask (parse_start buf) then 4 else 0)"
  by (simp add: parse_start_def Let_def)

lemma N0_parse_start: "N0 (parse_start buf) \<le> 127"
proof -
  have "unat ((buf ! 1) AND 0x7f) = unat (buf ! 1) mod 128" using unat_and_mask [of "buf ! 1" 7] by (simp add: mask_numerals)
  then show ?thesis by (simp add: parse_start_def Let_def)
qed

lemma header_size_parse_header [simp]: "header_size (parse_header buf) = header_size (parse_start buf)"
  by (simp add: parse_header_def Let_def split_beta)

lemma parse_header_append:
  assumes "2 \<le> length buf" "header_size (parse_start buf) \<le> length buf"
  shows "parse_header (buf @ ext) = parse_header buf"
proof -
  define ws where "ws = parse_start buf"
  have hs: "header_size ws = 2 + (if N0 ws = 126 then 2 else 0) + (if N0 ws = 127 then 8 else 0) + (if mask ws then 4 else 0)"
    and n0: "N0 ws \<le> 127" unfolding ws_def by (rule header_size_parse_start, rule N0_parse_start)
  have len: "header_size ws \<le> length buf" using assms(2) by (simp add: ws_def)
  have pl: "parse_length ws (buf @ ext) = parse_length ws buf"
    using len hs n0 by (auto simp: parse_length_def nth_append)
  have i: "snd (parse_length ws buf) + (if mask ws then 4 else 0) = header_size ws"
    using hs n0 by (auto simp: parse_length_def)
  have pk: "parse_key ws (buf @ ext) (snd (parse_length ws buf)) = parse_key ws buf (snd (parse_length ws buf))"
    using len i by (auto simp: parse_key_def nth_append)
  show ?thesis
    unfolding parse_header_def parse_start_append [OF assms(1)] ws_def [symmetric] Let_def split_beta pl pk by simp
qed

lemma xor_at_append_right:
  "off + n \<le> length buf \<Longrightarrow> xor_at off n key (buf @ ext) = xor_at off n key buf @ ext"
  by (rule nth_equalityI) (auto simp: nth_append nth_xor_at)

lemma next_frame_bounds: "next_frame buf = Some (f, n) \<Longrightarrow> 2 \<le> n \<and> n \<le> length buf"
  using header_size_parse_start [of buf] by (auto simp: next_frame_def Let_def split: if_splits)

lemma next_frame_append:
  assumes "next_frame buf = Some (f, n)"
  shows "next_frame (buf @ ext) = Some (f, n)"
proof -
  define ws where "ws = parse_header buf"
  have c: "2 \<le> length buf" "header_size (parse_start buf) \<le> length buf" "\<not> rsv2 ws" "\<not> rsv3 ws"
    "header_size ws + unat (N ws) \<le> length buf"
    using assms by (auto simp: next_frame_def Let_def ws_def not_less split: if_splits)
  note ph = parse_header_append [OF c(1,2), of ext, folded ws_def]
  have pl: "take (unat (N ws)) (drop (header_size ws) (if mask ws then xor_at (header_size ws) (unat (N ws)) (masking_key ws) (buf @ ext) else buf @ ext)) =
    take (unat (N ws)) (drop (header_size ws) (if mask ws then xor_at (header_size ws) (unat (N ws)) (masking_key ws) buf else buf))"
    using c(5) by (simp add: xor_at_append_right)
  have "next_frame (buf @ ext) = next_frame buf"
    unfolding next_frame_def parse_start_append [OF c(1)] ph ws_def [symmetric] Let_def pl using c by simp
  then show ?thesis using assms by simp
qed

lemma next_frame_frame_bytes:
  assumes "valid_frame f"
  shows "next_frame (frame_bytes f) = Some (f, length (frame_bytes f))"
proof -
  let ?n = "length (f_payload f)" and ?m = "f_key f \<noteq> None"
  define key where "key = (case f_key f of None \<Rightarrow> [0, 0, 0, 0] | Some k \<Rightarrow> k)"
  define h where "h = build_header ?m (f_opcode f) (f_fin f) (f_rsv1 f) (word_of_nat ?n) key"
  define body where "body = (if ?m then xor_at 0 ?n key (f_payload f) else f_payload f)"
  have v: "length key = 4" "unat (f_opcode f) < 16" "f_rsv1 f \<longrightarrow> f_opcode f \<noteq> CONTINUATION" "?n < 2 ^ 63"
    using assms by (auto simp: valid_frame_def key_def split: option.splits)
  have bytes: "frame_bytes f = h @ body" by (simp add: frame_bytes_def h_def body_def key_def Let_def)
  have N: "unat (word_of_nat ?n :: u64) = ?n" using v(4) by (simp add: unat_of_nat)
  have hs: "length h = built_header_size ?m (word_of_nat ?n)" unfolding h_def by (rule length_build_header [OF v(1)])
  note ps = parse_start_build [OF v(1,2), of ?m "f_fin f" "f_rsv1 f" "word_of_nat ?n" body, folded h_def hs]
  note ph = parse_header_build [OF v(1,2), of ?m "f_fin f" "f_rsv1 f" "word_of_nat ?n" body, folded h_def hs]
  have lb: "length body = ?n" by (simp add: body_def)
  have l2: "2 \<le> length h" by (simp add: hs built_header_size_def)
  have pay: "take ?n (drop (length h) (if ?m then xor_at (length h) ?n (if ?m then key else [0, 0, 0, 0]) (h @ body) else h @ body)) = f_payload f"
    using xor_at_framed [of h "length h" "f_payload f" ?n key "[]"] by (simp add: body_def)
  have fk: "(if ?m then Some (if ?m then key else [0, 0, 0, 0]) else None) = f_key f" by (auto simp: key_def)
  have sizes: "\<not> length (h @ body) < 2" "\<not> length (h @ body) < length h" "\<not> length (h @ body) < length h + ?n"
    "length h + ?n = length (h @ body)"
    using l2 lb by auto
  have rs: "(f_rsv1 f \<and> f_opcode f \<noteq> CONTINUATION) = f_rsv1 f" using v(3) by auto
  show ?thesis
    unfolding bytes next_frame_def ps ph Let_def
    by (simp only: wsheader.simps N sizes if_False simp_thms pay fk rs)
      (cases f, simp)
qed

interpretation ws: framing frame_bytes next_frame valid_frame
proof unfold_locales
  show "0 < n \<and> n \<le> length buf" if "next_frame buf = Some (f, n)" for buf f n
    using next_frame_bounds [OF that] by auto
  show "next_frame (buf @ ext) = Some (f, n)" if "next_frame buf = Some (f, n)" for buf f n ext
    by (rule next_frame_append [OF that])
  show "next_frame (frame_bytes f) = Some (f, length (frame_bytes f))" if "valid_frame f" for f
    by (rule next_frame_frame_bytes [OF that])
qed

subsection \<open>Properties\<close>

text \<open>
  C10. The header \<open>dispatch\<close> reads is the header \<open>sendFragment\<close> wrote, for every opcode, flag,
  masking choice and every 64-bit payload length, in its three length encodings: all fields, the
  header size and the masking key come back, and the reserved bits 2 and 3 are clear.
\<close>

theorem header_roundtrip:
  assumes "length key = 4" "unat type < 16"
  shows "let h = build_header useMask type is_fin compress n key; ws = parse_header (h @ rest)
    in header_size ws = length h \<and> fin ws = is_fin \<and> rsv1 ws = (compress \<and> type \<noteq> CONTINUATION) \<and>
       \<not> rsv2 ws \<and> \<not> rsv3 ws \<and> mask ws = useMask \<and> opcode ws = type \<and> N ws = n \<and>
       (useMask \<longrightarrow> masking_key ws = key)"
  unfolding Let_def parse_header_build [OF assms] length_build_header [OF assms(1)] by simp

theorem header_roundtrip_witness:
  "let h = build_header True TEXT_FRAME True False 300 [1, 2, 3, 4]; ws = parse_header (h @ [])
   in header_size ws = length h \<and> N ws = 300 \<and> opcode ws = TEXT_FRAME"
  using header_roundtrip [of "[1, 2, 3, 4]" TEXT_FRAME True True False 300 "[]"]
  by (simp add: Let_def TEXT_FRAME_def)



end
