(* ===== verification/DeflateOptions.thy ===== *)
theory DeflateOptions
  imports Prelude
begin

section \<open>Options of the permessage-deflate extension\<close>

text \<open>
  \<^verbatim>\<open>IXWebSocketPerMessageDeflateOptions.cpp\<close>: the options a client offers and a server answers in
  the \<open>Sec-WebSocket-Extensions\<close> header, their text form and its parser. An \<open>int\<close> the parser
  reads into without initialising it has an arbitrary value, the argument \<open>garbage\<close>, a function
  of the token at hand.
\<close>

record deflate_options =
  opt_enabled :: bool
  opt_clientNoContextTakeover :: bool
  opt_serverNoContextTakeover :: bool
  opt_clientMaxWindowBits :: int
  opt_serverMaxWindowBits :: int

definition kDefaultServerMaxWindowBits :: int where
  "kDefaultServerMaxWindowBits = 15"

definition minServerMaxWindowBits :: int where
  "minServerMaxWindowBits = 8"

definition maxServerMaxWindowBits :: int where
  "maxServerMaxWindowBits = 15"

definition kDefaultClientMaxWindowBits :: int where
  "kDefaultClientMaxWindowBits = 15"

definition minClientMaxWindowBits :: int where
  "minClientMaxWindowBits = 8"

definition maxClientMaxWindowBits :: int where
  "maxClientMaxWindowBits = 15"

lemmas window_limits = kDefaultServerMaxWindowBits_def minServerMaxWindowBits_def maxServerMaxWindowBits_def
  kDefaultClientMaxWindowBits_def minClientMaxWindowBits_def maxClientMaxWindowBits_def

definition sanitizeClientMaxWindowBits :: "deflate_options \<Rightarrow> deflate_options" where
  "sanitizeClientMaxWindowBits o1 =
     (if opt_clientMaxWindowBits o1 = 8 then o1\<lparr>opt_clientMaxWindowBits := 9\<rparr> else o1)"

definition deflateOptions :: "bool \<Rightarrow> bool \<Rightarrow> bool \<Rightarrow> byte \<Rightarrow> byte \<Rightarrow> deflate_options" where
  "deflateOptions en cnct snct cbits sbits =
     sanitizeClientMaxWindowBits
       \<lparr> opt_enabled = en, opt_clientNoContextTakeover = cnct, opt_serverNoContextTakeover = snct,
         opt_clientMaxWindowBits = uint cbits, opt_serverMaxWindowBits = uint sbits \<rparr>"

definition startsWith :: "string \<Rightarrow> string \<Rightarrow> bool" where
  "startsWith str start = (take (length start) str = start)"

definition removeSpaces :: "string \<Rightarrow> string" where
  "removeSpaces str = filter (\<lambda>c. \<not> c_isspace c) str"

text \<open>\<open>token.substr(token.find_last_of("=") + 1)\<close>; without an equals sign \<open>npos + 1\<close> is 0.\<close>

definition after_last_equals :: "string \<Rightarrow> string" where
  "after_last_equals s = rev (takeWhile (\<lambda>c. c \<noteq> CHR ''='') (rev s))"

definition clamp :: "int \<Rightarrow> int \<Rightarrow> int \<Rightarrow> int" where
  "clamp lo hi x = min hi (max x lo)"

text \<open>The body of the token loop: five tests in sequence.\<close>

definition apply_token :: "(string \<Rightarrow> int) \<Rightarrow> deflate_options \<Rightarrow> string \<Rightarrow> deflate_options" where
  "apply_token garbage o1 token =
     (let o2 = (if token = ''permessage-deflate'' then o1\<lparr>opt_enabled := True\<rparr> else o1);
          o3 = (if token = ''server_no_context_takeover'' then o2\<lparr>opt_serverNoContextTakeover := True\<rparr> else o2);
          o4 = (if token = ''client_no_context_takeover'' then o3\<lparr>opt_clientNoContextTakeover := True\<rparr> else o3);
          x = extract_int (garbage token) (after_last_equals token);
          o5 = (if startsWith token ''server_max_window_bits=''
                then o4\<lparr>opt_serverMaxWindowBits := clamp minServerMaxWindowBits maxServerMaxWindowBits x\<rparr> else o4)
      in if startsWith token ''client_max_window_bits=''
         then sanitizeClientMaxWindowBits
                (o5\<lparr>opt_clientMaxWindowBits := clamp minClientMaxWindowBits maxClientMaxWindowBits x\<rparr>)
         else o5)"

definition default_options :: deflate_options where
  "default_options =
     \<lparr> opt_enabled = False, opt_clientNoContextTakeover = False, opt_serverNoContextTakeover = False,
       opt_clientMaxWindowBits = kDefaultClientMaxWindowBits, opt_serverMaxWindowBits = kDefaultServerMaxWindowBits \<rparr>"

definition parseOptions :: "(string \<Rightarrow> int) \<Rightarrow> string \<Rightarrow> deflate_options" where
  "parseOptions garbage extension =
     foldl (apply_token garbage) default_options (getlines CHR '';'' (removeSpaces extension))"

definition generateHeader :: "deflate_options \<Rightarrow> string" where
  "generateHeader o1 =
     ''Sec-WebSocket-Extensions: permessage-deflate''
     @ (if opt_clientNoContextTakeover o1 then ''; client_no_context_takeover'' else [])
     @ (if opt_serverNoContextTakeover o1 then ''; server_no_context_takeover'' else [])
     @ ''; server_max_window_bits='' @ string_of_int (opt_serverMaxWindowBits o1)
     @ ''; client_max_window_bits='' @ string_of_int (opt_clientMaxWindowBits o1)
     @ CRLF"

text \<open>The getters return the bits as \<open>uint8_t\<close>.\<close>

definition getClientMaxWindowBits :: "deflate_options \<Rightarrow> byte" where
  "getClientMaxWindowBits o1 = word_of_int (opt_clientMaxWindowBits o1)"

definition getServerMaxWindowBits :: "deflate_options \<Rightarrow> byte" where
  "getServerMaxWindowBits o1 = word_of_int (opt_serverMaxWindowBits o1)"

subsection \<open>Ranges\<close>

definition bits_in_range :: "deflate_options \<Rightarrow> bool" where
  "bits_in_range o1 \<longleftrightarrow> 9 \<le> opt_clientMaxWindowBits o1 \<and> opt_clientMaxWindowBits o1 \<le> 15 \<and>
     8 \<le> opt_serverMaxWindowBits o1 \<and> opt_serverMaxWindowBits o1 \<le> 15"

lemma in_range_flags [simp]:
  "bits_in_range (o1\<lparr>opt_enabled := b\<rparr>) = bits_in_range o1"
  "bits_in_range (o1\<lparr>opt_serverNoContextTakeover := b\<rparr>) = bits_in_range o1"
  "bits_in_range (o1\<lparr>opt_clientNoContextTakeover := b\<rparr>) = bits_in_range o1"
  by (simp_all add: bits_in_range_def)

lemma in_range_clamped:
  assumes "bits_in_range o1"
  shows "bits_in_range (o1\<lparr>opt_serverMaxWindowBits := clamp minServerMaxWindowBits maxServerMaxWindowBits x\<rparr>)"
    and "bits_in_range (sanitizeClientMaxWindowBits
      (o1\<lparr>opt_clientMaxWindowBits := clamp minClientMaxWindowBits maxClientMaxWindowBits x\<rparr>))"
  using assms by (auto simp: bits_in_range_def sanitizeClientMaxWindowBits_def clamp_def window_limits)

lemma apply_token_in_range: "bits_in_range o1 \<Longrightarrow> bits_in_range (apply_token garbage o1 token)"
  unfolding apply_token_def Let_def
  by (intro if_split [of bits_in_range, THEN iffD2] conjI impI in_range_clamped) simp_all

lemma foldl_in_range: "bits_in_range o1 \<Longrightarrow> bits_in_range (foldl (apply_token garbage) o1 ts)"
  by (induction ts arbitrary: o1) (simp_all add: apply_token_in_range)

text \<open>
  Whatever extension header the peer sends, and whatever value an uninitialised \<open>int\<close> holds,
  the parsed options give zlib window sizes it supports: 9 to 15 bits for the client (8 is raised
  to 9), 8 to 15 for the server.
\<close>

theorem parsed_bits_in_range:
  "let o1 = parseOptions garbage extension
   in 9 \<le> unat (getClientMaxWindowBits o1) \<and> unat (getClientMaxWindowBits o1) \<le> 15 \<and>
      8 \<le> unat (getServerMaxWindowBits o1) \<and> unat (getServerMaxWindowBits o1) \<le> 15"
proof -
  have "bits_in_range (parseOptions garbage extension)"
    unfolding parseOptions_def
    by (rule foldl_in_range) (simp add: bits_in_range_def default_options_def window_limits)
  moreover have "unat (word_of_int i :: byte) = nat i" if "0 \<le> i" "i < 256" for i
    using that by (simp add: unat_eq_nat_uint unsigned_of_int take_bit_int_eq_self)
  ultimately show ?thesis
    by (auto simp: Let_def bits_in_range_def getClientMaxWindowBits_def getServerMaxWindowBits_def)
qed

subsection \<open>Round trip\<close>

lemma removeSpaces_append [simp]: "removeSpaces (s @ t) = removeSpaces s @ removeSpaces t"
  by (simp add: removeSpaces_def)

lemma removeSpaces_digits: "removeSpaces (string_of_nat n) = string_of_nat n"
  unfolding removeSpaces_def
  using string_of_nat_digits [of n] by (auto simp: filter_id_conv c_isdigit_def c_isspace_def)

lemma digits_no: "\<not> c_isdigit c \<Longrightarrow> c \<notin> set (string_of_nat n)"
  using string_of_nat_digits by blast

lemma after_last_equals_digits: "after_last_equals (s @ ''='' @ string_of_nat n) = string_of_nat n"
proof -
  have "CHR ''='' \<notin> set (rev (string_of_nat n))" by (simp add: digits_no c_isdigit_def)
  then have "takeWhile (\<lambda>c. c \<noteq> CHR ''='') (rev (string_of_nat n) @ ''='' @ rev s) = rev (string_of_nat n)"
    by (subst takeWhile_append2) auto
  then show ?thesis by (simp add: after_last_equals_def)
qed

lemma apply_server_bits:
  assumes "8 \<le> n" "n \<le> 15"
  shows "apply_token g o1 (''server_max_window_bits='' @ string_of_nat n) = o1\<lparr>opt_serverMaxWindowBits := int n\<rparr>"
proof -
  have e: "after_last_equals (''server_max_window_bits='' @ string_of_nat n) = string_of_nat n"
    using after_last_equals_digits [of "''server_max_window_bits''" n] by simp
  have x: "extract_int i (string_of_nat n) = int n" for i
    using extract_int_string_of_nat [of n "[]" i] assms by (simp add: int_max_def)
  show ?thesis
    unfolding apply_token_def e x using assms
    by (simp add: Let_def startsWith_def clamp_def window_limits)
qed

lemma apply_client_bits:
  assumes "9 \<le> n" "n \<le> 15"
  shows "apply_token g o1 (''client_max_window_bits='' @ string_of_nat n) = o1\<lparr>opt_clientMaxWindowBits := int n\<rparr>"
proof -
  have e: "after_last_equals (''client_max_window_bits='' @ string_of_nat n) = string_of_nat n"
    using after_last_equals_digits [of "''client_max_window_bits''" n] by simp
  have x: "extract_int i (string_of_nat n) = int n" for i
    using extract_int_string_of_nat [of n "[]" i] assms by (simp add: int_max_def)
  show ?thesis
    unfolding apply_token_def e x using assms
    by (simp add: Let_def startsWith_def clamp_def window_limits sanitizeClientMaxWindowBits_def)
qed

lemma parse_generated_header:
  assumes "9 \<le> opt_clientMaxWindowBits o1" "opt_clientMaxWindowBits o1 \<le> 15"
    and "8 \<le> opt_serverMaxWindowBits o1" "opt_serverMaxWindowBits o1 \<le> 15"
  shows "parseOptions garbage (drop (length ''Sec-WebSocket-Extensions: '') (generateHeader o1)) = o1\<lparr>opt_enabled := True\<rparr>"
proof -
  define s c where "s = nat (opt_serverMaxWindowBits o1)" and "c = nat (opt_clientMaxWindowBits o1)"
  have sc: "string_of_int (opt_serverMaxWindowBits o1) = string_of_nat s"
    "string_of_int (opt_clientMaxWindowBits o1) = string_of_nat c"
    "int s = opt_serverMaxWindowBits o1" "int c = opt_clientMaxWindowBits o1" "8 \<le> s" "s \<le> 15" "9 \<le> c" "c \<le> 15"
    using assms by (auto simp: string_of_int_def s_def c_def)
  let ?S = "''server_max_window_bits='' @ string_of_nat s" and ?C = "''client_max_window_bits='' @ string_of_nat c"
  let ?cn = "if opt_clientNoContextTakeover o1 then ''client_no_context_takeover;'' else []"
  let ?sn = "if opt_serverNoContextTakeover o1 then ''server_no_context_takeover;'' else []"
  have lits: "removeSpaces ''permessage-deflate'' = ''permessage-deflate''"
    "removeSpaces ''; client_no_context_takeover'' = '';client_no_context_takeover''"
    "removeSpaces ''; server_no_context_takeover'' = '';server_no_context_takeover''"
    "removeSpaces ''; server_max_window_bits='' = '';server_max_window_bits=''"
    "removeSpaces ''; client_max_window_bits='' = '';client_max_window_bits=''"
    "removeSpaces CRLF = []" "removeSpaces [] = []"
    by (simp_all add: removeSpaces_def c_isspace_def CRLF_def CR_def LF_def)
  have ext: "drop (length ''Sec-WebSocket-Extensions: '') (generateHeader o1) = ''permessage-deflate''
     @ (if opt_clientNoContextTakeover o1 then ''; client_no_context_takeover'' else [])
     @ (if opt_serverNoContextTakeover o1 then ''; server_no_context_takeover'' else [])
     @ ''; server_max_window_bits='' @ string_of_nat s @ ''; client_max_window_bits='' @ string_of_nat c @ CRLF"
    by (simp add: generateHeader_def sc)
  have toks: "removeSpaces (drop (length ''Sec-WebSocket-Extensions: '') (generateHeader o1)) =
      ''permessage-deflate'' @ CHR '';'' # ?cn @ ?sn @ ?S @ CHR '';'' # ?C"
    unfolding ext removeSpaces_append if_distrib [of removeSpaces] removeSpaces_digits lits by simp
  have S: "CHR '';'' \<notin> set ?S" and C: "CHR '';'' \<notin> set ?C" "?C \<noteq> []"
    by (simp_all add: digits_no c_isdigit_def)
  have tail: "getlines CHR '';'' (?S @ CHR '';'' # ?C) = [?S, ?C]"
    by (simp only: getlines_delim [OF S] getlines_no_delim [OF C(2,1)])
  have d: "getlines CHR '';'' (''permessage-deflate'' @ CHR '';'' # r) = ''permessage-deflate'' # getlines CHR '';'' r"
    "getlines CHR '';'' (''client_no_context_takeover'' @ CHR '';'' # r) = ''client_no_context_takeover'' # getlines CHR '';'' r"
    "getlines CHR '';'' (''server_no_context_takeover'' @ CHR '';'' # r) = ''server_no_context_takeover'' # getlines CHR '';'' r"
    for r by (rule getlines_delim; simp)+
  have split: "getlines CHR '';'' (''permessage-deflate'' @ CHR '';'' # ?cn @ ?sn @ ?S @ CHR '';'' # ?C) =
      ''permessage-deflate'' # (if opt_clientNoContextTakeover o1 then [''client_no_context_takeover''] else []) @
      (if opt_serverNoContextTakeover o1 then [''server_no_context_takeover''] else []) @ [?S, ?C]"
    unfolding d(1) using tail d(2) [of "?sn @ ?S @ CHR '';'' # ?C"] d(3) [of "?S @ CHR '';'' # ?C"] by simp
  show ?thesis
    unfolding parseOptions_def toks split
    by (simp add: apply_server_bits [OF sc(5,6)] apply_client_bits [OF sc(7,8)] sc(3,4) del: append.simps)
      (simp add: apply_token_def default_options_def startsWith_def Let_def)
qed

text \<open>
  The server reads back the options the client offered, and conversely: parsing the value part
  of a generated header (what follows the header's name, the line end included) gives the same
  options, enabled.
\<close>

theorem options_roundtrip:
  assumes "9 \<le> opt_clientMaxWindowBits o1" "opt_clientMaxWindowBits o1 \<le> 15"
    and "8 \<le> opt_serverMaxWindowBits o1" "opt_serverMaxWindowBits o1 \<le> 15"
  shows "parseOptions garbage (drop (length ''Sec-WebSocket-Extensions: '') (generateHeader o1)) = o1\<lparr>opt_enabled := True\<rparr>"
  by (rule parse_generated_header [OF assms])

theorem options_roundtrip_witness:
  "parseOptions (\<lambda>_. 0) (drop (length ''Sec-WebSocket-Extensions: '') (generateHeader (deflateOptions True True False 12 10))) =
     deflateOptions True True False 12 10"
  using options_roundtrip [of "deflateOptions True True False 12 10" "\<lambda>_. 0"]
  by (simp add: deflateOptions_def sanitizeClientMaxWindowBits_def)

end
