(* ===== verification/DeflateCodec.thy ===== *)
theory DeflateCodec
  imports DeflateOptions
begin

section \<open>The permessage-deflate codec\<close>

text \<open>
  \<^verbatim>\<open>IXWebSocketPerMessageDeflateCodec.cpp\<close> and \<^verbatim>\<open>IXWebSocketPerMessageDeflate.cpp\<close>. zlib is a parameter, the
  record \<open>zlib\<close> of the four functions the code calls on a \<open>z_stream\<close> of an arbitrary type: a
  call gets the input still to read and the size of the output buffer, and gives the bytes
  written, the input left and the new stream. What the code relies on is stated as hypotheses of
  the theorems. The loops run until a call leaves room in the output buffer, so they are
  \<open>partial_function (option)\<close>; sizes are cut to 32 bits where the code casts to \<open>uInt\<close>.
\<close>

record 'z zlib =
  z_zero :: 'z
  z_deflateInit2 :: "int \<Rightarrow> 'z option"
  z_deflate :: "'z \<Rightarrow> int \<Rightarrow> string \<Rightarrow> nat \<Rightarrow> string \<times> string \<times> 'z"
  z_inflateInit2 :: "int \<Rightarrow> 'z option"
  z_inflate :: "'z \<Rightarrow> string \<Rightarrow> nat \<Rightarrow> int \<times> string \<times> string \<times> 'z"

definition Z_SYNC_FLUSH :: int where
  "Z_SYNC_FLUSH = 2"

definition Z_FULL_FLUSH :: int where
  "Z_FULL_FLUSH = 3"

text \<open>\<open>Z_NEED_DICT\<close>, \<open>Z_DATA_ERROR\<close> and \<open>Z_MEM_ERROR\<close>.\<close>

definition z_error :: "int \<Rightarrow> bool" where
  "z_error ret \<longleftrightarrow> ret = 2 \<or> ret = -3 \<or> ret = -4"

definition kEmptyUncompressedBlock :: string where
  "kEmptyUncompressedBlock = [CHR 0x00, CHR 0x00, CHR 0xFF, CHR 0xFF]"

definition kBufferSize :: nat where
  "kBufferSize = 16384"

definition uInt_prefix :: "string \<Rightarrow> string" where
  "uInt_prefix s = take (length s mod 2 ^ 32) s"

record 'z compressor =
  comp_flush :: int
  deflateState :: 'z

record 'z decompressor =
  decomp_flush :: int
  inflateState :: 'z

subsection \<open>Compressor\<close>

definition Compressor_new :: "'z zlib \<Rightarrow> 'z compressor" where
  "Compressor_new zl = \<lparr> comp_flush = 0, deflateState = z_zero zl \<rparr>"

definition compressor_init :: "'z zlib \<Rightarrow> byte \<Rightarrow> bool \<Rightarrow> 'z compressor \<Rightarrow> bool \<times> 'z compressor" where
  "compressor_init zl deflateBits clientNoContextTakeOver c =
     (case z_deflateInit2 zl (- uint deflateBits) of
        None \<Rightarrow> (False, c)
      | Some z \<Rightarrow> (True, \<lparr> comp_flush = (if clientNoContextTakeOver then Z_FULL_FLUSH else Z_SYNC_FLUSH), deflateState = z \<rparr>))"

definition endsWith :: "string \<Rightarrow> string \<Rightarrow> bool" where
  "endsWith val ending = (if length val < length ending then False else drop (length val - length ending) val = ending)"

partial_function (option) compress_loop :: "'z zlib \<Rightarrow> int \<Rightarrow> string \<Rightarrow> string \<Rightarrow> 'z \<Rightarrow> (string \<times> 'z) option" where
  "compress_loop zl flush next_in out z =
     (case z_deflate zl z flush next_in kBufferSize of (produced, left, z1) \<Rightarrow>
        if kBufferSize - length produced = 0 then compress_loop zl flush left (out @ produced) z1
        else Some (out @ produced, z1))"

definition compressor_compress :: "'z zlib \<Rightarrow> string \<Rightarrow> string \<Rightarrow> 'z compressor \<Rightarrow> (bool \<times> string \<times> 'z compressor) option" where
  "compressor_compress zl inp out c =
     (if inp = [] then Some (True, out @ [CHR 0x02, CHR 0x00, CHR 0x00, CHR 0x00, CHR 0xFF, CHR 0xFF], c)
      else case compress_loop zl (comp_flush c) (uInt_prefix inp) out (deflateState c) of
        None \<Rightarrow> None
      | Some (out', z) \<Rightarrow>
          Some (True, (if endsWith out' kEmptyUncompressedBlock then take (length out' - 4) out' else out'),
            c\<lparr>deflateState := z\<rparr>))"

subsection \<open>Decompressor\<close>

definition Decompressor_new :: "'z zlib \<Rightarrow> 'z decompressor" where
  "Decompressor_new zl = \<lparr> decomp_flush = 0, inflateState = z_zero zl \<rparr>"

definition decompressor_init :: "'z zlib \<Rightarrow> byte \<Rightarrow> bool \<Rightarrow> 'z decompressor \<Rightarrow> bool \<times> 'z decompressor" where
  "decompressor_init zl inflateBits clientNoContextTakeOver d =
     (case z_inflateInit2 zl (- uint inflateBits) of
        None \<Rightarrow> (False, d)
      | Some z \<Rightarrow> (True, \<lparr> decomp_flush = (if clientNoContextTakeOver then Z_FULL_FLUSH else Z_SYNC_FLUSH), inflateState = z \<rparr>))"

partial_function (option) decompress_loop :: "'z zlib \<Rightarrow> string \<Rightarrow> string \<Rightarrow> 'z \<Rightarrow> (bool \<times> string \<times> 'z) option" where
  "decompress_loop zl next_in out z =
     (case z_inflate zl z next_in kBufferSize of (ret, produced, left, z1) \<Rightarrow>
        if z_error ret then Some (False, out, z1)
        else if kBufferSize - length produced = 0 then decompress_loop zl left (out @ produced) z1
        else Some (True, out @ produced, z1))"

definition decompressor_decompress :: "'z zlib \<Rightarrow> string \<Rightarrow> string \<Rightarrow> 'z decompressor \<Rightarrow> (bool \<times> string \<times> 'z decompressor) option" where
  "decompressor_decompress zl inp out d =
     (let inFixed = inp @ kEmptyUncompressedBlock in
      case decompress_loop zl (uInt_prefix inFixed) out (inflateState d) of
        None \<Rightarrow> None
      | Some (ok, out', z) \<Rightarrow> Some (ok, out', d\<lparr>inflateState := z\<rparr>))"

subsection \<open>WebSocketPerMessageDeflate\<close>

record 'z perMessageDeflate =
  pmd_compressor :: "'z compressor"
  pmd_decompressor :: "'z decompressor"

definition PerMessageDeflate_new :: "'z zlib \<Rightarrow> 'z perMessageDeflate" where
  "PerMessageDeflate_new zl = \<lparr> pmd_compressor = Compressor_new zl, pmd_decompressor = Decompressor_new zl \<rparr>"

definition pmd_init :: "'z zlib \<Rightarrow> deflate_options \<Rightarrow> 'z perMessageDeflate \<Rightarrow> bool \<times> 'z perMessageDeflate" where
  "pmd_init zl opts p =
     (let noTakeover = opt_clientNoContextTakeover opts;
          deflateBits = getClientMaxWindowBits opts;
          inflateBits = getServerMaxWindowBits opts
      in case compressor_init zl deflateBits noTakeover (pmd_compressor p) of (ok1, c) \<Rightarrow>
           if \<not> ok1 then (False, p\<lparr>pmd_compressor := c\<rparr>)
           else case decompressor_init zl inflateBits noTakeover (pmd_decompressor p) of (ok2, d) \<Rightarrow>
             (ok2, \<lparr> pmd_compressor = c, pmd_decompressor = d \<rparr>))"

definition pmd_compress :: "'z zlib \<Rightarrow> string \<Rightarrow> 'z perMessageDeflate \<Rightarrow> (bool \<times> string \<times> 'z perMessageDeflate) option" where
  "pmd_compress zl inp p =
     (case compressor_compress zl inp [] (pmd_compressor p) of
        None \<Rightarrow> None
      | Some (ok, out, c) \<Rightarrow> Some (ok, out, p\<lparr>pmd_compressor := c\<rparr>))"

definition pmd_decompress :: "'z zlib \<Rightarrow> string \<Rightarrow> 'z perMessageDeflate \<Rightarrow> (bool \<times> string \<times> 'z perMessageDeflate) option" where
  "pmd_decompress zl inp p =
     (case decompressor_decompress zl inp [] (pmd_decompressor p) of
        None \<Rightarrow> None
      | Some (ok, out, d) \<Rightarrow> Some (ok, out, p\<lparr>pmd_decompressor := d\<rparr>))"

subsection \<open>What the code relies on in zlib\<close>

text \<open>
  The documented behaviour of a deflate stream in flush mode: a call consumes its input, writes as
  much of the pending output as fits, and keeps the rest for the next call; a further call without
  input produces nothing new. \<open>pend z\<close> is the output pending in the stream and \<open>enc z f m\<close> what
  the input \<open>m\<close> adds to it. The same for \<open>inflate\<close>, which reports no error on such data.
\<close>

definition deflate_stream :: "'z zlib \<Rightarrow> ('z \<Rightarrow> string) \<Rightarrow> ('z \<Rightarrow> int \<Rightarrow> string \<Rightarrow> string) \<Rightarrow> bool" where
  "deflate_stream zl pend enc \<longleftrightarrow>
     (\<forall>z f inp n. 0 < n \<longrightarrow>
       (\<exists>z'. z_deflate zl z f inp n = (take n (pend z @ enc z f inp), [], z') \<and>
         pend z' = drop n (pend z @ enc z f inp) \<and> enc z' f [] = []))"

definition inflate_stream :: "'z zlib \<Rightarrow> ('z \<Rightarrow> string) \<Rightarrow> ('z \<Rightarrow> string \<Rightarrow> string) \<Rightarrow> bool" where
  "inflate_stream zl pend dec \<longleftrightarrow>
     (\<forall>z inp n. 0 < n \<longrightarrow>
       (\<exists>ret z'. z_inflate zl z inp n = (ret, take n (pend z @ dec z inp), [], z') \<and> \<not> z_error ret \<and>
         pend z' = drop n (pend z @ dec z inp) \<and> dec z' [] = []))"

lemma compress_loop_stream:
  assumes "deflate_stream zl pend enc"
  shows "\<exists>z'. compress_loop zl f inp out z = Some (out @ pend z @ enc z f inp, z') \<and> pend z' = []"
proof (induction "length (pend z @ enc z f inp)" arbitrary: z inp out rule: less_induct)
  case less
  let ?w = "pend z @ enc z f inp"
  obtain z' where z': "z_deflate zl z f inp kBufferSize = (take kBufferSize ?w, [], z')"
    "pend z' = drop kBufferSize ?w" "enc z' f [] = []"
    using assms unfolding deflate_stream_def kBufferSize_def by (meson zero_less_numeral)
  have k: "0 < kBufferSize" by (simp add: kBufferSize_def)
  show ?case
  proof (cases "kBufferSize \<le> length ?w")
    case False
    then show ?thesis using z' k by (subst compress_loop.simps) (auto simp: not_le)
  next
    case True
    have "\<exists>z''. compress_loop zl f [] (out @ take kBufferSize ?w) z' =
        Some ((out @ take kBufferSize ?w) @ pend z' @ enc z' f [], z'') \<and> pend z'' = []"
      by (rule less.hyps) (use True k z' in auto)
    then show ?thesis
      using z' True by (subst compress_loop.simps) (auto simp del: take_append drop_append)
  qed
qed

lemma decompress_loop_stream:
  assumes "inflate_stream zl pend dec"
  shows "\<exists>z'. decompress_loop zl inp out z = Some (True, out @ pend z @ dec z inp, z') \<and> pend z' = []"
proof (induction "length (pend z @ dec z inp)" arbitrary: z inp out rule: less_induct)
  case less
  let ?w = "pend z @ dec z inp"
  obtain ret z' where z': "z_inflate zl z inp kBufferSize = (ret, take kBufferSize ?w, [], z')"
    "\<not> z_error ret" "pend z' = drop kBufferSize ?w" "dec z' [] = []"
    using assms unfolding inflate_stream_def kBufferSize_def by (meson zero_less_numeral)
  have k: "0 < kBufferSize" by (simp add: kBufferSize_def)
  show ?case
  proof (cases "kBufferSize \<le> length ?w")
    case False
    then show ?thesis using z' k by (subst decompress_loop.simps) (auto simp: not_le)
  next
    case True
    have "\<exists>z''. decompress_loop zl [] (out @ take kBufferSize ?w) z' =
        Some (True, (out @ take kBufferSize ?w) @ pend z' @ dec z' [], z'') \<and> pend z'' = []"
      by (rule less.hyps) (use True k z' in auto)
    then show ?thesis
      using z' True by (subst decompress_loop.simps) (auto simp del: take_append drop_append)
  qed
qed

subsection \<open>Properties\<close>

lemma uInt_prefix_id: "length s < 2 ^ 32 \<Longrightarrow> uInt_prefix s = s"
  by (simp add: uInt_prefix_def)

lemma endsWith_append [simp]: "endsWith (s @ e) e"
  by (simp add: endsWith_def)


text \<open>A zlib that stores: a stream is its pending output.\<close>

definition store_zlib :: "string zlib" where
  "store_zlib =
     \<lparr> z_zero = [], z_deflateInit2 = (\<lambda>_. Some []),
       z_deflate = (\<lambda>z f inp n. let w = z @ (if inp = [] then [] else inp @ kEmptyUncompressedBlock) in (take n w, [], drop n w)),
       z_inflateInit2 = (\<lambda>_. Some []),
       z_inflate = (\<lambda>z inp n. let w = z @ take (length inp - 4) inp in (0, take n w, [], drop n w)) \<rparr>"

lemma store_zlib_streams:
  "deflate_stream store_zlib id (\<lambda>z f inp. if inp = [] then [] else inp @ kEmptyUncompressedBlock)"
  "inflate_stream store_zlib id (\<lambda>z inp. take (length inp - 4) inp)"
  by (auto simp: deflate_stream_def inflate_stream_def store_zlib_def Let_def z_error_def)


text \<open>
  The empty message is the exception to the rule that the trailing empty block is removed: it
  is sent as six octets that end in 00 00 FF FF, so the decompressor feeds zlib these four octets
  twice.
\<close>

theorem empty_message_keeps_tail:
  "\<exists>p'. pmd_compress zl [] p = Some (True, [CHR 0x02, CHR 0x00] @ kEmptyUncompressedBlock, p') \<and>
     pmd_decompress zl ([CHR 0x02, CHR 0x00] @ kEmptyUncompressedBlock) q =
       map_option (\<lambda>(ok, out, i). (ok, out, q\<lparr>pmd_decompressor := (pmd_decompressor q)\<lparr>inflateState := i\<rparr>\<rparr>))
         (decompress_loop zl ([CHR 0x02, CHR 0x00] @ kEmptyUncompressedBlock @ kEmptyUncompressedBlock) []
           (inflateState (pmd_decompressor q)))"
  by (auto simp: pmd_compress_def compressor_compress_def kEmptyUncompressedBlock_def pmd_decompress_def
      decompressor_decompress_def uInt_prefix_def Let_def split: option.splits)

end
