(* ===== verification/CloseConstants.thy ===== *)
theory CloseConstants
  imports Prelude
begin

section \<open>Close codes and messages\<close>

text \<open>
  \<^verbatim>\<open>IXWebSocketCloseConstants.cpp\<close>: the 16-bit close codes and the reasons the transport uses.
\<close>

definition kNormalClosureCode :: u16 where "kNormalClosureCode = 1000"
definition kInternalErrorCode :: u16 where "kInternalErrorCode = 1011"
definition kAbnormalCloseCode :: u16 where "kAbnormalCloseCode = 1006"
definition kInvalidFramePayloadData :: u16 where "kInvalidFramePayloadData = 1007"
definition kProtocolErrorCode :: u16 where "kProtocolErrorCode = 1002"
definition kNoStatusCodeErrorCode :: u16 where "kNoStatusCodeErrorCode = 1005"

lemmas close_codes = kNormalClosureCode_def kInternalErrorCode_def kAbnormalCloseCode_def
  kInvalidFramePayloadData_def kProtocolErrorCode_def kNoStatusCodeErrorCode_def

definition kNormalClosureMessage :: string where "kNormalClosureMessage = ''Normal closure''"
definition kInternalErrorMessage :: string where "kInternalErrorMessage = ''Internal error''"
definition kAbnormalCloseMessage :: string where "kAbnormalCloseMessage = ''Abnormal closure''"
definition kPingTimeoutMessage :: string where "kPingTimeoutMessage = ''Ping timeout''"
definition kProtocolErrorMessage :: string where "kProtocolErrorMessage = ''Protocol error''"
definition kNoStatusCodeErrorMessage :: string where "kNoStatusCodeErrorMessage = ''No status code''"
definition kProtocolErrorReservedBitUsed :: string where
  "kProtocolErrorReservedBitUsed = ''Reserved bit used''"
definition kProtocolErrorPingPayloadOversized :: string where
  "kProtocolErrorPingPayloadOversized = ''Ping reason control frame with payload length > 125 octets''"
definition kProtocolErrorCodeControlMessageFragmented :: string where
  "kProtocolErrorCodeControlMessageFragmented = ''Control message fragmented''"
definition kProtocolErrorCodeDataOpcodeOutOfSequence :: string where
  "kProtocolErrorCodeDataOpcodeOutOfSequence = ''Fragmentation: data message out of sequence''"
definition kProtocolErrorCodeContinuationOpCodeOutOfSequence :: string where
  "kProtocolErrorCodeContinuationOpCodeOutOfSequence = ''Fragmentation: continuation opcode out of sequence''"
definition kInvalidFramePayloadDataMessage :: string where
  "kInvalidFramePayloadDataMessage = ''Invalid frame payload data''"
definition kInvalidCloseCodeMessage :: string where
  "kInvalidCloseCodeMessage = ''Invalid close code''"

end
