(* ===== verification/Utf8Validator.thy ===== *)
theory Utf8Validator
  imports Prelude
begin

section \<open>The streaming UTF-8 validator (IXUtf8Validator.h)\<close>

text \<open>
  A table-driven decoder: \<open>utf8d\<close> gives each byte a class and, for each state and class, the next
  state. States are the small numbers of the table, the code point is a 32-bit word. The
  reference is the encoding of a Unicode scalar value (RFC 3629): \<open>utf8_encode\<close>. The lemmas show
  that the validator accepts exactly the concatenations of encodings, and that it computes the
  code point it has read.
\<close>

subsection \<open>The model\<close>

definition utf8_accept :: nat where
  "utf8_accept = 0"

definition utf8_reject :: nat where
  "utf8_reject = 1"

definition utf8d :: "nat list" where
  "utf8d = [
      0,0,0,0,0,0,0,0,0,0,0,0,0,0,0,0,0,0,0,0,0,0,0,0,0,0,0,0,0,0,0,0,
      0,0,0,0,0,0,0,0,0,0,0,0,0,0,0,0,0,0,0,0,0,0,0,0,0,0,0,0,0,0,0,0,
      0,0,0,0,0,0,0,0,0,0,0,0,0,0,0,0,0,0,0,0,0,0,0,0,0,0,0,0,0,0,0,0,
      0,0,0,0,0,0,0,0,0,0,0,0,0,0,0,0,0,0,0,0,0,0,0,0,0,0,0,0,0,0,0,0,
      1,1,1,1,1,1,1,1,1,1,1,1,1,1,1,1,9,9,9,9,9,9,9,9,9,9,9,9,9,9,9,9,
      7,7,7,7,7,7,7,7,7,7,7,7,7,7,7,7,7,7,7,7,7,7,7,7,7,7,7,7,7,7,7,7,
      8,8,2,2,2,2,2,2,2,2,2,2,2,2,2,2,2,2,2,2,2,2,2,2,2,2,2,2,2,2,2,2,
      10,3,3,3,3,3,3,3,3,3,3,3,3,4,3,3,
      11,6,6,6,5,8,8,8,8,8,8,8,8,8,8,8,
      0,1,2,3,5,8,7,1,1,1,4,6,1,1,1,1,
      1,1,1,1,1,1,1,1,1,1,1,1,1,1,1,1,1,0,1,1,1,1,1,0,1,0,1,1,1,1,1,1,
      1,2,1,1,1,1,1,2,1,2,1,1,1,1,1,1,1,1,1,1,1,1,1,2,1,1,1,1,1,1,1,1,
      1,2,1,1,1,1,1,1,1,2,1,1,1,1,1,1,1,1,1,1,1,1,1,3,1,3,1,1,1,1,1,1,
      1,3,1,1,1,1,1,3,1,3,1,1,1,1,1,1,1,3,1,1,1,1,1,1,1,1,1,1,1,1,1,1
    ]"

definition decodeNextByte :: "nat \<Rightarrow> u32 \<Rightarrow> byte \<Rightarrow> nat \<times> u32" where
  "decodeNextByte state codep b =
     (let type = utf8d ! unat b;
          codep' = (if state \<noteq> utf8_accept
                    then (ucast b AND 0x3f) OR push_bit 6 codep
                    else drop_bit type 0xff AND ucast b);
          state' = utf8d ! (256 + state * 16 + type)
      in (state', codep'))"

record utf8_validator =
  m_state :: nat
  m_codepoint :: u32

definition Utf8Validator_init :: utf8_validator where
  "Utf8Validator_init = \<lparr>m_state = utf8_accept, m_codepoint = 0\<rparr>"

definition utf8_advance :: "utf8_validator \<Rightarrow> byte \<Rightarrow> utf8_validator" where
  "utf8_advance v b =
     (let (s, c) = decodeNextByte (m_state v) (m_codepoint v) b
      in v\<lparr>m_state := s, m_codepoint := c\<rparr>)"

definition consume :: "utf8_validator \<Rightarrow> byte \<Rightarrow> bool \<times> utf8_validator" where
  "consume v b =
     (let v' = utf8_advance v b
      in if m_state v' = utf8_reject then (False, v') else (True, v'))"

fun decode :: "utf8_validator \<Rightarrow> byte list \<Rightarrow> bool \<times> utf8_validator" where
  "decode v [] = (True, v)"
| "decode v (b # bs) =
     (let v' = utf8_advance v b
      in if m_state v' = utf8_reject then (False, v') else decode v' bs)"

definition complete :: "utf8_validator \<Rightarrow> bool" where
  "complete v \<longleftrightarrow> m_state v = utf8_accept"

definition utf8_reset :: "utf8_validator \<Rightarrow> utf8_validator" where
  "utf8_reset v = v\<lparr>m_state := utf8_accept, m_codepoint := 0\<rparr>"

definition validateUtf8 :: "byte list \<Rightarrow> bool" where
  "validateUtf8 s =
     (let (ok, v) = decode Utf8Validator_init s in if \<not> ok then False else complete v)"

subsection \<open>The reference: encodings of scalar values\<close>

definition unicode_scalar :: "nat \<Rightarrow> bool" where
  "unicode_scalar n \<longleftrightarrow> n < 0xD800 \<or> 0xE000 \<le> n \<and> n < 0x110000"

definition utf8_codes :: "nat \<Rightarrow> nat list" where
  "utf8_codes n =
     (if n < 0x80 then [n]
      else if n < 0x800 then [0xC0 + n div 64, 0x80 + n mod 64]
      else if n < 0x10000 then [0xE0 + n div 4096, 0x80 + n div 64 mod 64, 0x80 + n mod 64]
      else [0xF0 + n div 262144, 0x80 + n div 4096 mod 64, 0x80 + n div 64 mod 64, 0x80 + n mod 64])"

definition utf8_encode :: "nat \<Rightarrow> byte list" where
  "utf8_encode n = map word_of_nat (utf8_codes n)"

subsection \<open>The table as a transition function over byte ranges\<close>

definition utf8_class :: "nat \<Rightarrow> nat" where
  "utf8_class n =
     (if n < 128 then 0 else if n < 144 then 1 else if n < 160 then 9 else if n < 192 then 7
      else if n < 194 then 8 else if n < 224 then 2 else if n = 224 then 10
      else if n = 237 then 4 else if n < 240 then 3 else if n = 240 then 11
      else if n < 244 then 6 else if n = 244 then 5 else 8)"

definition utf8_delta :: "nat \<Rightarrow> nat \<Rightarrow> nat" where
  "utf8_delta s n =
     (if s = 0 then
        (if n < 128 then 0 else if n < 194 then 1 else if n < 224 then 2 else if n = 224 then 4
         else if n = 237 then 5 else if n < 240 then 3 else if n = 240 then 6
         else if n < 244 then 7 else if n = 244 then 8 else 1)
      else if s = 2 then (if 128 \<le> n \<and> n < 192 then 0 else 1)
      else if s = 3 then (if 128 \<le> n \<and> n < 192 then 2 else 1)
      else if s = 4 then (if 160 \<le> n \<and> n < 192 then 2 else 1)
      else if s = 5 then (if 128 \<le> n \<and> n < 160 then 2 else 1)
      else if s = 6 then (if 144 \<le> n \<and> n < 192 then 3 else 1)
      else if s = 7 then (if 128 \<le> n \<and> n < 192 then 3 else 1)
      else if s = 8 then (if 128 \<le> n \<and> n < 144 then 3 else 1)
      else 1)"

lemma length_utf8d: "length utf8d = 400"
  by code_simp

lemma utf8d_classes: "take 256 utf8d = map utf8_class [0..<256]"
  by code_simp

definition utf8_trans :: "nat \<Rightarrow> nat \<Rightarrow> nat" where
  "utf8_trans s c = utf8d ! (256 + s * 16 + c)"

lemma utf8d_byte: "n < 256 \<Longrightarrow> utf8d ! n = utf8_class n"
proof -
  assume n: "n < 256"
  then have "take 256 utf8d ! n = utf8d ! n" by simp
  moreover have "map utf8_class [0..<256] ! n = utf8_class n" using n by simp
  ultimately show ?thesis by (simp only: utf8d_classes)
qed

lemma utf8_trans_rows:
  "map (\<lambda>s. map (utf8_trans s) [0..<12]) [0..<9] =
    [[0,1,2,3,5,8,7,1,1,1,4,6],
     [1,1,1,1,1,1,1,1,1,1,1,1],
     [1,0,1,1,1,1,1,0,1,0,1,1],
     [1,2,1,1,1,1,1,2,1,2,1,1],
     [1,1,1,1,1,1,1,2,1,1,1,1],
     [1,2,1,1,1,1,1,1,1,2,1,1],
     [1,1,1,1,1,1,1,3,1,3,1,1],
     [1,3,1,1,1,1,1,3,1,3,1,1],
     [1,3,1,1,1,1,1,1,1,1,1,1]]"
  by code_simp

lemma utf8_trans_row:
  assumes "s < 9" and "c < 12"
  shows "utf8_trans s c =
    [[0,1,2,3,5,8,7,1,1,1,4,6],
     [1,1,1,1,1,1,1,1,1,1,1,1],
     [1,0,1,1,1,1,1,0,1,0,1,1],
     [1,2,1,1,1,1,1,2,1,2,1,1],
     [1,1,1,1,1,1,1,2,1,1,1,1],
     [1,2,1,1,1,1,1,1,1,2,1,1],
     [1,1,1,1,1,1,1,3,1,3,1,1],
     [1,3,1,1,1,1,1,3,1,3,1,1],
     [1,3,1,1,1,1,1,1,1,1,1,1]] ! s ! c"
proof -
  have "map (\<lambda>s. map (utf8_trans s) [0..<12]) [0..<9] ! s ! c = utf8_trans s c"
    using assms by simp
  then show ?thesis by (simp only: utf8_trans_rows)
qed

lemma utf8_class_bound: "utf8_class n < 12"
  by (simp add: utf8_class_def)

lemma less_9_cases: "(s::nat) < 9 \<Longrightarrow>
  s = 0 \<or> s = 1 \<or> s = 2 \<or> s = 3 \<or> s = 4 \<or> s = 5 \<or> s = 6 \<or> s = 7 \<or> s = 8"
  by arith

lemma utf8_trans_delta:
  assumes "s < 9"
  shows "utf8_trans s (utf8_class n) = utf8_delta s n"
  unfolding utf8_trans_row [OF assms utf8_class_bound]
  using less_9_cases [OF assms]
  by (elim disjE) (simp_all add: utf8_class_def utf8_delta_def)

lemma utf8_delta_bound: "utf8_delta s n < 9"
  by (simp add: utf8_delta_def)

lemma decodeNextByte_state:
  assumes "s < 9"
  shows "fst (decodeNextByte s c b) = utf8_delta s (unat b)"
  using utf8_trans_delta [OF assms, of "unat b"] unat_less_256 [of b]
  by (simp add: decodeNextByte_def Let_def utf8d_byte utf8_trans_def)

lemma advance_state:
  "m_state v < 9 \<Longrightarrow> m_state (utf8_advance v b) = utf8_delta (m_state v) (unat b)"
  using decodeNextByte_state [of "m_state v" "m_codepoint v" b]
  by (simp add: utf8_advance_def split_beta)

abbreviation utf8_run :: "nat \<Rightarrow> nat list \<Rightarrow> nat" where
  "utf8_run s ns \<equiv> foldl utf8_delta s ns"

lemma utf8_run_reject: "utf8_run (Suc 0) ns = Suc 0"
  by (induction ns) (simp_all add: utf8_delta_def)

lemma decode_accepts:
  "m_state v < 9 \<Longrightarrow>
   (fst (decode v bs) \<and> m_state (snd (decode v bs)) = 0) \<longleftrightarrow> utf8_run (m_state v) (map unat bs) = 0"
proof (induction bs arbitrary: v)
  case Nil
  then show ?case by simp
next
  case (Cons b bs)
  let ?v = "utf8_advance v b"
  have s: "m_state ?v = utf8_delta (m_state v) (unat b)"
    using Cons.prems by (rule advance_state)
  have IH: "(fst (decode ?v bs) \<and> m_state (snd (decode ?v bs)) = 0)
      \<longleftrightarrow> utf8_run (m_state ?v) (map unat bs) = 0"
    by (rule Cons.IH) (simp add: s utf8_delta_bound)
  show ?case
  proof (cases "m_state ?v = utf8_reject")
    case True
    then show ?thesis by (simp add: Let_def s [symmetric] utf8_reject_def utf8_run_reject)
  next
    case False
    with IH show ?thesis by (simp add: Let_def s [symmetric])
  qed
qed

lemma validateUtf8_run: "validateUtf8 bs \<longleftrightarrow> utf8_run 0 (map unat bs) = 0"
  using decode_accepts [of Utf8Validator_init bs]
  by (auto simp: validateUtf8_def Utf8Validator_init_def utf8_accept_def complete_def split_beta)

subsection \<open>What each state still expects\<close>

abbreviation utf8_cont :: "nat \<Rightarrow> bool" where
  "utf8_cont b \<equiv> 128 \<le> b \<and> b < 192"

lemma utf8_run_2: "utf8_run 2 ns = 0 \<longleftrightarrow> (\<exists>b r. ns = b # r \<and> utf8_cont b \<and> utf8_run 0 r = 0)"
  by (cases ns) (auto simp: utf8_delta_def [of 2] utf8_run_reject)

lemma utf8_run_3: "utf8_run 3 ns = 0 \<longleftrightarrow> (\<exists>b r. ns = b # r \<and> utf8_cont b \<and> utf8_run 2 r = 0)"
  by (cases ns) (auto simp: utf8_delta_def [of 3] utf8_run_reject)

lemma utf8_run_4: "utf8_run 4 ns = 0 \<longleftrightarrow> (\<exists>b r. ns = b # r \<and> 160 \<le> b \<and> b < 192 \<and> utf8_run 2 r = 0)"
  by (cases ns) (auto simp: utf8_delta_def [of 4] utf8_run_reject)

lemma utf8_run_5: "utf8_run 5 ns = 0 \<longleftrightarrow> (\<exists>b r. ns = b # r \<and> 128 \<le> b \<and> b < 160 \<and> utf8_run 2 r = 0)"
  by (cases ns) (auto simp: utf8_delta_def [of 5] utf8_run_reject)

lemma utf8_run_6: "utf8_run 6 ns = 0 \<longleftrightarrow> (\<exists>b r. ns = b # r \<and> 144 \<le> b \<and> b < 192 \<and> utf8_run 3 r = 0)"
  by (cases ns) (auto simp: utf8_delta_def [of 6] utf8_run_reject)

lemma utf8_run_7: "utf8_run 7 ns = 0 \<longleftrightarrow> (\<exists>b r. ns = b # r \<and> utf8_cont b \<and> utf8_run 3 r = 0)"
  by (cases ns) (auto simp: utf8_delta_def [of 7] utf8_run_reject)

lemma utf8_run_8: "utf8_run 8 ns = 0 \<longleftrightarrow> (\<exists>b r. ns = b # r \<and> 128 \<le> b \<and> b < 144 \<and> utf8_run 3 r = 0)"
  by (cases ns) (auto simp: utf8_delta_def [of 8] utf8_run_reject)

lemmas utf8_runs = utf8_run_2 utf8_run_3 utf8_run_4 utf8_run_5 utf8_run_6 utf8_run_7 utf8_run_8

text \<open>The code point with given UTF-8 bytes, for each length.\<close>

lemma base64_digit: "(z::nat) < 64 \<Longrightarrow> (64 * m + z) div 64 = m \<and> (64 * m + z) mod 64 = z"
  by auto

lemma div_4096: "(n::nat) div 4096 = n div 64 div 64"
  by (simp add: div_mult2_eq [symmetric])

lemma div_262144: "(n::nat) div 262144 = n div 64 div 64 div 64"
  by (simp add: div_mult2_eq [symmetric])

lemma utf8_codes_2:
  assumes "194 \<le> a" "a < 224" "utf8_cont b"
  shows "\<exists>n. unicode_scalar n \<and> utf8_codes n = [a, b]"
proof -
  have "192 \<le> a" using assms by simp
  then obtain x y where xy: "a = 192 + x" "b = 128 + y"
    using assms(3) by (auto simp: le_iff_add)
  let ?n = "64 * x + y"
  have "?n div 64 = x \<and> ?n mod 64 = y" using assms xy by (intro base64_digit) simp
  then have "utf8_codes ?n = [a, b]" and "unicode_scalar ?n"
    using assms xy by (simp_all add: utf8_codes_def unicode_scalar_def)
  then show ?thesis by blast
qed

lemma utf8_codes_3:
  assumes "224 \<le> a" "a < 240" "utf8_cont b" "utf8_cont c"
    and "a = 224 \<longrightarrow> 160 \<le> b" and "a = 237 \<longrightarrow> b < 160"
  shows "\<exists>n. unicode_scalar n \<and> utf8_codes n = [a, b, c]"
proof -
  obtain x y z where xyz: "a = 224 + x" "b = 128 + y" "c = 128 + z"
    using assms(1,3,4) by (auto simp: le_iff_add)
  let ?n = "64 * (64 * x + y) + z"
  have "?n div 64 = 64 * x + y \<and> ?n mod 64 = z" using assms xyz by (intro base64_digit) simp
  moreover have "(64 * x + y) div 64 = x \<and> (64 * x + y) mod 64 = y"
    using assms xyz by (intro base64_digit) simp
  moreover have r: "2048 \<le> ?n" "?n < 65536" using assms xyz by (cases "x = 0", auto)
  ultimately have "utf8_codes ?n = [a, b, c]"
    using xyz unfolding utf8_codes_def div_4096 by simp
  moreover have "x < 13 \<or> x = 13 \<or> 13 < x" by arith
  then have "unicode_scalar ?n"
    using assms xyz by (elim disjE) (auto simp: unicode_scalar_def)
  ultimately show ?thesis by blast
qed

lemma utf8_codes_4:
  assumes "240 \<le> a" "a < 245" "utf8_cont b" "utf8_cont c" "utf8_cont d"
    and "a = 240 \<longrightarrow> 144 \<le> b" and "a = 244 \<longrightarrow> b < 144"
  shows "\<exists>n. unicode_scalar n \<and> utf8_codes n = [a, b, c, d]"
proof -
  obtain w x y z where wxyz: "a = 240 + w" "b = 128 + x" "c = 128 + y" "d = 128 + z"
    using assms(1,3,4,5) by (auto simp: le_iff_add)
  let ?n = "64 * (64 * (64 * w + x) + y) + z"
  have "?n div 64 = 64 * (64 * w + x) + y \<and> ?n mod 64 = z"
    using assms wxyz by (intro base64_digit) simp
  moreover have "(64 * (64 * w + x) + y) div 64 = 64 * w + x \<and> (64 * (64 * w + x) + y) mod 64 = y"
    using assms wxyz by (intro base64_digit) simp
  moreover have "(64 * w + x) div 64 = w \<and> (64 * w + x) mod 64 = x"
    using assms wxyz by (intro base64_digit) simp
  moreover have lo: "65536 \<le> ?n" using assms wxyz by (cases "w = 0", auto)
  ultimately have "utf8_codes ?n = [a, b, c, d]"
    using wxyz unfolding utf8_codes_def div_4096 div_262144 by simp
  moreover have "?n < 0x110000" using assms wxyz by (cases "w = 4", auto)
  then have "unicode_scalar ?n" using lo by (simp add: unicode_scalar_def)
  ultimately show ?thesis by blast
qed

lemma utf8_run_first:
  assumes "utf8_run 0 (a # ns) = 0"
  shows "\<exists>n r. unicode_scalar n \<and> a # ns = utf8_codes n @ r \<and> utf8_run 0 r = 0"
proof -
  consider "a < 128" | "194 \<le> a" "a < 224" | "a = 224" | "224 < a" "a < 240" "a \<noteq> 237"
    | "a = 237" | "a = 240" | "240 < a" "a < 244" | "a = 244"
    using assms by (fastforce simp: utf8_delta_def utf8_run_reject split: if_splits)
  then show ?thesis
  proof cases
    case 1
    with assms have "unicode_scalar a \<and> a # ns = utf8_codes a @ ns \<and> utf8_run 0 ns = 0"
      by (simp add: utf8_delta_def unicode_scalar_def utf8_codes_def)
    then show ?thesis by blast
  next
    case 2
    with assms obtain b r where "ns = b # r" "utf8_cont b" "utf8_run 0 r = 0"
      by (auto simp: utf8_delta_def utf8_runs)
    with utf8_codes_2 [OF 2, of b] show ?thesis by force
  next
    case 3
    with assms obtain b c r where "ns = b # c # r" "160 \<le> b" "b < 192" "utf8_cont c" "utf8_run 0 r = 0"
      by (auto simp: utf8_delta_def utf8_runs)
    with utf8_codes_3 [of a b c] 3 show ?thesis by force
  next
    case 4
    with assms obtain b c r where "ns = b # c # r" "utf8_cont b" "utf8_cont c" "utf8_run 0 r = 0"
      by (auto simp: utf8_delta_def utf8_runs)
    with utf8_codes_3 [of a b c] 4 show ?thesis by force
  next
    case 5
    with assms obtain b c r where "ns = b # c # r" "128 \<le> b" "b < 160" "utf8_cont c" "utf8_run 0 r = 0"
      by (auto simp: utf8_delta_def utf8_runs)
    with utf8_codes_3 [of a b c] 5 show ?thesis by force
  next
    case 6
    with assms obtain b c d r where "ns = b # c # d # r" "144 \<le> b" "b < 192" "utf8_cont c"
        "utf8_cont d" "utf8_run 0 r = 0"
      by (auto simp: utf8_delta_def utf8_runs)
    with utf8_codes_4 [of a b c d] 6 show ?thesis by force
  next
    case 7
    with assms obtain b c d r where "ns = b # c # d # r" "utf8_cont b" "utf8_cont c"
        "utf8_cont d" "utf8_run 0 r = 0"
      by (auto simp: utf8_delta_def utf8_runs)
    with utf8_codes_4 [of a b c d] 7 show ?thesis by force
  next
    case 8
    with assms obtain b c d r where "ns = b # c # d # r" "128 \<le> b" "b < 144" "utf8_cont c"
        "utf8_cont d" "utf8_run 0 r = 0"
      by (auto simp: utf8_delta_def utf8_runs)
    with utf8_codes_4 [of a b c d] 8 show ?thesis by force
  qed
qed

lemma utf8_codes_nonempty: "utf8_codes n \<noteq> []"
  by (simp add: utf8_codes_def)

lemma utf8_run_sound:
  "utf8_run 0 ns = 0 \<Longrightarrow> \<exists>cs. list_all unicode_scalar cs \<and> ns = concat (map utf8_codes cs)"
proof (induction ns rule: length_induct)
  case (1 ns)
  show ?case
  proof (cases ns)
    case Nil
    then show ?thesis by (intro exI [of _ "[]"]) simp
  next
    case (Cons a as)
    with 1 obtain n r where n: "unicode_scalar n" "ns = utf8_codes n @ r" "utf8_run 0 r = 0"
      using utf8_run_first [of a as] by auto
    then have "length r < length ns" using utf8_codes_nonempty [of n] by simp
    with 1 n obtain cs where "list_all unicode_scalar cs" "r = concat (map utf8_codes cs)" by blast
    with n show ?thesis by (intro exI [of _ "n # cs"]) simp
  qed
qed

lemma three_byte_range:
  assumes "(q::nat) < 1024" "32 \<le> q" "q < 864 \<or> 896 \<le> q"
  shows "q div 64 < 16" and "q div 64 = 0 \<Longrightarrow> 32 \<le> q mod 64" and "q div 64 = 13 \<Longrightarrow> q mod 64 < 32"
proof -
  have q: "q = 64 * (q div 64) + q mod 64" "q mod 64 < 64" by simp_all
  show "q div 64 < 16" using q assms by linarith
  show "32 \<le> q mod 64" if "q div 64 = 0" using q assms that by linarith
  show "q mod 64 < 32" if "q div 64 = 13" using q assms that by linarith
qed

lemma four_byte_range:
  assumes "(q::nat) < 272" "16 \<le> q"
  shows "q div 64 < 5" and "q div 64 = 0 \<Longrightarrow> 16 \<le> q mod 64" and "q div 64 = 4 \<Longrightarrow> q mod 64 < 16"
proof -
  have q: "q = 64 * (q div 64) + q mod 64" "q mod 64 < 64" by simp_all
  show "q div 64 < 5" using q assms by linarith
  show "16 \<le> q mod 64" if "q div 64 = 0" using q assms that by linarith
  show "q mod 64 < 16" if "q div 64 = 4" using q assms that by linarith
qed

lemma utf8_run_codes: "unicode_scalar n \<Longrightarrow> utf8_run 0 (utf8_codes n) = 0"
proof -
  assume n: "unicode_scalar n"
  consider "n < 128" | "128 \<le> n" "n < 2048" | "2048 \<le> n" "n < 65536" | "65536 \<le> n" by arith
  then show ?thesis
  proof cases
    case 1
    then show ?thesis by (simp add: utf8_codes_def utf8_delta_def)
  next
    case 2
    then have "194 \<le> 192 + n div 64" "192 + n div 64 < 224" by auto
    with 2 show ?thesis by (simp add: utf8_codes_def utf8_delta_def)
  next
    case 3
    let ?a = "224 + n div 4096" and ?b = "128 + n div 64 mod 64"
    have q: "n div 64 < 1024" "32 \<le> n div 64" "n div 64 < 864 \<or> 896 \<le> n div 64"
      using 3 n by (auto simp: unicode_scalar_def)
    have "?a < 240" and a: "?a = 224 \<longrightarrow> 160 \<le> ?b" and b: "?a = 237 \<longrightarrow> ?b < 160"
      using three_byte_range [OF q] unfolding div_4096 by simp_all
    then have "utf8_run (utf8_delta 0 ?a) [?b, 128 + n mod 64] = 0"
      by (cases "?a = 224"; cases "?a = 237") (auto simp: utf8_delta_def)
    with 3 show ?thesis by (simp add: utf8_codes_def)
  next
    case 4
    let ?a = "240 + n div 262144" and ?b = "128 + n div 4096 mod 64"
    have q: "n div 64 div 64 < 272" "16 \<le> n div 64 div 64"
      using 4 n by (auto simp: unicode_scalar_def)
    have "?a < 245" and a: "?a = 240 \<longrightarrow> 144 \<le> ?b" and b: "?a = 244 \<longrightarrow> ?b < 144"
      using four_byte_range [OF q] unfolding div_4096 div_262144 by simp_all
    then have "utf8_run (utf8_delta 0 ?a) [?b, 128 + n div 64 mod 64, 128 + n mod 64] = 0"
      by (cases "?a = 240"; cases "?a = 244") (auto simp: utf8_delta_def)
    with 4 show ?thesis by (simp add: utf8_codes_def)
  qed
qed

lemma utf8_run_concat:
  "list_all unicode_scalar cs \<Longrightarrow> utf8_run 0 (concat (map utf8_codes cs)) = 0"
  by (induction cs) (simp_all add: utf8_run_codes)

lemma utf8_codes_bytes: "unicode_scalar n \<Longrightarrow> \<forall>c \<in> set (utf8_codes n). c < 256"
  by (auto simp: utf8_codes_def unicode_scalar_def)

lemma unat_utf8_encode: "unicode_scalar n \<Longrightarrow> map unat (utf8_encode n) = utf8_codes n"
  using utf8_codes_bytes [of n]
  by (simp add: utf8_encode_def unat_of_nat map_idI)

lemma map_unat_concat:
  "list_all unicode_scalar cs \<Longrightarrow>
   map unat (concat (map utf8_encode cs)) = concat (map utf8_codes cs)"
  by (induction cs) (simp_all add: unat_utf8_encode)

text \<open>
  C33. \<open>validateUtf8\<close> accepts a byte string exactly when it is a concatenation of the UTF-8
  encodings of Unicode scalar values: overlong forms, surrogates, values above U+10FFFF and
  truncated sequences are rejected, everything else is accepted.
\<close>

theorem validateUtf8_iff_encodings:
  "validateUtf8 bs \<longleftrightarrow> (\<exists>cs. list_all unicode_scalar cs \<and> bs = concat (map utf8_encode cs))"
proof
  assume "validateUtf8 bs"
  then obtain cs where cs: "list_all unicode_scalar cs" "map unat bs = concat (map utf8_codes cs)"
    using utf8_run_sound validateUtf8_run by blast
  then have "map unat bs = map unat (concat (map utf8_encode cs))"
    by (simp only: map_unat_concat)
  then have "bs = concat (map utf8_encode cs)"
    by (rule map_injective) (simp add: inj_def word_unat_eq_iff)
  with cs show "\<exists>cs. list_all unicode_scalar cs \<and> bs = concat (map utf8_encode cs)" by blast
next
  assume "\<exists>cs. list_all unicode_scalar cs \<and> bs = concat (map utf8_encode cs)"
  then show "validateUtf8 bs"
    by (auto simp: validateUtf8_run map_unat_concat utf8_run_concat simp del: map_concat)
qed

subsection \<open>The code point\<close>

lemma unat_ucast_and_mask: "unat ((ucast (b :: byte) :: u32) AND mask k) = unat b mod 2 ^ k"
proof -
  have "unat ((ucast b :: u32) AND mask k) = take_bit k (unat (ucast b :: u32))"
    by (simp only: take_bit_eq_mask [symmetric] unsigned_take_bit_eq)
  also have "unat (ucast b :: u32) = unat b"
    using unat_less_256 [of b] by (simp add: unsigned_ucast_eq take_bit_nat_eq_self)
  finally show ?thesis by (simp add: take_bit_eq_mod)
qed

lemma first_byte_codepoint:
  "unat (drop_bit t 0xff AND (ucast (b :: byte) :: u32)) = unat b mod 2 ^ (8 - t)"
proof -
  have "drop_bit t (mask 8 :: u32) = mask (8 - t)"
    by (rule bit_word_eqI) (auto simp: bit_drop_bit_eq bit_mask_iff)
  then have "drop_bit t (0xff :: u32) = mask (8 - t)" by (simp add: mask_eq_exp_minus_1)
  then show ?thesis by (simp add: and.commute [of _ "ucast b"] unat_ucast_and_mask)
qed

lemma next_byte_codepoint:
  assumes "unat c < 2 ^ 26"
  shows "unat ((ucast (b :: byte) AND 0x3f) OR push_bit 6 (c :: u32)) = 64 * unat c + unat b mod 64"
proof -
  have m: "(ucast b AND 0x3f :: u32) = take_bit 6 (ucast b)"
    by (simp add: take_bit_eq_mask mask_eq_exp_minus_1)
  have "(take_bit 6 (ucast b) :: u32) OR push_bit 6 c = take_bit 6 (ucast b) + push_bit 6 c"
    by (rule disjunctive_add [symmetric]) (simp add: bit_take_bit_iff bit_push_bit_iff)
  moreover have "unat (take_bit 6 (ucast b) :: u32) = unat b mod 64"
    using unat_ucast_and_mask [of b 6] by (simp add: take_bit_eq_mask)
  moreover have "unat (push_bit 6 c) = 64 * unat c"
    using assms unfolding unsigned_push_bit_eq by (simp add: take_bit_nat_eq_self push_bit_eq_mult)
  ultimately show ?thesis
    unfolding m using assms by (simp add: unat_word_ariths)
qed

lemma advance_first:
  "m_state v = 0 \<Longrightarrow>
   unat (m_codepoint (utf8_advance v b)) = unat b mod 2 ^ (8 - utf8_class (unat b))"
  by (simp add: utf8_advance_def decodeNextByte_def utf8_accept_def Let_def
      first_byte_codepoint utf8d_byte unat_less_256)

lemma advance_next:
  "m_state v \<noteq> 0 \<Longrightarrow> unat (m_codepoint v) < 2 ^ 26 \<Longrightarrow>
   unat (m_codepoint (utf8_advance v b)) = 64 * unat (m_codepoint v) + unat b mod 64"
  by (simp add: utf8_advance_def decodeNextByte_def utf8_accept_def Let_def next_byte_codepoint)

text \<open>The value a sequence of continuation bytes adds to a partial code point.\<close>

fun cont_value :: "nat \<Rightarrow> nat list \<Rightarrow> nat" where
  "cont_value c [] = c"
| "cont_value c (b # bs) = cont_value (64 * c + b mod 64) bs"

fun cont_states :: "nat \<Rightarrow> nat list \<Rightarrow> bool" where
  "cont_states s [] \<longleftrightarrow> s = 0"
| "cont_states s (b # bs) \<longleftrightarrow> s \<noteq> 0 \<and> s \<noteq> 1 \<and> cont_states (utf8_delta s b) bs"

lemma cont_value_ge: "c \<le> cont_value c bs"
proof (induction bs arbitrary: c)
  case (Cons b bs)
  then have "64 * c + b mod 64 \<le> cont_value (64 * c + b mod 64) bs" by blast
  then show ?case by simp
qed simp

lemma decode_continuation:
  "m_state v < 9 \<Longrightarrow> cont_states (m_state v) (map unat bs) \<Longrightarrow>
   cont_value (unat (m_codepoint v)) (map unat bs) < 2 ^ 26 \<Longrightarrow>
   fst (decode v bs) \<and> m_state (snd (decode v bs)) = 0 \<and>
   unat (m_codepoint (snd (decode v bs))) = cont_value (unat (m_codepoint v)) (map unat bs)"
proof (induction bs arbitrary: v)
  case Nil
  then show ?case by simp
next
  case (Cons b bs)
  let ?v = "utf8_advance v b"
  have s: "m_state ?v = utf8_delta (m_state v) (unat b)" by (rule advance_state) (rule Cons.prems)
  have st: "m_state v \<noteq> 0" "cont_states (m_state ?v) (map unat bs)"
    using Cons.prems(2) by (simp_all add: s)
  have "unat (m_codepoint v) < 2 ^ 26"
    using Cons.prems(3) cont_value_ge le_less_trans by blast
  with st have c: "unat (m_codepoint ?v) = 64 * unat (m_codepoint v) + unat b mod 64"
    by (intro advance_next)
  have "m_state ?v \<noteq> utf8_reject"
    using st by (cases bs) (auto simp: utf8_reject_def)
  moreover have "fst (decode ?v bs) \<and> m_state (snd (decode ?v bs)) = 0 \<and>
      unat (m_codepoint (snd (decode ?v bs))) = cont_value (unat (m_codepoint ?v)) (map unat bs)"
    using st Cons.prems(3) by (intro Cons.IH) (simp_all add: s utf8_delta_bound c [simplified s])
  ultimately show ?case by (simp add: Let_def c)
qed

lemma cont_mod: "(128 + x) mod 64 = (x::nat) mod 64"
  using mod_mult_self3 [of 2 64 x] by simp

lemma lead_byte_2: "(q::nat) < 32 \<Longrightarrow> 2 \<le> q \<Longrightarrow> (192 + q) mod 2 ^ (8 - utf8_class (192 + q)) = q"
proof -
  assume q: "q < 32" "2 \<le> q"
  then have "utf8_class (192 + q) = 2" by (simp add: utf8_class_def)
  moreover have "(192 + q) mod 64 = q" using q mod_mult_self3 [of 3 64 q] by simp
  ultimately show ?thesis by simp
qed

lemma lead_byte_3: "(q::nat) < 16 \<Longrightarrow> (224 + q) mod 2 ^ (8 - utf8_class (224 + q)) = q"
proof -
  assume q: "q < 16"
  then have "(224 + q) mod 32 = q" using mod_mult_self3 [of 7 32 q] by simp
  moreover consider "q = 0" | "q = 13" | "q \<noteq> 0" "q \<noteq> 13" by blast
  ultimately show ?thesis using q by cases (simp_all add: utf8_class_def)
qed

lemma lead_byte_4: "(q::nat) < 5 \<Longrightarrow> (240 + q) mod 2 ^ (8 - utf8_class (240 + q)) = q"
proof -
  assume "q < 5"
  then consider "q = 0" | "q = 1" | "q = 2" | "q = 3" | "q = 4" by arith
  then show ?thesis by cases (simp_all add: utf8_class_def)
qed

lemma lead_byte_value:
  assumes n: "unicode_scalar n"
  shows "\<exists>a bs. utf8_codes n = a # bs \<and> cont_states (utf8_delta 0 a) bs \<and>
           cont_value (a mod 2 ^ (8 - utf8_class a)) bs = n"
proof -
  consider "n < 128" | "128 \<le> n" "n < 2048" | "2048 \<le> n" "n < 65536" | "65536 \<le> n" by arith
  then show ?thesis
  proof cases
    case 1
    then show ?thesis by (simp add: utf8_codes_def utf8_delta_def utf8_class_def)
  next
    case 2
    then have q: "n div 64 < 32" "2 \<le> n div 64" by auto
    then have "cont_states (utf8_delta 0 (192 + n div 64)) [128 + n mod 64]"
      by (simp add: utf8_delta_def)
    with 2 q show ?thesis by (simp add: utf8_codes_def lead_byte_2 cont_mod)
  next
    case 3
    let ?a = "224 + n div 4096" and ?b = "128 + n div 64 mod 64"
    have q: "n div 64 < 1024" "32 \<le> n div 64" "n div 64 < 864 \<or> 896 \<le> n div 64"
      using 3 n by (auto simp: unicode_scalar_def)
    have a: "?a < 240" "?a = 224 \<longrightarrow> 160 \<le> ?b" "?a = 237 \<longrightarrow> ?b < 160"
      using three_byte_range [OF q] unfolding div_4096 by simp_all
    then have "cont_states (utf8_delta 0 ?a) [?b, 128 + n mod 64]"
      by (cases "?a = 224"; cases "?a = 237") (auto simp: utf8_delta_def)
    moreover have "64 * (64 * (n div 4096) + n div 64 mod 64) + n mod 64 = n"
      unfolding div_4096 by simp
    ultimately show ?thesis using 3 a by (simp add: utf8_codes_def lead_byte_3 cont_mod)
  next
    case 4
    let ?a = "240 + n div 262144" and ?b = "128 + n div 4096 mod 64"
    have q: "n div 64 div 64 < 272" "16 \<le> n div 64 div 64"
      using 4 n by (auto simp: unicode_scalar_def)
    have a: "?a < 245" "?a = 240 \<longrightarrow> 144 \<le> ?b" "?a = 244 \<longrightarrow> ?b < 144"
      using four_byte_range [OF q] unfolding div_4096 div_262144 by simp_all
    then have "cont_states (utf8_delta 0 ?a) [?b, 128 + n div 64 mod 64, 128 + n mod 64]"
      by (cases "?a = 240"; cases "?a = 244") (auto simp: utf8_delta_def)
    moreover have "64 * (64 * (64 * (n div 262144) + n div 4096 mod 64) + n div 64 mod 64) + n mod 64 = n"
      unfolding div_4096 div_262144 by simp
    ultimately show ?thesis using 4 a by (simp add: utf8_codes_def lead_byte_4 cont_mod)
  qed
qed

text \<open>
  From an accepting state the decoder reads the encoding of a scalar value without an error,
  ends in an accepting state and has that scalar value as its code point.
\<close>

theorem decode_encode_codepoint:
  assumes "unicode_scalar n" and "m_state v = utf8_accept"
  shows "\<exists>v'. decode v (utf8_encode n) = (True, v') \<and> complete v' \<and> unat (m_codepoint v') = n"
proof -
  obtain a bs where ab: "utf8_codes n = a # bs" and st: "cont_states (utf8_delta 0 a) bs"
    and val: "cont_value (a mod 2 ^ (8 - utf8_class a)) bs = n"
    using lead_byte_value [OF assms(1)] by blast
  from ab have "map unat (utf8_encode n) = a # bs" using unat_utf8_encode [OF assms(1)] by simp
  then obtain b rest where enc: "utf8_encode n = b # rest" "unat b = a" "map unat rest = bs"
    by (cases "utf8_encode n") auto
  let ?v = "utf8_advance v b"
  have s: "m_state ?v = utf8_delta 0 a"
    using advance_state [of v b] assms(2) enc by (simp add: utf8_accept_def)
  have c: "unat (m_codepoint ?v) = a mod 2 ^ (8 - utf8_class a)"
    using advance_first [of v b] assms(2) enc by (simp add: utf8_accept_def)
  have "n < 2 ^ 26" using assms(1) by (auto simp: unicode_scalar_def)
  then have d: "fst (decode ?v rest) \<and> m_state (snd (decode ?v rest)) = 0 \<and>
      unat (m_codepoint (snd (decode ?v rest))) = n"
    using decode_continuation [of ?v rest] st val c s enc by (simp add: utf8_delta_bound)
  have "m_state ?v \<noteq> utf8_reject" using st s by (cases bs) (auto simp: utf8_reject_def)
  then have "decode v (utf8_encode n) = decode ?v rest" using enc by (simp add: Let_def)
  with d show ?thesis
    by (intro exI [of _ "snd (decode ?v rest)"]) (simp add: complete_def utf8_accept_def prod_eq_iff)
qed

theorem decode_encode_codepoint_witness:
  "\<exists>v'. decode Utf8Validator_init (utf8_encode 0x20AC) = (True, v') \<and> complete v' \<and>
     unat (m_codepoint v') = 0x20AC"
  by (rule decode_encode_codepoint) (simp_all add: unicode_scalar_def Utf8Validator_init_def)

subsection \<open>Facts other components use\<close>

lemma validateUtf8_Nil [simp]: "validateUtf8 []"
  by (simp add: validateUtf8_run)

lemma validateUtf8_append: "validateUtf8 a \<Longrightarrow> validateUtf8 (a @ b) \<longleftrightarrow> validateUtf8 b"
  by (simp add: validateUtf8_run)

lemma ascii_run: "\<forall>n \<in> set ns. n < 128 \<Longrightarrow> utf8_run 0 ns = 0"
  by (induction ns) (simp_all add: utf8_delta_def)

lemma validateUtf8_ascii: "\<forall>b \<in> set bs. unat b < 128 \<Longrightarrow> validateUtf8 bs"
  by (simp add: validateUtf8_run ascii_run)

text \<open>The table is never read out of range: the states the decoder reaches are below 9.\<close>

lemma utf8_index_bound:
  assumes "s < 9"
  shows "256 + s * 16 + utf8d ! unat (b :: byte) < length utf8d"
  using assms utf8_class_bound [of "unat b"]
  by (simp add: length_utf8d utf8d_byte unat_less_256)

end
