(* ===== verification/Transport.thy ===== *)
theory Transport
  imports Frame Socket DeflateCodec CloseConstants Utf8Validator
begin

section \<open>The transport\<close>

text \<open>
  \<^verbatim>\<open>IXWebSocketTransport.cpp\<close>, from the constructor to \<open>bufferedAmount\<close> (the two connect functions
  are with the handshake). The object is a record with the code's members; the socket it owns is
  the \<^typ>\<open>socket\<close> of theory Socket. Clocks are functions of the number of times they were read, kept in
  the record \<open>tenv\<close> with zlib; callbacks are recorded in \<open>events\<close>, in order, and do not call back into the
  transport. Mutexes are not modelled: each function runs to its end. \<open>_socket\<close> is taken to be non-null, as it is
  once a connect function was called. A call ends in \<open>Ret\<close>, in an access outside a buffer
  (\<open>Fault\<close>), or not at all (\<open>Hang\<close>, when zlib keeps filling the output buffer).
\<close>

datatype 'a outcome = Ret 'a | Fault | Hang

datatype ReadyState = CLOSING | CLOSED | CONNECTING | OPEN
datatype MessageKind = MSG_TEXT | MSG_BINARY | MSG_PING | MSG_PONG | FRAGMENT
datatype PollResult = Succeeded | AbnormalClose

datatype transport_event =
  OnClose u16 string nat bool
| OnMessage string nat bool MessageKind
| OnProgress nat nat

record 'z tenv =
  steadyAt :: "nat \<Rightarrow> int"
  epochAt :: "nat \<Rightarrow> int"
  zlib :: "'z zlib"

record 'z transport =
  useMask :: bool
  rxbuf :: "byte list"
  txbuf :: "byte list"
  chunks :: "string list"
  fragmentedMessageKind :: MessageKind
  compressedMessage :: bool
  sock :: socket
  readyState :: ReadyState
  closeCode :: u16
  closeReason :: string
  closeWireSize :: nat
  closeRemote :: bool
  perMessageDeflate :: "'z perMessageDeflate"
  perMessageDeflateOptions :: deflate_options
  enablePerMessageDeflate :: bool
  requestInitCancellation :: bool
  closingTimePoint :: int
  enablePong :: bool
  pingIntervalSecs :: int
  pingTimeoutSecs :: int
  pingIntervalOrTimeoutGCDSecs :: int
  nextGCDTimePoint :: int
  lastSendPingTimePoint :: int
  lastReceivePongTimePoint :: int
  events :: "transport_event list"
  steadyReads :: nat
  epochReads :: nat

record WebSocketSendInfo =
  si_success :: bool
  si_compressionError :: bool
  si_payloadSize :: nat
  si_wireSize :: nat

definition kChunkSize :: nat where
  "kChunkSize = 32768"

definition kPingMessage :: string where
  "kPingMessage = ''ixwebsocket::heartbeat''"

definition kClosingMaximumWaitingDelayInMs :: int where
  "kClosingMaximumWaitingDelayInMs = 300"

definition seconds :: "int \<Rightarrow> int" where
  "seconds s = s * 1000000000"

definition milliseconds :: "int \<Rightarrow> int" where
  "milliseconds m = m * 1000000"

text \<open>\<open>steady_clock::now()\<close>\<close>

definition now :: "'z tenv \<Rightarrow> 'z transport \<Rightarrow> int \<times> 'z transport" where
  "now env t = (steadyAt env (steadyReads t), t\<lparr>steadyReads := steadyReads t + 1\<rparr>)"

subsection \<open>Construction and configuration\<close>

text \<open>C++ \<open>%\<close> truncates: the remainder has the sign of the dividend.\<close>

definition crem :: "int \<Rightarrow> int \<Rightarrow> int" where
  "crem a b = sgn a * (\<bar>a\<bar> mod \<bar>b\<bar>)"

function greatestCommonDivisor :: "int \<Rightarrow> int \<Rightarrow> int" where
  "greatestCommonDivisor a b = (if b \<noteq> 0 then greatestCommonDivisor b (crem a b) else a)"
  by pat_completeness auto
termination
proof (relation "measure (\<lambda>(a, b). nat \<bar>b\<bar>)")
  fix a b :: int
  assume b: "b \<noteq> 0"
  have "\<bar>sgn a * (\<bar>a\<bar> mod \<bar>b\<bar>)\<bar> < \<bar>b\<bar>"
    using b by (cases "a = 0") (auto simp: abs_mult)
  then show "((b, crem a b), a, b) \<in> measure (\<lambda>(a, b). nat \<bar>b\<bar>)"
    using b by (simp add: crem_def)
qed simp

declare greatestCommonDivisor.simps [simp del]

text \<open>The four clock reads of the constructor happen in the order of the members;
  \<open>_fragmentedMessageKind\<close> is not initialised: the argument \<open>kind\<close>.\<close>

definition Transport_new :: "'z tenv \<Rightarrow> MessageKind \<Rightarrow> socket \<Rightarrow> 'z transport" where
  "Transport_new env kind s =
     \<lparr> useMask = True, rxbuf = [], txbuf = [], chunks = [], fragmentedMessageKind = kind,
       compressedMessage = False, sock = s, readyState = CLOSED,
       closeCode = kInternalErrorCode, closeReason = kInternalErrorMessage, closeWireSize = 0, closeRemote = False,
       perMessageDeflate = PerMessageDeflate_new (zlib env),
       perMessageDeflateOptions = deflateOptions False False False 15 15,
       enablePerMessageDeflate = False, requestInitCancellation = False,
       closingTimePoint = steadyAt env 0, enablePong = True, pingIntervalSecs = -1, pingTimeoutSecs = -1,
       pingIntervalOrTimeoutGCDSecs = -1, nextGCDTimePoint = steadyAt env 1, lastSendPingTimePoint = steadyAt env 2,
       lastReceivePongTimePoint = steadyAt env 3, events = [], steadyReads = 4, epochReads = 0 \<rparr>"

definition configure :: "deflate_options \<Rightarrow> bool \<Rightarrow> int \<Rightarrow> int \<Rightarrow> 'z transport \<Rightarrow> 'z transport" where
  "configure opts pong interval timeout t =
     t\<lparr> perMessageDeflateOptions := opts, enablePerMessageDeflate := opt_enabled opts, enablePong := pong,
        pingIntervalSecs := interval, pingTimeoutSecs := timeout,
        pingIntervalOrTimeoutGCDSecs :=
          (if interval > 0 \<and> timeout > 0 then greatestCommonDivisor interval timeout
           else if timeout > 0 then timeout else interval) \<rparr>"

subsection \<open>States and timers\<close>

definition initTimePointsAndGCDAfterConnect :: "'z tenv \<Rightarrow> 'z transport \<Rightarrow> 'z transport" where
  "initTimePointsAndGCDAfterConnect env t0 =
     (let (n1, t1) = now env t0;
          t2 = t1\<lparr>lastSendPingTimePoint := n1\<rparr>;
          (n2, t3) = now env t2;
          t4 = t3\<lparr>lastReceivePongTimePoint := n2\<rparr>
      in if pingIntervalOrTimeoutGCDSecs t4 > 0
         then (let (n3, t5) = now env t4 in t5\<lparr>nextGCDTimePoint := n3 + seconds (pingIntervalOrTimeoutGCDSecs t5)\<rparr>)
         else t4)"

definition setReadyState :: "'z tenv \<Rightarrow> ReadyState \<Rightarrow> 'z transport \<Rightarrow> 'z transport" where
  "setReadyState env rs t =
     (if readyState t = rs then t
      else if rs = CLOSED then
        t\<lparr> events := events t @ [OnClose (closeCode t) (closeReason t) (closeWireSize t) (closeRemote t)],
           closeCode := kInternalErrorCode, closeReason := kInternalErrorMessage, closeWireSize := 0,
           closeRemote := False, readyState := rs \<rparr>
      else if rs = OPEN then (initTimePointsAndGCDAfterConnect env t)\<lparr>readyState := rs\<rparr>
      else t\<lparr>readyState := rs\<rparr>)"

definition pingIntervalExceeded :: "'z tenv \<Rightarrow> 'z transport \<Rightarrow> bool \<times> 'z transport" where
  "pingIntervalExceeded env t =
     (if pingIntervalSecs t \<le> 0 then (False, t)
      else let (n, t1) = now env t in (n - lastSendPingTimePoint t1 > seconds (pingIntervalSecs t1), t1))"

definition pingTimeoutExceeded :: "'z tenv \<Rightarrow> 'z transport \<Rightarrow> bool \<times> 'z transport" where
  "pingTimeoutExceeded env t =
     (if pingTimeoutSecs t \<le> 0 then (False, t)
      else let (n, t1) = now env t in (n - lastReceivePongTimePoint t1 > seconds (pingTimeoutSecs t1), t1))"

definition closingDelayExceeded :: "'z tenv \<Rightarrow> 'z transport \<Rightarrow> bool \<times> 'z transport" where
  "closingDelayExceeded env t =
     (let (n, t1) = now env t in (n - closingTimePoint t1 > milliseconds kClosingMaximumWaitingDelayInMs, t1))"

subsection \<open>Sending\<close>

definition isSendBufferEmpty :: "'z transport \<Rightarrow> bool" where
  "isSendBufferEmpty t = (txbuf t = [])"

definition bufferedAmount :: "'z transport \<Rightarrow> nat" where
  "bufferedAmount t = length (txbuf t)"

definition closeSocket :: "'z transport \<Rightarrow> 'z transport" where
  "closeSocket t = t\<lparr>sock := socket_close (sock t)\<rparr>"

definition wakeUp :: "u64 \<Rightarrow> 'z transport \<Rightarrow> 'z transport" where
  "wakeUp request t = t\<lparr>sock := snd (wakeUpFromPoll request (sock t))\<rparr>"

lemma socket_send_pos:
  assumes "socket_send s buf = (ret, s')" "0 < ret"
  shows "nat ret \<le> length buf" "0 < nat ret"
  using assms by (auto simp: socket_send_def split: if_splits list.splits send_os.splits)

function sendOnSocket :: "'z tenv \<Rightarrow> 'z transport \<Rightarrow> 'z transport" where
  "sendOnSocket env t =
     (if txbuf t = [] then t
      else case socket_send (sock t) (txbuf t) of (ret, s) \<Rightarrow>
        let t1 = t\<lparr>sock := s\<rparr>
        in if ret < 0 \<and> isWaitNeeded s then t1
           else if ret \<le> 0 then setReadyState env CLOSED (closeSocket t1)
           else sendOnSocket env (t1\<lparr>txbuf := drop (nat ret) (txbuf t1)\<rparr>))"
  by pat_completeness auto
termination
  by (relation "measure (\<lambda>(env, t). length (txbuf t))") auto

declare sendOnSocket.simps [simp del]

text \<open>Header and payload go to the end of the buffer, then the last \<open>message_size\<close> bytes are
  masked.\<close>

definition appendToSendBuffer :: "byte list \<Rightarrow> byte list \<Rightarrow> byte list \<Rightarrow> 'z transport \<Rightarrow> 'z transport" where
  "appendToSendBuffer header payload key t =
     (let buf = txbuf t @ header @ payload; n = length payload
      in t\<lparr>txbuf := (if useMask t then xor_at (length buf - n) n key buf else buf)\<rparr>)"

text \<open>Seconds since the epoch, as a 32-bit unsigned.\<close>

definition getRandomUnsigned :: "'z tenv \<Rightarrow> 'z transport \<Rightarrow> u32 \<times> 'z transport" where
  "getRandomUnsigned env t = (word_of_int (epochAt env (epochReads t)), t\<lparr>epochReads := epochReads t + 1\<rparr>)"

definition sendFragment :: "'z tenv \<Rightarrow> byte \<Rightarrow> bool \<Rightarrow> string \<Rightarrow> bool \<Rightarrow> 'z transport \<Rightarrow> 'z transport" where
  "sendFragment env type is_fin message compress t0 =
     (let payload = bytes_of message;
          (x, t) = getRandomUnsigned env t0;
          key = key_bytes x;
          header = build_header (useMask t) type is_fin compress (word_of_nat (length payload)) key
      in sendOnSocket env (appendToSendBuffer header payload key t))"

text \<open>The fragment loop: \<open>k\<close> steps are left of \<open>steps\<close>, \<open>rest\<close> runs from \<open>begin\<close> to the end.
  A progress callback that returns false ends the loop.\<close>

fun fragment_loop :: "'z tenv \<Rightarrow> byte \<Rightarrow> bool \<Rightarrow> (nat \<Rightarrow> nat \<Rightarrow> bool) option \<Rightarrow> nat \<Rightarrow> nat \<Rightarrow> string \<Rightarrow> 'z transport \<Rightarrow> 'z transport" where
  "fragment_loop env type compress progress steps 0 rest t = t"
| "fragment_loop env type compress progress steps (Suc k) rest t =
     (let i = steps - Suc k;
          firstStep = (i = 0);
          lastStep = (i + 1 = steps);
          piece = (if lastStep then rest else take kChunkSize rest);
          opcodeType = (if \<not> firstStep then CONTINUATION else type);
          t1 = sendFragment env opcodeType lastStep piece compress t
      in case progress of
           None \<Rightarrow> fragment_loop env type compress progress steps k (drop kChunkSize rest) t1
         | Some cb \<Rightarrow>
             let t2 = t1\<lparr>events := events t1 @ [OnProgress i steps]\<rparr>
             in if \<not> cb i steps then t2
                else fragment_loop env type compress progress steps k (drop kChunkSize rest) t2)"

text \<open>\<open>sendData\<close> after the compression step.\<close>

definition sendWire :: "'z tenv \<Rightarrow> byte \<Rightarrow> string \<Rightarrow> bool \<Rightarrow> (nat \<Rightarrow> nat \<Rightarrow> bool) option \<Rightarrow> 'z transport \<Rightarrow> 'z transport" where
  "sendWire env type wire compress progress t =
     (let wireSize = length wire;
          t1 = (if wireSize < kChunkSize then sendFragment env type True wire compress t
                else let steps = wireSize div kChunkSize
                     in fragment_loop env type compress progress steps steps wire t)
      in if \<not> isSendBufferEmpty t1 then wakeUp kSendRequest t1 else t1)"

definition can_send :: "'z transport \<Rightarrow> bool" where
  "can_send t \<longleftrightarrow> readyState t = OPEN \<or> readyState t = CLOSING"

definition send_failed :: WebSocketSendInfo where
  "send_failed = \<lparr>si_success = False, si_compressionError = False, si_payloadSize = 0, si_wireSize = 0\<rparr>"

text \<open>\<open>sendData\<close> with \<open>compress\<close> false, which cannot fail to return.\<close>

definition sendPlain :: "'z tenv \<Rightarrow> byte \<Rightarrow> string \<Rightarrow> (nat \<Rightarrow> nat \<Rightarrow> bool) option \<Rightarrow> 'z transport \<Rightarrow> WebSocketSendInfo \<times> 'z transport" where
  "sendPlain env type message progress t =
     (if \<not> can_send t then (send_failed, t)
      else (\<lparr>si_success = True, si_compressionError = False, si_payloadSize = length message, si_wireSize = length message\<rparr>,
            sendWire env type message False progress t))"

definition sendData :: "'z tenv \<Rightarrow> byte \<Rightarrow> string \<Rightarrow> bool \<Rightarrow> (nat \<Rightarrow> nat \<Rightarrow> bool) option \<Rightarrow> 'z transport \<Rightarrow> (WebSocketSendInfo \<times> 'z transport) outcome" where
  "sendData env type message compress progress t =
     (if \<not> compress then Ret (sendPlain env type message progress t)
      else if \<not> can_send t then Ret (send_failed, t)
      else case pmd_compress (zlib env) message (perMessageDeflate t) of
        None \<Rightarrow> Hang
      | Some (False, _, p) \<Rightarrow> Ret (send_failed\<lparr>si_compressionError := True\<rparr>, t\<lparr>perMessageDeflate := p\<rparr>)
      | Some (True, wire, p) \<Rightarrow>
          Ret (\<lparr>si_success = True, si_compressionError = False, si_payloadSize = length message, si_wireSize = length wire\<rparr>,
               sendWire env type wire True progress (t\<lparr>perMessageDeflate := p\<rparr>)))"

definition sendPing :: "'z tenv \<Rightarrow> string \<Rightarrow> 'z transport \<Rightarrow> WebSocketSendInfo \<times> 'z transport" where
  "sendPing env message t =
     (let (info, t1) = sendPlain env PING message None t
      in if si_success info then (let (n, t2) = now env t1 in (info, t2\<lparr>lastSendPingTimePoint := n\<rparr>)) else (info, t1))"

definition sendBinary :: "'z tenv \<Rightarrow> string \<Rightarrow> (nat \<Rightarrow> nat \<Rightarrow> bool) option \<Rightarrow> 'z transport \<Rightarrow> (WebSocketSendInfo \<times> 'z transport) outcome" where
  "sendBinary env message progress t = sendData env BINARY_FRAME message (enablePerMessageDeflate t) progress t"

definition sendText :: "'z tenv \<Rightarrow> string \<Rightarrow> (nat \<Rightarrow> nat \<Rightarrow> bool) option \<Rightarrow> 'z transport \<Rightarrow> (WebSocketSendInfo \<times> 'z transport) outcome" where
  "sendText env message progress t = sendData env TEXT_FRAME message (enablePerMessageDeflate t) progress t"

subsection \<open>Closing\<close>

definition sendCloseFrame :: "'z tenv \<Rightarrow> u16 \<Rightarrow> string \<Rightarrow> 'z transport \<Rightarrow> 'z transport" where
  "sendCloseFrame env status reason t =
     (if status \<noteq> kNoStatusCodeErrorCode then
        snd (sendPlain env CLOSE
          ([char_of_byte (ucast (drop_bit 8 status)), char_of_byte (ucast (status AND 0xff))] @ reason) None t)
      else snd (sendPlain env CLOSE [] None t))"

definition closeSocketAndSwitchToClosedState :: "'z tenv \<Rightarrow> u16 \<Rightarrow> string \<Rightarrow> nat \<Rightarrow> bool \<Rightarrow> 'z transport \<Rightarrow> 'z transport" where
  "closeSocketAndSwitchToClosedState env status reason wireSize remote t =
     (setReadyState env CLOSED
        ((closeSocket t)\<lparr>closeCode := status, closeReason := reason, closeWireSize := wireSize, closeRemote := remote\<rparr>))
     \<lparr>requestInitCancellation := False\<rparr>"

definition close :: "'z tenv \<Rightarrow> u16 \<Rightarrow> string \<Rightarrow> nat \<Rightarrow> bool \<Rightarrow> 'z transport \<Rightarrow> 'z transport" where
  "close env status reason wireSize remote t0 =
     (let t = t0\<lparr>requestInitCancellation := True\<rparr>
      in if readyState t = CLOSING \<or> readyState t = CLOSED then t
         else let size = (if wireSize = 0 then length reason else wireSize);
                  t1 = t\<lparr>closeCode := status, closeReason := reason, closeWireSize := size, closeRemote := remote\<rparr>;
                  (n, t2) = now env t1;
                  t3 = setReadyState env CLOSING (t2\<lparr>closingTimePoint := n\<rparr>);
                  t4 = sendCloseFrame env status reason t3
              in wakeUp kSendRequest t4)"

subsection \<open>What sending and closing leave alone\<close>

text \<open>The receiving side's fields: none of the operations so far changes them.\<close>

definition receive_part where
  "receive_part t = (rxbuf t, chunks t, fragmentedMessageKind t, compressedMessage t, useMask t,
     enablePerMessageDeflate t, enablePong t)"

lemma receive_part_fields:
  assumes "receive_part t' = receive_part t"
  shows "rxbuf t' = rxbuf t" "chunks t' = chunks t" "fragmentedMessageKind t' = fragmentedMessageKind t"
    "compressedMessage t' = compressedMessage t" "useMask t' = useMask t"
    "enablePerMessageDeflate t' = enablePerMessageDeflate t" "enablePong t' = enablePong t"
  using assms by (simp_all add: receive_part_def)

lemma receive_part_updates [simp]:
  "receive_part (t\<lparr>txbuf := a\<rparr>) = receive_part t"
  "receive_part (t\<lparr>sock := b\<rparr>) = receive_part t"
  "receive_part (t\<lparr>readyState := c\<rparr>) = receive_part t"
  "receive_part (t\<lparr>closeCode := d\<rparr>) = receive_part t"
  "receive_part (t\<lparr>closeReason := e\<rparr>) = receive_part t"
  "receive_part (t\<lparr>closeWireSize := f\<rparr>) = receive_part t"
  "receive_part (t\<lparr>closeRemote := g\<rparr>) = receive_part t"
  "receive_part (t\<lparr>requestInitCancellation := h\<rparr>) = receive_part t"
  "receive_part (t\<lparr>closingTimePoint := i\<rparr>) = receive_part t"
  "receive_part (t\<lparr>nextGCDTimePoint := j\<rparr>) = receive_part t"
  "receive_part (t\<lparr>lastSendPingTimePoint := k\<rparr>) = receive_part t"
  "receive_part (t\<lparr>lastReceivePongTimePoint := l\<rparr>) = receive_part t"
  "receive_part (t\<lparr>events := m\<rparr>) = receive_part t"
  "receive_part (t\<lparr>steadyReads := n\<rparr>) = receive_part t"
  "receive_part (t\<lparr>epochReads := o1\<rparr>) = receive_part t"
  "receive_part (t\<lparr>perMessageDeflate := p\<rparr>) = receive_part t"
  by (simp_all add: receive_part_def)

lemma receive_part_timers [simp]:
  "receive_part (snd (now env t)) = receive_part t"
  "receive_part (initTimePointsAndGCDAfterConnect env t) = receive_part t"
  "receive_part (setReadyState env rs t) = receive_part t"
  "receive_part (closeSocket t) = receive_part t"
  "receive_part (wakeUp r t) = receive_part t"
  "receive_part (snd (getRandomUnsigned env t)) = receive_part t"
  by (simp_all add: now_def initTimePointsAndGCDAfterConnect_def setReadyState_def closeSocket_def wakeUp_def
      getRandomUnsigned_def Let_def split_beta)

lemma receive_part_append [simp]: "receive_part (appendToSendBuffer h p k t) = receive_part t"
  by (simp add: appendToSendBuffer_def Let_def)

lemma receive_part_sendOnSocket [simp]: "receive_part (sendOnSocket env t) = receive_part t"
proof (induction env t rule: sendOnSocket.induct)
  case (1 env t)
  then show ?case
    by (subst sendOnSocket.simps) (auto simp: Let_def split: prod.split)
qed

lemma receive_part_sendFragment [simp]: "receive_part (sendFragment env ty f m c t) = receive_part t"
  by (simp add: sendFragment_def Let_def split_beta)

lemma receive_part_fragment_loop [simp]:
  "receive_part (fragment_loop env ty c progress steps k rest t) = receive_part t"
  by (cases progress; induction k arbitrary: rest t) (simp_all add: Let_def)

lemma receive_part_sendWire [simp]: "receive_part (sendWire env ty w c progress t) = receive_part t"
  by (simp add: sendWire_def Let_def)

lemma receive_part_sendPlain [simp]: "receive_part (snd (sendPlain env ty m progress t)) = receive_part t"
  by (simp add: sendPlain_def)

lemma receive_part_sendData: "sendData env ty m c progress t = Ret (info, t') \<Longrightarrow> receive_part t' = receive_part t"
  by (auto simp: sendData_def sendPlain_def split: if_splits option.splits bool.splits)

lemma receive_part_close [simp]:
  "receive_part (sendCloseFrame env c r t) = receive_part t"
  "receive_part (closeSocketAndSwitchToClosedState env c r w rem t) = receive_part t"
  "receive_part (close env c r w rem t) = receive_part t"
  by (simp_all add: sendCloseFrame_def closeSocketAndSwitchToClosedState_def close_def Let_def split_beta)

lemmas receive_fields = receive_part_fields [OF receive_part_close(3)] receive_part_fields [OF receive_part_close(2)]
  receive_part_fields [OF receive_part_close(1)] receive_part_fields [OF receive_part_sendPlain]

end
