(* ===== verification/TlsSockets.thy ===== *)
theory TlsSockets
  imports SocketConnect Transport
begin

section \<open>Sockets over TLS\<close>

text \<open>
  \<^verbatim>\<open>IXSocketOpenSSL.cpp\<close>, \<^verbatim>\<open>IXSocketMbedTLS.cpp\<close>, \<^verbatim>\<open>IXSocketAppleSSL.cpp\<close> and \<^verbatim>\<open>IXSocketSChannel.cpp\<close>. Each is a socket
  whose connect, close, send and recv go through a TLS library, which is a parameter: what its calls
  will answer is a script, as for the system calls, and what it took from the caller is collected. The
  calls that may be repeated for ever answer by their number. A call that does not return is
  \<^const>\<open>None\<close>. Lengths are below \<^term>\<open>(2::nat) ^ 31\<close>, where the code converts them to \<open>int\<close>. The locale
  \<open>byte_stream\<close> is what the inherited transfers need of \<open>send\<close>. Transfers are made after a successful
  \<open>connect\<close>. Numbers of errors are those of Linux.
\<close>

subsection \<open>The contract of a stream\<close>

text \<open>\<open>Socket::writeBytes\<close> over the \<open>send\<close> of a derived class; \<open>k\<close> counts the questions for cancellation, and
  \<open>wait_needed\<close> reads \<open>errno\<close>.\<close>

partial_function (option) stream_writeBytes ::
  "('s \<Rightarrow> byte list \<Rightarrow> (int \<times> 's) option) \<Rightarrow> ('s \<Rightarrow> bool) \<Rightarrow> (nat \<Rightarrow> bool) \<Rightarrow> nat \<Rightarrow> byte list \<Rightarrow> 's \<Rightarrow> (bool \<times> 's) option" where
  "stream_writeBytes send wait_needed cancel k rest s =
     (if cancel k then Some (False, s)
      else Option.bind (send s rest) (\<lambda>(ret, s1).
        if 0 < ret then
          (if ret = int (length rest) then Some (True, s1) else stream_writeBytes send wait_needed cancel (Suc k) (drop (nat ret) rest) s1)
        else if ret < 0 \<and> wait_needed s1 then stream_writeBytes send wait_needed cancel (Suc k) rest s1
        else Some (False, s1)))"

locale byte_stream =
  fixes send :: "'s \<Rightarrow> byte list \<Rightarrow> (int \<times> 's) option"
    and out :: "'s \<Rightarrow> byte list"
    and good :: "'s \<Rightarrow> bool"
  assumes send_effect: "good s \<Longrightarrow> send s buf = Some (ret, s') \<Longrightarrow>
    good s' \<and> out s' = out s @ take (nat ret) buf \<and> ret \<le> int (length buf)"
begin

lemma stream_write_effect:
  assumes "stream_writeBytes send wait_needed cancel k rest s = Some y" "good s"
  shows "\<exists>n \<le> length rest. out (snd y) = out s @ take n rest \<and> (fst y \<longrightarrow> n = length rest)"
proof -
  let ?Q = "\<lambda>rest s y. \<exists>n \<le> length rest. out (snd y) = out s @ take n rest \<and> (fst y \<longrightarrow> n = length rest)"
  have "send = send \<longrightarrow> good s \<longrightarrow> ?Q rest s y"
  proof (rule stream_writeBytes.raw_induct [OF _ assms(1), where P = "\<lambda>sd w c k rest s y. sd = send \<longrightarrow> good s \<longrightarrow> ?Q rest s y"], intro impI)
    fix loop :: "('s \<Rightarrow> byte list \<Rightarrow> (int \<times> 's) option) \<Rightarrow> ('s \<Rightarrow> bool) \<Rightarrow> (nat \<Rightarrow> bool) \<Rightarrow> nat \<Rightarrow> byte list \<Rightarrow> 's \<Rightarrow> (bool \<times> 's) option"
    fix sd :: "'s \<Rightarrow> byte list \<Rightarrow> (int \<times> 's) option" and w c k rest s y
    assume rec: "\<And>sd w c k rest s y. loop sd w c k rest s = Some y \<Longrightarrow> sd = send \<longrightarrow> good s \<longrightarrow> ?Q rest s y"
    assume body: "(if c k then Some (False, s)
      else Option.bind (sd s rest) (\<lambda>(ret, s1).
        if 0 < ret then (if ret = int (length rest) then Some (True, s1) else loop sd w c (Suc k) (drop (nat ret) rest) s1)
        else if ret < 0 \<and> w s1 then loop sd w c (Suc k) rest s1 else Some (False, s1))) = Some y"
    assume sd: "sd = send" and g: "good s"
    show "?Q rest s y"
    proof (cases "c k")
      case False
      then obtain ret s1 where r: "send s rest = Some (ret, s1)" using body sd by (auto simp: Option.bind_eq_Some_conv)
      note e = send_effect [OF g r]
      have "(if 0 < ret then (if ret = int (length rest) then Some (True, s1) else loop sd w c (Suc k) (drop (nat ret) rest) s1)
          else if ret < 0 \<and> w s1 then loop sd w c (Suc k) rest s1 else Some (False, s1)) = Some y"
        using body False r sd by (simp only: if_False Option.bind.simps prod.case)
      then consider "ret \<le> 0" "y = (False, s1)" | "0 < ret" "ret = int (length rest)" "y = (True, s1)"
        | "0 < ret" "loop sd w c (Suc k) (drop (nat ret) rest) s1 = Some y" | "ret < 0" "loop sd w c (Suc k) rest s1 = Some y"
        by (metis not_less option.inject)
      then show ?thesis
      proof cases
        case 3
        obtain n where n: "n \<le> length rest - nat ret" "out (snd y) = out s1 @ take n (drop (nat ret) rest)" "fst y \<longrightarrow> n = length rest - nat ret"
          using rec [OF 3(2)] sd e by auto
        have "out (snd y) = out s @ take (nat ret + n) rest" using n(2) e by (simp add: take_add)
        then show ?thesis using n(1,3) e by (intro exI [of _ "nat ret + n"]) auto
      next
        case 4
        then show ?thesis using rec [OF 4(2)] sd e by simp
      qed (use e in auto)
    qed (use body in auto)
  qed
  then show ?thesis using assms(2) by simp
qed

end

definition send_total :: "('s \<Rightarrow> byte list \<Rightarrow> int \<times> 's) \<Rightarrow> 's \<Rightarrow> byte list \<Rightarrow> (int \<times> 's) option" where
  "send_total f s buf = Some (f s buf)"

interpretation plain: byte_stream "send_total socket_send" wire_out "\<lambda>_. True"
  by unfold_locales (use socket_send_effect in \<open>auto simp: send_total_def\<close>)

subsection \<open>OpenSSL\<close>

datatype ssl_reason = SslNone | SslProtocol | SslWantRead | SslWantWrite | SslWantX509Lookup | SslSyscall | SslZeroReturn
  | SslWantConnect | SslWantAccept | SslOther

text \<open>A write takes the whole buffer or, with \<open>Some n\<close>, at most \<open>n\<close> octets; the latter is the mode for partial writes,
  which the code does not set.\<close>

datatype tls_write = TlsWrote "nat option" | TlsWriteFail ssl_reason
datatype tls_read = TlsData "byte list" | TlsReadFail ssl_reason

record openssl =
  ssl_base :: socket
  ssl_connection :: bool
  ssl_context :: bool
  ssl_writes :: "tls_write list"
  ssl_reads :: "tls_read list"
  ssl_out :: "byte list"
  ssl_objects :: nat
  ssl_certs :: nat

text \<open>\<open>ssl_objects\<close> counts the contexts and connections of the library that are allocated, \<open>ssl_certs\<close> the
  references to certificates.\<close>

definition SocketOpenSSL_new :: "socket \<Rightarrow> tls_write list \<Rightarrow> tls_read list \<Rightarrow> openssl" where
  "SocketOpenSSL_new base ws rs =
     \<lparr>ssl_base = base, ssl_connection = False, ssl_context = False, ssl_writes = ws, ssl_reads = rs, ssl_out = [], ssl_objects = 0, ssl_certs = 0\<rparr>"

datatype general_name = DnsName string | OtherName

record certificate =
  cert_names :: "general_name list option"
  cert_subject :: "(bool \<times> string) list"

text \<open>The entries of the subject say whether they are common names.\<close>

record ssl_config =
  cf_verify_peer :: bool
  cf_server_name :: string
  cf_host :: "string option"

record ssl_env =
  sv_net :: net
  sv_version :: nat
  sv_initialized :: bool
  sv_method :: bool
  sv_context :: bool
  sv_paths :: bool
  sv_new :: bool
  sv_connect :: "ssl_config \<Rightarrow> nat \<Rightarrow> int \<times> ssl_reason"
  sv_cert :: "certificate option"
  sv_error :: nat
  sv_error_string :: "nat \<Rightarrow> string"
  sv_fnmatch :: "string \<Rightarrow> string \<Rightarrow> int"

definition FNM_NOMATCH :: int where
  "FNM_NOMATCH = 1"

definition wants :: "ssl_reason \<Rightarrow> bool" where
  "wants r = (r = SslWantRead \<or> r = SslWantWrite)"

definition getSSLError :: "ssl_env \<Rightarrow> ssl_reason \<Rightarrow> int \<Rightarrow> string" where
  "getSSLError env err ret =
     (if err = SslWantConnect \<or> err = SslWantAccept then ''OpenSSL failed - connection failure''
      else if err = SslWantX509Lookup then ''OpenSSL failed - x509 error''
      else if err = SslSyscall then
        (if sv_error env > 0 then ''OpenSSL failed - '' @ sv_error_string env (sv_error env)
         else if ret = 0 then ''OpenSSL failed - received early EOF''
         else ''OpenSSL failed - underlying BIO reported an I/O error'')
      else if err = SslProtocol then ''OpenSSL failed - '' @ sv_error_string env (sv_error env)
      else if err = SslNone then ''OpenSSL failed - err none''
      else if err = SslZeroReturn then ''OpenSSL failed - err zero return''
      else ''OpenSSL failed - unknown error'')"

definition openSSLCreateContext :: "ssl_env \<Rightarrow> string \<Rightarrow> bool \<times> string" where
  "openSSLCreateContext env errMsg =
     (if \<not> sv_method env then (False, ''SSLv23_client_method failure'') else (sv_context env, errMsg))"

definition checkHost :: "ssl_env \<Rightarrow> string \<Rightarrow> string \<Rightarrow> bool" where
  "checkHost env hostname pattern = (sv_fnmatch env pattern (c_str hostname) \<noteq> FNM_NOMATCH)"

text \<open>A name with a NUL in it is passed over.\<close>

definition name_matches :: "ssl_env \<Rightarrow> string \<Rightarrow> string \<Rightarrow> bool" where
  "name_matches env hostname name = (length name = length (c_str name) \<and> checkHost env hostname (c_str name))"

definition alternative_name_matches :: "ssl_env \<Rightarrow> string \<Rightarrow> certificate \<Rightarrow> bool" where
  "alternative_name_matches env hostname cert =
     (case cert_names cert of
        None \<Rightarrow> False
      | Some names \<Rightarrow> list_ex (\<lambda>n. case n of DnsName name \<Rightarrow> name_matches env hostname name | OtherName \<Rightarrow> False) names)"

fun common_name_index :: "int \<Rightarrow> (bool \<times> string) list \<Rightarrow> int" where
  "common_name_index i [] = - 1"
| "common_name_index i ((cn, v) # es) = (if cn then i else common_name_index (i + 1) es)"

text \<open>The test of the position takes the first place for none, and none for a place, where no entry is found.\<close>

definition common_name_matches :: "ssl_env \<Rightarrow> string \<Rightarrow> certificate \<Rightarrow> bool" where
  "common_name_matches env hostname cert =
     (let cn_pos = common_name_index 0 (cert_subject cert)
      in if cn_pos = 0 then False
         else if cn_pos < 0 then False
         else name_matches env hostname (snd (cert_subject cert ! nat cn_pos)))"

definition openSSLCheckServerCert :: "ssl_env \<Rightarrow> string \<Rightarrow> string \<Rightarrow> openssl \<Rightarrow> bool \<times> string \<times> openssl" where
  "openSSLCheckServerCert env hostname errMsg s =
     (case sv_cert env of
        None \<Rightarrow> (False, ''OpenSSL failed - peer didn't present a X509 certificate.'', s)
      | Some cert \<Rightarrow>
          if sv_version env < 0x10100000 \<and> \<not> alternative_name_matches env hostname cert \<and> \<not> common_name_matches env hostname cert
          then (False, ''OpenSSL failed - certificate was issued for a different domain.'', s\<lparr>ssl_certs := ssl_certs s + 1\<rparr>)
          else (True, errMsg, s))"

partial_function (option) openSSLHandshake ::
  "ssl_env \<Rightarrow> ssl_config \<Rightarrow> string \<Rightarrow> nat \<Rightarrow> string \<Rightarrow> openssl \<Rightarrow> (bool \<times> string \<times> openssl) option" where
  "openSSLHandshake env cfg hostname k errMsg s =
     (if \<not> ssl_connection s \<or> \<not> ssl_context s then Some (False, errMsg, s)
      else case sv_connect env cfg k of (connect_result, reason) \<Rightarrow>
        if connect_result = 1 then Some (openSSLCheckServerCert env hostname errMsg s)
        else if wants reason then openSSLHandshake env cfg hostname (k + 1) errMsg s
        else Some (False, getSSLError env reason connect_result, s))"

definition openssl_close :: "openssl \<Rightarrow> openssl" where
  "openssl_close s =
     s\<lparr>ssl_connection := False, ssl_context := False,
       ssl_objects := ssl_objects s - of_bool (ssl_connection s) - of_bool (ssl_context s), ssl_base := socket_close (ssl_base s)\<rparr>"

definition openssl_config :: "ssl_env \<Rightarrow> string \<Rightarrow> ssl_config" where
  "openssl_config env hostname =
     \<lparr>cf_verify_peer = True, cf_server_name = c_str hostname,
      cf_host = (if sv_version env \<ge> 0x10002000 then Some (c_str hostname) else None)\<rparr>"

text \<open>The part of \<open>connect\<close> that follows the connection of the descriptor.\<close>

definition openssl_secure :: "ssl_env \<Rightarrow> string \<Rightarrow> string \<Rightarrow> openssl \<Rightarrow> (bool \<times> string \<times> openssl) option" where
  "openssl_secure env hostname errMsg s =
     (case openSSLCreateContext env errMsg of
        (created, errMsg1) \<Rightarrow>
          if \<not> created then Some (False, errMsg1, s\<lparr>ssl_context := False\<rparr>)
          else let errMsg2 = (if sv_paths env then errMsg1
                 else ''OpenSSL failed - SSL_CTX_default_verify_paths loading failed: '' @ sv_error_string env (sv_error env))
               in if \<not> sv_new env then Some (False, ''OpenSSL failed to connect'', s\<lparr>ssl_context := False, ssl_connection := False\<rparr>)
                  else Option.bind (openSSLHandshake env (openssl_config env hostname) hostname 0 errMsg2
                      (s\<lparr>ssl_context := True, ssl_connection := True, ssl_objects := ssl_objects s + 2\<rparr>)) (\<lambda>(ok, errMsg3, s1).
                    Some (ok, errMsg3, if ok then s1 else openssl_close s1)))"

definition openssl_connect :: "ssl_env \<Rightarrow> string \<Rightarrow> int \<Rightarrow> (nat \<Rightarrow> bool) \<Rightarrow> openssl \<Rightarrow> (bool \<times> string \<times> openssl) option" where
  "openssl_connect env hostname portnr cancel s =
     (if \<not> sv_initialized env then Some (False, ''OPENSSL_init_ssl failure'', s)
      else Option.bind (SocketConnect_connect (sv_net env) hostname portnr cancel (ssl_base s)) (\<lambda>(fd, errMsg, b).
        let s1 = s\<lparr>ssl_base := b\<lparr>sockfd := fd\<rparr>\<rparr>
        in if fd = - 1 then Some (False, errMsg, s1) else openssl_secure env hostname errMsg s1))"

text \<open>\<open>errno\<close> is set when the call would block only.\<close>

definition fail_io :: "ssl_reason \<Rightarrow> socket \<Rightarrow> socket" where
  "fail_io r b = (if wants r then b\<lparr>sys_errno := EAGAIN\<rparr> else b)"

function openssl_send_loop :: "nat \<Rightarrow> byte list \<Rightarrow> openssl \<Rightarrow> int \<times> openssl" where
  "openssl_send_loop sent buf s =
     (if buf = [] then (int sent, s)
      else if \<not> ssl_connection s \<or> \<not> ssl_context s then (0, s)
      else case ssl_writes s of
        [] \<Rightarrow> (- 1, s\<lparr>ssl_base := fail_io SslWantWrite (ssl_base s)\<rparr>)
      | TlsWrote m # ws \<Rightarrow>
          let n = (case m of None \<Rightarrow> length buf | Some n \<Rightarrow> min n (length buf))
          in openssl_send_loop (sent + n) (drop n buf) (s\<lparr>ssl_writes := ws, ssl_out := ssl_out s @ take n buf\<rparr>)
      | TlsWriteFail r # ws \<Rightarrow> (- 1, s\<lparr>ssl_writes := ws, ssl_base := fail_io r (ssl_base s)\<rparr>))"
  by pat_completeness auto

termination openssl_send_loop
  by (relation "measure (\<lambda>(sent, buf, s). length (ssl_writes s))") auto

declare openssl_send_loop.simps [simp del]

definition openssl_send :: "openssl \<Rightarrow> byte list \<Rightarrow> int \<times> openssl" where
  "openssl_send s buf = openssl_send_loop 0 buf s"

definition openssl_recv :: "openssl \<Rightarrow> nat \<Rightarrow> int \<times> byte list \<times> openssl" where
  "openssl_recv s nbyte =
     (if \<not> ssl_connection s \<or> \<not> ssl_context s then (0, [], s)
      else case ssl_reads s of
        [] \<Rightarrow> (- 1, [], s\<lparr>ssl_base := fail_io SslWantRead (ssl_base s)\<rparr>)
      | TlsData bs # rs \<Rightarrow>
          if bs = [] then (- 1, [], s\<lparr>ssl_reads := rs\<rparr>)
          else if length bs \<le> nbyte then (int (length bs), bs, s\<lparr>ssl_reads := rs\<rparr>)
          else (int nbyte, take nbyte bs, s\<lparr>ssl_reads := TlsData (drop nbyte bs) # rs\<rparr>)
      | TlsReadFail r # rs \<Rightarrow> (- 1, [], s\<lparr>ssl_reads := rs, ssl_base := fail_io r (ssl_base s)\<rparr>))"

subsection \<open>mbedTLS\<close>

text \<open>
  The members are set up by \<open>init\<close>, which follows the connection of the descriptor; until then they hold no
  values, and freeing them is undefined, \<^const>\<open>Fault\<close>. A call that does not return is \<^const>\<open>Hang\<close>. A write
  takes all it is given or, as the library does for more than a record, a part.
\<close>

record mbedtls =
  mt_base :: socket
  mt_initialised :: bool
  mt_writes :: "tls_write list"
  mt_reads :: "tls_read list"
  mt_out :: "byte list"

record mbedtls_env =
  mv_net :: net
  mv_seed :: int
  mv_defaults :: int
  mv_setup :: int
  mv_hostname :: "string \<Rightarrow> int"
  mv_handshake :: "nat \<Rightarrow> int"
  mv_strerror :: "int \<Rightarrow> string"

definition SocketMbedTLS_new :: "socket \<Rightarrow> tls_write list \<Rightarrow> tls_read list \<Rightarrow> mbedtls" where
  "SocketMbedTLS_new base ws rs = \<lparr>mt_base = base, mt_initialised = False, mt_writes = ws, mt_reads = rs, mt_out = []\<rparr>"

definition MBEDTLS_ERR_SSL_WANT_READ :: int where
  "MBEDTLS_ERR_SSL_WANT_READ = - 0x6900"

definition MBEDTLS_ERR_SSL_WANT_WRITE :: int where
  "MBEDTLS_ERR_SSL_WANT_WRITE = - 0x6880"

definition mbedtls_init :: "mbedtls_env \<Rightarrow> string \<Rightarrow> string \<Rightarrow> mbedtls \<Rightarrow> bool \<times> string \<times> mbedtls" where
  "mbedtls_init env hostname errMsg s0 =
     (let s = s0\<lparr>mt_initialised := True\<rparr>
      in if mv_seed env \<noteq> 0 then (False, ''Setting entropy seed failed'', s)
         else if mv_defaults env \<noteq> 0 then (False, ''Setting config default failed'', s)
         else if mv_setup env \<noteq> 0 then (False, ''SSL setup failed'', s)
         else if mv_hostname env (c_str hostname) \<noteq> 0 then (False, ''SNI setup failed'', s)
         else (True, errMsg, s))"

definition mbedtls_close :: "mbedtls \<Rightarrow> mbedtls outcome" where
  "mbedtls_close s = (if \<not> mt_initialised s then Fault else Ret (s\<lparr>mt_base := socket_close (mt_base s)\<rparr>))"

partial_function (option) mbedtls_handshake :: "(nat \<Rightarrow> int) \<Rightarrow> nat \<Rightarrow> int option" where
  "mbedtls_handshake answers k =
     (let res = answers k
      in if res = MBEDTLS_ERR_SSL_WANT_READ \<or> res = MBEDTLS_ERR_SSL_WANT_WRITE then mbedtls_handshake answers (k + 1) else Some res)"

definition mbedtls_abort :: "string \<Rightarrow> mbedtls \<Rightarrow> (bool \<times> string \<times> mbedtls) outcome" where
  "mbedtls_abort errMsg s = (case mbedtls_close s of Ret s1 \<Rightarrow> Ret (False, errMsg, s1) | Fault \<Rightarrow> Fault | Hang \<Rightarrow> Hang)"

definition mbedtls_connect :: "mbedtls_env \<Rightarrow> string \<Rightarrow> int \<Rightarrow> (nat \<Rightarrow> bool) \<Rightarrow> mbedtls \<Rightarrow> (bool \<times> string \<times> mbedtls) outcome" where
  "mbedtls_connect env hostname portnr cancel s =
     (case SocketConnect_connect (mv_net env) hostname portnr cancel (mt_base s) of
        None \<Rightarrow> Hang
      | Some (fd, errMsg, b) \<Rightarrow>
          let s1 = s\<lparr>mt_base := b\<lparr>sockfd := fd\<rparr>\<rparr>
          in if fd = - 1 then Ret (False, errMsg, s1)
             else case mbedtls_init env hostname errMsg s1 of
               (ok, errMsg1, s2) \<Rightarrow>
                 if \<not> ok then mbedtls_abort errMsg1 s2
                 else (case mbedtls_handshake (mv_handshake env) 0 of
                    None \<Rightarrow> Hang
                  | Some res \<Rightarrow> if res \<noteq> 0 then mbedtls_abort (''error in handshake : '' @ mv_strerror env res) s2 else Ret (True, errMsg1, s2)))"

text \<open>The buffer stays where it is after a write that took a part of it.\<close>

function mbedtls_send_loop :: "nat \<Rightarrow> nat \<Rightarrow> byte list \<Rightarrow> mbedtls \<Rightarrow> int \<times> mbedtls" where
  "mbedtls_send_loop sent nbyte buf s =
     (if nbyte = 0 then (int sent, s)
      else case mt_writes s of
        [] \<Rightarrow> (- 1, s\<lparr>mt_base := fail_io SslWantWrite (mt_base s)\<rparr>)
      | TlsWrote m # ws \<Rightarrow>
          let n = (case m of None \<Rightarrow> nbyte | Some n \<Rightarrow> min n nbyte)
          in if n = 0 then (- 1, s\<lparr>mt_writes := ws\<rparr>)
             else mbedtls_send_loop (sent + n) (nbyte - n) buf (s\<lparr>mt_writes := ws, mt_out := mt_out s @ take n buf\<rparr>)
      | TlsWriteFail r # ws \<Rightarrow> (- 1, s\<lparr>mt_writes := ws, mt_base := fail_io r (mt_base s)\<rparr>))"
  by pat_completeness auto

termination mbedtls_send_loop
  by (relation "measure (\<lambda>(sent, nbyte, buf, s). length (mt_writes s))") auto

declare mbedtls_send_loop.simps [simp del]

definition mbedtls_send :: "mbedtls \<Rightarrow> byte list \<Rightarrow> int \<times> mbedtls" where
  "mbedtls_send s buf = mbedtls_send_loop 0 (length buf) buf s"

definition mbedtls_recv :: "mbedtls \<Rightarrow> nat \<Rightarrow> int \<times> byte list \<times> mbedtls" where
  "mbedtls_recv s nbyte =
     (case mt_reads s of
        [] \<Rightarrow> (- 1, [], s\<lparr>mt_base := fail_io SslWantRead (mt_base s)\<rparr>)
      | TlsData bs # rs \<Rightarrow>
          if bs = [] then (- 1, [], s\<lparr>mt_reads := rs\<rparr>)
          else if length bs \<le> nbyte then (int (length bs), bs, s\<lparr>mt_reads := rs\<rparr>)
          else (int nbyte, take nbyte bs, s\<lparr>mt_reads := TlsData (drop nbyte bs) # rs\<rparr>)
      | TlsReadFail r # rs \<Rightarrow> (- 1, [], s\<lparr>mt_reads := rs, mt_base := fail_io r (mt_base s)\<rparr>))"

subsection \<open>Secure Transport\<close>

datatype OSStatus = noErr | errSSLWouldBlock | errSSLServerAuthCompleted | errSSLClosedGraceful | errSSLClosedNoNotify
  | errSSLClosedAbort | errSecIO | errSSLInternal | OtherStatus int

definition ENOENT :: int where
  "ENOENT = 2"

definition ECONNRESET :: int where
  "ECONNRESET = 104"

text \<open>The transfers that the library calls back, with the octets they moved.\<close>

definition read_from_socket :: "socket \<Rightarrow> nat \<Rightarrow> OSStatus \<times> byte list \<times> socket" where
  "read_from_socket s requested_sz =
     (if sockfd s < 0 then (errSSLInternal, [], s)
      else case socket_recv s requested_sz of
        (status, bs, s1) \<Rightarrow>
          if status > 0 then (if int requested_sz > status then errSSLWouldBlock else noErr, bs, s1)
          else if status = 0 then (errSSLClosedGraceful, [], s1)
          else (if sys_errno s1 = ENOENT then errSSLClosedGraceful else if sys_errno s1 = EAGAIN then errSSLWouldBlock
                else if sys_errno s1 = ECONNRESET then errSSLClosedAbort else errSecIO, [], s1))"

definition write_to_socket :: "socket \<Rightarrow> byte list \<Rightarrow> OSStatus \<times> nat \<times> socket" where
  "write_to_socket s data =
     (if sockfd s < 0 then (errSSLInternal, length data, s)
      else case socket_send s data of
        (status, s1) \<Rightarrow>
          if status > 0 then (if int (length data) > status then errSSLWouldBlock else noErr, nat status, s1)
          else if status = 0 then (errSSLClosedGraceful, 0, s1)
          else (if sys_errno s1 = EAGAIN then errSSLWouldBlock else errSecIO, 0, s1))"

record applessl =
  ap_base :: socket
  ap_context :: bool
  ap_write :: "nat \<Rightarrow> nat \<times> OSStatus"
  ap_calls :: nat
  ap_reads :: "(byte list \<times> OSStatus) list"
  ap_out :: "byte list"

record applessl_env =
  av_net :: net
  av_context :: bool
  av_handshake :: "nat \<Rightarrow> OSStatus"
  av_description :: "OSStatus \<Rightarrow> string option"

definition SocketAppleSSL_new :: "socket \<Rightarrow> (nat \<Rightarrow> nat \<times> OSStatus) \<Rightarrow> (byte list \<times> OSStatus) list \<Rightarrow> applessl" where
  "SocketAppleSSL_new base ws rs = \<lparr>ap_base = base, ap_context = False, ap_write = ws, ap_calls = 0, ap_reads = rs, ap_out = []\<rparr>"

definition getSSLErrorDescription :: "applessl_env \<Rightarrow> OSStatus \<Rightarrow> string" where
  "getSSLErrorDescription env status = (case av_description env status of None \<Rightarrow> ''Unknown SSL error.'' | Some localBuffer \<Rightarrow> localBuffer)"

partial_function (option) apple_handshake :: "(nat \<Rightarrow> OSStatus) \<Rightarrow> nat \<Rightarrow> OSStatus option" where
  "apple_handshake answers k =
     (let status = answers k
      in if status = errSSLWouldBlock \<or> status = errSSLServerAuthCompleted then apple_handshake answers (k + 1) else Some status)"

definition apple_close :: "applessl \<Rightarrow> applessl" where
  "apple_close s = (if \<not> ap_context s then s else s\<lparr>ap_context := False, ap_base := socket_close (ap_base s)\<rparr>)"

definition apple_connect :: "applessl_env \<Rightarrow> string \<Rightarrow> int \<Rightarrow> (nat \<Rightarrow> bool) \<Rightarrow> applessl \<Rightarrow> (bool \<times> string \<times> applessl) option" where
  "apple_connect env hostname portnr cancel s =
     Option.bind (SocketConnect_connect (av_net env) hostname portnr cancel (ap_base s)) (\<lambda>(fd, errMsg, b).
       let s1 = s\<lparr>ap_base := b\<lparr>sockfd := fd\<rparr>\<rparr>
       in if fd = - 1 then Some (False, errMsg, s1)
          else let s2 = s1\<lparr>ap_context := av_context env\<rparr>
               in Option.bind (apple_handshake (av_handshake env) 0) (\<lambda>status.
                 if status \<noteq> noErr then Some (False, getSSLErrorDescription env status, apple_close s2) else Some (True, errMsg, s2)))"

partial_function (option) apple_send_loop :: "int \<Rightarrow> byte list \<Rightarrow> applessl \<Rightarrow> (int \<times> applessl) option" where
  "apple_send_loop ret buf s =
     (case ap_write s (ap_calls s) of
        (taken, status) \<Rightarrow>
          let processed = min taken (length buf);
              ret1 = ret + int processed;
              buf1 = drop processed buf;
              s1 = s\<lparr>ap_calls := ap_calls s + 1, ap_out := ap_out s @ take processed buf\<rparr>
          in if buf1 \<noteq> [] \<and> errSSLWouldBlock = status then apple_send_loop ret1 buf1 s1
             else Some (if ret1 = 0 \<and> errSSLClosedAbort \<noteq> status then - 1 else ret1, s1))"

definition apple_send :: "applessl \<Rightarrow> byte list \<Rightarrow> (int \<times> applessl) option" where
  "apple_send s buf = apple_send_loop 0 buf s"

text \<open>No branch of the loop repeats it but the one for a call that would block, which has returned by then.\<close>

definition apple_recv :: "applessl \<Rightarrow> nat \<Rightarrow> int \<times> byte list \<times> applessl" where
  "apple_recv s nbyte =
     (case ap_reads s of
        [] \<Rightarrow> (- 1, [], s\<lparr>ap_base := (ap_base s)\<lparr>sys_errno := EAGAIN\<rparr>\<rparr>)
      | (bs, status) # rs \<Rightarrow>
          if bs \<noteq> [] then
            (if length bs \<le> nbyte then (int (length bs), bs, s\<lparr>ap_reads := rs\<rparr>)
             else (int nbyte, take nbyte bs, s\<lparr>ap_reads := (drop nbyte bs, status) # rs\<rparr>))
          else (- 1, [], s\<lparr>ap_reads := rs,
            ap_base := (if status \<in> {errSSLClosedGraceful, errSSLClosedNoNotify, errSSLClosedAbort} then (ap_base s)\<lparr>sys_errno := ECONNRESET\<rparr>
              else if status = errSSLWouldBlock then (ap_base s)\<lparr>sys_errno := EAGAIN\<rparr> else ap_base s)\<rparr>))"

subsection \<open>Schannel, and the choice of a class\<close>

text \<open>The class for Windows hands every call to the plain socket.\<close>

definition schannel_connect :: "net \<Rightarrow> string \<Rightarrow> int \<Rightarrow> socket \<Rightarrow> (bool \<times> string \<times> socket) option" where
  "schannel_connect net hostname portnr s = socket_connect net hostname portnr (\<lambda>_. False) s"

definition schannel_close :: "socket \<Rightarrow> socket" where
  "schannel_close s = socket_close s"

definition schannel_send :: "socket \<Rightarrow> byte list \<Rightarrow> int \<times> socket" where
  "schannel_send s buf = socket_send s buf"

definition schannel_recv :: "socket \<Rightarrow> nat \<Rightarrow> int \<times> byte list \<times> socket" where
  "schannel_recv s nbyte = socket_recv s nbyte"

datatype socket_class = PlainSocket | MbedTLSSocket | AppleSSLSocket | SChannelSocket | OpenSSLSocket

record build =
  USE_TLS :: bool
  USE_MBED_TLS :: bool
  on_apple :: bool
  on_windows :: bool

definition createSocket_class :: "build \<Rightarrow> bool \<Rightarrow> socket_class option" where
  "createSocket_class b tls =
     (if \<not> tls then Some PlainSocket
      else if \<not> USE_TLS b then None
      else if USE_MBED_TLS b then Some MbedTLSSocket
      else if on_apple b then Some AppleSSLSocket
      else if on_windows b then Some SChannelSocket
      else Some OpenSSLSocket)"

end
