(* ===== verification/TlsProperties.thy ===== *)
theory TlsProperties
  imports TlsSockets
begin

section \<open>What the TLS sockets keep of a socket\<close>

text \<open>
  The classes of \<open>TlsSockets\<close> against the contract \<open>byte_stream\<close>, the checks behind a successful connect over
  OpenSSL, and what is held after a close.
\<close>

subsection \<open>Sending\<close>

fun partial_write :: "tls_write \<Rightarrow> bool" where
  "partial_write (TlsWrote (Some n)) = True"
| "partial_write _ = False"

definition whole_writes :: "tls_write list \<Rightarrow> bool" where
  "whole_writes ws = list_all (\<lambda>w. \<not> partial_write w) ws"

lemma openssl_send_effect:
  assumes "openssl_send_loop sent buf s = (ret, s')" "whole_writes (ssl_writes s)"
  shows "whole_writes (ssl_writes s') \<and> (ret = int sent + int (length buf) \<and> ssl_out s' = ssl_out s @ buf \<or> ret \<le> 0 \<and> ssl_out s' = ssl_out s)"
proof (cases "buf = []")
  case True
  then show ?thesis using assms by (simp add: openssl_send_loop.simps)
next
  case False
  show ?thesis
  proof (cases "ssl_connection s \<and> ssl_context s \<and> (\<exists>ws. ssl_writes s = TlsWrote None # ws)")
    case True
    then obtain ws where "ssl_writes s = TlsWrote None # ws" by blast
    then show ?thesis using assms True False
      by (subst (asm) openssl_send_loop.simps) (auto simp: openssl_send_loop.simps [of _ "[]"] whole_writes_def)
  next
    case other: False
    then show ?thesis using assms False
      by (subst (asm) openssl_send_loop.simps) (auto simp: whole_writes_def split: if_splits list.splits tls_write.splits option.splits)
  qed
qed

interpretation openssl: byte_stream "send_total openssl_send" ssl_out "\<lambda>s. whole_writes (ssl_writes s)"
proof unfold_locales
  fix s buf ret s'
  assume "whole_writes (ssl_writes s)" "send_total openssl_send s buf = Some (ret, s')"
  then show "whole_writes (ssl_writes s') \<and> ssl_out s' = ssl_out s @ take (nat ret) buf \<and> ret \<le> int (length buf)"
    using openssl_send_effect [of 0 buf s ret s'] by (auto simp: send_total_def openssl_send_def)
qed

lemma mbedtls_send_effect:
  assumes "mbedtls_send s buf = (ret, s')" "whole_writes (mt_writes s)"
  shows "whole_writes (mt_writes s') \<and> (ret = int (length buf) \<and> mt_out s' = mt_out s @ buf \<or> ret \<le> 0 \<and> mt_out s' = mt_out s)"
proof (cases "buf = []")
  case True
  then show ?thesis using assms by (simp add: mbedtls_send_def mbedtls_send_loop.simps)
next
  case nonempty: False
  show ?thesis
  proof (cases "\<exists>ws. mt_writes s = TlsWrote None # ws")
    case True
    then obtain ws where "mt_writes s = TlsWrote None # ws" by blast
    then show ?thesis using assms nonempty unfolding mbedtls_send_def
      by (subst (asm) mbedtls_send_loop.simps) (auto simp: mbedtls_send_loop.simps [of _ 0] whole_writes_def)
  next
    case False
    then show ?thesis using assms nonempty unfolding mbedtls_send_def
      by (subst (asm) mbedtls_send_loop.simps) (auto simp: whole_writes_def split: if_splits list.splits tls_write.splits option.splits)
  qed
qed

interpretation mbedtls: byte_stream "send_total mbedtls_send" mt_out "\<lambda>s. whole_writes (mt_writes s)"
proof unfold_locales
  fix s buf ret s'
  assume "whole_writes (mt_writes s)" "send_total mbedtls_send s buf = Some (ret, s')"
  then show "whole_writes (mt_writes s') \<and> mt_out s' = mt_out s @ take (nat ret) buf \<and> ret \<le> int (length buf)"
    using mbedtls_send_effect [of s buf ret s'] by (auto simp: send_total_def)
qed

lemma apple_send_effect:
  assumes "apple_send_loop ret buf s = Some y" "0 \<le> ret"
  shows "\<exists>n \<le> length buf. ap_out (snd y) = ap_out s @ take n buf \<and> (fst y = ret + int n \<or> fst y = - 1 \<and> ret + int n = 0)"
proof -
  let ?Q = "\<lambda>ret buf s y. \<exists>n \<le> length buf. ap_out (snd y) = ap_out s @ take n buf \<and> (fst y = ret + int n \<or> fst y = - 1 \<and> ret + int n = 0)"
  have "0 \<le> ret \<longrightarrow> ?Q ret buf s y"
  proof (rule apple_send_loop.raw_induct [OF _ assms(1), where P = "\<lambda>ret buf s y. 0 \<le> ret \<longrightarrow> ?Q ret buf s y"], intro impI)
    fix loop :: "int \<Rightarrow> byte list \<Rightarrow> applessl \<Rightarrow> (int \<times> applessl) option" and ret buf s y
    assume rec: "\<And>ret buf s y. loop ret buf s = Some y \<Longrightarrow> 0 \<le> ret \<longrightarrow> ?Q ret buf s y"
    assume body: "(case ap_write s (ap_calls s) of
        (taken, status) \<Rightarrow>
          let processed = min taken (length buf);
              ret1 = ret + int processed;
              buf1 = drop processed buf;
              s1 = s\<lparr>ap_calls := ap_calls s + 1, ap_out := ap_out s @ take processed buf\<rparr>
          in if buf1 \<noteq> [] \<and> errSSLWouldBlock = status then loop ret1 buf1 s1
             else Some (if ret1 = 0 \<and> errSSLClosedAbort \<noteq> status then - 1 else ret1, s1)) = Some y"
    assume r: "0 \<le> ret"
    obtain taken status where w: "ap_write s (ap_calls s) = (taken, status)" by fastforce
    let ?p = "min taken (length buf)"
    let ?s = "s\<lparr>ap_calls := ap_calls s + 1, ap_out := ap_out s @ take ?p buf\<rparr>"
    consider "loop (ret + int ?p) (drop ?p buf) ?s = Some y"
      | "y = (if ret + int ?p = 0 \<and> errSSLClosedAbort \<noteq> status then - 1 else ret + int ?p, ?s)"
      using body w unfolding Let_def by (simp only: prod.case) (metis option.inject)
    then show "?Q ret buf s y"
    proof cases
      case 1
      obtain n where n: "n \<le> length (drop ?p buf)" "ap_out (snd y) = ap_out ?s @ take n (drop ?p buf)"
        "fst y = ret + int ?p + int n \<or> fst y = - 1 \<and> ret + int ?p + int n = 0"
        using rec [OF 1] r by auto
      have "ap_out (snd y) = ap_out s @ take (?p + n) buf" using n(2) by (simp only: take_add) simp
      moreover have "?p + n \<le> length buf" using n(1) by simp
      ultimately show ?thesis using n(3) by (intro exI [of _ "?p + n"]) auto
    next
      case 2
      then show ?thesis by (intro exI [of _ ?p]) auto
    qed
  qed
  then show ?thesis using assms(2) by simp
qed

interpretation apple: byte_stream apple_send ap_out "\<lambda>_. True"
proof unfold_locales
  fix s buf ret s'
  assume "apple_send s buf = Some (ret, s')"
  then show "True \<and> ap_out s' = ap_out s @ take (nat ret) buf \<and> ret \<le> int (length buf)"
    using apple_send_effect [of 0 buf s "(ret, s')"] by (auto simp: apple_send_def)
qed

interpretation schannel: byte_stream "send_total schannel_send" wire_out "\<lambda>_. True"
  by unfold_locales (use socket_send_effect in \<open>auto simp: send_total_def schannel_send_def\<close>)


text \<open>The condition on mbedTLS is needed: after a part was taken, the loop starts again at the front of the
  buffer, and the length that it returns is that of the whole buffer.\<close>

lemma mbedtls_repeats:
  assumes "mt_writes s = TlsWrote (Some n) # TlsWrote None # ws" "0 < n" "n < length buf"
  shows "mbedtls_send s buf = (int (length buf), s\<lparr>mt_writes := ws, mt_out := mt_out s @ take n buf @ take (length buf - n) buf\<rparr>)"
proof -
  have "buf \<noteq> []" using assms(3) by auto
  then show ?thesis using assms unfolding mbedtls_send_def
    by (simp add: mbedtls_send_loop.simps [of 0 "length buf"] mbedtls_send_loop.simps [of n] mbedtls_send_loop.simps [of _ 0])
qed

subsection \<open>Connecting over OpenSSL\<close>

lemma check_cert_frame:
  assumes "openSSLCheckServerCert env h e s = (ok, e', s')"
  shows "s' = s\<lparr>ssl_certs := ssl_certs s'\<rparr> \<and> (ok \<longrightarrow> s' = s)"
  using assms by (auto simp: openSSLCheckServerCert_def split: option.splits if_splits)

lemma handshake_effect:
  assumes "openSSLHandshake env cfg h k e s = Some y"
  shows "snd (snd y) = s\<lparr>ssl_certs := ssl_certs (snd (snd y))\<rparr> \<and>
    (fst y \<longrightarrow> ssl_connection s \<and> ssl_context s \<and> (\<exists>j. fst (sv_connect env cfg j) = 1) \<and> openSSLCheckServerCert env h e s = y)"
proof (rule openSSLHandshake.raw_induct [OF _ assms, where P = "\<lambda>env cfg h k e s y.
    snd (snd y) = s\<lparr>ssl_certs := ssl_certs (snd (snd y))\<rparr> \<and>
    (fst y \<longrightarrow> ssl_connection s \<and> ssl_context s \<and> (\<exists>j. fst (sv_connect env cfg j) = 1) \<and> openSSLCheckServerCert env h e s = y)"])
  fix loop :: "ssl_env \<Rightarrow> ssl_config \<Rightarrow> string \<Rightarrow> nat \<Rightarrow> string \<Rightarrow> openssl \<Rightarrow> (bool \<times> string \<times> openssl) option"
  fix env cfg h k e s y
  assume rec: "\<And>env cfg h k e s y. loop env cfg h k e s = Some y \<Longrightarrow> snd (snd y) = s\<lparr>ssl_certs := ssl_certs (snd (snd y))\<rparr> \<and>
    (fst y \<longrightarrow> ssl_connection s \<and> ssl_context s \<and> (\<exists>j. fst (sv_connect env cfg j) = 1) \<and> openSSLCheckServerCert env h e s = y)"
  assume body: "(if \<not> ssl_connection s \<or> \<not> ssl_context s then Some (False, e, s)
      else case sv_connect env cfg k of (connect_result, reason) \<Rightarrow>
        if connect_result = 1 then Some (openSSLCheckServerCert env h e s)
        else if wants reason then loop env cfg h (k + 1) e s
        else Some (False, getSSLError env reason connect_result, s)) = Some y"
  obtain r reason where c: "sv_connect env cfg k = (r, reason)" by fastforce
  show "snd (snd y) = s\<lparr>ssl_certs := ssl_certs (snd (snd y))\<rparr> \<and>
    (fst y \<longrightarrow> ssl_connection s \<and> ssl_context s \<and> (\<exists>j. fst (sv_connect env cfg j) = 1) \<and> openSSLCheckServerCert env h e s = y)"
  proof (cases "ssl_connection s \<and> ssl_context s")
    case True
    show ?thesis
    proof (cases "r = 1")
      case r1: True
      then have y: "openSSLCheckServerCert env h e s = y" using body True c by simp
      moreover have "\<exists>j. fst (sv_connect env cfg j) = 1" using r1 c by (metis fst_conv)
      ultimately show ?thesis using True check_cert_frame [of env h e s "fst y" "fst (snd y)" "snd (snd y)"] by simp
    next
      case False
      then show ?thesis using body True c rec [of env cfg h "k + 1" e s y] by (auto split: if_splits)
    qed
  qed (use body in auto)
qed

text \<open>What the documentation of OpenSSL promises of \<open>SSL_connect\<close> under verification of the peer.\<close>

definition verifies_peer :: "ssl_env \<Rightarrow> (certificate \<Rightarrow> bool) \<Rightarrow> (certificate \<Rightarrow> string \<Rightarrow> bool) \<Rightarrow> bool" where
  "verifies_peer env trusted names = (\<forall>cfg k. fst (sv_connect env cfg k) = 1 \<longrightarrow> cf_verify_peer cfg \<longrightarrow>
     (\<forall>cert. sv_cert env = Some cert \<longrightarrow> trusted cert \<and> (case cf_host cfg of None \<Rightarrow> True | Some h \<Rightarrow> names cert h)))"

text \<open>
  C19. A connect over OpenSSL reports success only when the peer has shown a certificate that the
  library trusts and that belongs to the host that was asked for: by the library's own check where it
  has one, and in the versions before 1.1.0 by an alternative name or the common name that
  matches too. Connection and context then exist, and there is a descriptor.
\<close>

theorem openssl_connect_sound:
  assumes "openssl_connect env hostname portnr cancel s = Some (True, errMsg, s')"
    and "verifies_peer env trusted names"
  shows "\<exists>cert. sv_cert env = Some cert \<and> trusted cert \<and>
    (sv_version env \<ge> 0x10002000 \<longrightarrow> names cert (c_str hostname)) \<and>
    (sv_version env < 0x10100000 \<longrightarrow> alternative_name_matches env hostname cert \<or> common_name_matches env hostname cert) \<and>
    ssl_connection s' \<and> ssl_context s' \<and> sockfd (ssl_base s') \<noteq> - 1"
proof -
  obtain fd e b where c: "SocketConnect_connect (sv_net env) hostname portnr cancel (ssl_base s) = Some (fd, e, b)" "fd \<noteq> - 1"
    "openssl_secure env hostname e (s\<lparr>ssl_base := b\<lparr>sockfd := fd\<rparr>\<rparr>) = Some (True, errMsg, s')"
    using assms(1) by (auto simp: openssl_connect_def bind_eq_Some_conv Let_def split: if_splits)
  let ?cfg = "openssl_config env hostname"
  let ?s = "s\<lparr>ssl_base := b\<lparr>sockfd := fd\<rparr>, ssl_context := True, ssl_connection := True, ssl_objects := ssl_objects s + 2\<rparr>"
  obtain e1 where h: "openSSLHandshake env ?cfg hostname 0 e1 ?s = Some (True, errMsg, s')"
    using c(3) by (auto simp: openssl_secure_def bind_eq_Some_conv Let_def split: if_splits prod.splits)
  note f = handshake_effect [OF h, simplified]
  obtain j where j: "fst (sv_connect env ?cfg j) = 1" using f by blast
  have ok: "openSSLCheckServerCert env hostname e1 ?s = (True, errMsg, s')" using f by simp
  then obtain cert where cert: "sv_cert env = Some cert"
    "sv_version env < 0x10100000 \<longrightarrow> alternative_name_matches env hostname cert \<or> common_name_matches env hostname cert" "s' = ?s"
    by (auto simp: openSSLCheckServerCert_def split: option.splits if_splits)
  have "trusted cert \<and> (case cf_host ?cfg of None \<Rightarrow> True | Some h \<Rightarrow> names cert h)"
    using assms(2) j cert(1) by (auto simp: verifies_peer_def openssl_config_def)
  then show ?thesis using cert c(2) by (intro exI [of _ cert]) (auto simp: openssl_config_def)
qed

text \<open>The common name in the first place of a subject is passed over, so that a certificate whose subject is
  nothing else is refused by the versions that are checked by hand.\<close>

lemma first_common_name_ignored:
  assumes "sv_cert env = Some \<lparr>cert_names = None, cert_subject = (True, hostname) # es\<rparr>" "sv_version env < 0x10100000"
  shows "\<exists>s'. openSSLCheckServerCert env hostname e s = (False, ''OpenSSL failed - certificate was issued for a different domain.'', s')"
  using assms by (simp add: openSSLCheckServerCert_def alternative_name_matches_def common_name_matches_def)

text \<open>The handshake ends with an answer other than a request to try again, and with nothing else: it asks for no
  cancellation.\<close>

lemma handshake_returns:
  assumes "fst (sv_connect env cfg (k + n)) = 1 \<or> \<not> wants (snd (sv_connect env cfg (k + n)))"
  shows "openSSLHandshake env cfg h k e s \<noteq> None"
  using assms
proof (induction n arbitrary: k)
  case 0
  then show ?case by (subst openSSLHandshake.simps) (cases "openSSLCheckServerCert env h e s", auto simp: split_beta)
next
  case (Suc n)
  then have "openSSLHandshake env cfg h (k + 1) e s \<noteq> None" by (intro Suc.IH) simp
  then show ?case by (subst openSSLHandshake.simps) (cases "openSSLCheckServerCert env h e s", auto simp: split_beta)
qed

lemma handshake_answered:
  assumes "openSSLHandshake env cfg h k e s = Some y"
  shows "ssl_connection s \<and> ssl_context s \<longrightarrow> (\<exists>j. fst (sv_connect env cfg j) = 1 \<or> \<not> wants (snd (sv_connect env cfg j)))"
proof (rule openSSLHandshake.raw_induct [OF _ assms, where P = "\<lambda>env cfg h k e s y. ssl_connection s \<and> ssl_context s \<longrightarrow>
    (\<exists>j. fst (sv_connect env cfg j) = 1 \<or> \<not> wants (snd (sv_connect env cfg j)))"])
  fix loop :: "ssl_env \<Rightarrow> ssl_config \<Rightarrow> string \<Rightarrow> nat \<Rightarrow> string \<Rightarrow> openssl \<Rightarrow> (bool \<times> string \<times> openssl) option"
  fix env cfg h k e s y
  assume rec: "\<And>env cfg h k e s y. loop env cfg h k e s = Some y \<Longrightarrow> ssl_connection s \<and> ssl_context s \<longrightarrow>
    (\<exists>j. fst (sv_connect env cfg j) = 1 \<or> \<not> wants (snd (sv_connect env cfg j)))"
  assume body: "(if \<not> ssl_connection s \<or> \<not> ssl_context s then Some (False, e, s)
      else case sv_connect env cfg k of (connect_result, reason) \<Rightarrow>
        if connect_result = 1 then Some (openSSLCheckServerCert env h e s)
        else if wants reason then loop env cfg h (k + 1) e s
        else Some (False, getSSLError env reason connect_result, s)) = Some y"
  show "ssl_connection s \<and> ssl_context s \<longrightarrow> (\<exists>j. fst (sv_connect env cfg j) = 1 \<or> \<not> wants (snd (sv_connect env cfg j)))"
  proof (cases "fst (sv_connect env cfg k) = 1 \<or> \<not> wants (snd (sv_connect env cfg k))")
    case False
    then show ?thesis using body rec [of env cfg h "k + 1" e s y] by (auto simp: split_beta split: if_splits)
  qed blast
qed

lemma handshake_ignores_cancellation:
  assumes "ssl_connection s" "ssl_context s" "\<And>j. sv_connect env cfg j = (- 1, SslWantRead)"
  shows "openSSLHandshake env cfg h k e s = None"
  using handshake_answered [of env cfg h k e s] assms by (cases "openSSLHandshake env cfg h k e s") (auto simp: wants_def)

subsection \<open>What is held\<close>

text \<open>An object is connected when it is not, and used in any other way at any time.\<close>

inductive openssl_reachable :: "ssl_env \<Rightarrow> openssl \<Rightarrow> bool" for env where
  created: "openssl_reachable env (SocketOpenSSL_new b ws rs)"
| connected: "openssl_reachable env s \<Longrightarrow> \<not> ssl_connection s \<Longrightarrow> openssl_connect env h p cancel s = Some (ok, e, s') \<Longrightarrow> openssl_reachable env s'"
| sent: "openssl_reachable env s \<Longrightarrow> openssl_send s buf = (r, s') \<Longrightarrow> openssl_reachable env s'"
| received: "openssl_reachable env s \<Longrightarrow> openssl_recv s n = (r, bs, s') \<Longrightarrow> openssl_reachable env s'"
| closed: "openssl_reachable env s \<Longrightarrow> openssl_reachable env (openssl_close s)"

lemma openssl_send_keeps:
  "openssl_send_loop k buf s = (r, s') \<Longrightarrow> ssl_connection s' = ssl_connection s \<and> ssl_context s' = ssl_context s \<and> ssl_objects s' = ssl_objects s"
proof (induction k buf s rule: openssl_send_loop.induct)
  case (1 k buf s)
  show ?case
  proof (cases "buf \<noteq> [] \<and> ssl_connection s \<and> ssl_context s \<and> (\<exists>m ws. ssl_writes s = TlsWrote m # ws)")
    case True
    then obtain m ws where w: "ssl_writes s = TlsWrote m # ws" by blast
    let ?n = "case m of None \<Rightarrow> length buf | Some n \<Rightarrow> min n (length buf)"
    have "openssl_send_loop (k + ?n) (drop ?n buf) (s\<lparr>ssl_writes := ws, ssl_out := ssl_out s @ take ?n buf\<rparr>) = (r, s')"
      using "1.prems" True w by (subst (asm) openssl_send_loop.simps) (simp add: Let_def)
    then show ?thesis using "1.IH" [OF _ _ w refl] True by simp
  next
    case False
    then show ?thesis using "1.prems" by (subst (asm) openssl_send_loop.simps) (auto split: if_splits list.splits tls_write.splits)
  qed
qed

lemma openssl_connect_holds:
  assumes "openssl_connect env h p cancel s = Some (ok, e, s')" "\<not> ssl_connection s" "\<not> ssl_context s" "ssl_objects s = 0"
  shows "ssl_connection s' = ok \<and> ssl_context s' = ok \<and> ssl_objects s' = (if ok then 2 else 0)"
proof -
  consider "ok = False" "ssl_connection s' = False" "ssl_context s' = False" "ssl_objects s' = 0"
    | fd e1 b where "openssl_secure env h e1 (s\<lparr>ssl_base := b\<lparr>sockfd := fd\<rparr>\<rparr>) = Some (ok, e, s')"
    using assms by (auto simp: openssl_connect_def bind_eq_Some_conv Let_def split: if_splits)
  then show ?thesis
  proof cases
    case 2
    let ?s = "s\<lparr>ssl_base := b\<lparr>sockfd := fd\<rparr>, ssl_context := True, ssl_connection := True, ssl_objects := ssl_objects s + 2\<rparr>"
    consider "ok = False" "ssl_connection s' = False" "ssl_context s' = False" "ssl_objects s' = 0"
      | e2 s1 where "openSSLHandshake env (openssl_config env h) h 0 e2 ?s = Some (ok, e, s1)" "s' = (if ok then s1 else openssl_close s1)"
      using 2 assms by (auto simp: openssl_secure_def bind_eq_Some_conv Let_def split: if_splits prod.splits)
    then show ?thesis
    proof cases
      case h: 2
      have s1: "s1 = ?s\<lparr>ssl_certs := ssl_certs s1\<rparr>" using handshake_effect [OF h(1)] by simp
      have "ssl_connection s1" "ssl_context s1" "ssl_objects s1 = 2"
        using arg_cong [OF s1, of ssl_connection] arg_cong [OF s1, of ssl_context] arg_cong [OF s1, of ssl_objects] assms(4) by simp_all
      then show ?thesis using h(2) by (simp add: openssl_close_def)
    qed simp
  qed simp
qed

text \<open>The library's objects are balanced in every state that can be reached: there are two while the object is
  connected, and none otherwise; closing leaves none, and no descriptor.\<close>

lemma openssl_objects_balanced:
  assumes "openssl_reachable env s"
  shows "ssl_context s = ssl_connection s \<and> ssl_objects s = (if ssl_connection s then 2 else 0) \<and>
    ssl_objects (openssl_close s) = 0 \<and> sockfd (ssl_base (openssl_close s)) = - 1"
proof -
  have "ssl_context s = ssl_connection s \<and> ssl_objects s = (if ssl_connection s then 2 else 0)"
    using assms
  proof induction
    case (connected s h p cancel ok e s')
    then show ?case using openssl_connect_holds [of env h p cancel s ok e s'] by simp
  next
    case (sent s buf r s')
    then show ?case using openssl_send_keeps [of 0 buf s r s'] by (simp add: openssl_send_def)
  next
    case (received s n r bs s')
    then show ?case by (auto simp: openssl_recv_def split: if_splits list.splits tls_read.splits)
  qed (simp_all add: SocketOpenSSL_new_def openssl_close_def)
  then show ?thesis by (simp add: openssl_close_def socket_close_def)
qed

subsection \<open>What goes wrong\<close>

text \<open>The end of a connection leaves \<open>errno\<close> as it is: after a read that would have blocked, the end looks like another.\<close>

lemma openssl_end_unnoticed:
  assumes "ssl_connection s" "ssl_context s" "ssl_reads s = TlsReadFail SslWantRead # TlsReadFail SslZeroReturn # rs"
  shows "\<exists>s1 s2. openssl_recv s n = (- 1, [], s1) \<and> openssl_recv s1 m = (- 1, [], s2) \<and> ssl_reads s2 = rs \<and> isWaitNeeded (ssl_base s2)"
  using assms by (simp add: openssl_recv_def fail_io_def wants_def isWaitNeeded_def)

text \<open>After a name that is not found, the destructor of the mbedTLS class frees members that were never set up.\<close>

lemma mbedtls_failed_connect_faults:
  assumes "SocketConnect_connect (mv_net env) hostname portnr cancel b = Some (- 1, e, b')"
  shows "\<exists>s. mbedtls_connect env hostname portnr cancel (SocketMbedTLS_new b ws rs) = Ret (False, e, s) \<and> mbedtls_close s = Fault"
  using assms by (simp add: mbedtls_connect_def SocketMbedTLS_new_def mbedtls_close_def)

text \<open>On Windows a secure connection is made with a class that sends its octets as they are.\<close>

lemma windows_sends_in_the_clear:
  assumes "USE_TLS b" "\<not> USE_MBED_TLS b" "\<not> on_apple b" "on_windows b" "schannel_send s buf = (r, s')"
  shows "createSocket_class b True = Some SChannelSocket \<and> wire_out s' = wire_out s @ take (nat r) buf"
  using assms schannel.send_effect [of s buf r s'] by (simp add: createSocket_class_def send_total_def)

subsection \<open>Witnesses\<close>

definition demo_certificate :: certificate where
  "demo_certificate = \<lparr>cert_names = Some [OtherName, DnsName ''host''], cert_subject = []\<rparr>"

definition demo_one_net :: net where
  "demo_one_net = \<lparr>getaddrinfo = (\<lambda>h p. Inr [\<lparr>ai_socket = 5, ai_connect = None\<rparr>]), gai_strerror = (\<lambda>_. []), strerror = (\<lambda>_. []), dns_done = (\<lambda>_. True)\<rparr>"

definition demo_ssl_env :: ssl_env where
  "demo_ssl_env = \<lparr>sv_net = demo_one_net, sv_version = 0x10002000, sv_initialized = True, sv_method = True, sv_context = True, sv_paths = True, sv_new = True,
     sv_connect = (\<lambda>cfg k. if k = 0 then (- 1, SslWantRead) else if cf_host cfg = Some ''host'' then (1, SslNone) else (- 1, SslProtocol)), sv_cert = Some demo_certificate, sv_error = 0,
     sv_error_string = (\<lambda>_. []), sv_fnmatch = (\<lambda>pattern name. if pattern = name then 0 else 1)\<rparr>"

definition demo_base :: socket where
  "demo_base = (Socket_new (- 1) (SelectInterruptPipe_new 8))\<lparr>sys_polls := [PollReady True False 0]\<rparr>"

lemma demo_descriptor: "\<exists>e b. SocketConnect_connect demo_one_net ''host'' 443 (\<lambda>_. False) demo_base = Some (5, e, b)"
proof -
  have w: "resolve_wait demo_one_net (\<lambda>_. False) 0 demo_base = Some (True, demo_base)"
    by (subst resolve_wait.simps) (simp add: demo_one_net_def)
  have "\<exists>e b. connect_wait demo_one_net (\<lambda>_. False) 5 (demo_base\<lparr>cancel_queries := 1\<rparr>) = Some (5, e, b)"
    by (subst connect_wait.simps) (simp add: ask_def poll_fd_def socket_poll_def next_poll_def
        pipe_getFd_def SelectInterruptPipe_new_def Socket_new_def demo_base_def)
  then obtain e b where cw: "connect_wait demo_one_net (\<lambda>_. False) 5 (demo_base\<lparr>cancel_queries := 1\<rparr>) = Some (5, e, b)" by blast
  have ga: "getAddrInfo demo_one_net ''host'' 443 = ([\<lparr>ai_socket = 5, ai_connect = None\<rparr>], [])" by (simp add: getAddrInfo_def demo_one_net_def)
  have ca: "connectToAddress demo_one_net (\<lambda>_. False) \<lparr>ai_socket = 5, ai_connect = None\<rparr> (demo_base\<lparr>cancel_queries := 1\<rparr>) = Some (5, e, b)"
    using cw by (simp add: connectToAddress_def Let_def)
  have q: "ask (\<lambda>_. False) demo_base = (False, demo_base\<lparr>cancel_queries := 1\<rparr>)" by (simp add: ask_def demo_base_def Socket_new_def)
  show ?thesis
    by (intro exI [of _ e] exI [of _ b]) (simp add: SocketConnect_connect_def resolve_def resolveCancellable_def w q ga ca [simplified])
qed

definition demo_ssl :: openssl where
  "demo_ssl = SocketOpenSSL_new demo_base [] []"

theorem openssl_connect_sound_witness:
  "\<exists>e s'. openssl_connect demo_ssl_env ''host'' 443 (\<lambda>_. False) demo_ssl = Some (True, e, s') \<and>
    sv_cert demo_ssl_env = Some demo_certificate \<and> c_str ''host'' = ''host'' \<and>
    (alternative_name_matches demo_ssl_env ''host'' demo_certificate \<or> common_name_matches demo_ssl_env ''host'' demo_certificate) \<and>
    ssl_connection s' \<and> ssl_context s' \<and> sockfd (ssl_base s') \<noteq> - 1"
proof -
  obtain e b where d: "SocketConnect_connect demo_one_net ''host'' 443 (\<lambda>_. False) demo_base = Some (5, e, b)" using demo_descriptor by blast
  have n: "sv_net demo_ssl_env = demo_one_net" "ssl_base demo_ssl = demo_base" by (simp_all add: demo_ssl_env_def demo_ssl_def SocketOpenSSL_new_def)
  have cert: "alternative_name_matches demo_ssl_env ''host'' demo_certificate"
    by (simp add: alternative_name_matches_def name_matches_def checkHost_def demo_certificate_def demo_ssl_env_def c_str_def NUL_def FNM_NOMATCH_def)
  let ?cfg = "openssl_config demo_ssl_env ''host''"
  have host: "c_str ''host'' = ''host''" by (simp add: c_str_def NUL_def)
  have sc: "sv_connect demo_ssl_env ?cfg 0 = (- 1, SslWantRead)" "sv_connect demo_ssl_env ?cfg (0 + 1) = (1, SslNone)"
    using host by (simp_all add: demo_ssl_env_def openssl_config_def)
  have ch: "openSSLCheckServerCert demo_ssl_env ''host'' e1 s1 = (True, e1, s1)" for e1 s1
    using cert by (simp add: openSSLCheckServerCert_def) (simp add: demo_ssl_env_def)
  have h: "openSSLHandshake demo_ssl_env ?cfg ''host'' 0 e1 s1 = Some (True, e1, s1)" if "ssl_connection s1" "ssl_context s1" for e1 s1
    by (subst openSSLHandshake.simps, subst openSSLHandshake.simps) (use that in \<open>simp add: sc [simplified] ch wants_def\<close>)
  have ok: "sv_initialized demo_ssl_env" "sv_method demo_ssl_env" "sv_context demo_ssl_env" "sv_paths demo_ssl_env" "sv_new demo_ssl_env"
    by (simp_all add: demo_ssl_env_def)
  have "\<exists>s'. openssl_connect demo_ssl_env ''host'' 443 (\<lambda>_. False) demo_ssl = Some (True, e, s')"
    by (simp add: openssl_connect_def n d openssl_secure_def openSSLCreateContext_def ok h)
  then obtain s' where s': "openssl_connect demo_ssl_env ''host'' 443 (\<lambda>_. False) demo_ssl = Some (True, e, s')" by blast
  have "verifies_peer demo_ssl_env (\<lambda>cert. cert = demo_certificate) (\<lambda>_ h. h = ''host'')"
    by (auto simp: verifies_peer_def demo_ssl_env_def split: option.splits if_splits)
  moreover have "sv_version demo_ssl_env = 0x10002000" by (simp add: demo_ssl_env_def)
  ultimately show ?thesis
    using s' openssl_connect_sound [OF s'] by (intro exI [of _ e] exI [of _ s']) fastforce
qed


end
