(* ===== verification/HttpHeaders.thy ===== *)
theory HttpHeaders
  imports Socket
begin

section \<open>HTTP headers\<close>

text \<open>
  \<^verbatim>\<open>IXWebSocketHttpHeaders.cpp\<close>: the case-insensitive order of header names, the ordered map keyed by
  it (a \<open>std::map\<close>: the pairs in ascending order of their keys, an assignment to a present key
  keeps the key's first spelling) and the parser of a header block, with its 1024-byte line
  buffer. \<open>std::out_of_range\<close>, which \<open>substr\<close> may throw, is a result of its own.
\<close>

subsection \<open>Order of names\<close>

definition NocaseCompare :: "char \<Rightarrow> char \<Rightarrow> bool" where
  "NocaseCompare c1 c2 \<longleftrightarrow> (code (c_tolower c1) :: nat) < code (c_tolower c2)"

text \<open>\<open>std::lexicographical_compare\<close> with this comparison.\<close>

fun CaseInsensitiveLess :: "string \<Rightarrow> string \<Rightarrow> bool" where
  "CaseInsensitiveLess s [] = False"
| "CaseInsensitiveLess [] (b # t) = True"
| "CaseInsensitiveLess (a # s) (b # t) =
     (if NocaseCompare a b then True else if NocaseCompare b a then False else CaseInsensitiveLess s t)"

definition same_name :: "string \<Rightarrow> string \<Rightarrow> bool" where
  "same_name s t \<longleftrightarrow> map c_tolower s = map c_tolower t"

lemma same_char: "\<not> NocaseCompare a b \<Longrightarrow> \<not> NocaseCompare b a \<Longrightarrow> c_tolower a = c_tolower b"
  by (simp add: NocaseCompare_def)

lemma not_less_both: "\<not> CaseInsensitiveLess s t \<and> \<not> CaseInsensitiveLess t s \<longleftrightarrow> same_name s t"
proof (induction s t rule: CaseInsensitiveLess.induct)
  case (1 s)
  then show ?case by (cases s) (simp_all add: same_name_def)
next
  case (2 b t)
  then show ?case by (simp add: same_name_def)
next
  case (3 a s b t)
  then show ?case by (auto simp: same_name_def NocaseCompare_def)
qed

lemma less_irrefl: "\<not> CaseInsensitiveLess s s"
  using not_less_both [of s s] by (simp add: same_name_def)

lemma less_trans: "CaseInsensitiveLess s t \<Longrightarrow> CaseInsensitiveLess t u \<Longrightarrow> CaseInsensitiveLess s u"
proof (induction s t arbitrary: u rule: CaseInsensitiveLess.induct)
  case (1 s)
  then show ?case by simp
next
  case (2 b t)
  then show ?case by (cases u) simp_all
next
  case (3 a s b t)
  then obtain c v where u: "u = c # v" by (cases u) auto
  show ?case using 3 u by (auto simp: NocaseCompare_def split: if_splits)
qed

lemma less_cong: "same_name s s' \<Longrightarrow> same_name t t' \<Longrightarrow> CaseInsensitiveLess s t = CaseInsensitiveLess s' t'"
proof (induction s t arbitrary: s' t' rule: CaseInsensitiveLess.induct)
  case (1 s)
  then show ?case by (simp add: same_name_def)
next
  case (2 b t)
  then show ?case by (cases t'; cases s') (simp_all add: same_name_def)
next
  case (3 a s b t)
  from 3(2) obtain a1 s1 where s': "s' = a1 # s1" "c_tolower a = c_tolower a1" "same_name s s1"
    by (auto simp: same_name_def Cons_eq_map_conv)
  from 3(3) obtain b1 t1 where t': "t' = b1 # t1" "c_tolower b = c_tolower b1" "same_name t t1"
    by (auto simp: same_name_def Cons_eq_map_conv)
  show ?case
    using s' t' 3(1) [OF _ _ s'(3) t'(3)] by (simp add: NocaseCompare_def)
qed

text \<open>
  \<open>CaseInsensitiveLess\<close> is a strict weak order, as \<open>std::map\<close> requires: irreflexive and
  transitive, with two names equivalent exactly when they differ in case only, which is an
  equivalence the order respects.
\<close>

theorem CaseInsensitiveLess_strict_weak_order:
  "\<not> CaseInsensitiveLess s s \<and>
   (CaseInsensitiveLess s t \<and> CaseInsensitiveLess t u \<longrightarrow> CaseInsensitiveLess s u) \<and>
   (\<not> CaseInsensitiveLess s t \<and> \<not> CaseInsensitiveLess t s \<longleftrightarrow> map c_tolower s = map c_tolower t)"
  using less_irrefl less_trans not_less_both [of s t] by (auto simp: same_name_def)

theorem CaseInsensitiveLess_strict_weak_order_witness:
  "CaseInsensitiveLess ''Connection'' ''HOST'' \<and> CaseInsensitiveLess ''HOST'' ''upgrade'' \<and>
   CaseInsensitiveLess ''Connection'' ''upgrade''"
proof -
  have "CaseInsensitiveLess ''Connection'' ''HOST''" "CaseInsensitiveLess ''HOST'' ''upgrade''" by code_simp+
  then show ?thesis
    using CaseInsensitiveLess_strict_weak_order [of "''Connection''" "''HOST''" "''upgrade''"] by blast
qed

subsection \<open>The map as an interface\<close>

locale keyed_map =
  fixes same :: "'k \<Rightarrow> 'k \<Rightarrow> bool"
    and lookup :: "'m \<Rightarrow> 'k \<Rightarrow> 'v option"
    and assign :: "'k \<Rightarrow> 'v \<Rightarrow> 'm \<Rightarrow> 'm"
    and inv :: "'m \<Rightarrow> bool"
    and empty :: 'm
  assumes same_refl: "same k k"
    and same_sym: "same k l \<Longrightarrow> same l k"
    and same_trans: "same k l \<Longrightarrow> same l n \<Longrightarrow> same k n"
    and lookup_empty: "lookup empty k = None"
    and inv_empty: "inv empty"
    and inv_assign: "inv m \<Longrightarrow> inv (assign k v m)"
    and lookup_assign: "inv m \<Longrightarrow> lookup (assign k v m) l = (if same k l then Some v else lookup m l)"
begin

definition assign_all :: "('k \<times> 'v) list \<Rightarrow> 'm \<Rightarrow> 'm" where
  "assign_all kvs m = fold (\<lambda>(k, v). assign k v) kvs m"

lemma inv_assign_all: "inv m \<Longrightarrow> inv (assign_all kvs m)"
  unfolding assign_all_def by (induction kvs arbitrary: m) (auto simp: inv_assign)

text \<open>The last assignment to a name wins.\<close>

lemma lookup_assign_all:
  "inv m \<Longrightarrow> lookup (assign_all kvs m) l =
     (case filter (\<lambda>(k, v). same k l) kvs of [] \<Rightarrow> lookup m l | xs \<Rightarrow> Some (snd (last xs)))"
  unfolding assign_all_def
proof (induction kvs arbitrary: m)
  case (Cons kv kvs)
  obtain k v where kv: "kv = (k, v)" by (cases kv)
  show ?case
    using Cons.IH [OF inv_assign [OF Cons.prems, of k v]] Cons.prems
    by (auto simp: kv lookup_assign split: list.splits)
qed simp

lemma lookup_assign_all_distinct:
  assumes "(k, v) \<in> set kvs" "\<And>k' v'. (k', v') \<in> set kvs \<Longrightarrow> same k' k \<Longrightarrow> v' = v"
  shows "lookup (assign_all kvs empty) k = Some v"
proof -
  have "(k, v) \<in> set (filter (\<lambda>(k', v). same k' k) kvs)" using assms(1) same_refl by simp
  then obtain x xs where f: "filter (\<lambda>(k', v). same k' k) kvs = x # xs" by (cases "filter (\<lambda>(k', v). same k' k) kvs") auto
  have "last (x # xs) \<in> set (filter (\<lambda>(k', v). same k' k) kvs)" unfolding f by (rule last_in_set) simp
  then have "snd (last (x # xs)) = v" using assms(2) [of "fst (last (x # xs))" "snd (last (x # xs))"] by (auto simp: split_beta)
  then show ?thesis using lookup_assign_all [OF inv_empty, of kvs k] unfolding f by simp
qed

end

subsection \<open>WebSocketHttpHeaders\<close>

type_synonym WebSocketHttpHeaders = "(string \<times> string) list"

fun headers_assign :: "string \<Rightarrow> string \<Rightarrow> WebSocketHttpHeaders \<Rightarrow> WebSocketHttpHeaders" where
  "headers_assign k v [] = [(k, v)]"
| "headers_assign k v ((k', v') # m) =
     (if CaseInsensitiveLess k k' then (k, v) # (k', v') # m
      else if CaseInsensitiveLess k' k then (k', v') # headers_assign k v m
      else (k', v) # m)"

definition headers_find :: "WebSocketHttpHeaders \<Rightarrow> string \<Rightarrow> string option" where
  "headers_find m k =
     map_option snd (find (\<lambda>(k', v). \<not> CaseInsensitiveLess k k' \<and> \<not> CaseInsensitiveLess k' k) m)"

text \<open>\<open>headers[name]\<close> read: an absent name is inserted with an empty value.\<close>

definition headers_index :: "WebSocketHttpHeaders \<Rightarrow> string \<Rightarrow> string \<times> WebSocketHttpHeaders" where
  "headers_index m k = (case headers_find m k of Some v \<Rightarrow> (v, m) | None \<Rightarrow> ([], headers_assign k [] m))"

definition headers_sorted :: "WebSocketHttpHeaders \<Rightarrow> bool" where
  "headers_sorted m = sorted_wrt (\<lambda>p q. CaseInsensitiveLess (fst p) (fst q)) m"

lemma headers_find_Cons:
  "headers_find ((k', v) # m) k = (if same_name k' k then Some v else headers_find m k)"
  using not_less_both [of k k'] by (auto simp: headers_find_def same_name_def)

lemma set_headers_assign: "fst ` set (headers_assign k v m) \<subseteq> insert k (fst ` set m)"
proof (induction m)
  case (Cons p m)
  then show ?case by (cases p) (auto split: if_splits)
qed simp

lemma headers_sorted_assign: "headers_sorted m \<Longrightarrow> headers_sorted (headers_assign k v m)"
proof (induction m)
  case Nil
  then show ?case by (simp add: headers_sorted_def)
next
  case (Cons p m)
  obtain k' v' where p: "p = (k', v')" by (cases p)
  have m: "headers_sorted m" "\<And>q. q \<in> set m \<Longrightarrow> CaseInsensitiveLess k' (fst q)"
    using Cons.prems by (auto simp: headers_sorted_def p)
  show ?case
  proof (cases "CaseInsensitiveLess k k'")
    case True
    then show ?thesis using Cons.prems m less_trans by (auto simp: headers_sorted_def p)
  next
    case False
    have "CaseInsensitiveLess k' (fst q)" if "CaseInsensitiveLess k' k" "q \<in> set (headers_assign k v m)" for q
      using set_headers_assign [of k v m] that m(2) by force
    then show ?thesis using Cons False m by (auto simp: headers_sorted_def p)
  qed
qed

lemma find_below:
  assumes "headers_sorted m" "\<And>q. q \<in> set m \<Longrightarrow> CaseInsensitiveLess k (fst q)"
  shows "headers_find m k = None"
  using assms(2) by (auto simp: headers_find_def find_None_iff)

lemma headers_find_assign:
  assumes "headers_sorted m"
  shows "headers_find (headers_assign k v m) l = (if same_name k l then Some v else headers_find m l)"
  using assms
proof (induction m)
  case Nil
  have "headers_find [] l = None" by (simp add: headers_find_def)
  then show ?case by (simp add: headers_find_Cons)
next
  case (Cons p m)
  obtain k' v' where p: "p = (k', v')" by (cases p)
  have m: "headers_sorted m" using Cons.prems by (auto simp: headers_sorted_def p)
  have ne: "same_name k l \<Longrightarrow> same_name k' l \<Longrightarrow> same_name k k'" by (simp add: same_name_def)
  consider "CaseInsensitiveLess k k'" | "CaseInsensitiveLess k' k" "\<not> CaseInsensitiveLess k k'" | "same_name k k'"
    using not_less_both [of k k'] by blast
  then show ?case
  proof cases
    case 2
    have "\<not> (same_name k l \<and> same_name k' l)" using 2 ne not_less_both [of k k'] by blast
    then show ?thesis using 2 Cons.IH [OF m] by (auto simp: p headers_find_Cons)
  next
    case 3
    then show ?thesis using not_less_both [of k k'] by (auto simp: p headers_find_Cons same_name_def)
  qed (auto simp: p headers_find_Cons)
qed

interpretation headers: keyed_map same_name headers_find headers_assign headers_sorted "[]"
  by unfold_locales
    (auto simp: same_name_def headers_find_def headers_sorted_def headers_sorted_assign [unfolded headers_sorted_def]
      headers_find_assign [unfolded headers_sorted_def same_name_def headers_find_def])

subsection \<open>parseHttpHeaders\<close>

text \<open>The line loop: the characters read so far and the position of the colon. The line buffer
  holds 1023 characters and a NUL.\<close>

definition header_line_complete :: "string \<Rightarrow> bool" where
  "header_line_complete line =
     (let i = length line in \<not> (i < 2 \<or> (i < 1023 \<and> line ! (i - 2) \<noteq> CR \<and> line ! (i - 1) \<noteq> LF)))"

partial_function (option) header_line :: "(nat \<Rightarrow> bool) \<Rightarrow> string \<Rightarrow> nat \<Rightarrow> socket \<Rightarrow> ((string \<times> nat) option \<times> socket) option" where
  "header_line cancel line colon s =
     (if header_line_complete line then Some (Some (line, colon), s)
      else Option.bind (readByte cancel s) (\<lambda>(c, s1).
        case c of
          None \<Rightarrow> Some (None, s1)
        | Some ch \<Rightarrow>
            header_line cancel (line @ [ch]) (if ch = CHR '':'' \<and> colon = 0 then length line else colon) s1))"

text \<open>Name and value of a line with a colon; the count is negative, that is as good as unlimited,
  when the value is missing.\<close>

definition header_entry :: "string \<Rightarrow> nat \<Rightarrow> (string \<times> string) option" where
  "header_entry line colon =
     (let lineStr = c_str line; i = length line;
          count = (if colon + 4 \<le> i then Some (i - colon - 4) else None)
      in map_option (Pair (take colon lineStr)) (substr lineStr (colon + 2) count))"

datatype headers_result = Headers bool WebSocketHttpHeaders | HeadersOutOfRange

partial_function (option) headers_loop :: "(nat \<Rightarrow> bool) \<Rightarrow> WebSocketHttpHeaders \<Rightarrow> socket \<Rightarrow> (headers_result \<times> socket) option" where
  "headers_loop cancel headers s =
     Option.bind (header_line cancel [] 0 s) (\<lambda>(r, s1).
       case r of
         None \<Rightarrow> Some (Headers False headers, s1)
       | Some (line, colon) \<Rightarrow>
           if line ! 0 = CR \<and> line ! 1 = LF then Some (Headers True headers, s1)
           else if colon > 0 then
             (case header_entry line colon of
                None \<Rightarrow> Some (HeadersOutOfRange, s1)
              | Some (name, val) \<Rightarrow> headers_loop cancel (headers_assign name val headers) s1)
           else headers_loop cancel headers s1)"

definition parseHttpHeaders :: "(nat \<Rightarrow> bool) \<Rightarrow> socket \<Rightarrow> (headers_result \<times> socket) option" where
  "parseHttpHeaders cancel s = headers_loop cancel [] s"

subsection \<open>Parsing a header block\<close>

fun colon_of :: "string \<Rightarrow> nat \<Rightarrow> string \<Rightarrow> nat" where
  "colon_of line colon [] = colon"
| "colon_of line colon (c # todo) =
     colon_of (line @ [c]) (if c = CHR '':'' \<and> colon = 0 then length line else colon) todo"

lemma colon_of_none: "CHR '':'' \<notin> set todo \<or> 0 < colon \<Longrightarrow> colon_of line colon todo = colon"
  by (induction todo arbitrary: line colon) auto

lemma colon_of_first: "CHR '':'' \<notin> set a \<Longrightarrow> a \<noteq> [] \<or> line \<noteq> [] \<Longrightarrow> colon_of line 0 (a @ CHR '':'' # b) = length line + length a"
  by (induction a arbitrary: line) (auto simp: colon_of_none)

lemma header_line_arriving:
  assumes "sockfd s \<noteq> -1" "no_poll_failure s" "\<And>k. \<not> cancel k"
    and "arriving (sys_recvs s) = bytes_of todo @ rest"
    and "header_line_complete (line @ todo)"
    and "\<And>k. k < length todo \<Longrightarrow> \<not> header_line_complete (line @ take k todo)"
  shows "\<exists>s'. header_line cancel line colon s = Some (Some (line @ todo, colon_of line colon todo), s') \<and>
    same_endpoint s s' \<and> arriving (sys_recvs s') = rest"
  using assms(1,2,4-6)
proof (induction todo arbitrary: s line colon)
  case Nil
  then show ?case by (subst header_line.simps) (simp add: bytes_of_def)
next
  case (Cons c todo)
  let ?colon = "if c = CHR '':'' \<and> colon = 0 then length line else colon"
  have nc: "\<not> header_line_complete line" using Cons.prems(5) [of 0] by simp
  have "arriving (sys_recvs s) = byte_of_char c # bytes_of todo @ rest"
    using Cons.prems(3) by (simp add: bytes_of_def)
  then obtain s1 where s1: "readByte cancel s = Some (Some c, s1)" "same_endpoint s s1"
    "arriving (sys_recvs s1) = bytes_of todo @ rest"
    using readByte_arriving [OF Cons.prems(1,2) assms(3)] by fastforce
  have "\<exists>s'. header_line cancel (line @ [c]) ?colon s1 = Some (Some ((line @ [c]) @ todo, colon_of (line @ [c]) ?colon todo), s') \<and>
    same_endpoint s1 s' \<and> arriving (sys_recvs s') = rest"
  proof (rule Cons.IH)
    show "sockfd s1 \<noteq> -1" "no_poll_failure s1" using s1(2) Cons.prems by (auto simp: same_endpoint_def)
    show "\<not> header_line_complete ((line @ [c]) @ take k todo)" if "k < length todo" for k
      using Cons.prems(5) [of "Suc k"] that by simp
  qed (use s1 Cons.prems in auto)
  then obtain s' where s': "header_line cancel (line @ [c]) ?colon s1 = Some (Some ((line @ [c]) @ todo, colon_of (line @ [c]) ?colon todo), s')"
    "same_endpoint s1 s'" "arriving (sys_recvs s') = rest" by blast
  have "header_line cancel line colon s = header_line cancel (line @ [c]) ?colon s1"
    by (subst header_line.simps) (simp add: nc s1(1))
  then show ?case using s' same_endpoint_trans [OF s1(2)] by auto
qed

definition header_text_ok :: "string \<Rightarrow> bool" where
  "header_text_ok s \<longleftrightarrow> NUL \<notin> set s \<and> CR \<notin> set s \<and> LF \<notin> set s"

lemma header_complete_iff: "length line < 1023 \<Longrightarrow> header_line_complete line = line_complete line"
  by (simp add: header_line_complete_def line_complete_def)

lemma crlf_line_complete:
  assumes "CR \<notin> set line" "LF \<notin> set line" "length line < 1022"
  shows "header_line_complete (line @ CRLF)" "k < length (line @ CRLF) \<Longrightarrow> \<not> header_line_complete (take k (line @ CRLF))"
proof -
  show "header_line_complete (line @ CRLF)"
    by (simp add: header_line_complete_def Let_def nth_append CRLF_def)
  show "\<not> header_line_complete (take k (line @ CRLF))" if "k < length (line @ CRLF)"
  proof (cases "k \<le> length line")
    case True
    have "set (take k line) \<subseteq> set line" by (rule set_take_subset)
    then show ?thesis
      using True assms not_complete_before_CR(1) [of "take k line"] header_complete_iff [of "take k line"] by auto
  next
    case False
    then have "take k (line @ CRLF) = line @ [CR]" using that by (simp add: CRLF_def take_Cons' not_le)
    then show ?thesis
      using not_complete_before_CR(2) [OF assms(1,2)] header_complete_iff [of "line @ [CR]"] assms(3) by simp
  qed
qed

lemma header_line_next:
  assumes "sockfd s \<noteq> -1" "no_poll_failure s" "\<And>k. \<not> cancel k"
    and "CR \<notin> set line" "LF \<notin> set line" "length line < 1022"
    and "arriving (sys_recvs s) = bytes_of (line @ CRLF) @ rest"
  shows "\<exists>s'. header_line cancel [] 0 s = Some (Some (line @ CRLF, colon_of [] 0 (line @ CRLF)), s') \<and>
    same_endpoint s s' \<and> arriving (sys_recvs s') = rest"
proof -
  have "\<exists>s'. header_line cancel [] 0 s = Some (Some ([] @ line @ CRLF, colon_of [] 0 (line @ CRLF)), s') \<and>
    same_endpoint s s' \<and> arriving (sys_recvs s') = rest"
    by (rule header_line_arriving [OF assms(1-3,7)])
      (simp_all add: crlf_line_complete [OF assms(4-6)] del: append_assoc take_append)
  then show ?thesis by simp
qed

text \<open>A header line of the usual form, with the colon and one space.\<close>

definition field_line :: "string \<times> string \<Rightarrow> string" where
  "field_line f = fst f @ '': '' @ snd f"

definition field_ok :: "string \<times> string \<Rightarrow> bool" where
  "field_ok f \<longleftrightarrow> fst f \<noteq> [] \<and> CHR '':'' \<notin> set (fst f) \<and> header_text_ok (fst f) \<and> header_text_ok (snd f) \<and>
     length (fst f) + length (snd f) < 1020"

lemma header_entry_field:
  assumes "field_ok (n, v)"
  shows "colon_of [] 0 (field_line (n, v) @ CRLF) = length n"
    "header_entry (field_line (n, v) @ CRLF) (length n) = Some (n, v)"
proof -
  show "colon_of [] 0 (field_line (n, v) @ CRLF) = length n"
    using assms colon_of_first [of n "[]" "CHR '' '' # v @ CRLF"] by (simp add: field_line_def field_ok_def)
  have nul: "NUL \<notin> set (field_line (n, v) @ CRLF)"
    using assms by (auto simp: field_line_def field_ok_def header_text_ok_def CRLF_def NUL_def CR_def LF_def)
  show "header_entry (field_line (n, v) @ CRLF) (length n) = Some (n, v)"
    unfolding header_entry_def c_str_id [OF nul] by (simp add: field_line_def substr_def Let_def CRLF_def)
qed

lemma headers_loop_fields:
  assumes "sockfd s \<noteq> -1" "no_poll_failure s" "\<And>k. \<not> cancel k" "list_all field_ok fs"
    and "arriving (sys_recvs s) = bytes_of (concat (map (\<lambda>f. field_line f @ CRLF) fs) @ CRLF) @ rest"
  shows "\<exists>s'. headers_loop cancel hs s = Some (Headers True (fold (\<lambda>(k, v). headers_assign k v) fs hs), s') \<and>
    same_endpoint s s' \<and> arriving (sys_recvs s') = rest"
  using assms(1,2,4,5)
proof (induction fs arbitrary: hs s)
  case Nil
  obtain s' where "header_line cancel [] 0 s = Some (Some ([] @ CRLF, colon_of [] 0 ([] @ CRLF)), s')" "same_endpoint s s'"
    "arriving (sys_recvs s') = rest"
    using header_line_next [of s cancel "[]" rest] Nil.prems assms(3) by auto
  then show ?case by (subst headers_loop.simps) (simp add: CRLF_def)
next
  case (Cons f fs)
  obtain n v where f: "f = (n, v)" by (cases f)
  have ok: "field_ok (n, v)" using Cons.prems(3) f by simp
  then have n: "n \<noteq> []" "hd n \<noteq> CR" by (auto simp: field_ok_def header_text_ok_def) (metis list.set_sel(1))
  have lt: "CR \<notin> set (field_line f)" "LF \<notin> set (field_line f)" "length (field_line f) < 1022"
    using ok by (auto simp: f field_line_def field_ok_def header_text_ok_def CR_def LF_def)
  have arr: "arriving (sys_recvs s) = bytes_of (field_line f @ CRLF) @
      (bytes_of (concat (map (\<lambda>f. field_line f @ CRLF) fs) @ CRLF) @ rest)"
    using Cons.prems(4) by simp
  obtain s1 where s1: "header_line cancel [] 0 s = Some (Some (field_line f @ CRLF, colon_of [] 0 (field_line f @ CRLF)), s1)"
    "same_endpoint s s1"
    "arriving (sys_recvs s1) = bytes_of (concat (map (\<lambda>f. field_line f @ CRLF) fs) @ CRLF) @ rest"
    using header_line_next [of s cancel "field_line f"] Cons.prems(1,2) assms(3) lt arr by blast
  have first: "(field_line f @ CRLF) ! 0 \<noteq> CR"
    using n by (cases n) (simp_all add: f field_line_def)
  have step: "headers_loop cancel hs s = headers_loop cancel (headers_assign n v hs) s1"
    using s1(1) first n(1) by (subst headers_loop.simps) (simp add: f header_entry_field [OF ok])
  have "\<exists>s'. headers_loop cancel (headers_assign n v hs) s1 =
      Some (Headers True (fold (\<lambda>(k, v). headers_assign k v) fs (headers_assign n v hs)), s') \<and>
    same_endpoint s1 s' \<and> arriving (sys_recvs s') = rest"
    by (rule Cons.IH) (use s1 Cons.prems in \<open>auto simp: same_endpoint_def\<close>)
  then show ?case using step same_endpoint_trans [OF s1(2)] by (auto simp: f)
qed

text \<open>
  A header block of well-formed lines \<open>Name: value\<close> that ends with an empty line is parsed to
  exactly its fields, case-insensitively and with the last of several equal names winning, however
  the block is cut into segments, and what follows the block is left in the stream.
\<close>

theorem parseHttpHeaders_block:
  assumes "sockfd s \<noteq> -1" "no_poll_failure s" "list_all field_ok fs"
    and "arriving (sys_recvs s) = bytes_of (concat (map (\<lambda>f. field_line f @ CRLF) fs) @ CRLF) @ rest"
  shows "\<exists>m s'. parseHttpHeaders (\<lambda>_. False) s = Some (Headers True m, s') \<and> arriving (sys_recvs s') = rest \<and>
    headers_sorted m \<and> wire_out s' = wire_out s \<and> sockfd s' = sockfd s \<and>
    (\<forall>name. headers_find m name =
       (case filter (\<lambda>(k, v). same_name k name) fs of [] \<Rightarrow> None | xs \<Rightarrow> Some (snd (last xs))))"
proof -
  let ?m = "fold (\<lambda>(k, v). headers_assign k v) fs []"
  obtain s' where s': "headers_loop (\<lambda>_. False) [] s = Some (Headers True ?m, s')" "same_endpoint s s'"
    "arriving (sys_recvs s') = rest"
    using headers_loop_fields [OF assms(1,2) _ assms(3,4), of "\<lambda>_. False" "[]"] by auto
  have s0: "headers_sorted []" by (simp add: headers_sorted_def)
  have "headers_sorted ?m" using headers.inv_assign_all [OF s0, of fs] by (simp add: headers.assign_all_def)
  moreover have "headers_find ?m name = (case filter (\<lambda>(k, v). same_name k name) fs of [] \<Rightarrow> None | xs \<Rightarrow> Some (snd (last xs)))" for name
    using headers.lookup_assign_all [OF s0, of fs name] headers.lookup_empty [of name]
    by (simp only: headers.assign_all_def)
  ultimately show ?thesis using s' by (auto simp: parseHttpHeaders_def same_endpoint_def)
qed

theorem parseHttpHeaders_block_witness:
  "let s = (Socket_new 3 (SelectInterruptPipe_new 8))\<lparr>sys_recvs := [RecvData (bytes_of (''Upgrade: websocket'' @ CRLF @ CRLF))]\<rparr>
   in \<exists>m s'. parseHttpHeaders (\<lambda>_. False) s = Some (Headers True m, s') \<and> headers_find m ''upgrade'' = Some ''websocket''"
proof -
  let ?s = "(Socket_new 3 (SelectInterruptPipe_new 8))\<lparr>sys_recvs := [RecvData (bytes_of (''Upgrade: websocket'' @ CRLF @ CRLF))]\<rparr>"
  let ?fs = "[(''Upgrade'', ''websocket'')]"
  have a: "arriving (sys_recvs ?s) = bytes_of (concat (map (\<lambda>f. field_line f @ CRLF) ?fs) @ CRLF) @ []"
    by (simp add: field_line_def bytes_of_def)
  have s: "sockfd ?s \<noteq> -1" "no_poll_failure ?s" by (simp_all add: Socket_new_def no_poll_failure_def)
  have ok: "list_all field_ok ?fs" by (simp add: field_ok_def header_text_ok_def NUL_def CR_def LF_def)
  have same: "same_name ''Upgrade'' ''upgrade''" by code_simp
  obtain m s' where m: "parseHttpHeaders (\<lambda>_. False) ?s = Some (Headers True m, s')"
    "\<forall>name. headers_find m name = (case filter (\<lambda>(k, v). same_name k name) ?fs of [] \<Rightarrow> None | xs \<Rightarrow> Some (snd (last xs)))"
    using parseHttpHeaders_block [OF s ok a] by blast
  have "headers_find m ''upgrade'' = Some ''websocket''" using m(2) same by simp
  then show ?thesis using m(1) by auto
qed

text \<open>
  The parser takes for granted that the colon is followed by a space: from a line \<open>Name:value\<close>
  it drops the value's first character.
\<close>

theorem header_without_space_loses_character:
  assumes "NUL \<notin> set n" "NUL \<notin> set v" "v \<noteq> []"
  shows "header_entry (n @ '':'' @ v @ CRLF) (length n) = Some (n, tl v)"
proof -
  have nul: "NUL \<notin> set (n @ '':'' @ v @ CRLF)" using assms by (auto simp: CRLF_def CR_def LF_def NUL_def)
  obtain c r where v: "v = c # r" using assms(3) by (cases v) auto
  show ?thesis
    unfolding header_entry_def c_str_id [OF nul] by (simp add: substr_def Let_def CRLF_def v)
qed

theorem header_without_space_loses_character_witness:
  "header_entry (''Token'' @ '':'' @ ''secret'' @ CRLF) (length ''Token'') = Some (''Token'', ''ecret'')"
  using header_without_space_loses_character [of "''Token''" "''secret''"] by (simp add: NUL_def)

end
