(* ===== verification/Http.thy ===== *)
theory Http
  imports HttpHeaders
begin

section \<open>HTTP request and status lines\<close>

text \<open>
  \<^verbatim>\<open>IXHttp.cpp\<close>: splitting of request and status lines, reading a request and writing a response.
  The cancellation request of \<open>parseRequest\<close> is built from the clock the caller gives; a
  \<open>nullptr\<close> callback is one that never cancels. \<^const>\<open>None\<close> is a call that does not return.
\<close>

datatype HttpErrorCode =
  HttpOk | CannotConnect | HttpTimeout | Gzip | UrlMalformed | CannotCreateSocket | SendError | ReadError
| CannotReadStatusLine | MissingStatus | HeaderParsingError | MissingLocation | TooManyRedirects | ChunkReadError
| CannotReadBody | HttpInvalid

record HttpResponse =
  resp_statusCode :: int
  resp_description :: string
  resp_errorCode :: HttpErrorCode
  resp_headers :: WebSocketHttpHeaders
  resp_payload :: string
  resp_errorMsg :: string
  resp_uploadSize :: nat
  resp_downloadSize :: nat

record HttpRequest =
  req_uri :: string
  req_method :: string
  req_version :: string
  req_headers :: WebSocketHttpHeaders

definition trim :: "string \<Rightarrow> string" where
  "trim str = filter (\<lambda>c. c \<noteq> CHR '' '' \<and> c \<noteq> LF \<and> c \<noteq> CR) str"

definition parseStatusLine :: "string \<Rightarrow> string \<times> int" where
  "parseStatusLine line =
     (let tokens = getlines CHR '' '' line;
          httpVersion = (if length tokens \<ge> 1 then trim (tokens ! 0) else []);
          statusCode = (if length tokens \<ge> 2 then extract_int (-1) (trim (tokens ! 1)) else -1)
      in (httpVersion, statusCode))"

definition parseRequestLine :: "string \<Rightarrow> string \<times> string \<times> string" where
  "parseRequestLine line =
     (let tokens = getlines CHR '' '' line;
          meth = (if length tokens \<ge> 1 then trim (tokens ! 0) else []);
          requestUri = (if length tokens \<ge> 2 then trim (tokens ! 1) else []);
          httpVersion = (if length tokens \<ge> 3 then trim (tokens ! 2) else [])
      in (meth, requestUri, httpVersion))"

datatype request_result = Request HttpRequest | RequestError string | RequestOutOfRange

definition parseRequest :: "int \<Rightarrow> (nat \<Rightarrow> int) \<Rightarrow> socket \<Rightarrow> (request_result \<times> socket) option" where
  "parseRequest start clock s =
     (let cancel = makeCancellationRequestWithTimeout 5 (\<lambda>_. False) start clock
      in do {
        (lineValid, line, s1) \<leftarrow> readLine cancel s;
        if \<not> lineValid then Some (RequestError ''Error reading HTTP request line'', s1)
        else do {
          let (meth, uri, httpVersion) = parseRequestLine line;
          (result, s2) \<leftarrow> parseHttpHeaders cancel s1;
          case result of
            HeadersOutOfRange \<Rightarrow> Some (RequestOutOfRange, s2)
          | Headers headersValid headers \<Rightarrow>
              if \<not> headersValid then Some (RequestError ''Error parsing HTTP headers'', s2)
              else Some (Request \<lparr>req_uri = uri, req_method = meth, req_version = httpVersion, req_headers = headers\<rparr>, s2)
        }
      })"

definition response_start :: "HttpResponse \<Rightarrow> string" where
  "response_start r = ''HTTP/1.1 '' @ string_of_int (resp_statusCode r) @ '' '' @ resp_description r @ CRLF"

definition response_headers :: "HttpResponse \<Rightarrow> string" where
  "response_headers r =
     ''Content-Length: '' @ string_of_nat (length (resp_payload r)) @ CRLF
     @ concat (map (\<lambda>(k, v). k @ '': '' @ v @ CRLF) (resp_headers r)) @ CRLF"

definition sendResponse :: "HttpResponse \<Rightarrow> socket \<Rightarrow> (bool \<times> socket) option" where
  "sendResponse r s = do {
     (ok1, s1) \<leftarrow> writeBytes (\<lambda>_. False) (response_start r) s;
     if \<not> ok1 then Some (False, s1)
     else do {
       (ok2, s2) \<leftarrow> writeBytes (\<lambda>_. False) (response_headers r) s1;
       if \<not> ok2 then Some (False, s2)
       else if resp_payload r = [] then Some (True, s2)
       else writeBytes (\<lambda>_. False) (resp_payload r) s2
     }
   }"

subsection \<open>Lines round trip\<close>

definition token_ok :: "string \<Rightarrow> bool" where
  "token_ok s \<longleftrightarrow> s \<noteq> [] \<and> CHR '' '' \<notin> set s \<and> CR \<notin> set s \<and> LF \<notin> set s"

lemma trim_id: "CHR '' '' \<notin> set s \<Longrightarrow> CR \<notin> set s \<Longrightarrow> LF \<notin> set s \<Longrightarrow> trim s = s"
  by (auto simp: trim_def filter_id_conv)

lemma trim_token: "token_ok s \<Longrightarrow> trim s = s" "token_ok s \<Longrightarrow> trim (s @ CRLF) = s"
  by (auto simp: trim_def token_ok_def filter_id_conv CRLF_def)

text \<open>
  Splitting a request line gives back its three parts: for a method, a request URI and a version
  without blanks and line ends, the line \<open>method URI version CRLF\<close> is taken apart exactly.
\<close>

theorem parseRequestLine_roundtrip:
  assumes "token_ok m" "token_ok u" "token_ok v"
  shows "parseRequestLine (m @ '' '' @ u @ '' '' @ v @ CRLF) = (m, u, v)"
proof -
  have sp: "CHR '' '' \<notin> set m" "CHR '' '' \<notin> set u" "CHR '' '' \<notin> set (v @ CRLF)" "v @ CRLF \<noteq> []"
    using assms by (auto simp: token_ok_def CRLF_def CR_def LF_def)
  have "getlines CHR '' '' (m @ CHR '' '' # u @ CHR '' '' # v @ CRLF) = [m, u, v @ CRLF]"
    by (simp only: getlines_delim [OF sp(1)] getlines_delim [OF sp(2)] getlines_no_delim [OF sp(4,3)])
  then show ?thesis
    using assms by (simp add: parseRequestLine_def trim_token Let_def)
qed

theorem parseRequestLine_roundtrip_witness:
  "parseRequestLine (''GET'' @ '' '' @ ''/chat'' @ '' '' @ ''HTTP/1.1'' @ CRLF) = (''GET'', ''/chat'', ''HTTP/1.1'')"
  by (rule parseRequestLine_roundtrip) (simp_all add: token_ok_def CR_def LF_def)

lemma parseStatusLine_line:
  assumes "token_ok v" "int n \<le> int_max"
  shows "parseStatusLine (v @ '' '' @ string_of_nat n @ '' '' @ rest) = (v, int n)"
proof -
  have dig: "c \<notin> set (string_of_nat n)" if "\<not> c_isdigit c" for c using string_of_nat_digits that by blast
  have sp: "CHR '' '' \<notin> set v" "CHR '' '' \<notin> set (string_of_nat n)" "CR \<notin> set (string_of_nat n)" "LF \<notin> set (string_of_nat n)"
    using assms(1) by (auto simp: token_ok_def dig c_isdigit_def CR_def LF_def)
  have "getlines CHR '' '' (v @ CHR '' '' # string_of_nat n @ CHR '' '' # rest) =
      v # string_of_nat n # getlines CHR '' '' rest"
    by (simp only: getlines_delim [OF sp(1)] getlines_delim [OF sp(2)])
  then show ?thesis
    using assms trim_id [OF sp(2-4)] extract_int_string_of_nat [of n "[]" "-1"]
    by (simp add: parseStatusLine_def trim_token Let_def)
qed

lemma bytes_of_Nil: "bytes_of [] = []"
  by (simp add: bytes_of_def)

lemma writeBytes_effect:
  assumes "writeBytes cancel str s = Some (ok, s')"
  shows "\<exists>k \<le> length str. wire_out s' = wire_out s @ bytes_of (take k str) \<and> (ok \<longrightarrow> k = length str)"
  using writeBytes_loop_effect [OF assms [unfolded writeBytes_def]] by (auto simp: bytes_of_def take_map)

text \<open>
  A response is written completely and in order when \<open>sendResponse\<close> reports success: status
  line, content length and headers, empty line and payload; otherwise a prefix of it was written.
\<close>

theorem sendResponse_writes:
  assumes "sendResponse r s = Some (ok, s')"
  shows "\<exists>k. wire_out s' = wire_out s @ bytes_of (take k (response_start r @ response_headers r @ resp_payload r)) \<and>
    (ok \<longrightarrow> k = length (response_start r @ response_headers r @ resp_payload r))"
proof -
  obtain ok1 s1 where w1: "writeBytes (\<lambda>_. False) (response_start r) s = Some (ok1, s1)"
    using assms by (auto simp: sendResponse_def bind_eq_Some_conv)
  obtain k1 where k1: "k1 \<le> length (response_start r)" "wire_out s1 = wire_out s @ bytes_of (take k1 (response_start r))"
    "ok1 \<longrightarrow> k1 = length (response_start r)"
    using writeBytes_effect [OF w1] by blast
  show ?thesis
  proof (cases ok1)
    case False
    then have "s' = s1" "\<not> ok" using assms w1 by (auto simp: sendResponse_def)
    then show ?thesis using k1 by (intro exI [of _ k1]) simp
  next
    case True
    obtain ok2 s2 where w2: "writeBytes (\<lambda>_. False) (response_headers r) s1 = Some (ok2, s2)"
      using assms w1 True by (auto simp: sendResponse_def bind_eq_Some_conv)
    obtain k2 where k2: "k2 \<le> length (response_headers r)" "wire_out s2 = wire_out s1 @ bytes_of (take k2 (response_headers r))"
      "ok2 \<longrightarrow> k2 = length (response_headers r)"
      using writeBytes_effect [OF w2] by blast
    have "(if \<not> ok2 then Some (False, s2) else if resp_payload r = [] then Some (True, s2)
       else writeBytes (\<lambda>_. False) (resp_payload r) s2) = Some (ok, s')"
      using assms True by (simp add: sendResponse_def w1 w2)
    then consider "\<not> ok2" "s' = s2" "\<not> ok" | "ok2" "resp_payload r = []" "s' = s2" "ok"
      | "ok2" "writeBytes (\<lambda>_. False) (resp_payload r) s2 = Some (ok, s')"
      by (metis option.inject prod.inject)
    then show ?thesis
    proof cases
      case 3
      obtain k3 where k3: "k3 \<le> length (resp_payload r)" "wire_out s' = wire_out s2 @ bytes_of (take k3 (resp_payload r))"
        "ok \<longrightarrow> k3 = length (resp_payload r)"
        using writeBytes_effect [OF 3(2)] by blast
      then show ?thesis
        using k1 k2 3(1) True
        by (intro exI [of _ "length (response_start r) + length (response_headers r) + k3"]) simp
    qed (use k1 k2 True in \<open>auto intro!: exI [of _ "length (response_start r) + k2"] simp: bytes_of_Nil\<close>)
  qed
qed

lemma writeBytes_one_go:
  assumes "sockfd s \<noteq> -1" "sys_sends s = SendAccept n # os" "length str \<le> n" "str \<noteq> []" "\<not> cancel (cancel_queries s)"
  shows "writeBytes cancel str s =
    Some (True, s\<lparr>cancel_queries := cancel_queries s + 1, sys_sends := os, wire_out := wire_out s @ bytes_of str\<rparr>)"
  unfolding writeBytes_def using assms
  by (subst writeBytes_loop.simps) (simp add: ask_def socket_send_def)

theorem sendResponse_writes_witness:
  "let r = \<lparr>resp_statusCode = 200, resp_description = ''OK'', resp_errorCode = HttpOk, resp_headers = [], resp_payload = ''hi'',
         resp_errorMsg = [], resp_uploadSize = 0, resp_downloadSize = 0\<rparr>;
       s = (Socket_new 3 (SelectInterruptPipe_new 8))\<lparr>sys_sends := [SendAccept 4000, SendAccept 4000, SendAccept 4000]\<rparr>
   in \<exists>s'. sendResponse r s = Some (True, s') \<and> wire_out s' = bytes_of (response_start r @ response_headers r @ ''hi'')"
proof -
  let ?r = "\<lparr>resp_statusCode = 200, resp_description = ''OK'', resp_errorCode = HttpOk, resp_headers = [], resp_payload = ''hi'',
         resp_errorMsg = [], resp_uploadSize = 0, resp_downloadSize = 0\<rparr>"
  let ?s = "(Socket_new 3 (SelectInterruptPipe_new 8))\<lparr>sys_sends := [SendAccept 4000, SendAccept 4000, SendAccept 4000]\<rparr>"
  have l: "string_of_int 200 = ''200''" "string_of_nat 2 = ''2''" by code_simp+
  have len: "length (response_start ?r) \<le> 4000" "response_start ?r \<noteq> []" "length (response_headers ?r) \<le> 4000" "response_headers ?r \<noteq> []"
    by (simp_all add: response_start_def response_headers_def CRLF_def l numeral_2_eq_2 [symmetric])
  obtain s' where s': "sendResponse ?r ?s = Some (True, s')"
    using len by (simp add: sendResponse_def writeBytes_one_go Socket_new_def)
  show ?thesis
    using sendResponse_writes [OF s'] s' by (auto simp: Socket_new_def)
qed

end
