(* ===== verification/Base64.thy ===== *)
theory Base64
  imports Prelude
begin

section \<open>Base64 (ixcrypto/IXBase64.cpp)\<close>

text \<open>
  The encoder and decoder loops over three- and four-character buffers. The buffer that the code
  keeps in \<open>char_array_3\<close> or \<open>char_array_4\<close> with its fill count \<open>i\<close> is the list of the first \<open>i\<close>
  entries. The round trip theorem covers every byte string, with each of the three paddings.
\<close>

subsection \<open>The model\<close>

definition base64_chars :: string where
  "base64_chars = ''ABCDEFGHIJKLMNOPQRSTUVWXYZ'' @ ''abcdefghijklmnopqrstuvwxyz'' @ ''0123456789+/''"

text \<open>The four six-bit values of a full or zero-filled \<open>char_array_3\<close>.\<close>

definition char_array_4 :: "byte \<Rightarrow> byte \<Rightarrow> byte \<Rightarrow> byte list" where
  "char_array_4 a b c =
     [drop_bit 2 (a AND 0xfc),
      push_bit 4 (a AND 0x03) + drop_bit 4 (b AND 0xf0),
      push_bit 2 (b AND 0x0f) + drop_bit 6 (c AND 0xc0),
      c AND 0x3f]"

definition b64_char :: "byte \<Rightarrow> char" where
  "b64_char x = base64_chars ! unat x"

text \<open>The code after the loop, for \<open>i\<close> bytes left in the buffer.\<close>

definition encode_rest :: "byte list \<Rightarrow> string" where
  "encode_rest arr =
     (let i = length arr; a = arr @ replicate (3 - i) 0
      in if i = 0 then []
         else map b64_char (take (i + 1) (char_array_4 (a ! 0) (a ! 1) (a ! 2)))
              @ replicate (3 - i) (CHR ''=''))"

fun encode_loop :: "byte list \<Rightarrow> byte list \<Rightarrow> string" where
  "encode_loop [] arr = encode_rest arr"
| "encode_loop (b # bs) arr =
     (let arr' = arr @ [b]
      in if length arr' = 3
         then map b64_char (char_array_4 (arr' ! 0) (arr' ! 1) (arr' ! 2)) @ encode_loop bs []
         else encode_loop bs arr')"

text \<open>
  \<open>base64_encode(data, len)\<close> reads \<open>len\<close> bytes through \<open>data.c_str()\<close>: the string and its
  terminating NUL can be read, more is out of bounds (\<^term>\<open>None\<close>).
\<close>

definition base64_encode :: "byte list \<Rightarrow> nat \<Rightarrow> string option" where
  "base64_encode data len =
     (if length data + 1 < len then None else Some (encode_loop (take len (data @ [0])) []))"

definition is_base64 :: "char \<Rightarrow> bool" where
  "is_base64 c \<longleftrightarrow> c_isalnum c \<or> c = CHR ''+'' \<or> c = CHR ''/''"

fun index_of :: "char \<Rightarrow> string \<Rightarrow> nat option" where
  "index_of c [] = None"
| "index_of c (x # xs) = (if x = c then Some 0 else map_option Suc (index_of c xs))"

text \<open>\<open>base64_chars.find(c)\<close> stored in an \<open>unsigned char\<close>: \<open>npos\<close> becomes 255.\<close>

definition b64_find :: "char \<Rightarrow> byte" where
  "b64_find c = (case index_of c base64_chars of Some i \<Rightarrow> word_of_nat i | None \<Rightarrow> - 1)"

definition char_array_3 :: "byte \<Rightarrow> byte \<Rightarrow> byte \<Rightarrow> byte \<Rightarrow> byte list" where
  "char_array_3 w x y z =
     [push_bit 2 w + drop_bit 4 (x AND 0x30),
      push_bit 4 (x AND 0xf) + drop_bit 2 (y AND 0x3c),
      push_bit 6 (y AND 0x3) + z]"

definition decode_group :: "string \<Rightarrow> byte list" where
  "decode_group arr =
     char_array_3 (b64_find (arr ! 0)) (b64_find (arr ! 1)) (b64_find (arr ! 2)) (b64_find (arr ! 3))"

definition decode_rest :: "string \<Rightarrow> byte list" where
  "decode_rest arr =
     (let i = length arr
      in if i = 0 then [] else take (i - 1) (decode_group (arr @ replicate (4 - i) NUL)))"

fun decode_loop :: "string \<Rightarrow> string \<Rightarrow> byte list" where
  "decode_loop [] arr = decode_rest arr"
| "decode_loop (c # cs) arr =
     (if c \<noteq> CHR ''='' \<and> is_base64 c
      then let arr' = arr @ [c]
           in if length arr' = 4 then decode_group arr' @ decode_loop cs [] else decode_loop cs arr'
      else decode_rest arr)"

definition base64_decode :: "string \<Rightarrow> byte list" where
  "base64_decode encoded_string = decode_loop encoded_string []"

subsection \<open>The alphabet\<close>

lemma length_base64_chars: "length base64_chars = 64"
  by code_simp

lemma b64_alphabet:
  assumes "unat x < 64"
  shows "b64_find (b64_char x) = x" and "is_base64 (b64_char x)" and "b64_char x \<noteq> CHR ''=''"
proof -
  have "list_all (\<lambda>x. b64_find (b64_char x) = x \<and> is_base64 (b64_char x)
      \<and> b64_char x \<noteq> CHR ''='') (map word_of_nat [0..<64] :: byte list)"
    by code_simp
  from byte_below [OF assms this]
  show "b64_find (b64_char x) = x" and "is_base64 (b64_char x)" and "b64_char x \<noteq> CHR ''=''"
    by auto
qed

subsection \<open>Six-bit groups as numbers\<close>

lemma enc_bits:
  "unat (drop_bit 2 (a AND 0xfc) :: byte) = unat a div 4"
  "unat (push_bit 4 (a AND 0x03) :: byte) = unat a mod 4 * 16"
  "unat (drop_bit 4 (a AND 0xf0) :: byte) = unat a div 16"
  "unat (push_bit 2 (a AND 0x0f) :: byte) = unat a mod 16 * 4"
  "unat (drop_bit 6 (a AND 0xc0) :: byte) = unat a div 64"
  "unat (a AND 0x3f :: byte) = unat a mod 64"
  using unat_less_256 [of a]
  by (simp_all add: drop_bit_and unat_and_mask unat_drop_bit unat_push_bit mask_numerals less_mult_imp_div_less
      del: push_bit_and)

lemma dec_bits:
  "unat (push_bit 2 a :: byte) = unat a * 4 mod 256"
  "unat (drop_bit 4 (a AND 0x30) :: byte) = unat a div 16 mod 4"
  "unat (push_bit 4 (a AND 0xf) :: byte) = unat a mod 16 * 16"
  "unat (drop_bit 2 (a AND 0x3c) :: byte) = unat a div 4 mod 16"
  "unat (push_bit 6 (a AND 0x3) :: byte) = unat a mod 4 * 64"
  by (simp_all add: drop_bit_and unat_and_mask unat_drop_bit unat_push_bit mask_numerals
      del: push_bit_and)

lemma char_array_4_unat:
  "map unat (char_array_4 a b c) =
     [unat a div 4, unat a mod 4 * 16 + unat b div 16, unat b mod 16 * 4 + unat c div 64, unat c mod 64]"
proof -
  have "unat a mod 4 * 16 + unat b div 16 < 256" and "unat b mod 16 * 4 + unat c div 64 < 256"
    using unat_less_256 [of b] unat_less_256 [of c] by linarith+
  then show ?thesis by (simp add: char_array_4_def unat_word_ariths enc_bits del: push_bit_and drop_bit_and)
qed

lemma char_array_4_bound: "\<forall>x \<in> set (char_array_4 a b c). unat x < 64"
proof -
  have "\<forall>n \<in> set (map unat (char_array_4 a b c)). n < 64"
    unfolding char_array_4_unat
    using unat_less_256 [of a] unat_less_256 [of b] unat_less_256 [of c] by auto
  then show ?thesis by auto
qed

lemma quads_triple:
  fixes a b c :: nat
  assumes "a < 256" "b < 256" "c < 256"
  shows "(a div 4 * 4 mod 256 + (a mod 4 * 16 + b div 16) div 16 mod 4) mod 256 = a"
    and "((a mod 4 * 16 + b div 16) mod 16 * 16 + (b mod 16 * 4 + c div 64) div 4 mod 16) mod 256 = b"
    and "((b mod 16 * 4 + c div 64) mod 4 * 64 + c mod 64) mod 256 = c"
proof -
  have r: "b div 16 < 16" "c div 64 < 4" using assms by auto
  have "(a mod 4 * 16 + b div 16) div 16 = a mod 4" "(a mod 4 * 16 + b div 16) mod 16 = b div 16"
    using r by simp_all
  moreover have "(b mod 16 * 4 + c div 64) div 4 = b mod 16" "(b mod 16 * 4 + c div 64) mod 4 = c div 64"
    using r by simp_all
  moreover have "a div 4 * 4 < 256" using assms by auto
  ultimately show "(a div 4 * 4 mod 256 + (a mod 4 * 16 + b div 16) div 16 mod 4) mod 256 = a"
    and "((a mod 4 * 16 + b div 16) mod 16 * 16 + (b mod 16 * 4 + c div 64) div 4 mod 16) mod 256 = b"
    and "((b mod 16 * 4 + c div 64) mod 4 * 64 + c mod 64) mod 256 = c"
    using assms by simp_all
qed

lemma char_array_3_of_4:
  assumes "char_array_4 a b c = [w, x, y, z]"
  shows "char_array_3 w x y z = [a, b, c]"
proof -
  have u: "unat w = unat a div 4" "unat x = unat a mod 4 * 16 + unat b div 16"
      "unat y = unat b mod 16 * 4 + unat c div 64" "unat z = unat c mod 64"
    using char_array_4_unat [of a b c] by (simp_all add: assms)
  have "map unat (char_array_3 w x y z) = map unat [a, b, c]"
    using quads_triple [OF unat_less_256 [of a] unat_less_256 [of b] unat_less_256 [of c]]
    by (simp add: char_array_3_def unat_word_ariths dec_bits u del: push_bit_and drop_bit_and)
  then show ?thesis by (rule map_injective) (simp add: inj_def word_unat_eq_iff)
qed

lemma decode_group_quad: "decode_group (map b64_char (char_array_4 a b c)) = [a, b, c]"
proof -
  obtain w x y z where q: "char_array_4 a b c = [w, x, y, z]" by (simp add: char_array_4_def)
  then have "unat w < 64" "unat x < 64" "unat y < 64" "unat z < 64"
    using char_array_4_bound [of a b c] by simp_all
  then show ?thesis
    using char_array_3_of_4 [OF q] by (simp add: q decode_group_def b64_alphabet)
qed

lemma decode_loop_quad:
  "decode_loop (map b64_char (char_array_4 a b c) @ s) [] = [a, b, c] @ decode_loop s []"
proof -
  obtain w x y z where q: "char_array_4 a b c = [w, x, y, z]" by (simp add: char_array_4_def)
  then have "unat w < 64" "unat x < 64" "unat y < 64" "unat z < 64"
    using char_array_4_bound [of a b c] by simp_all
  then show ?thesis
    using decode_group_quad [of a b c] by (simp add: q b64_alphabet)
qed

lemma decode_loop_tail1:
  "decode_loop (encode_loop [a] []) [] = [a]"
proof -
  obtain w x y z where q: "char_array_4 a 0 0 = [w, x, y, z]" by (simp add: char_array_4_def)
  then have "unat w < 64" "unat x < 64" using char_array_4_bound [of a 0 0] by simp_all
  moreover have "char_array_3 w x y z = [a, 0, 0]" by (rule char_array_3_of_4 [OF q])
  then have "push_bit 2 w + drop_bit 4 (x AND 0x30) = a" by (simp add: char_array_3_def)
  ultimately show ?thesis
    by (simp add: encode_rest_def q Let_def b64_alphabet decode_rest_def decode_group_def
        char_array_3_def numeral_2_eq_2)
qed

lemma decode_loop_tail2:
  "decode_loop (encode_loop [a, b] []) [] = [a, b]"
proof -
  obtain w x y z where q: "char_array_4 a b 0 = [w, x, y, z]" by (simp add: char_array_4_def)
  then have "unat w < 64" "unat x < 64" "unat y < 64" using char_array_4_bound [of a b 0] by simp_all
  moreover have "char_array_3 w x y z = [a, b, 0]" by (rule char_array_3_of_4 [OF q])
  then have "push_bit 2 w + drop_bit 4 (x AND 0x30) = a"
      "push_bit 4 (x AND 0xf) + drop_bit 2 (y AND 0x3c) = b" by (simp_all add: char_array_3_def)
  ultimately show ?thesis
    by (simp add: encode_rest_def q Let_def b64_alphabet decode_rest_def decode_group_def
        char_array_3_def numeral_2_eq_2)
qed

lemma three_bytes_cases:
  obtains "bs = []" | a where "bs = [a]" | a b where "bs = [a, b]" | a b c r where "bs = a # b # c # r"
  by (metis list.exhaust)

lemma encode_loop_3: "encode_loop (a # b # c # r) [] = map b64_char (char_array_4 a b c) @ encode_loop r []"
  by (simp add: Let_def)

lemma decode_encode_loop: "decode_loop (encode_loop bs []) [] = bs"
proof (induction bs rule: length_induct)
  case (1 bs)
  show ?case
  proof (cases rule: three_bytes_cases [of bs])
    case 1
    then show ?thesis by (simp add: encode_rest_def decode_rest_def)
  next
    case (2 a)
    then show ?thesis by (simp only: decode_loop_tail1)
  next
    case (3 a b)
    then show ?thesis by (simp only: decode_loop_tail2)
  next
    case (4 a b c r)
    with 1 have "decode_loop (encode_loop r []) [] = r" by simp
    with 4 show ?thesis by (simp only: encode_loop_3 decode_loop_quad) simp
  qed
qed

text \<open>
  Decoding the encoding of a byte string gives the byte string back, whatever its length
  modulo three.
\<close>

theorem base64_roundtrip:
  "\<exists>s. base64_encode data (length data) = Some s \<and> base64_decode s = data"
  by (simp add: base64_encode_def base64_decode_def decode_encode_loop)

lemma length_encode_loop: "length (encode_loop bs []) = 4 * ((length bs + 2) div 3)"
proof (induction bs rule: length_induct)
  case (1 bs)
  show ?case
  proof (cases rule: three_bytes_cases [of bs])
    case (4 a b c r)
    with 1 have "length (encode_loop r []) = 4 * ((length r + 2) div 3)" by simp
    moreover have "length (encode_loop bs []) = 4 + length (encode_loop r [])"
      unfolding 4 encode_loop_3 by (simp add: char_array_4_def)
    moreover have "(length bs + 2) div 3 = 1 + (length r + 2) div 3" using 4 by simp
    ultimately show ?thesis by simp
  qed (simp_all add: encode_rest_def char_array_4_def)
qed

end
