(* ===== verification/HandshakeKeyGen.thy ===== *)
theory HandshakeKeyGen
  imports Base64
begin

section \<open>The Sec-WebSocket-Accept key (libwshandshake.hpp)\<close>

text \<open>
  \<open>WebSocketHandshakeKeyGen::generate\<close>: two unrolled SHA-1 compressions over a rotating array of
  five words and a circular array of sixteen, and a Base64 encoder for twenty bytes. The
  reference is SHA-1 as FIPS 180-4 states it (padding, 80-word schedule, five named registers).
  The main lemmas relate the rotating array to the registers and the circular array to the
  schedule; the theorem says that the code computes what RFC 6455 asks for: the Base64 encoding
  of the SHA-1 hash of the key followed by the protocol's GUID.
\<close>

subsection \<open>The model\<close>

definition rol :: "u32 \<Rightarrow> nat \<Rightarrow> u32" where
  "rol value bits = push_bit bits value OR drop_bit (32 - bits) value"

definition blk :: "u32 list \<Rightarrow> nat \<Rightarrow> u32" where
  "blk b i = rol (b ! ((i + 13) mod 16) XOR b ! ((i + 8) mod 16) XOR b ! ((i + 2) mod 16) XOR b ! i) 1"

text \<open>\<open>Sha1Loop<state>::f<i>\<close>: one step on the two arrays.\<close>

definition sha1_f :: "nat \<Rightarrow> nat \<Rightarrow> u32 list \<times> u32 list \<Rightarrow> u32 list \<times> u32 list" where
  "sha1_f state i ab =
     (let (a, b) = ab in
      if state = 1 then
        let a = a[i mod 5 := a ! (i mod 5) +
                   ((((a ! ((3 + i) mod 5)) AND ((a ! ((2 + i) mod 5)) XOR (a ! ((1 + i) mod 5))))
                     XOR (a ! ((1 + i) mod 5)))
                    + b ! i + 0x5a827999 + rol (a ! ((4 + i) mod 5)) 5)]
        in (a[(3 + i) mod 5 := rol (a ! ((3 + i) mod 5)) 30], b)
      else if state = 2 then
        let b = b[i := blk b i];
            a = a[(1 + i) mod 5 := a ! ((1 + i) mod 5) +
                   ((((a ! ((4 + i) mod 5)) AND ((a ! ((3 + i) mod 5)) XOR (a ! ((2 + i) mod 5))))
                     XOR (a ! ((2 + i) mod 5)))
                    + b ! i + 0x5a827999 + rol (a ! ((5 + i) mod 5)) 5)]
        in (a[(4 + i) mod 5 := rol (a ! ((4 + i) mod 5)) 30], b)
      else if state = 3 then
        let b = b[(i + 4) mod 16 := blk b ((i + 4) mod 16)];
            a = a[i mod 5 := a ! (i mod 5) +
                   (((a ! ((3 + i) mod 5)) XOR (a ! ((2 + i) mod 5)) XOR (a ! ((1 + i) mod 5)))
                    + b ! ((i + 4) mod 16) + 0x6ed9eba1 + rol (a ! ((4 + i) mod 5)) 5)]
        in (a[(3 + i) mod 5 := rol (a ! ((3 + i) mod 5)) 30], b)
      else if state = 4 then
        let b = b[(i + 8) mod 16 := blk b ((i + 8) mod 16)];
            a = a[i mod 5 := a ! (i mod 5) +
                   (((((a ! ((3 + i) mod 5)) OR (a ! ((2 + i) mod 5))) AND (a ! ((1 + i) mod 5)))
                     OR ((a ! ((3 + i) mod 5)) AND (a ! ((2 + i) mod 5))))
                    + b ! ((i + 8) mod 16) + 0x8f1bbcdc + rol (a ! ((4 + i) mod 5)) 5)]
        in (a[(3 + i) mod 5 := rol (a ! ((3 + i) mod 5)) 30], b)
      else if state = 5 then
        let b = b[(i + 12) mod 16 := blk b ((i + 12) mod 16)];
            a = a[i mod 5 := a ! (i mod 5) +
                   (((a ! ((3 + i) mod 5)) XOR (a ! ((2 + i) mod 5)) XOR (a ! ((1 + i) mod 5)))
                    + b ! ((i + 12) mod 16) + 0xca62c1d6 + rol (a ! ((4 + i) mod 5)) 5)]
        in (a[(3 + i) mod 5 := rol (a ! ((3 + i) mod 5)) 30], b)
      else if state = 6 then (a, b[i := b ! i + a ! (4 - i)])
      else (a, b))"

text \<open>\<open>static_for<N, T>\<close> runs \<open>f<0>\<close> to \<open>f<N - 1>\<close> in that order.\<close>

fun static_for :: "nat \<Rightarrow> nat \<Rightarrow> u32 list \<times> u32 list \<Rightarrow> u32 list \<times> u32 list" where
  "static_for 0 state ab = ab"
| "static_for (Suc n) state ab = sha1_f state n (static_for n state ab)"

definition sha1 :: "u32 list \<Rightarrow> u32 list \<Rightarrow> u32 list" where
  "sha1 hash b =
     (let ab = ([hash ! 4, hash ! 3, hash ! 2, hash ! 1, hash ! 0], b);
          ab = static_for 16 1 ab;
          ab = static_for 4 2 ab;
          ab = static_for 20 3 ab;
          ab = static_for 20 4 ab;
          ab = static_for 20 5 ab
      in snd (static_for 5 6 (fst ab, hash)))"

definition keygen_b64 :: string where
  "keygen_b64 = ''ABCDEFGHIJKLMNOPQRSTUVWXYZabcdefghijklmnopqrstuvwxyz0123456789+/''"

definition keygen_group :: "byte list \<Rightarrow> nat \<Rightarrow> string" where
  "keygen_group src i =
     [keygen_b64 ! unat (drop_bit 2 (src ! i) AND 63),
      keygen_b64 ! unat (push_bit 4 (src ! i AND 3) OR drop_bit 4 (src ! (i + 1) AND 240)),
      keygen_b64 ! unat (push_bit 2 (src ! (i + 1) AND 15) OR drop_bit 6 (src ! (i + 2) AND 192)),
      keygen_b64 ! unat (src ! (i + 2) AND 63)]"

definition keygen_base64 :: "byte list \<Rightarrow> string" where
  "keygen_base64 src =
     concat (map (keygen_group src) [0, 3, 6, 9, 12, 15]) @
     [keygen_b64 ! unat (drop_bit 2 (src ! 18) AND 63),
      keygen_b64 ! unat (push_bit 4 (src ! 18 AND 3) OR drop_bit 4 (src ! 19 AND 240)),
      keygen_b64 ! unat (push_bit 2 (src ! 19 AND 15)),
      CHR ''='']"

definition sha1_init :: "u32 list" where
  "sha1_init = [0x67452301, 0xefcdab89, 0x98badcfe, 0x10325476, 0xc3d2e1f0]"

text \<open>Four characters of the zero-filled input buffer as one big-endian word.\<close>

definition input_word :: "byte list \<Rightarrow> nat \<Rightarrow> u32" where
  "input_word input i =
     ucast (input ! (4 * i + 3)) OR push_bit 8 (ucast (input ! (4 * i + 2)))
       OR push_bit 16 (ucast (input ! (4 * i + 1))) OR push_bit 24 (ucast (input ! (4 * i)))"

definition word_bytes :: "u32 \<Rightarrow> byte list" where
  "word_bytes w = [ucast (drop_bit 24 w), ucast (drop_bit 16 w), ucast (drop_bit 8 w), ucast w]"

definition generate :: "string \<Rightarrow> string" where
  "generate inputStr =
     (let input = take 24 (bytes_of (c_str inputStr) @ replicate 24 0) @ [0];
          b_input = map (input_word input) [0..<6] @
            [0x32353845, 0x41464135, 0x2d453931, 0x342d3437, 0x44412d39,
             0x3543412d, 0x43354142, 0x30444338, 0x35423131, 0x80000000];
          b_output = sha1 sha1_init b_input;
          b_output = sha1 b_output [0, 0, 0, 0, 0, 0, 0, 0, 0, 0, 0, 0, 0, 0, 0, 480]
      in keygen_base64 (concat (map word_bytes b_output)))"

subsection \<open>The reference: SHA-1 (FIPS 180-4)\<close>

type_synonym sha1_regs = "u32 \<times> u32 \<times> u32 \<times> u32 \<times> u32"

fun sha1_schedule :: "u32 list \<Rightarrow> nat \<Rightarrow> u32" where
  "sha1_schedule m t =
     (if t < 16 then m ! t
      else rol (sha1_schedule m (t - 3) XOR sha1_schedule m (t - 8)
                XOR sha1_schedule m (t - 14) XOR sha1_schedule m (t - 16)) 1)"

declare sha1_schedule.simps [simp del]

definition sha1_ft :: "nat \<Rightarrow> u32 \<Rightarrow> u32 \<Rightarrow> u32 \<Rightarrow> u32" where
  "sha1_ft t x y z =
     (if t < 20 then (x AND y) XOR (NOT x AND z)
      else if t < 40 then x XOR y XOR z
      else if t < 60 then (x AND y) XOR (x AND z) XOR (y AND z)
      else x XOR y XOR z)"

definition sha1_kt :: "nat \<Rightarrow> u32" where
  "sha1_kt t =
     (if t < 20 then 0x5a827999 else if t < 40 then 0x6ed9eba1
      else if t < 60 then 0x8f1bbcdc else 0xca62c1d6)"

fun sha1_round :: "nat \<Rightarrow> u32 \<Rightarrow> sha1_regs \<Rightarrow> sha1_regs" where
  "sha1_round t w (a, b, c, d, e) =
     (rol a 5 + sha1_ft t b c d + e + sha1_kt t + w, a, rol b 30, c, d)"

fun sha1_rounds :: "u32 list \<Rightarrow> nat \<Rightarrow> sha1_regs \<Rightarrow> sha1_regs" where
  "sha1_rounds m 0 r = r"
| "sha1_rounds m (Suc t) r = sha1_round t (sha1_schedule m t) (sha1_rounds m t r)"

definition sha1_compress :: "u32 list \<Rightarrow> u32 list \<Rightarrow> u32 list" where
  "sha1_compress h m =
     (let (a, b, c, d, e) = sha1_rounds m 80 (h ! 0, h ! 1, h ! 2, h ! 3, h ! 4)
      in [h ! 0 + a, h ! 1 + b, h ! 2 + c, h ! 3 + d, h ! 4 + e])"

definition be32 :: "byte \<Rightarrow> byte \<Rightarrow> byte \<Rightarrow> byte \<Rightarrow> u32" where
  "be32 a b c d = word_of_nat (unat a * 2 ^ 24 + unat b * 2 ^ 16 + unat c * 2 ^ 8 + unat d)"

fun be_words :: "byte list \<Rightarrow> u32 list" where
  "be_words (a # b # c # d # r) = be32 a b c d # be_words r"
| "be_words _ = []"

definition be_bytes :: "nat \<Rightarrow> nat \<Rightarrow> byte list" where
  "be_bytes n v = map (\<lambda>i. word_of_nat (v div 256 ^ (n - 1 - i))) [0..<n]"

definition sha1_pad :: "byte list \<Rightarrow> byte list" where
  "sha1_pad msg =
     msg @ [0x80] @ replicate ((119 - length msg mod 64) mod 64) 0 @ be_bytes 8 (8 * length msg)"

function sha1_blocks :: "u32 list \<Rightarrow> u32 list \<Rightarrow> u32 list" where
  "sha1_blocks h ws =
     (if length ws < 16 then h else sha1_blocks (sha1_compress h (take 16 ws)) (drop 16 ws))"
  by pat_completeness auto
termination
  by (relation "measure (\<lambda>(h, ws). length ws)") auto

declare sha1_blocks.simps [simp del]

definition sha1_hash :: "byte list \<Rightarrow> byte list" where
  "sha1_hash msg =
     concat (map (\<lambda>w. be_bytes 4 (unat w)) (sha1_blocks sha1_init (be_words (sha1_pad msg))))"

definition websocket_guid :: string where
  "websocket_guid = ''258EAFA5-E914-47DA-95CA-C5AB0DC85B11''"

subsection \<open>The registers in the rotating array\<close>

definition regs :: "nat \<Rightarrow> u32 list \<Rightarrow> sha1_regs" where
  "regs t a = (a ! ((4 + t) mod 5), a ! ((3 + t) mod 5), a ! ((2 + t) mod 5), a ! ((1 + t) mod 5), a ! (t mod 5))"

text \<open>One round of the code at global round number \<open>t\<close>, with the word \<open>w\<close> already in place.\<close>

definition rot_round :: "nat \<Rightarrow> u32 \<Rightarrow> u32 list \<Rightarrow> u32 list" where
  "rot_round t w a =
     (let a = a[t mod 5 := a ! (t mod 5) +
           (sha1_ft t (a ! ((3 + t) mod 5)) (a ! ((2 + t) mod 5)) (a ! ((1 + t) mod 5))
            + w + sha1_kt t + rol (a ! ((4 + t) mod 5)) 5)]
      in a[(3 + t) mod 5 := rol (a ! ((3 + t) mod 5)) 30])"

lemma length_rot_round [simp]: "length (rot_round t w a) = length a"
  by (simp add: rot_round_def Let_def)

lemma five_elements:
  assumes "length a = 5"
  obtains v w x y z where "a = [v, w, x, y, z]"
proof -
  have "a = [a ! 0, a ! 1, a ! 2, a ! 3, a ! 4]"
    using assms by (intro nth_equalityI) (auto simp: less_Suc_eq numeral_eq_Suc)
  then show ?thesis using that by blast
qed

lemma regs_rot_round:
  assumes "length a = 5"
  shows "regs (Suc t) (rot_round t w a) = sha1_round t w (regs t a)"
proof -
  obtain v0 v1 v2 v3 v4 where a: "a = [v0, v1, v2, v3, v4]" using assms by (rule five_elements)
  have r: "(k + t) mod 5 = (k + t mod 5) mod 5" "(k + Suc t) mod 5 = (k + Suc (t mod 5)) mod 5"
      "Suc t mod 5 = Suc (t mod 5) mod 5" for k
    by (simp_all add: mod_simps) (metis add_Suc_right mod_Suc_eq mod_add_right_eq)
  have "t mod 5 = 0 \<or> t mod 5 = 1 \<or> t mod 5 = 2 \<or> t mod 5 = 3 \<or> t mod 5 = 4"
    using mod_less_divisor [of 5 t] by linarith
  then show ?thesis
    unfolding regs_def rot_round_def r a Let_def
    by (elim disjE) (simp_all add: ac_simps)
qed

subsection \<open>The schedule in the circular array\<close>

definition circular :: "u32 list \<Rightarrow> nat \<Rightarrow> u32 list \<Rightarrow> bool" where
  "circular m t b \<longleftrightarrow> length b = 16 \<and>
     (\<forall>s. max t 16 - 16 \<le> s \<and> s < max t 16 \<longrightarrow> b ! (s mod 16) = sha1_schedule m s)"

lemma circular_start: "length m = 16 \<Longrightarrow> circular m 0 m"
  by (simp add: circular_def sha1_schedule.simps)

definition circ_word :: "nat \<Rightarrow> u32 list \<Rightarrow> u32 list" where
  "circ_word t b = (if t < 16 then b else b[t mod 16 := blk b (t mod 16)])"

lemma mod16_back:
  assumes "16 \<le> t" and "k \<le> 16"
  shows "(t mod 16 + (16 - k)) mod 16 = (t - k) mod (16::nat)"
proof -
  have "(t mod 16 + (16 - k)) mod 16 = (t + (16 - k)) mod 16" by (rule mod_add_left_eq)
  also have "t + (16 - k) = t - k + 16" using assms by simp
  finally show ?thesis by simp
qed

lemma blk_schedule:
  assumes "circular m t b" and "16 \<le> t"
  shows "blk b (t mod 16) = sha1_schedule m t"
proof -
  have c: "b ! ((t - k) mod 16) = sha1_schedule m (t - k)" if "1 \<le> k" "k \<le> 16" for k
    using assms that by (auto simp: circular_def max_def)
  have "blk b (t mod 16) =
      rol (b ! ((t - 3) mod 16) XOR b ! ((t - 8) mod 16) XOR b ! ((t - 14) mod 16) XOR b ! ((t - 16) mod 16)) 1"
    using mod16_back [OF assms(2), of 3] mod16_back [OF assms(2), of 8]
      mod16_back [OF assms(2), of 14] mod16_back [OF assms(2), of 16]
    by (simp add: blk_def)
  also have "\<dots> = sha1_schedule m t"
    using assms(2) by (simp add: c sha1_schedule.simps [of m t])
  finally show ?thesis .
qed

lemma circular_step:
  assumes "circular m t b"
  shows "circular m (Suc t) (circ_word t b)" and "circ_word t b ! (t mod 16) = sha1_schedule m t"
proof -
  have len: "length b = 16" and old: "\<And>s. max t 16 - 16 \<le> s \<Longrightarrow> s < max t 16 \<Longrightarrow> b ! (s mod 16) = sha1_schedule m s"
    using assms by (auto simp: circular_def)
  show w: "circ_word t b ! (t mod 16) = sha1_schedule m t"
  proof (cases "t < 16")
    case True
    then show ?thesis using old [of t] by (simp add: circ_word_def)
  next
    case False
    then show ?thesis using blk_schedule [OF assms] len by (simp add: circ_word_def)
  qed
  show "circular m (Suc t) (circ_word t b)"
  proof (cases "t < 16")
    case True
    then show ?thesis using assms by (simp add: circ_word_def circular_def)
  next
    case False
    have "circ_word t b ! (s mod 16) = sha1_schedule m s" if s: "Suc t - 16 \<le> s" "s \<le> t" for s
    proof (cases "s = t")
      case True
      with w show ?thesis by simp
    next
      case ne: False
      have "s mod 16 \<noteq> t mod 16"
      proof
        assume "s mod 16 = t mod 16"
        then have "16 dvd t - s" using mod_eq_dvd_iff_nat [OF s(2), of 16] by simp
        then show False using s ne by (auto dest: dvd_imp_le)
      qed
      then show ?thesis using False old [of s] s ne by (simp add: circ_word_def max_def)
    qed
    then show ?thesis using False len by (auto simp: circular_def circ_word_def max_def less_Suc_eq_le)
  qed
qed

subsection \<open>The unrolled loops are eighty rounds\<close>

definition step80 :: "nat \<Rightarrow> u32 list \<times> u32 list \<Rightarrow> u32 list \<times> u32 list" where
  "step80 t ab =
     (let b' = circ_word t (snd ab) in (rot_round t (b' ! (t mod 16)) (fst ab), b'))"

lemma sha1_choose: "(x AND (y XOR z)) XOR z = (x AND y) XOR (NOT x AND (z :: u32))"
  by (rule bit_word_eqI) (auto simp: bit_simps)

lemma sha1_majority: "((x OR y) AND z) OR (x AND y) = (x AND y) XOR (x AND z) XOR (y AND (z :: u32))"
  by (rule bit_word_eqI) (auto simp: bit_simps)

lemma mod5_16: "(k + (16 + i)) mod 5 = (k + 1 + i) mod (5::nat)" "(16 + i) mod 5 = (1 + i) mod (5::nat)"
  using mod_mult_self3 [of 3 5 "k + 1 + i"] mod_mult_self3 [of 3 5 "1 + i"] by (simp_all add: ac_simps)

lemma mod5_20: "(k + (20 + i)) mod 5 = (k + i) mod (5::nat)" "(20 + i) mod 5 = i mod (5::nat)"
  using mod_mult_self3 [of 4 5 "k + i"] mod_mult_self3 [of 4 5 i] by (simp_all add: ac_simps)

lemma mod5_40: "(k + (40 + i)) mod 5 = (k + i) mod (5::nat)" "(40 + i) mod 5 = i mod (5::nat)"
  using mod_mult_self3 [of 8 5 "k + i"] mod_mult_self3 [of 8 5 i] by (simp_all add: ac_simps)

lemma mod5_60: "(k + (60 + i)) mod 5 = (k + i) mod (5::nat)" "(60 + i) mod 5 = i mod (5::nat)"
  using mod_mult_self3 [of 12 5 "k + i"] mod_mult_self3 [of 12 5 i] by (simp_all add: ac_simps)

lemma mod16_t:
  "(16 + i) mod 16 = i mod (16::nat)" "(20 + i) mod 16 = (i + 4) mod (16::nat)"
  "(40 + i) mod 16 = (i + 8) mod (16::nat)" "(60 + i) mod 16 = (i + 12) mod (16::nat)"
  using mod_mult_self3 [of 1 16 i] mod_mult_self3 [of 1 16 "i + 4"] mod_mult_self3 [of 2 16 "i + 8"]
    mod_mult_self3 [of 3 16 "i + 12"]
  by (simp_all add: ac_simps)

lemma sha1_f_1: "i < 16 \<Longrightarrow> sha1_f 1 i ab = step80 i ab"
  by (simp add: sha1_f_def step80_def circ_word_def rot_round_def sha1_ft_def sha1_kt_def
      sha1_choose Let_def split_beta)

lemma sha1_f_2: "i < 4 \<Longrightarrow> sha1_f 2 i ab = step80 (16 + i) ab"
  unfolding step80_def circ_word_def rot_round_def sha1_ft_def sha1_kt_def mod5_16 mod16_t
  by (simp add: sha1_f_def sha1_choose Let_def split_beta)

lemma sha1_f_3: "i < 20 \<Longrightarrow> sha1_f 3 i ab = step80 (20 + i) ab"
  unfolding step80_def circ_word_def rot_round_def sha1_ft_def sha1_kt_def mod5_20 mod16_t
  by (simp add: sha1_f_def Let_def split_beta)

lemma sha1_f_4: "i < 20 \<Longrightarrow> sha1_f 4 i ab = step80 (40 + i) ab"
  unfolding step80_def circ_word_def rot_round_def sha1_ft_def sha1_kt_def mod5_40 mod16_t
  by (simp add: sha1_f_def sha1_majority Let_def split_beta)

lemma sha1_f_5: "i < 20 \<Longrightarrow> sha1_f 5 i ab = step80 (60 + i) ab"
  unfolding step80_def circ_word_def rot_round_def sha1_ft_def sha1_kt_def mod5_60 mod16_t
  by (simp add: sha1_f_def Let_def split_beta)

fun steps80 :: "nat \<Rightarrow> u32 list \<times> u32 list \<Rightarrow> u32 list \<times> u32 list" where
  "steps80 0 ab = ab"
| "steps80 (Suc t) ab = step80 t (steps80 t ab)"

lemma static_for_steps:
  "(\<And>i ab. i < n \<Longrightarrow> sha1_f state i ab = step80 (base + i) ab) \<Longrightarrow>
   static_for n state (steps80 base ab) = steps80 (base + n) ab"
  by (induction n) simp_all

lemma unrolled_steps:
  "static_for 20 5 (static_for 20 4 (static_for 20 3 (static_for 4 2 (static_for 16 1 ab)))) = steps80 80 ab"
proof -
  have "static_for 16 1 ab = steps80 16 ab"
    using static_for_steps [of 16 1 0 ab] sha1_f_1 by simp
  also have "static_for 4 2 \<dots> = steps80 20 ab"
    using static_for_steps [of 4 2 16 ab] by (simp add: sha1_f_2)
  also have "static_for 20 3 \<dots> = steps80 40 ab"
    using static_for_steps [of 20 3 20 ab] by (simp add: sha1_f_3)
  also have "static_for 20 4 \<dots> = steps80 60 ab"
    using static_for_steps [of 20 4 40 ab] by (simp add: sha1_f_4)
  also have "static_for 20 5 \<dots> = steps80 80 ab"
    using static_for_steps [of 20 5 60 ab] by (simp add: sha1_f_5)
  finally show ?thesis by simp
qed

lemma steps80_rounds:
  assumes "length a = 5" and "length m = 16"
  shows "length (fst (steps80 t (a, m))) = 5 \<and> circular m t (snd (steps80 t (a, m))) \<and>
    regs t (fst (steps80 t (a, m))) = sha1_rounds m t (regs 0 a)"
proof (induction t)
  case 0
  then show ?case using assms circular_start by simp
next
  case (Suc t)
  then show ?case
    using circular_step [of m t "snd (steps80 t (a, m))"] regs_rot_round [of "fst (steps80 t (a, m))" t]
    by (simp add: step80_def Let_def)
qed

lemma static_for_6: "length a = 5 \<Longrightarrow> length h = 5 \<Longrightarrow>
  snd (static_for 5 6 (a, h)) = [h ! 0 + a ! 4, h ! 1 + a ! 3, h ! 2 + a ! 2, h ! 3 + a ! 1, h ! 4 + a ! 0]"
  by (elim five_elements) (simp add: sha1_f_def eval_nat_numeral)

lemma sha1_is_compress:
  assumes "length h = 5" and "length m = 16"
  shows "sha1 h m = sha1_compress h m"
proof -
  define a where "a = [h ! 4, h ! 3, h ! 2, h ! 1, h ! 0]"
  let ?e = "steps80 80 (a, m)"
  have r: "length (fst ?e) = 5" "regs 80 (fst ?e) = sha1_rounds m 80 (regs 0 a)"
    using steps80_rounds [of a m 80] assms by (simp_all add: a_def)
  have "sha1 h m = snd (static_for 5 6 (fst ?e, h))"
    unfolding sha1_def Let_def a_def [symmetric] unrolled_steps by simp
  also have "\<dots> = [h ! 0 + fst ?e ! 4, h ! 1 + fst ?e ! 3, h ! 2 + fst ?e ! 2, h ! 3 + fst ?e ! 1, h ! 4 + fst ?e ! 0]"
    using r assms by (intro static_for_6)
  also have "\<dots> = sha1_compress h m"
    using r(2) by (simp add: sha1_compress_def regs_def a_def split_beta) (metis fst_conv snd_conv)
  finally show ?thesis .
qed

subsection \<open>Bytes and words\<close>

lemma or_disjoint_shift:
  assumes "unat x < 2 ^ k"
  shows "x OR push_bit k y = x + push_bit k (y :: 'a::len word)"
proof (rule disjunctive_add [symmetric])
  fix n
  have "take_bit k x = x"
    by (rule word_unat_eq_iff [THEN iffD2])
      (simp add: unsigned_take_bit_eq take_bit_nat_eq_self assms del: take_bit_eq_mod)
  then have "bit x n \<Longrightarrow> n < k" by (metis bit_take_bit_iff)
  then show "\<not> bit x n \<or> \<not> bit (push_bit k y) n" by (auto simp: bit_push_bit_iff)
qed

lemma unat_or_shift:
  assumes "unat x < 2 ^ k" and "unat y < 2 ^ (32 - k)" and "k \<le> 32"
  shows "unat (x OR push_bit k (y :: u32)) = unat x + unat y * 2 ^ k"
proof -
  have "(2::nat) ^ 32 = 2 ^ (32 - k) * 2 ^ k" using assms(3) by (simp flip: power_add)
  moreover have "(unat y + 1) * 2 ^ k \<le> 2 ^ (32 - k) * 2 ^ k" using assms(2) by (intro mult_le_mono1) simp
  ultimately have b: "unat x + unat y * 2 ^ k < 2 ^ 32" using assms(1) by simp
  then have "unat (push_bit k y) = unat y * 2 ^ k" by (simp add: unat_push_bit)
  with b show ?thesis unfolding or_disjoint_shift [OF assms(1)] by (simp add: unat_word_ariths)
qed

lemma input_word_be32:
  "ucast d OR push_bit 8 (ucast c) OR push_bit 16 (ucast b) OR push_bit 24 (ucast a) = be32 a b c d"
proof -
  have u: "unat (ucast x :: u32) = unat x" for x :: byte by (rule unat_ucast_up) simp
  have l: "unat a < 256" "unat b < 256" "unat c < 256" "unat d < 256" by (rule unat_less_256)+
  have "unat ((ucast d :: u32) OR push_bit 8 (ucast c)) = unat d + unat c * 2 ^ 8"
    using unat_or_shift [of "ucast d" 8 "ucast c"] l by (simp add: u)
  moreover from this have
    "unat (((ucast d :: u32) OR push_bit 8 (ucast c)) OR push_bit 16 (ucast b)) =
       unat d + unat c * 2 ^ 8 + unat b * 2 ^ 16"
    using unat_or_shift [of "ucast d OR push_bit 8 (ucast c)" 16 "ucast b"] l by (simp add: u)
  moreover from this have
    "unat ((((ucast d :: u32) OR push_bit 8 (ucast c)) OR push_bit 16 (ucast b)) OR push_bit 24 (ucast a)) =
       unat d + unat c * 2 ^ 8 + unat b * 2 ^ 16 + unat a * 2 ^ 24"
    using unat_or_shift [of "(ucast d OR push_bit 8 (ucast c)) OR push_bit 16 (ucast b)" 24 "ucast a"] l
    by (simp add: u)
  ultimately have "unat ((((ucast d :: u32) OR push_bit 8 (ucast c)) OR push_bit 16 (ucast b)) OR push_bit 24 (ucast a)) =
       unat (be32 a b c d)"
    using l unfolding be32_def unat_of_nat by simp
  then show ?thesis by (simp add: word_unat_eq_iff or.assoc)
qed

lemma input_word_eq: "input_word inp i = be32 (inp ! (4*i)) (inp ! (4*i+1)) (inp ! (4*i+2)) (inp ! (4*i+3))"
  unfolding input_word_def input_word_be32 ..

lemma be_words_append:
  "length k = 4 * n \<Longrightarrow>
   be_words (k @ r) = map (\<lambda>i. be32 (k ! (4*i)) (k ! (4*i+1)) (k ! (4*i+2)) (k ! (4*i+3))) [0..<n] @ be_words r"
proof (induction n arbitrary: k)
  case 0
  then show ?case by simp
next
  case (Suc n)
  have "4 * Suc n = Suc (Suc (Suc (Suc (4 * n))))" by simp
  then have "length k = Suc (Suc (Suc (Suc (4 * n))))" using Suc.prems by linarith
  then obtain a b c d k' where k: "k = a # b # c # d # k'" "length k' = 4 * n"
    by (auto simp: length_Suc_conv)
  have "[0..<Suc n] = 0 # map Suc [0..<n]" by (simp add: upt_conv_Cons map_Suc_upt)
  with Suc.IH [OF k(2)] show ?case unfolding k(1) by (simp add: comp_def add.commute [of 3])
qed

lemma be_words_key:
  assumes "length k = 24"
  shows "be_words (k @ r) = map (input_word (k @ [0])) [0..<6] @ be_words r"
  using be_words_append [of k 6 r] assms by (simp add: input_word_eq nth_append)

lemma word_bytes_be: "word_bytes w = be_bytes 4 (unat w)"
proof -
  have "unat (ucast x :: byte) = unat x mod 256" for x :: u32
    by (simp add: unsigned_ucast_eq take_bit_eq_mod)
  then have "map unat (word_bytes w) = map unat (be_bytes 4 (unat w))"
    by (simp add: word_bytes_def be_bytes_def upt_rec unat_drop_bit unat_of_nat)
  then show ?thesis by (rule map_injective) (simp add: inj_def word_unat_eq_iff)
qed

lemma keygen_alphabet: "keygen_b64 = base64_chars"
  by code_simp

lemma keygen_bits:
  "drop_bit 2 a AND 63 = drop_bit 2 (a AND 0xfc :: byte)"
  "push_bit 4 (a AND 3) OR drop_bit 4 (b AND 240) = push_bit 4 (a AND 3) + drop_bit 4 (b AND (0xf0 :: byte))"
  "push_bit 2 (a AND 15) OR drop_bit 6 (b AND 192) = push_bit 2 (a AND 15) + drop_bit 6 (b AND (0xc0 :: byte))"
proof -
  show "drop_bit 2 a AND 63 = drop_bit 2 (a AND 0xfc :: byte)" by simp
  have "unat (drop_bit 4 (b AND 0xf0)) < 2 ^ 4" "unat (drop_bit 6 (b AND 0xc0)) < 2 ^ 2"
    using unat_less_256 [of b] unfolding enc_bits by auto
  then show "push_bit 4 (a AND 3) OR drop_bit 4 (b AND 240) = push_bit 4 (a AND 3) + drop_bit 4 (b AND (0xf0 :: byte))"
    and "push_bit 2 (a AND 15) OR drop_bit 6 (b AND 192) = push_bit 2 (a AND 15) + drop_bit 6 (b AND (0xc0 :: byte))"
    using or_disjoint_shift [of "drop_bit 4 (b AND 0xf0)" 4 "a AND 3"]
      or_disjoint_shift [of "drop_bit 6 (b AND 0xc0)" 2 "a AND 15"]
    by (metis or.commute add.commute)+
qed

lemma keygen_group_eq:
  "keygen_group src i = map b64_char (char_array_4 (src ! i) (src ! (i + 1)) (src ! (i + 2)))"
  unfolding keygen_group_def keygen_bits keygen_alphabet
  by (simp add: char_array_4_def b64_char_def)

lemma keygen_base64_encode:
  assumes "length src = 20"
  shows "keygen_base64 src = encode_loop src []"
proof -
  have "src = map (\<lambda>i. src ! i) [0..<20]" using assms by (intro nth_equalityI) auto
  also have "[0..<20] = [0,1,2,3,4,5,6,7,8,9,10,11,12,13,14,15,16,17,18,19::nat]" by code_simp
  finally have e: "src = map (\<lambda>i. src ! i) [0,1,2,3,4,5,6,7,8,9,10,11,12,13,14,15,16,17,18,19]" .
  have "encode_loop src [] = concat (map (keygen_group src) [0, 3, 6, 9, 12, 15]) @ encode_loop [src ! 18, src ! 19] []"
    by (subst e) (simp only: list.map encode_loop_3, simp add: keygen_group_eq numeral_2_eq_2)
  moreover have "encode_loop [src ! 18, src ! 19] [] =
     [keygen_b64 ! unat (drop_bit 2 (src ! 18) AND 63),
      keygen_b64 ! unat (push_bit 4 (src ! 18 AND 3) OR drop_bit 4 (src ! 19 AND 240)),
      keygen_b64 ! unat (push_bit 2 (src ! 19 AND 15)),
      CHR ''='']"
    unfolding keygen_bits keygen_alphabet
    by (simp add: encode_rest_def char_array_4_def b64_char_def Let_def)
  ultimately show ?thesis by (simp add: keygen_base64_def)
qed

lemma be_words_zeros: "be_words (replicate (4 * n) 0 @ r) = replicate n 0 @ be_words r"
proof (induction n)
  case (Suc n)
  have "replicate (4 * Suc n) (0::byte) = 0 # 0 # 0 # 0 # replicate (4 * n) 0"
    by (simp add: numeral_eq_Suc)
  with Suc show ?case by (simp add: be32_def)
qed simp

lemma guid_bytes:
  "bytes_of websocket_guid =
    [0x32, 0x35, 0x38, 0x45, 0x41, 0x46, 0x41, 0x35, 0x2d, 0x45, 0x39, 0x31, 0x34, 0x2d, 0x34, 0x37, 0x44, 0x41,
     0x2d, 0x39, 0x35, 0x43, 0x41, 0x2d, 0x43, 0x35, 0x41, 0x42, 0x30, 0x44, 0x43, 0x38, 0x35, 0x42, 0x31, 0x31]"
  by (simp add: bytes_of_def websocket_guid_def byte_of_char_def)

lemma guid_padding_words:
  "be_words (bytes_of websocket_guid @ [0x80] @ replicate 59 0 @ be_bytes 8 480) =
    [0x32353845, 0x41464135, 0x2d453931, 0x342d3437, 0x44412d39,
     0x3543412d, 0x43354142, 0x30444338, 0x35423131, 0x80000000] @
    [0, 0, 0, 0, 0, 0, 0, 0, 0, 0, 0, 0, 0, 0, 0, 480]"
proof -
  have z: "replicate 59 (0::byte) = 0 # 0 # 0 # replicate (4 * 14) 0"
    by (simp add: numeral_eq_Suc)
  have "be_words (be_bytes 8 480) = [0, 480]"
    by (simp add: be_bytes_def upt_rec be32_def)
  moreover have "replicate 14 (0::u32) = [0, 0, 0, 0, 0, 0, 0, 0, 0, 0, 0, 0, 0, 0]"
    by (simp add: numeral_eq_Suc)
  ultimately show ?thesis
    unfolding z guid_bytes by (simp only: append.simps be_words.simps be_words_zeros) (simp add: be32_def)
qed

lemma length_sha1_compress: "length (sha1_compress h m) = 5"
  by (simp add: sha1_compress_def split_beta)

text \<open>
  C34. For a 24-character key without NUL (every \<open>Sec-WebSocket-Key\<close> is one) the unrolled SHA-1
  and the fixed-size Base64 loop compute the accept value of RFC 6455: the Base64 encoding of the
  SHA-1 hash of the key followed by the GUID.
\<close>

theorem generate_is_rfc6455_accept:
  assumes "length key = 24" and "NUL \<notin> set key"
  shows "Some (generate key) = base64_encode (sha1_hash (bytes_of (key @ websocket_guid))) 20"
proof -
  define w1 where "w1 = map (input_word (bytes_of key @ [0])) [0..<6] @
    [0x32353845, 0x41464135, 0x2d453931, 0x342d3437, 0x44412d39,
     0x3543412d, 0x43354142, 0x30444338, 0x35423131, 0x80000000]"
  define w2 :: "u32 list" where "w2 = [0, 0, 0, 0, 0, 0, 0, 0, 0, 0, 0, 0, 0, 0, 0, 480]"
  have len: "length w1 = 16" "length w2 = 16" by (simp_all add: w1_def w2_def)
  have "length websocket_guid = 36" by (simp add: websocket_guid_def)
  then have "sha1_pad (bytes_of (key @ websocket_guid)) =
      bytes_of key @ bytes_of websocket_guid @ [0x80] @ replicate 59 0 @ be_bytes 8 480"
    using assms(1) by (simp add: sha1_pad_def)
  then have ws: "be_words (sha1_pad (bytes_of (key @ websocket_guid))) = w1 @ w2"
    using be_words_key [of "bytes_of key"] assms(1)
    by (simp only: guid_padding_words length_bytes_of) (simp add: w1_def w2_def)
  have "sha1_blocks sha1_init (w1 @ w2) = sha1_compress (sha1_compress sha1_init w1) w2"
    by (simp add: sha1_blocks.simps len)
  also have "\<dots> = sha1 (sha1 sha1_init w1) w2"
    using len by (simp add: sha1_is_compress length_sha1_compress sha1_init_def)
  finally have h: "sha1_hash (bytes_of (key @ websocket_guid)) = concat (map word_bytes (sha1 (sha1 sha1_init w1) w2))"
    by (simp only: sha1_hash_def ws word_bytes_be [symmetric])
  have "length (sha1 (sha1 sha1_init w1) w2) = 5"
    using len by (simp add: sha1_is_compress length_sha1_compress sha1_init_def)
  then have l: "length (sha1_hash (bytes_of (key @ websocket_guid))) = 20"
    unfolding h by (elim five_elements) (simp add: word_bytes_def)
  have "generate key = keygen_base64 (sha1_hash (bytes_of (key @ websocket_guid)))"
    using assms unfolding h generate_def w1_def w2_def Let_def by (simp add: c_str_id)
  with l show ?thesis by (simp add: keygen_base64_encode base64_encode_def)
qed

theorem generate_is_rfc6455_accept_witness:
  "Some (generate ''dGhlIHNhbXBsZSBub25jZQ=='') =
     base64_encode (sha1_hash (bytes_of (''dGhlIHNhbXBsZSBub25jZQ=='' @ websocket_guid))) 20"
  by (rule generate_is_rfc6455_accept) (simp_all add: NUL_def)

lemma length_generate: "length (generate key) = 28"
  by (simp add: generate_def keygen_base64_def keygen_group_def Let_def)

end
