(* ===== verification/Handshake.thy ===== *)
theory Handshake
  imports SocketConnect Http HandshakeKeyGen DeflateCodec
begin

section \<open>The opening handshake\<close>

text \<open>
  \<^verbatim>\<open>IXWebSocketHandshake.cpp\<close>, \<^verbatim>\<open>IXUserAgent.cpp\<close>. The object works on references into the transport:
  the record \<open>handshake\<close> holds what they refer to. The record \<open>henv\<close> holds what the code does not
  decide: the network, zlib, the clock and the cancellation flag at every query, the clock of the
  error response, the random numbers, the compile-time names in the user agent, and the values of
  uninitialised variables. \<^const>\<open>None\<close> is a handshake that does not return.
\<close>

record WebSocketInitResult =
  init_success :: bool
  init_http_status :: int
  init_errorStr :: string
  init_headers :: WebSocketHttpHeaders
  init_uri :: string

text \<open>\<open>HandshakeOutOfRange\<close>: the exception the header parser may throw.\<close>

datatype handshake_result = Init WebSocketInitResult | HandshakeOutOfRange

record 'z handshake =
  hs_requestInitCancellation :: bool
  hs_socket :: socket
  hs_perMessageDeflate :: "'z perMessageDeflate"
  hs_perMessageDeflateOptions :: deflate_options
  hs_enablePerMessageDeflate :: bool

record 'z henv =
  h_net :: net
  h_zlib :: "'z zlib"
  h_start :: int
  h_clock :: "nat \<Rightarrow> int"
  h_flag :: "nat \<Rightarrow> bool"
  h_errStart :: int
  h_errClock :: "nat \<Rightarrow> int"
  h_rand :: "nat \<Rightarrow> nat"
  h_platform :: string
  h_tlsName :: string
  h_zlibVersion :: string
  h_garbage :: "string \<Rightarrow> int"
  h_garbageVersion :: int

definition initResult :: "bool \<Rightarrow> int \<Rightarrow> string \<Rightarrow> WebSocketHttpHeaders \<Rightarrow> string \<Rightarrow> handshake_result" where
  "initResult s status e h u =
     Init \<lparr>init_success = s, init_http_status = status, init_errorStr = e, init_headers = h, init_uri = u\<rparr>"

abbreviation initError :: "int \<Rightarrow> string \<Rightarrow> handshake_result" where
  "initError status e \<equiv> initResult False status e [] []"

definition IX_WEBSOCKET_VERSION :: string where
  "IX_WEBSOCKET_VERSION = ''6.2.0''"

definition userAgent :: "'z henv \<Rightarrow> string" where
  "userAgent env =
     ''ixwebsocket/'' @ IX_WEBSOCKET_VERSION @ '' '' @ h_platform env @ '' '' @ h_tlsName env @ '' zlib '' @ h_zlibVersion env"

definition insensitiveStringCompare :: "string \<Rightarrow> string \<Rightarrow> bool" where
  "insensitiveStringCompare a b = list_all2 (\<lambda>x y. c_tolower x = c_tolower y) a b"

definition alphanum :: string where
  "alphanum = ''0123456789'' @ ''ABCDEFGH'' @ ''abcdefgh''"

definition genRandomString :: "(nat \<Rightarrow> nat) \<Rightarrow> nat \<Rightarrow> string" where
  "genRandomString rand len = map (\<lambda>i. alphanum ! rand i) [0..<len]"

definition sendErrorResponse :: "'z henv \<Rightarrow> int \<Rightarrow> string \<Rightarrow> 'z handshake \<Rightarrow> (handshake_result \<times> 'z handshake) option" where
  "sendErrorResponse env status reason h =
     (let text = ''HTTP/1.1 '' @ string_of_int status @ '' '' @ reason @ CRLF;
          cancel = makeCancellationRequestWithTimeout 1 (\<lambda>_. False) (h_errStart env) (h_errClock env)
      in do {
        (ok, s) \<leftarrow> writeBytes cancel text (hs_socket h);
        Some (if \<not> ok then initError 500 ''Timed out while sending error response'' else initError status reason,
              h\<lparr>hs_socket := s\<rparr>)
      })"

subsection \<open>Client\<close>

definition client_request ::
  "'z henv \<Rightarrow> WebSocketHttpHeaders \<Rightarrow> string \<Rightarrow> string \<Rightarrow> int \<Rightarrow> string \<Rightarrow> 'z handshake \<Rightarrow> string" where
  "client_request env extraHeaders host path port secWebSocketKey h =
     ''GET '' @ path @ '' HTTP/1.1'' @ CRLF
     @ ''Host: '' @ host @ '':'' @ string_of_int port @ CRLF
     @ ''Upgrade: websocket'' @ CRLF
     @ ''Connection: Upgrade'' @ CRLF
     @ ''Sec-WebSocket-Version: 13'' @ CRLF
     @ ''Sec-WebSocket-Key: '' @ secWebSocketKey @ CRLF
     @ (if headers_find extraHeaders ''User-Agent'' = None then ''User-Agent: '' @ userAgent env @ CRLF else [])
     @ concat (map (\<lambda>(k, v). k @ '':'' @ v @ CRLF) extraHeaders)
     @ (if hs_enablePerMessageDeflate h then generateHeader (hs_perMessageDeflateOptions h) else [])
     @ CRLF"

text \<open>From the headers of the response on.\<close>

definition client_accept ::
  "'z henv \<Rightarrow> string \<Rightarrow> string \<Rightarrow> int \<Rightarrow> WebSocketHttpHeaders \<Rightarrow> 'z handshake \<Rightarrow> handshake_result \<times> 'z handshake" where
  "client_accept env path secWebSocketKey status headers h =
     (case headers_find headers ''connection'' of
        None \<Rightarrow> (initError status ''Missing connection value'', h)
      | Some connection \<Rightarrow>
          if \<not> insensitiveStringCompare connection ''Upgrade''
          then (initError status (''Invalid connection value: '' @ connection), h)
          else let (accept, headers1) = headers_index headers ''sec-websocket-accept''
               in if c_str (generate secWebSocketKey) \<noteq> accept
                  then (initError status ''Invalid Sec-WebSocket-Accept value'', h)
                  else if \<not> hs_enablePerMessageDeflate h then (initResult True status [] headers1 path, h)
                  else let (header, headers2) = headers_index headers1 ''sec-websocket-extensions'';
                           options = parseOptions (h_garbage env) header
                       in if \<not> opt_enabled options
                          then (initResult True status [] headers2 path, h\<lparr>hs_enablePerMessageDeflate := False\<rparr>)
                          else let (ok, pmd) = pmd_init (h_zlib env) options (hs_perMessageDeflate h);
                                   h1 = h\<lparr>hs_perMessageDeflate := pmd\<rparr>
                               in if \<not> ok then (initError 0 ''Failed to initialize per message deflate engine'', h1)
                                  else (initResult True status [] headers2 path, h1))"

definition clientHandshake ::
  "'z henv \<Rightarrow> string \<Rightarrow> WebSocketHttpHeaders \<Rightarrow> string \<Rightarrow> string \<Rightarrow> int \<Rightarrow> int \<Rightarrow> 'z handshake \<Rightarrow>
     (handshake_result \<times> 'z handshake) option" where
  "clientHandshake env url extraHeaders host path port timeoutSecs h0 =
     (let h = h0\<lparr>hs_requestInitCancellation := False\<rparr>;
          cancel = makeCancellationRequestWithTimeout timeoutSecs (h_flag env) (h_start env) (h_clock env);
          key = genRandomString (h_rand env) 22 @ ''==''
      in do {
        (connected, errMsg, s) \<leftarrow> socket_connect (h_net env) host port cancel (hs_socket h);
        if \<not> connected then
          Some (initError 0 (''Unable to connect to '' @ host @ '' on port '' @ string_of_int port @ '', error: '' @ errMsg),
                h\<lparr>hs_socket := s\<rparr>)
        else do {
          (sent, s1) \<leftarrow> writeBytes cancel (client_request env extraHeaders host path port key h) s;
          if \<not> sent then Some (initError 0 (''Failed sending GET request to '' @ url), h\<lparr>hs_socket := s1\<rparr>)
          else do {
            (lineValid, line, s2) \<leftarrow> readLine cancel s1;
            if \<not> lineValid then Some (initError 0 (''Failed reading HTTP status line from '' @ url), h\<lparr>hs_socket := s2\<rparr>)
            else case parseStatusLine line of (httpVersion, status) \<Rightarrow>
              if httpVersion \<noteq> ''HTTP/1.1'' then
                Some (initError status (''Expecting HTTP/1.1, got '' @ httpVersion @ ''. '' @ ''Rejecting connection to '' @ host
                        @ '', status: '' @ string_of_int status @ '', HTTP Status line: '' @ line), h\<lparr>hs_socket := s2\<rparr>)
              else if status \<noteq> 101 then
                Some (initError status (''Got bad status connecting to '' @ host @ '', status: '' @ string_of_int status
                        @ '', HTTP Status line: '' @ line), h\<lparr>hs_socket := s2\<rparr>)
              else do {
                (result, s3) \<leftarrow> parseHttpHeaders cancel s2;
                case result of
                  HeadersOutOfRange \<Rightarrow> Some (HandshakeOutOfRange, h\<lparr>hs_socket := s3\<rparr>)
                | Headers headersValid headers \<Rightarrow>
                    if \<not> headersValid then Some (initError status ''Error parsing HTTP headers'', h\<lparr>hs_socket := s3\<rparr>)
                    else Some (client_accept env path key status headers (h\<lparr>hs_socket := s3\<rparr>))
              }
          }
        }
      })"

subsection \<open>Server\<close>

text \<open>The checks of the request's headers; a string is the reason of an error response.\<close>

definition server_checks :: "'z henv \<Rightarrow> WebSocketHttpHeaders \<Rightarrow> string option" where
  "server_checks env headers =
     (if headers_find headers ''sec-websocket-key'' = None then Some ''Missing Sec-WebSocket-Key value''
      else case headers_find headers ''upgrade'' of
        None \<Rightarrow> Some ''Missing Upgrade header''
      | Some upgrade \<Rightarrow>
          if \<not> insensitiveStringCompare upgrade ''WebSocket''
          then Some (''Invalid Upgrade header, need WebSocket, got '' @ upgrade)
          else case headers_find headers ''sec-websocket-version'' of
            None \<Rightarrow> Some ''Missing Sec-WebSocket-Version value''
          | Some version \<Rightarrow>
              if extract_int (h_garbageVersion env) version \<noteq> 13
              then Some (''Invalid Sec-WebSocket-Version, need 13, got '' @ version)
              else None)"

definition server_response :: "'z henv \<Rightarrow> string \<Rightarrow> deflate_options \<Rightarrow> string" where
  "server_response env secWebSocketKey options =
     ''HTTP/1.1 101 Switching Protocols'' @ CRLF
     @ ''Sec-WebSocket-Accept: '' @ c_str (generate secWebSocketKey) @ CRLF
     @ ''Upgrade: websocket'' @ CRLF
     @ ''Connection: Upgrade'' @ CRLF
     @ ''Server: '' @ userAgent env @ CRLF
     @ (if opt_enabled options then generateHeader options else [])
     @ CRLF"

definition serverHandshake :: "'z henv \<Rightarrow> int \<Rightarrow> int \<Rightarrow> 'z handshake \<Rightarrow> (handshake_result \<times> 'z handshake) option" where
  "serverHandshake env fd timeoutSecs h0 =
     (let h = h0\<lparr>hs_requestInitCancellation := False\<rparr>;
          cancel = makeCancellationRequestWithTimeout timeoutSecs (h_flag env) (h_start env) (h_clock env);
          remote = ''remote fd '' @ string_of_int fd
      in do {
        (lineValid, line, s1) \<leftarrow> readLine cancel (hs_socket h);
        if \<not> lineValid then sendErrorResponse env 400 ''Error reading HTTP request line'' (h\<lparr>hs_socket := s1\<rparr>)
        else case parseRequestLine line of (meth, uri, httpVersion) \<Rightarrow>
          if meth \<noteq> ''GET'' then
            sendErrorResponse env 400 (''Invalid HTTP method, need GET, got '' @ meth) (h\<lparr>hs_socket := s1\<rparr>)
          else if httpVersion \<noteq> ''HTTP/1.1'' then
            sendErrorResponse env 400 (''Invalid HTTP version, need HTTP/1.1, got: '' @ httpVersion) (h\<lparr>hs_socket := s1\<rparr>)
          else do {
            (result, s2) \<leftarrow> parseHttpHeaders cancel s1;
            case result of
              HeadersOutOfRange \<Rightarrow> Some (HandshakeOutOfRange, h\<lparr>hs_socket := s2\<rparr>)
            | Headers headersValid headers \<Rightarrow>
                if \<not> headersValid then sendErrorResponse env 400 ''Error parsing HTTP headers'' (h\<lparr>hs_socket := s2\<rparr>)
                else case server_checks env headers of
                  Some reason \<Rightarrow> sendErrorResponse env 400 reason (h\<lparr>hs_socket := s2\<rparr>)
                | None \<Rightarrow>
                    let key = fst (headers_index headers ''sec-websocket-key'');
                        (header, headers1) = headers_index headers ''sec-websocket-extensions'';
                        options = parseOptions (h_garbage env) header;
                        h1 = (if opt_enabled options then h\<lparr>hs_socket := s2, hs_enablePerMessageDeflate := True\<rparr>
                              else h\<lparr>hs_socket := s2\<rparr>);
                        (ok, pmd) = (if opt_enabled options then pmd_init (h_zlib env) options (hs_perMessageDeflate h1)
                                     else (True, hs_perMessageDeflate h1));
                        h2 = h1\<lparr>hs_perMessageDeflate := pmd\<rparr>
                    in if \<not> ok then Some (initError 0 ''Failed to initialize per message deflate engine'', h2)
                       else do {
                         (sent, s3) \<leftarrow> writeBytes cancel (server_response env key options) s2;
                         let h3 = h2\<lparr>hs_socket := s3\<rparr>;
                         if \<not> sent then Some (initError 0 (''Failed sending response to '' @ remote), h3)
                         else Some (initResult True 200 [] headers1 uri, h3)
                       }
          }
      })"

end
