(* ===== verification/Dispatch.thy ===== *)
theory Dispatch
  imports Transport
begin

section \<open>Receiving: dispatch and poll\<close>

text \<open>
  The receiving half of \<^verbatim>\<open>IXWebSocketTransport.cpp\<close>: \<open>dispatch\<close> with its frame loop, split into one
  definition per kind of frame, \<open>emitMessage\<close>, and \<open>poll\<close> with its read and write loops. The frame
  loop ends because every turn that goes on removes a frame from the receive buffer; the read loop
  because each turn uses up data the system has; the write loop may wait forever for a socket that
  never becomes writable.
\<close>

subsection \<open>Delivering a message\<close>

text \<open>Both branches of \<open>emitMessage\<close> end in the same test.\<close>

definition deliver :: "'z tenv \<Rightarrow> MessageKind \<Rightarrow> string \<Rightarrow> nat \<Rightarrow> bool \<Rightarrow> 'z transport \<Rightarrow> 'z transport" where
  "deliver env kind message wireSize decompressionError t =
     (if kind = MSG_TEXT \<and> \<not> validateUtf8 (bytes_of message)
      then close env kInvalidFramePayloadData kInvalidFramePayloadDataMessage 0 False t
      else t\<lparr>events := events t @ [OnMessage message wireSize decompressionError kind]\<rparr>)"

definition emitMessage :: "'z tenv \<Rightarrow> MessageKind \<Rightarrow> string \<Rightarrow> bool \<Rightarrow> 'z transport \<Rightarrow> 'z transport outcome" where
  "emitMessage env kind message compressed t =
     (let wireSize = length message
      in if compressed \<and> kind \<noteq> FRAGMENT then
           (case pmd_decompress (zlib env) message (perMessageDeflate t) of
              None \<Rightarrow> Hang
            | Some (success, decompressed, p) \<Rightarrow>
                Ret (deliver env kind decompressed wireSize (\<not> success) (t\<lparr>perMessageDeflate := p\<rparr>)))
         else Ret (deliver env kind message wireSize False t))"

definition getMergedChunks :: "'z transport \<Rightarrow> string" where
  "getMergedChunks t = concat (chunks t)"

definition unmaskReceiveBuffer :: "wsheader \<Rightarrow> 'z transport \<Rightarrow> 'z transport" where
  "unmaskReceiveBuffer ws t =
     (if mask ws then t\<lparr>rxbuf := xor_at (header_size ws) (unat (N ws)) (masking_key ws) (rxbuf t)\<rparr> else t)"

subsection \<open>One definition per kind of frame\<close>

text \<open>The sequence checks close the connection but let the frame be processed.\<close>

definition sequence_check :: "'z tenv \<Rightarrow> wsheader \<Rightarrow> 'z transport \<Rightarrow> 'z transport" where
  "sequence_check env ws t =
     (if opcode ws \<noteq> CONTINUATION then
        (let t1 = t\<lparr>fragmentedMessageKind := (if opcode ws = TEXT_FRAME then MSG_TEXT else MSG_BINARY),
                    compressedMessage := (enablePerMessageDeflate t \<and> rsv1 ws)\<rparr>
         in if chunks t1 \<noteq> [] then close env kProtocolErrorCode kProtocolErrorCodeDataOpcodeOutOfSequence 0 False t1 else t1)
      else if chunks t = [] then close env kProtocolErrorCode kProtocolErrorCodeContinuationOpCodeOutOfSequence 0 False t
      else t)"

definition handleData :: "'z tenv \<Rightarrow> wsheader \<Rightarrow> string \<Rightarrow> 'z transport \<Rightarrow> 'z transport outcome" where
  "handleData env ws frameData t0 =
     (let t = sequence_check env ws t0
      in if fin ws \<and> chunks t = [] then
           map_outcome (\<lambda>t1. t1\<lparr>compressedMessage := False\<rparr>)
             (emitMessage env (fragmentedMessageKind t) frameData (compressedMessage t) t)
         else let t1 = t\<lparr>chunks := chunks t @ [frameData]\<rparr>
              in if fin ws then
                   map_outcome (\<lambda>t2. t2\<lparr>chunks := [], compressedMessage := False\<rparr>)
                     (emitMessage env (fragmentedMessageKind t1) (getMergedChunks t1) (compressedMessage t1) t1)
                 else emitMessage env FRAGMENT [] False t1)"

datatype 'a loop_end = LBreak 'a | LReturn 'a | LFault | LHang
datatype 'a step = Continue 'a | Leave "'a loop_end"

definition handlePing :: "'z tenv \<Rightarrow> string \<Rightarrow> 'z transport \<Rightarrow> 'z transport step" where
  "handlePing env frameData t =
     (if length frameData > 125 then
        Leave (LReturn (close env kProtocolErrorCode kProtocolErrorPingPayloadOversized 0 False t))
      else let t1 = (if enablePong t then snd (sendPlain env PONG frameData None t) else t)
           in Continue (deliver env MSG_PING frameData (length frameData) False t1))"

definition handlePong :: "'z tenv \<Rightarrow> string \<Rightarrow> 'z transport \<Rightarrow> 'z transport" where
  "handlePong env frameData t =
     (let (n, t1) = now env t
      in deliver env MSG_PONG frameData (length frameData) False (t1\<lparr>lastReceivePongTimePoint := n\<rparr>))"

definition close_code_rejected :: "u16 \<Rightarrow> bool" where
  "close_code_rejected status \<longleftrightarrow> status < 1000 \<or> status = 1004 \<or> status = 1006 \<or> (status > 1013 \<and> status < 3000)"

text \<open>The status and reason taken from a close frame: \<open>hi\<close> and \<open>lo\<close> are the first two payload
  bytes.\<close>

definition received_close :: "u64 \<Rightarrow> byte \<Rightarrow> byte \<Rightarrow> string \<Rightarrow> u16 \<times> string" where
  "received_close n hi lo frameData =
     (if n \<ge> 2 then
        (let status0 = push_bit 8 (ucast hi) OR ucast lo;
             reason0 = (if n > 2 then drop 2 frameData else []);
             (status1, reason1) =
               (if \<not> validateUtf8 (bytes_of reason0) then (kInvalidFramePayloadData, kInvalidFramePayloadDataMessage)
                else (status0, reason0))
         in if close_code_rejected status1
            then (kProtocolErrorCode, kInvalidCloseCodeMessage @ '': '' @ string_of_nat (unat status1))
            else (status1, reason1))
      else (kNoStatusCodeErrorCode, kNoStatusCodeErrorMessage))"

definition handleClose :: "'z tenv \<Rightarrow> wsheader \<Rightarrow> string \<Rightarrow> 'z transport \<Rightarrow> 'z transport" where
  "handleClose env ws frameData t =
     (let (status, reason) =
        received_close (N ws) (rxbuf t ! header_size ws) (rxbuf t ! (header_size ws + 1)) frameData
      in if readyState t \<noteq> CLOSING then
           (let t1 = sendCloseFrame env status reason t;
                t2 = wakeUp kCloseRequest t1
            in closeSocketAndSwitchToClosedState env status reason (length (rxbuf t2)) True t2)
         else if closeCode t = status \<and> closeReason t = reason then
           closeSocketAndSwitchToClosedState env status reason (length (rxbuf t)) False t
         else t)"

definition isControl :: "byte \<Rightarrow> bool" where
  "isControl opc \<longleftrightarrow> opc = PING \<or> opc = PONG \<or> opc = CLOSE"

definition isData :: "byte \<Rightarrow> bool" where
  "isData opc \<longleftrightarrow> opc = TEXT_FRAME \<or> opc = BINARY_FRAME \<or> opc = CONTINUATION"

fun step_of_outcome :: "'a outcome \<Rightarrow> 'a step" where
  "step_of_outcome (Ret t) = Continue t"
| "step_of_outcome Fault = Leave LFault"
| "step_of_outcome Hang = Leave LHang"

definition handleFrame :: "'z tenv \<Rightarrow> wsheader \<Rightarrow> string \<Rightarrow> 'z transport \<Rightarrow> 'z transport step" where
  "handleFrame env ws frameData t =
     (if isData (opcode ws) then step_of_outcome (handleData env ws frameData t)
      else if opcode ws = PING then handlePing env frameData t
      else if opcode ws = PONG then Continue (handlePong env frameData t)
      else if opcode ws = CLOSE then Continue (handleClose env ws frameData t)
      else Continue (close env kProtocolErrorCode kProtocolErrorMessage (length (rxbuf t)) False t))"

subsection \<open>The frame loop\<close>

definition erase_frame :: "wsheader \<Rightarrow> 'z transport \<Rightarrow> 'z transport" where
  "erase_frame ws t = t\<lparr>rxbuf := drop (header_size ws + unat (N ws)) (rxbuf t)\<rparr>"

definition stepFrame :: "'z tenv \<Rightarrow> 'z transport \<Rightarrow> 'z transport step" where
  "stepFrame env t =
     (if length (rxbuf t) < 2 then Leave (LBreak t)
      else let ws0 = parse_start (rxbuf t)
      in if length (rxbuf t) < header_size ws0 then Leave (LBreak t)
      else if (rsv1 ws0 \<and> \<not> enablePerMessageDeflate t) \<or> rsv2 ws0 \<or> rsv3 ws0 then
        Leave (LReturn (close env kProtocolErrorCode kProtocolErrorReservedBitUsed (length (rxbuf t)) False t))
      else let ws = parse_header (rxbuf t)
      in if (word_of_nat (length (rxbuf t)) :: u64) < word_of_nat (header_size ws) + N ws then Leave (LReturn t)
      else if \<not> fin ws \<and> isControl (opcode ws) then
        Leave (LReturn (close env kProtocolErrorCode kProtocolErrorCodeControlMessageFragmented 0 False t))
      else if length (rxbuf t) < header_size ws + unat (N ws) then Leave LFault
      else let t1 = unmaskReceiveBuffer ws t;
               frameData = string_of_bytes (take (unat (N ws)) (drop (header_size ws) (rxbuf t1)))
           in case handleFrame env ws frameData t1 of
                Continue t2 \<Rightarrow> Continue (erase_frame ws t2)
              | Leave r \<Rightarrow> Leave r)"

lemma receive_part_deliver [simp]: "receive_part (deliver env k m w e t) = receive_part t"
  by (simp add: deliver_def)

lemma rxbuf_emitMessage: "emitMessage env k m c t = Ret t' \<Longrightarrow> rxbuf t' = rxbuf t"
  by (auto simp: emitMessage_def Let_def receive_part_fields(1) [OF receive_part_deliver] split: if_splits option.splits)

lemma map_outcome_Ret: "map_outcome f x = Ret y \<longleftrightarrow> (\<exists>z. x = Ret z \<and> y = f z)"
  by (cases x) auto

lemma rxbuf_sequence_check [simp]: "rxbuf (sequence_check env ws t) = rxbuf t"
  by (simp add: sequence_check_def Let_def receive_fields)

lemma rxbuf_handleData: "handleData env ws d t = Ret t' \<Longrightarrow> rxbuf t' = rxbuf t"
  by (auto simp: handleData_def Let_def map_outcome_Ret dest!: rxbuf_emitMessage split: if_splits)

lemma rxbuf_handleFrame: "handleFrame env ws d t = Continue t' \<Longrightarrow> rxbuf t' = rxbuf t"
proof -
  assume h: "handleFrame env ws d t = Continue t'"
  have dl: "rxbuf (deliver env k m w e u) = rxbuf u" for k m w e u
    by (rule receive_part_fields(1) [OF receive_part_deliver])
  have cl: "rxbuf (handleClose env ws d t) = rxbuf t"
    by (auto simp: handleClose_def Let_def receive_fields receive_part_fields(1) [OF receive_part_timers(5)] split: prod.split)
  have so: "step_of_outcome x = Continue y \<Longrightarrow> x = Ret y" for x :: "'a transport outcome" and y
    by (cases x) auto
  show ?thesis
    using h cl
    by (auto simp: handleFrame_def handlePing_def handlePong_def Let_def dl receive_fields
        receive_part_fields(1) [OF receive_part_timers(1)] split_beta
        dest!: so rxbuf_handleData split: if_splits)
qed

lemma stepFrame_shrinks:
  assumes "stepFrame env t = Continue t'"
  shows "length (rxbuf t') < length (rxbuf t)"
proof -
  define ws where "ws = parse_header (rxbuf t)"
  have len: "2 \<le> length (rxbuf t)" and hs: "2 \<le> header_size ws"
    using assms header_size_parse_start [of "rxbuf t"] by (auto simp: stepFrame_def ws_def split: if_splits)
  obtain d t2 where "handleFrame env ws d (unmaskReceiveBuffer ws t) = Continue t2" "t' = erase_frame ws t2"
    using assms by (auto simp: stepFrame_def ws_def Let_def split: if_splits step.splits)
  then have "rxbuf t' = drop (header_size ws + unat (N ws)) (rxbuf (unmaskReceiveBuffer ws t))"
    by (simp add: erase_frame_def rxbuf_handleFrame)
  then show ?thesis using len hs by (simp add: unmaskReceiveBuffer_def)
qed

function dispatch_loop :: "'z tenv \<Rightarrow> 'z transport \<Rightarrow> 'z transport loop_end" where
  "dispatch_loop env t = (case stepFrame env t of Continue t' \<Rightarrow> dispatch_loop env t' | Leave r \<Rightarrow> r)"
  by pat_completeness auto
termination
  by (relation "measure (\<lambda>(env, t). length (rxbuf t))") (auto simp: stepFrame_shrinks)

declare dispatch_loop.simps [simp del]

text \<open>After the loop: an abnormal closure seen by \<open>poll\<close>.\<close>

definition afterLoop :: "'z tenv \<Rightarrow> PollResult \<Rightarrow> 'z transport \<Rightarrow> 'z transport" where
  "afterLoop env pollResult t0 =
     (if pollResult = AbnormalClose then
        (let t = t0\<lparr>rxbuf := []\<rparr>
         in if readyState t = CLOSING then setReadyState env CLOSED (closeSocket t)
            else if readyState t \<noteq> CLOSED then
              closeSocketAndSwitchToClosedState env kAbnormalCloseCode kAbnormalCloseMessage 0 False t
            else t)
      else t0)"

definition dispatch :: "'z tenv \<Rightarrow> PollResult \<Rightarrow> 'z transport \<Rightarrow> 'z transport outcome" where
  "dispatch env pollResult t =
     (case dispatch_loop env t of
        LBreak t' \<Rightarrow> Ret (afterLoop env pollResult t')
      | LReturn t' \<Rightarrow> Ret t'
      | LFault \<Rightarrow> Fault
      | LHang \<Rightarrow> Hang)"

subsection \<open>poll\<close>

text \<open>The heartbeat: a timed out peer is disconnected, otherwise a ping may be due.\<close>

definition heartbeat :: "'z tenv \<Rightarrow> 'z transport \<Rightarrow> 'z transport" where
  "heartbeat env t0 =
     (if readyState t0 = OPEN then
        (let (timedOut, t1) = pingTimeoutExceeded env t0
         in if timedOut then close env kInternalErrorCode kPingTimeoutMessage 0 False t1
            else let (due, t2) = pingIntervalExceeded env t1
                 in if due then
                      snd (sendPing env (kPingMessage @ ''::'' @ string_of_int (pingIntervalSecs t2) @ ''s'') t2)
                    else t2)
      else t0)"

text \<open>The timeout handed to the system call, in milliseconds; -1 is none.\<close>

definition pollDelay :: "'z tenv \<Rightarrow> 'z transport \<Rightarrow> int \<times> 'z transport" where
  "pollDelay env t =
     (let lasting = (if readyState t \<noteq> OPEN then 0 else pingIntervalOrTimeoutGCDSecs t);
          (lasting, t) =
            (if pingIntervalOrTimeoutGCDSecs t > 0 then
               (let (n, t1) = now env t
                in if n \<ge> nextGCDTimePoint t1
                   then (pingIntervalOrTimeoutGCDSecs t1 * 1000,
                         t1\<lparr>nextGCDTimePoint := n + seconds (pingIntervalOrTimeoutGCDSecs t1)\<rparr>)
                   else ((nextGCDTimePoint t1 - n) div 1000000, t1))
             else (lasting, t))
      in if requestInitCancellation t then (100, t) else (lasting, t))"

partial_function (option) write_loop :: "'z tenv \<Rightarrow> 'z transport \<Rightarrow> 'z transport option" where
  "write_loop env t =
     (if isSendBufferEmpty t \<or> requestInitCancellation t then Some t
      else case isReadyToWrite 10 (sock t) of (r, s) \<Rightarrow>
        if r = PollError then Some (setReadyState env CLOSED (closeSocket (t\<lparr>sock := s\<rparr>)))
        else if r = ReadyForWrite then write_loop env (sendOnSocket env (t\<lparr>sock := s\<rparr>))
        else write_loop env (t\<lparr>sock := s\<rparr>))"

fun recv_weight :: "recv_os \<Rightarrow> nat" where
  "recv_weight (RecvData bs) = length bs + 1"
| "recv_weight (RecvFail e) = 1"

lemma socket_recv_weight:
  assumes "socket_recv s n = (ret, bs, s')" "0 < ret" "0 < n"
  shows "sum_list (map recv_weight (sys_recvs s')) < sum_list (map recv_weight (sys_recvs s))"
  using assms by (auto simp: socket_recv_def split: if_splits list.splits recv_os.splits)

function read_loop :: "'z transport \<Rightarrow> PollResult \<times> 'z transport" where
  "read_loop t =
     (case socket_recv (sock t) kChunkSize of (ret, bs, s) \<Rightarrow>
        let t1 = t\<lparr>sock := s\<rparr>
        in if ret < 0 \<and> isWaitNeeded s then (Succeeded, t1)
           else if ret \<le> 0 then (AbnormalClose, closeSocket t1)
           else read_loop (t1\<lparr>rxbuf := rxbuf t1 @ bs\<rparr>))"
  by pat_completeness auto
termination
  by (relation "measure (\<lambda>t. sum_list (map recv_weight (sys_recvs (sock t))))")
    (auto simp: kChunkSize_def intro!: socket_recv_weight [OF sym])

declare read_loop.simps [simp del]

definition closing_expired :: "'z tenv \<Rightarrow> 'z transport \<Rightarrow> 'z transport" where
  "closing_expired env t0 =
     (if readyState t0 = CLOSING then
        (let (expired, t1) = closingDelayExceeded env t0
         in if expired then setReadyState env CLOSED (closeSocket (t1\<lparr>rxbuf := []\<rparr>)) else t1)
      else t0)"

definition poll :: "'z tenv \<Rightarrow> 'z transport \<Rightarrow> (PollResult \<times> 'z transport) option" where
  "poll env t0 =
     (let t1 = heartbeat env t0;
          (delay, t2) = pollDelay env t1;
          (pollResult, s) = isReadyToRead delay (sock t2);
          t3 = t2\<lparr>sock := s\<rparr>
      in if pollResult = SendRequest then
           Option.bind (write_loop env t3) (\<lambda>t4. Some (Succeeded, closing_expired env t4))
         else if pollResult = ReadyForRead then
           (case read_loop t3 of
              (AbnormalClose, t4) \<Rightarrow> Some (AbnormalClose, t4)
            | (Succeeded, t4) \<Rightarrow> Some (Succeeded, closing_expired env t4))
         else if pollResult = PollError then Some (Succeeded, closing_expired env (closeSocket t3))
         else if pollResult = CloseRequest then Some (Succeeded, closing_expired env (closeSocket t3))
         else Some (Succeeded, closing_expired env t3))"

end
