(* ===== verification/UrlParser.thy ===== *)
theory UrlParser
  imports Prelude
begin

section \<open>URLs\<close>

text \<open>
  \<^verbatim>\<open>LUrlParser.cpp\<close> and \<^verbatim>\<open>IXUrlParser.cpp\<close>. A \<open>const char*\<close> that walks through the string is the list
  of the characters from it to the terminating NUL; reading at the end gives NUL. The stages of
  \<open>ParseURL\<close> are one definition each, a stage that fails gives the error of the result.
\<close>

datatype LUrlParserError =
  LUrlParserError_Ok | LUrlParserError_Uninitialized | LUrlParserError_NoUrlCharacter
| LUrlParserError_InvalidSchemeName | LUrlParserError_NoDoubleSlash | LUrlParserError_NoAtSign
| LUrlParserError_UnexpectedEndOfLine | LUrlParserError_NoSlash

record clParseURL =
  m_ErrorCode :: LUrlParserError
  m_Scheme :: string
  m_Host :: string
  m_Port :: string
  m_Path :: string
  m_Query :: string
  m_Fragment :: string
  m_UserName :: string
  m_Password :: string

definition clParseURL_new :: "LUrlParserError \<Rightarrow> clParseURL" where
  "clParseURL_new e = \<lparr> m_ErrorCode = e, m_Scheme = [], m_Host = [], m_Port = [], m_Path = [], m_Query = [],
     m_Fragment = [], m_UserName = [], m_Password = [] \<rparr>"

definition IsValid :: "clParseURL \<Rightarrow> bool" where
  "IsValid u = (m_ErrorCode u = LUrlParserError_Ok)"

definition IsSchemeValid :: "string \<Rightarrow> bool" where
  "IsSchemeValid s = list_all (\<lambda>c. \<not> (\<not> c_isalpha c \<and> c \<noteq> CHR ''+'' \<and> c \<noteq> CHR ''-'' \<and> c \<noteq> CHR ''.'')) s"

definition GetPort :: "clParseURL \<Rightarrow> int option" where
  "GetPort u =
     (if \<not> IsValid u then None
      else let port = atoi (m_Port u) in if port \<le> 0 \<or> port > 65535 then None else Some port)"

definition peek :: "string \<Rightarrow> char" where
  "peek s = (case s of [] \<Rightarrow> NUL | c # _ \<Rightarrow> c)"

definition until :: "(char \<Rightarrow> bool) \<Rightarrow> string \<Rightarrow> string \<times> string" where
  "until stop s = (takeWhile (\<lambda>c. \<not> stop c) s, dropWhile (\<lambda>c. \<not> stop c) s)"

text \<open>Is there an at sign before the first slash?\<close>

fun has_user_name :: "string \<Rightarrow> bool" where
  "has_user_name [] = False"
| "has_user_name (c # s) = (if c = CHR ''@'' then True else if c = CHR ''/'' then False else has_user_name s)"

definition read_user :: "string \<Rightarrow> clParseURL \<Rightarrow> LUrlParserError + clParseURL \<times> string" where
  "read_user cur r =
     (if \<not> has_user_name cur then Inr (r, cur)
      else let (user, cur1) = until (\<lambda>c. c = CHR '':'' \<or> c = CHR ''@'') cur;
               r1 = r\<lparr>m_UserName := user\<rparr>;
               (r2, cur2) =
                 (if peek cur1 = CHR '':'' then
                    (let (pw, rest) = until (\<lambda>c. c = CHR ''@'') (tl cur1) in (r1\<lparr>m_Password := pw\<rparr>, rest))
                  else (r1, cur1))
           in if peek cur2 \<noteq> CHR ''@'' then Inl LUrlParserError_NoAtSign else Inr (r2, tl cur2))"

definition read_host :: "string \<Rightarrow> string \<times> string" where
  "read_host cur =
     (if peek cur = CHR ''['' then
        (let (h, rest) = until (\<lambda>c. c = CHR '']'') cur in if rest = [] then (h, []) else (h @ [hd rest], tl rest))
      else until (\<lambda>c. c = CHR '':'' \<or> c = CHR ''/'') cur)"

definition read_port :: "string \<Rightarrow> clParseURL \<Rightarrow> clParseURL \<times> string" where
  "read_port cur r =
     (if peek cur = CHR '':'' then
        (let (p, rest) = until (\<lambda>c. c = CHR ''/'') (tl cur) in (r\<lparr>m_Port := p\<rparr>, rest))
      else (r, cur))"

definition read_tail :: "string \<Rightarrow> clParseURL \<Rightarrow> clParseURL" where
  "read_tail cur r =
     (let (path, cur1) = until (\<lambda>c. c = CHR ''#'' \<or> c = CHR ''?'') cur;
          r1 = r\<lparr>m_Path := path\<rparr>;
          (r2, cur2) =
            (if peek cur1 = CHR ''?'' then
               (let (q, rest) = until (\<lambda>c. c = CHR ''#'') (tl cur1) in (r1\<lparr>m_Query := q\<rparr>, rest))
             else (r1, cur1));
          r3 = (if peek cur2 = CHR ''#'' then r2\<lparr>m_Fragment := tl cur2\<rparr> else r2)
      in r3\<lparr>m_ErrorCode := LUrlParserError_Ok\<rparr>)"

definition ParseURL :: "string \<Rightarrow> clParseURL" where
  "ParseURL url =
     (let s = c_str url; (scheme, rest) = until (\<lambda>c. c = CHR '':'') s
      in if rest = [] then clParseURL_new LUrlParserError_NoUrlCharacter
         else if \<not> IsSchemeValid scheme then clParseURL_new LUrlParserError_InvalidSchemeName
         else let r = (clParseURL_new LUrlParserError_Uninitialized)\<lparr>m_Scheme := map c_tolower scheme\<rparr>; cur = tl rest
         in if peek cur \<noteq> CHR ''/'' then clParseURL_new LUrlParserError_NoDoubleSlash
         else if peek (tl cur) \<noteq> CHR ''/'' then clParseURL_new LUrlParserError_NoDoubleSlash
         else case read_user (tl (tl cur)) r of
           Inl e \<Rightarrow> clParseURL_new e
         | Inr (r1, cur1) \<Rightarrow>
             let (host, cur2) = read_host cur1;
                 (r2, cur3) = read_port cur2 (r1\<lparr>m_Host := host\<rparr>)
             in if cur3 = [] then r2\<lparr>m_ErrorCode := LUrlParserError_Ok\<rparr>
                else if peek cur3 \<noteq> CHR ''/'' then clParseURL_new LUrlParserError_NoSlash
                else read_tail (tl cur3) r2)"

subsection \<open>UrlParser::parse\<close>

record url =
  protocol :: string
  host :: string
  path :: string
  query :: string
  port :: int

definition parse_url :: "string \<Rightarrow> url option" where
  "parse_url url =
     (let res = ParseURL url
      in if \<not> IsValid res then None
         else let prot = m_Scheme res;
                  given = (case GetPort res of
                      Some p \<Rightarrow> Some p
                    | None \<Rightarrow> if prot = ''ws'' \<or> prot = ''http'' then Some 80
                              else if prot = ''wss'' \<or> prot = ''https'' then Some 443 else None)
              in case given of
                   None \<Rightarrow> None
                 | Some p \<Rightarrow>
                     let path1 = (if m_Path res = [] then ''/''
                                  else if hd (m_Path res) \<noteq> CHR ''/'' then CHR ''/'' # m_Path res else m_Path res);
                         path2 = (if m_Query res \<noteq> [] then path1 @ ''?'' @ m_Query res else path1)
                     in Some \<lparr> protocol = prot, host = m_Host res, path = path2, query = m_Query res, port = p \<rparr>)"

subsection \<open>Scanning lemmas\<close>

lemma until_stop: "\<forall>c \<in> set s. \<not> stop c \<Longrightarrow> stop d \<Longrightarrow> until stop (s @ d # r) = (s, d # r)"
  by (simp add: until_def takeWhile_append2 dropWhile_append2)

lemma until_end: "\<forall>c \<in> set s. \<not> stop c \<Longrightarrow> until stop s = (s, [])"
  by (auto simp: until_def takeWhile_eq_all_conv dropWhile_eq_Nil_conv)

lemma has_user_name_slash: "CHR ''@'' \<notin> set s \<Longrightarrow> has_user_name (s @ CHR ''/'' # r) = False"
  by (induction s) auto

lemma has_user_name_end: "CHR ''@'' \<notin> set s \<Longrightarrow> has_user_name s = False"
  by (induction s) auto

lemma atoi_string_of_nat:
  assumes "n < 2 ^ 31"
  shows "atoi (string_of_nat n) = int n"
proof -
  have nul: "NUL \<notin> set (string_of_nat n)"
    using string_of_nat_digits [of n] by (auto simp: NUL_def c_isdigit_def)
  have "skip_space (string_of_nat n) = string_of_nat n"
    by (rule skip_space_digits) (simp_all add: hd_string_of_nat)
  moreover have "prefix_int (string_of_nat n) = int n" using prefix_int_string_of_nat [of "[]" n] by simp
  moreover have "sint (word_of_int (int n) :: 32 word) = int n"
    using assms by (simp add: signed_of_nat signed_take_bit_int_eq_self)
  ultimately show ?thesis
    using assms by (simp add: atoi_def c_str_id [OF nul] long_max_def long_min_def)
qed

lemma atoi_Nil: "atoi [] = 0"
  by (simp add: atoi_def c_str_def skip_space_def prefix_int_def signed_prefix_def digits_val_def long_max_def long_min_def)

subsection \<open>Properties\<close>

text \<open>
  A successful parse always yields a usable port, in the range 1 to 65535, and a request path
  that starts with a slash.
\<close>

theorem parse_url_port_and_path:
  assumes "parse_url s = Some u"
  shows "1 \<le> port u \<and> port u \<le> 65535 \<and> path u \<noteq> [] \<and> hd (path u) = CHR ''/''"
  using assms
  by (auto simp: parse_url_def GetPort_def Let_def split: if_splits option.splits)

theorem parse_url_port_and_path_witness:
  "parse_url ''wss://example.org'' = Some \<lparr>protocol = ''wss'', host = ''example.org'', path = ''/'', query = [], port = 443\<rparr> \<and>
   1 \<le> (443 :: int) \<and> (443 :: int) \<le> 65535"
proof -
  have p: "parse_url ''wss://example.org'' = Some \<lparr>protocol = ''wss'', host = ''example.org'', path = ''/'', query = [], port = 443\<rparr>"
    by code_simp
  then show ?thesis using parse_url_port_and_path [OF p] by simp
qed

definition host_ok :: "string \<Rightarrow> bool" where
  "host_ok h \<longleftrightarrow> h \<noteq> [] \<and> hd h \<noteq> CHR ''['' \<and> NUL \<notin> set h \<and> CHR ''@'' \<notin> set h \<and> CHR '':'' \<notin> set h \<and> CHR ''/'' \<notin> set h"

lemma parse_authority:
  assumes "scheme = ''ws'' \<or> scheme = ''wss'' \<or> scheme = ''http'' \<or> scheme = ''https''"
    and "host_ok h" "NUL \<notin> set ps" "CHR ''/'' \<notin> set ps" "CHR ''@'' \<notin> set ps" "NUL \<notin> set rest"
  shows "ParseURL (scheme @ ''://'' @ h @ '':'' @ ps @ CHR ''/'' # rest) =
    read_tail rest ((clParseURL_new LUrlParserError_Uninitialized)\<lparr>m_Scheme := scheme, m_Host := h, m_Port := ps\<rparr>)"
proof -
  let ?u = "scheme @ ''://'' @ h @ '':'' @ ps @ CHR ''/'' # rest"
  have h: "h \<noteq> []" "NUL \<notin> set h" "CHR ''@'' \<notin> set h" "peek (h @ x) \<noteq> CHR ''[''"
    "\<forall>c \<in> set h. \<not> (c = CHR '':'' \<or> c = CHR ''/'')" for x
    using assms(2) by (auto simp: host_ok_def peek_def split: list.split) (cases h; simp)+
  have nul: "NUL \<notin> set ?u" using assms(1,3,6) h(2) by (auto simp: NUL_def)
  have sch: "until (\<lambda>c. c = CHR '':'') ?u = (scheme, CHR '':'' # ''//'' @ h @ '':'' @ ps @ CHR ''/'' # rest)"
    using until_stop [of scheme "\<lambda>c. c = CHR '':''" "CHR '':''" "''//'' @ h @ '':'' @ ps @ CHR ''/'' # rest"] assms(1) by auto
  have sv: "IsSchemeValid scheme" "map c_tolower scheme = scheme"
    using assms(1) by (auto simp: IsSchemeValid_def c_isalpha_def c_islower_def c_isupper_def c_tolower_def)
  have nouser: "\<not> has_user_name (h @ '':'' @ ps @ CHR ''/'' # rest)"
    using has_user_name_slash [of "h @ '':'' @ ps" rest] h(3) assms(5) by simp
  have rh: "read_host (h @ '':'' @ ps @ CHR ''/'' # rest) = (h, CHR '':'' # ps @ CHR ''/'' # rest)"
    using until_stop [OF h(5), of "CHR '':''" "ps @ CHR ''/'' # rest"] h(4) by (simp add: read_host_def)
  have rp: "until (\<lambda>c. c = CHR ''/'') (ps @ CHR ''/'' # rest) = (ps, CHR ''/'' # rest)"
    by (rule until_stop) (use assms(4) in auto)
  show ?thesis
    unfolding ParseURL_def c_str_id [OF nul] sch Let_def
    using sv nouser rh rp by (simp add: read_user_def read_port_def peek_def)
qed

text \<open>
  A URL with host, port, path and query is taken apart into exactly these: for each of the four
  schemes, a host without delimiters, any port from 1 to 65535, a path without a leading slash and a
  query, the parts come back, and the request path is the path with its slash, followed by the query.
\<close>

theorem parse_url_roundtrip:
  assumes "scheme = ''ws'' \<or> scheme = ''wss'' \<or> scheme = ''http'' \<or> scheme = ''https''"
    and "host_ok h" "0 < n" "n \<le> 65535"
    and "NUL \<notin> set p" "CHR ''?'' \<notin> set p" "CHR ''#'' \<notin> set p" "p = [] \<or> hd p \<noteq> CHR ''/''"
    and "q \<noteq> []" "NUL \<notin> set q" "CHR ''#'' \<notin> set q"
  shows "parse_url (scheme @ ''://'' @ h @ '':'' @ string_of_nat n @ ''/'' @ p @ ''?'' @ q) =
    Some \<lparr> protocol = scheme, host = h, path = ''/'' @ p @ ''?'' @ q, query = q, port = int n \<rparr>"
proof -
  have dig: "c \<notin> set (string_of_nat n)" if "\<not> c_isdigit c" for c using string_of_nat_digits that by blast
  have digs: "NUL \<notin> set (string_of_nat n)" "CHR ''/'' \<notin> set (string_of_nat n)" "CHR ''@'' \<notin> set (string_of_nat n)"
    by (rule dig, simp add: c_isdigit_def NUL_def)+
  have rest: "NUL \<notin> set (p @ CHR ''?'' # q)" using assms(5,10) by (auto simp: NUL_def)
  have up: "until (\<lambda>c. c = CHR ''#'' \<or> c = CHR ''?'') (p @ CHR ''?'' # q) = (p, CHR ''?'' # q)"
    by (rule until_stop) (use assms(6,7) in auto)
  have uq: "until (\<lambda>c. c = CHR ''#'') q = (q, [])" by (rule until_end) (use assms(11) in auto)
  have tail: "read_tail (p @ CHR ''?'' # q) r = r\<lparr>m_Path := p, m_Query := q, m_ErrorCode := LUrlParserError_Ok\<rparr>" for r
    unfolding read_tail_def up by (simp add: peek_def uq NUL_def)
  have at: "atoi (string_of_nat n) = int n" by (rule atoi_string_of_nat) (use assms(4) in simp)
  have "ParseURL (scheme @ ''://'' @ h @ '':'' @ string_of_nat n @ ''/'' @ p @ ''?'' @ q) =
      (clParseURL_new LUrlParserError_Uninitialized)\<lparr>m_Scheme := scheme, m_Host := h, m_Port := string_of_nat n,
        m_Path := p, m_Query := q, m_ErrorCode := LUrlParserError_Ok\<rparr>"
    using parse_authority [OF assms(1,2) digs rest] tail by simp
  then show ?thesis
    unfolding parse_url_def Let_def using assms(3,4,8,9)
    by (auto simp: IsValid_def GetPort_def at)
qed

theorem parse_url_roundtrip_witness:
  "parse_url (''ws'' @ ''://'' @ ''localhost'' @ '':'' @ string_of_nat 8008 @ ''/'' @ ''api'' @ ''?'' @ ''v=1'') =
    Some \<lparr> protocol = ''ws'', host = ''localhost'', path = ''/api?v=1'', query = ''v=1'', port = 8008 \<rparr>"
  using parse_url_roundtrip [of "''ws''" "''localhost''" 8008 "''api''" "''v=1''"]
  by (simp add: host_ok_def NUL_def)

text \<open>
  A port that is not a number from 1 to 65535 is not rejected: the URL is accepted with the
  default port of its scheme.
\<close>

theorem invalid_port_uses_default:
  assumes "host_ok h" "65535 < n" "n < 2 ^ 31"
  shows "parse_url (''ws'' @ ''://'' @ h @ '':'' @ string_of_nat n @ ''/'') =
    Some \<lparr> protocol = ''ws'', host = h, path = ''/'', query = [], port = 80 \<rparr>"
proof -
  have dig: "c \<notin> set (string_of_nat n)" if "\<not> c_isdigit c" for c using string_of_nat_digits that by blast
  have digs: "NUL \<notin> set (string_of_nat n)" "CHR ''/'' \<notin> set (string_of_nat n)" "CHR ''@'' \<notin> set (string_of_nat n)"
    by (rule dig, simp add: c_isdigit_def NUL_def)+
  have at: "atoi (string_of_nat n) = int n" by (rule atoi_string_of_nat [OF assms(3)])
  have tail: "read_tail [] r = r\<lparr>m_Path := [], m_ErrorCode := LUrlParserError_Ok\<rparr>" for r
    by (simp add: read_tail_def until_def peek_def NUL_def)
  have "ParseURL (''ws'' @ ''://'' @ h @ '':'' @ string_of_nat n @ ''/'') =
      (clParseURL_new LUrlParserError_Uninitialized)\<lparr>m_Scheme := ''ws'', m_Host := h, m_Port := string_of_nat n,
        m_Path := [], m_ErrorCode := LUrlParserError_Ok\<rparr>"
    using parse_authority [OF _ assms(1) digs, of "''ws''" "[]"] tail by simp
  then show ?thesis
    unfolding parse_url_def Let_def using assms(2)
    by (simp add: IsValid_def GetPort_def at clParseURL_new_def)
qed

theorem invalid_port_uses_default_witness:
  "parse_url (''ws'' @ ''://'' @ ''localhost'' @ '':'' @ string_of_nat 80080 @ ''/'') =
    Some \<lparr> protocol = ''ws'', host = ''localhost'', path = ''/'', query = [], port = 80 \<rparr>"
  by (rule invalid_port_uses_default) (simp_all add: host_ok_def NUL_def)

end
