(* ===== verification/Connect.thy ===== *)
theory Connect
  imports Handshake Dispatch UrlParser
begin

section \<open>Connecting the transport\<close>

text \<open>
  \<^verbatim>\<open>IXSocketFactory.cpp\<close>, built without TLS, and the two connect functions of
  \<^verbatim>\<open>IXWebSocketTransport.cpp\<close>. A new socket object comes with the outcomes its system calls will have: the
  record \<open>attempt\<close> holds them for one connection, with the environment of its handshake. A null
  \<open>_socket\<close> is one without a descriptor; it stays unused, since a failed connect leaves the state.
\<close>

record 'z attempt =
  at_henv :: "'z henv"
  at_pipe :: pipe_os
  at_socket :: socket

subsection \<open>SocketFactory\<close>

text \<open>The socket's own fields as the constructor sets them, its script as given.\<close>

definition Socket_make :: "int \<Rightarrow> socket \<Rightarrow> socket" where
  "Socket_make fd script = script\<lparr>sockfd := fd, interrupt := SelectInterruptPipe_new (pipe_capacity (interrupt script))\<rparr>"

definition createSocket_fd :: "pipe_os \<Rightarrow> int \<Rightarrow> socket \<Rightarrow> string + socket" where
  "createSocket_fd os fd script =
     (case socket_init os (Socket_make fd script) of
        None \<Rightarrow> Inl []
      | Some (ok, errorMsg, s) \<Rightarrow> if ok then Inr s else Inl errorMsg)"

definition createSocket :: "pipe_os \<Rightarrow> bool \<Rightarrow> socket \<Rightarrow> string + socket" where
  "createSocket os tls script =
     (if tls then Inl ''TLS support is not enabled on this platform.'' else createSocket_fd os (-1) script)"

subsection \<open>The handshake on the transport's members\<close>

definition to_handshake :: "'z transport \<Rightarrow> socket \<Rightarrow> 'z handshake" where
  "to_handshake t s =
     \<lparr>hs_requestInitCancellation = requestInitCancellation t, hs_socket = s, hs_perMessageDeflate = perMessageDeflate t,
      hs_perMessageDeflateOptions = perMessageDeflateOptions t, hs_enablePerMessageDeflate = enablePerMessageDeflate t\<rparr>"

definition from_handshake :: "'z handshake \<Rightarrow> 'z transport \<Rightarrow> 'z transport" where
  "from_handshake h t =
     t\<lparr>requestInitCancellation := hs_requestInitCancellation h, sock := hs_socket h, perMessageDeflate := hs_perMessageDeflate h,
       enablePerMessageDeflate := hs_enablePerMessageDeflate h\<rparr>"

definition succeeded :: "handshake_result \<Rightarrow> bool" where
  "succeeded r = (case r of Init i \<Rightarrow> init_success i | HandshakeOutOfRange \<Rightarrow> False)"

definition finish_connect :: "'z tenv \<Rightarrow> handshake_result \<times> 'z handshake \<Rightarrow> 'z transport \<Rightarrow> handshake_result \<times> 'z transport" where
  "finish_connect env rh t =
     (let t1 = from_handshake (snd rh) t
      in (fst rh, if succeeded (fst rh) then setReadyState env OPEN t1 else t1))"

definition connectToUrl ::
  "'z tenv \<Rightarrow> 'z attempt \<Rightarrow> string \<Rightarrow> WebSocketHttpHeaders \<Rightarrow> int \<Rightarrow> 'z transport \<Rightarrow> (handshake_result \<times> 'z transport) option" where
  "connectToUrl env a address headers timeoutSecs t =
     (case parse_url address of
        None \<Rightarrow> Some (initError 0 (''Could not parse URL '' @ address), t)
      | Some u \<Rightarrow>
          case createSocket (at_pipe a) (protocol u = ''wss'') (at_socket a) of
            Inl errorMsg \<Rightarrow> Some (initError 0 errorMsg, t\<lparr>sock := Socket_make (-1) (at_socket a)\<rparr>)
          | Inr s \<Rightarrow>
              Option.bind (clientHandshake ((at_henv a)\<lparr>h_zlib := zlib env\<rparr>) address headers (host u) (path u) (port u)
                timeoutSecs (to_handshake t s)) (\<lambda>rh. Some (finish_connect env rh t)))"

definition connectToSocket :: "'z tenv \<Rightarrow> 'z attempt \<Rightarrow> int \<Rightarrow> int \<Rightarrow> 'z transport \<Rightarrow> (handshake_result \<times> 'z transport) option" where
  "connectToSocket env a fd timeoutSecs t0 =
     (let t = t0\<lparr>useMask := False\<rparr>
      in case createSocket_fd (at_pipe a) fd (at_socket a) of
           Inl errorMsg \<Rightarrow> Some (initError 0 errorMsg, t\<lparr>sock := Socket_make (-1) (at_socket a)\<rparr>)
         | Inr s \<Rightarrow>
             Option.bind (serverHandshake ((at_henv a)\<lparr>h_zlib := zlib env\<rparr>) fd timeoutSecs (to_handshake t s))
               (\<lambda>rh. Some (finish_connect env rh t)))"

subsection \<open>The state after a connect\<close>

text \<open>Only a successful handshake opens the transport; the close notifications and the receive
  buffers are left alone either way.\<close>

lemma connect_state:
  assumes "connectToUrl env a address headers secs t = Some (r, t') \<or> connectToSocket env a fd secs t = Some (r, t')"
  shows "events t' = events t" "readyState t' = (if succeeded r then OPEN else readyState t)"
    "rxbuf t' = rxbuf t" "chunks t' = chunks t"
proof -
  have f: "events u' = events u \<and> rxbuf u' = rxbuf u \<and> chunks u' = chunks u \<and> readyState u' = (if succeeded q then OPEN else readyState u)"
    if "finish_connect env rh u = (q, u')" for rh q and u u' :: "'a transport"
    using that by (auto simp: finish_connect_def from_handshake_def Let_def setReadyState_def initTimePointsAndGCDAfterConnect_def now_def)
  have e: "\<not> succeeded (initError i m)" for i m by (simp add: succeeded_def initResult_def)
  have "events t' = events t \<and> rxbuf t' = rxbuf t \<and> chunks t' = chunks t \<and> readyState t' = (if succeeded r then OPEN else readyState t)"
    using assms
  proof
    assume "connectToUrl env a address headers secs t = Some (r, t')"
    then show ?thesis using e by (auto simp: connectToUrl_def bind_eq_Some_conv split: option.splits sum.splits dest!: f)
  next
    assume "connectToSocket env a fd secs t = Some (r, t')"
    then show ?thesis
      using e by (auto simp: connectToSocket_def Let_def bind_eq_Some_conv split: sum.splits dest!: f)
  qed
  then show "events t' = events t" "readyState t' = (if succeeded r then OPEN else readyState t)"
    "rxbuf t' = rxbuf t" "chunks t' = chunks t" by simp_all
qed

end
