(* ===== verification/SendProperties.thy ===== *)
theory SendProperties
  imports Dispatch
begin

section \<open>What the sending side puts on the wire\<close>

text \<open>
  The bytes handed to the system followed by the bytes still buffered are the frames of the
  messages sent, in order. \<open>fragments\<close> and \<open>message_frames\<close> say how a message is cut, independently
  of the loop that does it.
\<close>

definition sent :: "'z transport \<Rightarrow> byte list" where
  "sent t = wire_out (sock t) @ txbuf t"

subsection \<open>Nothing is lost or reordered\<close>

lemma setReadyState_sock [simp]:
  "sock (setReadyState env rs t) = sock t" "txbuf (setReadyState env rs t) = txbuf t"
  "epochReads (setReadyState env rs t) = epochReads t"
  by (simp_all add: setReadyState_def initTimePointsAndGCDAfterConnect_def now_def Let_def)

lemma wire_out_close [simp]: "wire_out (socket_close s) = wire_out s"
  by (simp add: socket_close_def)

lemma sent_sendOnSocket [simp]: "sent (sendOnSocket env t) = sent t"
proof (induction env t rule: sendOnSocket.induct)
  case (1 env t)
  show ?case
  proof (cases "txbuf t = []")
    case True
    then show ?thesis by (simp add: sendOnSocket.simps)
  next
    case False
    obtain ret s where snd: "socket_send (sock t) (txbuf t) = (ret, s)" by (cases "socket_send (sock t) (txbuf t)")
    have eff: "wire_out s = wire_out (sock t) @ take (nat ret) (txbuf t)" using socket_send_effect [OF snd] by simp
    consider "ret < 0 \<and> isWaitNeeded s" | "ret \<le> 0" "\<not> (ret < 0 \<and> isWaitNeeded s)" | "0 < ret" by linarith
    then show ?thesis
    proof cases
      case 3
      then have "sendOnSocket env t = sendOnSocket env (t\<lparr>sock := s, txbuf := drop (nat ret) (txbuf t)\<rparr>)"
        using False snd by (subst sendOnSocket.simps) (simp add: Let_def)
      moreover have "sent (sendOnSocket env (t\<lparr>sock := s, txbuf := drop (nat ret) (txbuf t)\<rparr>)) =
          sent (t\<lparr>sock := s, txbuf := drop (nat ret) (txbuf t)\<rparr>)"
        using "1.IH" [OF False] snd 3 by simp
      ultimately show ?thesis using eff by (simp add: sent_def)
    qed (use False snd eff in \<open>subst sendOnSocket.simps, simp add: Let_def sent_def closeSocket_def\<close>)+
  qed
qed

text \<open>Where \<open>sendOnSocket\<close> stops.\<close>

lemma sendOnSocket_stops:
  "txbuf (sendOnSocket env t) = [] \<or> isWaitNeeded (sock (sendOnSocket env t)) \<or> readyState (sendOnSocket env t) = CLOSED"
proof (induction env t rule: sendOnSocket.induct)
  case (1 env t)
  show ?case
  proof (cases "txbuf t = []")
    case True
    then show ?thesis by (simp add: sendOnSocket.simps)
  next
    case False
    obtain ret s where snd: "socket_send (sock t) (txbuf t) = (ret, s)" by (cases "socket_send (sock t) (txbuf t)")
    then show ?thesis
      using "1.IH" [OF False, of ret s] False
      by (subst (1 2 3) sendOnSocket.simps) (auto simp: Let_def setReadyState_def)
  qed
qed

text \<open>
  C25. Flushing the send buffer neither loses, duplicates nor reorders a byte, whatever part of the
  buffer each system call accepts: the bytes on the wire followed by the bytes still buffered stay
  the same sequence. When it stops with bytes left, the socket would block or the connection is
  closed.
\<close>

theorem flush_conserves_bytes:
  "wire_out (sock (sendOnSocket env t)) @ txbuf (sendOnSocket env t) = wire_out (sock t) @ txbuf t \<and>
   (txbuf (sendOnSocket env t) = [] \<or> isWaitNeeded (sock (sendOnSocket env t)) \<or> readyState (sendOnSocket env t) = CLOSED)"
  using sent_sendOnSocket [of env t] sendOnSocket_stops [of env t] by (simp add: sent_def)

lemma frame_fields_sendOnSocket [simp]:
  "useMask (sendOnSocket env t) = useMask t" "epochReads (sendOnSocket env t) = epochReads t"
proof -
  show "useMask (sendOnSocket env t) = useMask t" by (rule receive_part_fields(5) [OF receive_part_sendOnSocket])
  show "epochReads (sendOnSocket env t) = epochReads t"
  proof (induction env t rule: sendOnSocket.induct)
    case (1 env t)
    then show ?case by (subst sendOnSocket.simps) (auto simp: Let_def closeSocket_def split: prod.split)
  qed
qed

subsection \<open>The frames of a message\<close>

definition key_at :: "'z tenv \<Rightarrow> nat \<Rightarrow> byte list" where
  "key_at env e = key_bytes (word_of_int (epochAt env e))"

definition fragment_frame :: "'z tenv \<Rightarrow> bool \<Rightarrow> nat \<Rightarrow> byte \<Rightarrow> bool \<Rightarrow> string \<Rightarrow> bool \<Rightarrow> frame" where
  "fragment_frame env masked e type is_fin message compress =
     \<lparr> f_opcode = type, f_fin = is_fin, f_rsv1 = (compress \<and> type \<noteq> CONTINUATION),
       f_key = (if masked then Some (key_at env e) else None), f_payload = bytes_of message \<rparr>"

lemma length_key_bytes [simp]: "length (key_bytes x) = 4" "length (key_at env e) = 4"
  by (simp_all add: key_bytes_def key_at_def)

lemma build_header_key_irrelevant:
  "length k = 4 \<Longrightarrow> length k' = 4 \<Longrightarrow> build_header False ty f c n k = build_header False ty f c n k'"
  by (simp add: build_header_fields)

lemma build_header_compress:
  "length k = 4 \<Longrightarrow> build_header um ty f c n k = build_header um ty f (c \<and> ty \<noteq> CONTINUATION) n k"
  by (simp add: build_header_fields first_byte_def)

lemma xor_at_end: "xor_at (length (a @ b)) (length p) key (a @ b @ p) = a @ b @ xor_at 0 (length p) key p"
  using xor_at_append [of "a @ b" "length p" key p] by simp

lemma sent_sendFragment:
  "sent (sendFragment env ty f m c t) = sent t @ frame_bytes (fragment_frame env (useMask t) (epochReads t) ty f m c)"
  "useMask (sendFragment env ty f m c t) = useMask t" "epochReads (sendFragment env ty f m c t) = Suc (epochReads t)"
proof -
  let ?p = "bytes_of m" and ?k = "key_at env (epochReads t)"
  let ?t = "t\<lparr>epochReads := Suc (epochReads t)\<rparr>"
  let ?h = "build_header (useMask t) ty f c (word_of_nat (length ?p)) ?k"
  have send: "sendFragment env ty f m c t = sendOnSocket env (appendToSendBuffer ?h ?p ?k ?t)"
    by (simp add: sendFragment_def getRandomUnsigned_def Let_def key_at_def)
  show "useMask (sendFragment env ty f m c t) = useMask t" "epochReads (sendFragment env ty f m c t) = Suc (epochReads t)"
    unfolding send by (simp_all add: appendToSendBuffer_def Let_def)
  have fb: "frame_bytes (fragment_frame env (useMask t) (epochReads t) ty f m c) =
      ?h @ (if useMask t then xor_at 0 (length ?p) ?k ?p else ?p)"
    using build_header_key_irrelevant [of "[0,0,0,0]" ?k ty f c "word_of_nat (length ?p)"]
      build_header_compress [of ?k "useMask t" ty f c "word_of_nat (length ?p)"]
      build_header_compress [of "[0,0,0,0]" False ty f c "word_of_nat (length ?p)"]
      build_header_key_irrelevant [of "[0,0,0,0]" ?k ty f "c \<and> ty \<noteq> CONTINUATION" "word_of_nat (length ?p)"]
    by (simp add: frame_bytes_def fragment_frame_def Let_def)
  show "sent (sendFragment env ty f m c t) = sent t @ frame_bytes (fragment_frame env (useMask t) (epochReads t) ty f m c)"
    unfolding send fb sent_sendOnSocket
    using xor_at_end [of "txbuf t" ?h ?p ?k]
    by (cases "useMask t") (simp_all add: sent_def appendToSendBuffer_def Let_def)
qed

text \<open>A message is cut into pieces of the chunk size, the last one longer by the remainder.\<close>

fun pieces :: "nat \<Rightarrow> string \<Rightarrow> string list" where
  "pieces 0 s = []"
| "pieces (Suc 0) s = [s]"
| "pieces (Suc (Suc n)) s = take kChunkSize s # pieces (Suc n) (drop kChunkSize s)"

definition fragments :: "string \<Rightarrow> string list" where
  "fragments s = (if length s < kChunkSize then [s] else pieces (length s div kChunkSize) s)"

definition message_frames :: "'z tenv \<Rightarrow> bool \<Rightarrow> nat \<Rightarrow> byte \<Rightarrow> bool \<Rightarrow> string list \<Rightarrow> frame list" where
  "message_frames env masked e type compress ps =
     map (\<lambda>(i, p). fragment_frame env masked (e + i) (if i = 0 then type else CONTINUATION) (Suc i = length ps) p compress)
       (enumerate 0 ps)"

lemma concat_pieces [simp]: "concat (pieces (Suc n) s) = s"
  by (induction n arbitrary: s) simp_all

lemma length_pieces [simp]: "length (pieces n s) = n"
  by (induction n s rule: pieces.induct) simp_all

lemma fragments_nonempty [simp]: "fragments s \<noteq> []"
proof -
  have "0 < length s div kChunkSize" if "\<not> length s < kChunkSize"
    using that by (simp add: div_greater_zero_iff kChunkSize_def)
  then have "0 < length (fragments s)" by (simp add: fragments_def del: length_greater_0_conv)
  then show ?thesis by simp
qed

lemma concat_fragments [simp]: "concat (fragments s) = s"
proof (cases "length s < kChunkSize")
  case False
  then have "0 < length s div kChunkSize" by (simp add: div_greater_zero_iff kChunkSize_def)
  then obtain n where "length s div kChunkSize = Suc n" using gr0_implies_Suc by blast
  then show ?thesis using False by (simp add: fragments_def)
qed (simp add: fragments_def)

text \<open>The frames from step \<open>i\<close> on.\<close>

definition frames_from :: "'z tenv \<Rightarrow> bool \<Rightarrow> nat \<Rightarrow> byte \<Rightarrow> bool \<Rightarrow> nat \<Rightarrow> nat \<Rightarrow> string list \<Rightarrow> frame list" where
  "frames_from env masked e type compress steps i ps =
     map (\<lambda>(j, p). fragment_frame env masked (e + (j - i)) (if j = 0 then type else CONTINUATION) (Suc j = steps) p compress)
       (enumerate i ps)"

lemma frames_from_Cons:
  "frames_from env masked e type compress steps i (p # ps) =
     fragment_frame env masked e (if i = 0 then type else CONTINUATION) (Suc i = steps) p compress #
     frames_from env masked (Suc e) type compress steps (Suc i) ps"
proof -
  have "(\<lambda>(j, p). fragment_frame env masked (e + (j - i)) (if j = 0 then type else CONTINUATION) (Suc j = steps) p compress) x =
      (\<lambda>(j, p). fragment_frame env masked (Suc e + (j - Suc i)) (if j = 0 then type else CONTINUATION) (Suc j = steps) p compress) x"
    if "x \<in> set (enumerate (Suc i) ps)" for x
  proof -
    obtain j p where x: "x = (j, p)" by (cases x)
    then have "Suc e + (j - Suc i) = e + (j - i)" using that by (auto simp: in_set_enumerate_eq)
    then show ?thesis by (simp only: x prod.case)
  qed
  then show ?thesis by (auto simp: frames_from_def)
qed

lemma sent_fragment_loop:
  assumes "k \<le> steps" "progress = None \<or> progress = Some (\<lambda>_ _. True)"
  shows "sent (fragment_loop env ty c progress steps k rest t) =
      sent t @ concat (map frame_bytes (frames_from env (useMask t) (epochReads t) ty c steps (steps - k) (pieces k rest)))"
  using assms(1)
proof (induction k arbitrary: rest t)
  case 0
  then show ?case by (simp add: frames_from_def)
next
  case (Suc k)
  define i where "i = steps - Suc k"
  have i: "Suc i = steps - k" "(Suc i = steps) = (k = 0)" using Suc.prems by (auto simp: i_def)
  define piece where "piece = (if Suc i = steps then rest else take kChunkSize rest)"
  let ?op = "if i = 0 then ty else CONTINUATION"
  let ?t1 = "sendFragment env ?op (Suc i = steps) piece c t"
  have ps: "pieces (Suc k) rest = piece # pieces k (drop kChunkSize rest)"
    using i(2) by (cases k) (simp_all add: piece_def)
  have sent1: "sent ?t1 = sent t @ frame_bytes (fragment_frame env (useMask t) (epochReads t) ?op (Suc i = steps) piece c)"
    "useMask ?t1 = useMask t" "epochReads ?t1 = Suc (epochReads t)"
    by (rule sent_sendFragment)+
  have loop: "fragment_loop env ty c progress steps (Suc k) rest t =
      fragment_loop env ty c progress steps k (drop kChunkSize rest)
        (if progress = None then ?t1 else ?t1\<lparr>events := events ?t1 @ [OnProgress i steps]\<rparr>)"
    using assms(2) by (auto simp: Let_def i_def [symmetric] piece_def)
  have ev: "sent (t\<lparr>events := e\<rparr>) = sent t" for t :: "'a transport" and e by (simp add: sent_def)
  show ?case
    unfolding loop ps frames_from_Cons i_def [symmetric]
    using Suc.IH [of "drop kChunkSize rest"] Suc.prems sent1 i by (simp add: ev)
qed

lemma sent_wakeUp [simp]: "sent (wakeUp r t) = sent t"
  by (simp add: sent_def wakeUp_def wakeUpFromPoll_def split_beta)

lemma frames_from_0: "frames_from env masked e ty c (length ps) 0 ps = message_frames env masked e ty c ps"
  by (simp add: frames_from_def message_frames_def)

lemma sent_sendWire:
  assumes "progress = None \<or> progress = Some (\<lambda>_ _. True)"
  shows "sent (sendWire env ty w c progress t) =
    sent t @ concat (map frame_bytes (message_frames env (useMask t) (epochReads t) ty c (fragments w)))"
proof -
  have "sent (sendWire env ty w c progress t) = sent (if length w < kChunkSize then sendFragment env ty True w c t
      else fragment_loop env ty c progress (length w div kChunkSize) (length w div kChunkSize) w t)"
    by (simp add: sendWire_def Let_def)
  moreover have "message_frames env (useMask t) (epochReads t) ty c [w] =
      [fragment_frame env (useMask t) (epochReads t) ty True w c]"
    by (simp add: message_frames_def)
  ultimately show ?thesis
    using sent_fragment_loop [OF order_refl assms, of env ty c "length w div kChunkSize" w t]
      frames_from_0 [of env "useMask t" "epochReads t" ty c "pieces (length w div kChunkSize) w"]
    by (simp add: fragments_def sent_sendFragment)
qed

end
