(* ===== verification/Messages.thy ===== *)
theory Messages
  imports SendProperties
begin

section \<open>Messages end to end\<close>

text \<open>
  The receiving side against its specification: \<open>assemble\<close> says what one data frame does to the
  message under construction, and \<open>dispatch\<close> applies it frame by frame however the bytes arrive.
  With the frames theory SendProperties finds on the wire, a message sent is the message
  delivered.
\<close>

subsection \<open>Message assembly\<close>

definition frame_kind :: "frame \<Rightarrow> 'z transport \<Rightarrow> MessageKind" where
  "frame_kind f t =
     (if f_opcode f = CONTINUATION then fragmentedMessageKind t
      else if f_opcode f = TEXT_FRAME then MSG_TEXT else MSG_BINARY)"

definition frame_compressed :: "frame \<Rightarrow> 'z transport \<Rightarrow> bool" where
  "frame_compressed f t =
     (if f_opcode f = CONTINUATION then compressedMessage t else enablePerMessageDeflate t \<and> f_rsv1 f)"

definition decode_message :: "'z tenv \<Rightarrow> bool \<Rightarrow> string \<Rightarrow> 'z perMessageDeflate \<Rightarrow> (bool \<times> string \<times> 'z perMessageDeflate) option" where
  "decode_message env compressed m p =
     (if compressed then pmd_decompress (zlib env) m p else Some (True, m, p))"

text \<open>The effect of a data frame in sequence, \<^const>\<open>None\<close> for a frame out of sequence, a text that
  is not UTF-8 or a decompression that does not return.\<close>

definition assemble :: "'z tenv \<Rightarrow> frame \<Rightarrow> 'z transport \<Rightarrow> 'z transport option" where
  "assemble env f t =
     (let kind = frame_kind f t; cm = frame_compressed f t; d = string_of_bytes (f_payload f);
          t1 = t\<lparr>fragmentedMessageKind := kind, compressedMessage := cm\<rparr>
      in if (f_opcode f = CONTINUATION) = (chunks t = []) \<or> kind = FRAGMENT then None
         else if \<not> f_fin f then
           Some (t1\<lparr>chunks := chunks t @ [d], events := events t @ [OnMessage [] 0 False FRAGMENT]\<rparr>)
         else case decode_message env cm (concat (chunks t) @ d) (perMessageDeflate t) of
           None \<Rightarrow> None
         | Some (ok, msg, p) \<Rightarrow>
             if kind = MSG_TEXT \<and> \<not> validateUtf8 (bytes_of msg) then None
             else Some (t1\<lparr>perMessageDeflate := p, chunks := [], compressedMessage := False,
                events := events t @ [OnMessage msg (length (concat (chunks t) @ d)) (\<not> ok) kind]\<rparr>))"

lemma assemble_rxbuf: "assemble env f (t\<lparr>rxbuf := b\<rparr>) = map_option (\<lambda>t'. t'\<lparr>rxbuf := b\<rparr>) (assemble env f t)"
  by (simp add: assemble_def Let_def frame_kind_def frame_compressed_def split: option.split)

lemma transport_same:
  "\<lbrakk>chunks t = c; compressedMessage t = m\<rbrakk> \<Longrightarrow> t\<lparr>chunks := c, compressedMessage := m\<rparr> = t"
  by (cases t) simp

lemma handleData_assemble:
  assumes "opcode ws = f_opcode f" "fin ws = f_fin f" "rsv1 ws = f_rsv1 f" "assemble env f t = Some t'"
  shows "handleData env ws (string_of_bytes (f_payload f)) t = Ret t'"
proof -
  define d where "d = string_of_bytes (f_payload f)"
  define t1 where "t1 = t\<lparr>fragmentedMessageKind := frame_kind f t, compressedMessage := frame_compressed f t\<rparr>"
  have seq: "(f_opcode f = CONTINUATION) \<noteq> (chunks t = [])" and kind: "frame_kind f t \<noteq> FRAGMENT"
    using assms(4) by (auto simp: assemble_def Let_def split: if_splits)
  have sc: "sequence_check env ws t = t1"
    using seq assms(1,3) by (auto simp: sequence_check_def Let_def t1_def frame_kind_def frame_compressed_def)
  show ?thesis
  proof (cases "f_fin f")
    case False
    then show ?thesis
      using assms seq kind
      by (simp add: handleData_def sc Let_def emitMessage_def deliver_def assemble_def t1_def)
  next
    case True
    obtain ok msg p where dec: "decode_message env (frame_compressed f t) (concat (chunks t) @ d) (perMessageDeflate t) = Some (ok, msg, p)"
      and u: "\<not> (frame_kind f t = MSG_TEXT \<and> \<not> validateUtf8 (bytes_of msg))"
      and t': "t' = t1\<lparr>perMessageDeflate := p, chunks := [], compressedMessage := False,
                events := events t @ [OnMessage msg (length (concat (chunks t) @ d)) (\<not> ok) (frame_kind f t)]\<rparr>"
      using assms(4) seq kind True
      by (auto simp: assemble_def Let_def d_def t1_def split: option.splits if_splits)
    have em: "emitMessage env (frame_kind f t) (concat (chunks t) @ d) (frame_compressed f t) t2 =
        Ret (t2\<lparr>perMessageDeflate := p, events := events t2 @ [OnMessage msg (length (concat (chunks t) @ d)) (\<not> ok) (frame_kind f t)]\<rparr>)"
      if "perMessageDeflate t2 = perMessageDeflate t" for t2
      using dec u kind that by (auto simp: emitMessage_def decode_message_def deliver_def Let_def split: if_splits)
    show ?thesis
      unfolding d_def [symmetric]
      using True assms(2) em [of t1] em [of "t1\<lparr>chunks := chunks t @ [d]\<rparr>"] t'
      by (cases "chunks t = []") (auto simp: handleData_def sc Let_def getMergedChunks_def t1_def)
  qed
qed

subsection \<open>One turn of the frame loop\<close>

lemma drop_xor_at: "off + n \<le> k \<Longrightarrow> drop k (xor_at off n key buf) = drop k buf"
  by (rule nth_equalityI) (auto simp: nth_xor_at)

lemma word_size_check:
  assumes "a < 2 ^ 64" "h + unat (n :: u64) < 2 ^ 64"
  shows "((word_of_nat a :: u64) < word_of_nat h + n) = (a < h + unat n)"
proof -
  have "unat (word_of_nat h + n) = h + unat n"
    using assms(2) by (simp add: unat_word_ariths unat_of_nat)
  then show ?thesis using assms(1) by (simp add: word_less_nat_alt unat_of_nat)
qed

lemma parse_start_fields [simp]:
  "rsv1 (parse_header b) = rsv1 (parse_start b)" "rsv2 (parse_header b) = rsv2 (parse_start b)"
  "rsv3 (parse_header b) = rsv3 (parse_start b)"
  by (simp_all add: parse_header_def Let_def split_beta)

lemma stepFrame_data:
  assumes "next_frame (rxbuf t) = Some (f, n)" "isData (f_opcode f)" "f_rsv1 f \<longrightarrow> enablePerMessageDeflate t"
    and "length (rxbuf t) < 2 ^ 64" "assemble env f t = Some t'"
  shows "stepFrame env t = Continue (t'\<lparr>rxbuf := drop n (rxbuf t)\<rparr>)"
proof -
  define ws where "ws = parse_header (rxbuf t)"
  define t1 where "t1 = unmaskReceiveBuffer ws t"
  have c: "2 \<le> length (rxbuf t)" "header_size ws \<le> length (rxbuf t)" "\<not> rsv2 ws" "\<not> rsv3 ws"
    "header_size ws + unat (N ws) \<le> length (rxbuf t)" "n = header_size ws + unat (N ws)"
    and f: "f_opcode f = opcode ws" "f_fin f = fin ws" "f_rsv1 f = rsv1 ws"
      "f_payload f = take (unat (N ws)) (drop (header_size ws) (rxbuf t1))"
    using assms(1) by (auto simp: next_frame_def Let_def ws_def not_less t1_def unmaskReceiveBuffer_def split: if_splits)
  have nw: "\<not> (word_of_nat (length (rxbuf t)) :: u64) < word_of_nat (header_size ws) + N ws"
    using word_size_check [OF assms(4), of "header_size ws" "N ws"] c assms(4) by simp
  have nc: "\<not> isControl (opcode ws)" using assms(2) f by (auto simp: isData_def isControl_def opcodes)
  have t1: "t1 = t\<lparr>rxbuf := rxbuf t1\<rparr>" by (simp add: t1_def unmaskReceiveBuffer_def)
  have as: "assemble env f t1 = Some (t'\<lparr>rxbuf := rxbuf t1\<rparr>)"
    by (subst t1) (simp add: assemble_rxbuf assms(5))
  have hf: "handleFrame env ws (string_of_bytes (f_payload f)) t1 = Continue (t'\<lparr>rxbuf := rxbuf t1\<rparr>)"
    using handleData_assemble [OF f(1)[symmetric] f(2)[symmetric] f(3)[symmetric] as] assms(2) f(1)
    by (simp add: handleFrame_def)
  have er: "drop n (rxbuf t1) = drop n (rxbuf t)"
    using c by (simp add: t1_def unmaskReceiveBuffer_def drop_xor_at)
  have st: "header_size (parse_start (rxbuf t)) = header_size ws" "rsv1 (parse_start (rxbuf t)) = rsv1 ws"
    "rsv2 (parse_start (rxbuf t)) = rsv2 ws" "rsv3 (parse_start (rxbuf t)) = rsv3 ws"
    by (simp_all add: ws_def)
  have cs: "\<not> length (rxbuf t) < 2" "\<not> length (rxbuf t) < header_size ws"
    "\<not> ((rsv1 ws \<and> \<not> enablePerMessageDeflate t) \<or> rsv2 ws \<or> rsv3 ws)"
    "\<not> length (rxbuf t) < header_size ws + unat (N ws)" "\<not> (\<not> fin ws \<and> isControl (opcode ws))"
    using c assms(3) f(3) nc by auto
  show ?thesis
    unfolding stepFrame_def Let_def st ws_def [symmetric] t1_def [symmetric] f(4) [symmetric]
    by (simp only: cs nw if_False hf step.case) (simp add: erase_frame_def er c(6) [symmetric])
qed

lemma stepFrame_incomplete:
  assumes "valid_frame f" "f_rsv1 f \<longrightarrow> enablePerMessageDeflate t"
    and "rxbuf t @ ext = frame_bytes f" "ext \<noteq> []"
  shows "stepFrame env t = Leave (LBreak t) \<or> stepFrame env t = Leave (LReturn t)"
proof -
  let ?n = "length (f_payload f)" and ?m = "f_key f \<noteq> None"
  define key where "key = (case f_key f of None \<Rightarrow> [0, 0, 0, 0] | Some k \<Rightarrow> k)"
  define h where "h = build_header ?m (f_opcode f) (f_fin f) (f_rsv1 f) (word_of_nat ?n) key"
  define body where "body = (if ?m then xor_at 0 ?n key (f_payload f) else f_payload f)"
  have v: "length key = 4" "unat (f_opcode f) < 16" "f_rsv1 f \<longrightarrow> f_opcode f \<noteq> CONTINUATION" "?n < 2 ^ 63"
    using assms(1) by (auto simp: valid_frame_def key_def split: option.splits)
  have bytes: "frame_bytes f = h @ body" by (simp add: frame_bytes_def h_def body_def key_def Let_def)
  have hs: "length h = built_header_size ?m (word_of_nat ?n)" unfolding h_def by (rule length_build_header [OF v(1)])
  note ps = parse_start_build [OF v(1,2), of ?m "f_fin f" "f_rsv1 f" "word_of_nat ?n" body, folded h_def hs]
  note ph = parse_header_build [OF v(1,2), of ?m "f_fin f" "f_rsv1 f" "word_of_nat ?n" body, folded h_def hs]
  consider "length (rxbuf t) < 2" | "2 \<le> length (rxbuf t)" "length (rxbuf t) < length h"
    | "2 \<le> length (rxbuf t)" "length h \<le> length (rxbuf t)" by linarith
  then show ?thesis
  proof cases
    case 1
    then show ?thesis by (simp add: stepFrame_def)
  next
    case 2
    have "parse_start (rxbuf t) = parse_start (h @ body)"
      using parse_start_append [OF 2(1), of ext] assms(3) bytes by simp
    then show ?thesis using 2 ps by (simp add: stepFrame_def Let_def)
  next
    case 3
    have p1: "parse_start (rxbuf t) = parse_start (h @ body)"
      using parse_start_append [OF 3(1), of ext] assms(3) bytes by simp
    then have p2: "parse_header (rxbuf t) = parse_header (h @ body)"
      using parse_header_append [OF 3(1), of ext] assms(3) bytes ps 3(2) by simp
    have "length (rxbuf t) + length ext = length h + ?n" "0 < length ext"
      using arg_cong [OF assms(3), of length] assms(4) bytes by (simp_all add: body_def)
    then have "length (rxbuf t) < length h + ?n" by linarith
    moreover have hb: "length h \<le> 14" by (simp add: hs built_header_size_def)
    moreover have N: "unat (word_of_nat ?n :: u64) = ?n" using v(4) by (simp add: unat_of_nat)
    ultimately have "(word_of_nat (length (rxbuf t)) :: u64) < word_of_nat (length h) + word_of_nat ?n"
      using word_size_check [of "length (rxbuf t)" "length h" "word_of_nat ?n"] v(4) by simp
    then show ?thesis
      using 3 assms(2) by (auto simp: stepFrame_def Let_def p1 p2 ps ph)
  qed
qed

subsection \<open>The frame loop over arriving bytes\<close>

fun assemble_all :: "'z tenv \<Rightarrow> frame list \<Rightarrow> 'z transport \<Rightarrow> 'z transport option" where
  "assemble_all env [] t = Some t"
| "assemble_all env (f # fs) t = Option.bind (assemble env f t) (assemble_all env fs)"

lemma assemble_all_rxbuf:
  "assemble_all env fs (t\<lparr>rxbuf := b\<rparr>) = map_option (\<lambda>t'. t'\<lparr>rxbuf := b\<rparr>) (assemble_all env fs t)"
proof (induction fs arbitrary: t)
  case (Cons f fs)
  then show ?case by (cases "assemble env f t") (simp_all add: assemble_rxbuf)
qed simp

lemma assemble_enable: "assemble env f t = Some t' \<Longrightarrow> enablePerMessageDeflate t' = enablePerMessageDeflate t"
  by (auto simp: assemble_def Let_def split: if_splits option.splits)

definition data_frame :: "bool \<Rightarrow> frame \<Rightarrow> bool" where
  "data_frame enabled f \<longleftrightarrow> valid_frame f \<and> isData (f_opcode f) \<and> (f_rsv1 f \<longrightarrow> enabled)"

text \<open>With part of the bytes of a frame sequence in the buffer, the loop handles the frames that
  are complete and keeps the rest.\<close>

lemma dispatch_loop_prefix:
  assumes "list_all (data_frame (enablePerMessageDeflate t)) fs"
    and "rxbuf t @ fut = concat (map frame_bytes fs)" "length (rxbuf t) < 2 ^ 64"
    and "assemble_all env fs t = Some T"
  shows "\<exists>gs hs u rest. fs = gs @ hs \<and> rest @ fut = concat (map frame_bytes hs) \<and>
    assemble_all env gs t = Some u \<and> (hs = [] \<or> length rest < length (frame_bytes (hd hs))) \<and>
    dispatch_loop env t \<in> {LBreak (u\<lparr>rxbuf := rest\<rparr>), LReturn (u\<lparr>rxbuf := rest\<rparr>)}"
  using assms
proof (induction fs arbitrary: t T)
  case Nil
  then have e: "rxbuf t = []" by simp
  then have "dispatch_loop env t = LBreak t" by (simp add: dispatch_loop.simps stepFrame_def)
  moreover have "t\<lparr>rxbuf := []\<rparr> = t" using e by (cases t) simp
  ultimately show ?case using Nil.prems(2) by (intro exI [of _ "[]"] exI [of _ t]) simp
next
  case (Cons f fs)
  have v: "valid_frame f" "isData (f_opcode f)" "f_rsv1 f \<longrightarrow> enablePerMessageDeflate t"
    using Cons.prems(1) by (auto simp: data_frame_def)
  show ?case
  proof (cases "length (frame_bytes f) \<le> length (rxbuf t)")
    case True
    define buf' where "buf' = drop (length (frame_bytes f)) (rxbuf t)"
    have tk: "take (length (frame_bytes f)) (rxbuf t) = frame_bytes f"
      using arg_cong [OF Cons.prems(2), of "take (length (frame_bytes f))"] True by simp
    have buf: "rxbuf t = frame_bytes f @ buf'"
      using append_take_drop_id [of "length (frame_bytes f)" "rxbuf t"] tk by (simp add: buf'_def)
    have fut: "buf' @ fut = concat (map frame_bytes fs)" using Cons.prems(2) buf by simp
    obtain t' where t': "assemble env f t = Some t'" "assemble_all env fs t' = Some T"
      using Cons.prems(4) by (auto simp: bind_eq_Some_conv)
    have nf: "next_frame (rxbuf t) = Some (f, length (frame_bytes f))"
      unfolding buf by (rule next_frame_append [OF next_frame_frame_bytes [OF v(1)]])
    have step: "stepFrame env t = Continue (t'\<lparr>rxbuf := buf'\<rparr>)"
      unfolding buf'_def by (rule stepFrame_data [OF nf v(2,3) Cons.prems(3) t'(1)])
    have IH: "\<exists>gs hs u rest. fs = gs @ hs \<and> rest @ fut = concat (map frame_bytes hs) \<and>
        assemble_all env gs (t'\<lparr>rxbuf := buf'\<rparr>) = Some u \<and> (hs = [] \<or> length rest < length (frame_bytes (hd hs))) \<and>
        dispatch_loop env (t'\<lparr>rxbuf := buf'\<rparr>) \<in> {LBreak (u\<lparr>rxbuf := rest\<rparr>), LReturn (u\<lparr>rxbuf := rest\<rparr>)}"
    proof (rule Cons.IH [of "t'\<lparr>rxbuf := buf'\<rparr>"])
      show "assemble_all env fs (t'\<lparr>rxbuf := buf'\<rparr>) = Some (T\<lparr>rxbuf := buf'\<rparr>)"
        by (simp add: assemble_all_rxbuf t'(2))
    qed (use Cons.prems fut buf assemble_enable [OF t'(1)] in auto)
    then obtain gs hs u rest where *: "fs = gs @ hs" "rest @ fut = concat (map frame_bytes hs)"
      "assemble_all env gs (t'\<lparr>rxbuf := buf'\<rparr>) = Some u" "hs = [] \<or> length rest < length (frame_bytes (hd hs))"
      "dispatch_loop env (t'\<lparr>rxbuf := buf'\<rparr>) \<in> {LBreak (u\<lparr>rxbuf := rest\<rparr>), LReturn (u\<lparr>rxbuf := rest\<rparr>)}"
      by blast
    obtain u' where u': "assemble_all env gs t' = Some u'" "u = u'\<lparr>rxbuf := buf'\<rparr>"
      using *(3) by (auto simp: assemble_all_rxbuf)
    have "dispatch_loop env t = dispatch_loop env (t'\<lparr>rxbuf := buf'\<rparr>)"
      by (simp add: dispatch_loop.simps [of env t] step)
    then show ?thesis
      using * u' t'(1)
      by (intro exI [of _ "f # gs"] exI [of _ hs] exI [of _ u'] exI [of _ rest]) auto
  next
    case False
    define ext where "ext = drop (length (rxbuf t)) (frame_bytes f)"
    have ext: "rxbuf t @ ext = frame_bytes f" "ext \<noteq> []"
    proof -
      have "take (length (rxbuf t)) (frame_bytes f) = rxbuf t"
        using arg_cong [OF Cons.prems(2), of "take (length (rxbuf t))"] False by simp
      then show "rxbuf t @ ext = frame_bytes f" using append_take_drop_id [of "length (rxbuf t)" "frame_bytes f"]
        by (simp add: ext_def)
      show "ext \<noteq> []" using False by (simp add: ext_def)
    qed
    have "dispatch_loop env t \<in> {LBreak t, LReturn t}"
      using stepFrame_incomplete [OF v(1,3) ext, of env] by (auto simp: dispatch_loop.simps [of env t])
    moreover have "t\<lparr>rxbuf := rxbuf t\<rparr> = t" by simp
    ultimately show ?thesis
      using Cons.prems(2) False
      by (intro exI [of _ "[]"] exI [of _ "f # fs"] exI [of _ t] exI [of _ "rxbuf t"]) auto
  qed
qed

text \<open>A sequence of reads, each followed by \<open>dispatch\<close>.\<close>

fun receive :: "'z tenv \<Rightarrow> byte list list \<Rightarrow> 'z transport \<Rightarrow> 'z transport outcome" where
  "receive env [] t = Ret t"
| "receive env (seg # segs) t =
     (case dispatch env Succeeded (t\<lparr>rxbuf := rxbuf t @ seg\<rparr>) of
        Ret t' \<Rightarrow> receive env segs t' | Fault \<Rightarrow> Fault | Hang \<Rightarrow> Hang)"

lemma assemble_all_enable:
  "assemble_all env fs t = Some t' \<Longrightarrow> enablePerMessageDeflate t' = enablePerMessageDeflate t"
  by (induction fs arbitrary: t) (auto simp: bind_eq_Some_conv dest: assemble_enable)

lemma assemble_all_append:
  "assemble_all env (fs @ gs) t = Option.bind (assemble_all env fs t) (assemble_all env gs)"
proof (induction fs arbitrary: t)
  case (Cons f fs)
  then show ?case by (cases "assemble env f t") simp_all
qed simp

lemma assemble_keeps_rxbuf: "assemble env f t = Some t' \<Longrightarrow> rxbuf t' = rxbuf t"
  by (auto simp: assemble_def Let_def split: if_splits option.splits)

lemma receive_frames:
  assumes "list_all (data_frame (enablePerMessageDeflate t)) fs"
    and "rxbuf t @ concat segs = concat (map frame_bytes fs)" "length (rxbuf t @ concat segs) < 2 ^ 64"
    and "assemble_all env fs t = Some T" "segs \<noteq> [] \<or> fs = []"
  shows "receive env segs t = Ret (T\<lparr>rxbuf := []\<rparr>)"
  using assms
proof (induction segs arbitrary: t fs T)
  case Nil
  then have "fs = []" "rxbuf t = []" by auto
  moreover from this have "t\<lparr>rxbuf := []\<rparr> = t" by (cases t) simp
  ultimately show ?case using Nil.prems(4) by simp
next
  case (Cons seg segs)
  let ?t = "t\<lparr>rxbuf := rxbuf t @ seg\<rparr>"
  have all: "assemble_all env fs ?t = Some (T\<lparr>rxbuf := rxbuf t @ seg\<rparr>)"
    by (simp add: assemble_all_rxbuf Cons.prems(4))
  have "\<exists>gs hs u rest. fs = gs @ hs \<and> rest @ concat segs = concat (map frame_bytes hs) \<and>
    assemble_all env gs ?t = Some u \<and> (hs = [] \<or> length rest < length (frame_bytes (hd hs))) \<and>
    dispatch_loop env ?t \<in> {LBreak (u\<lparr>rxbuf := rest\<rparr>), LReturn (u\<lparr>rxbuf := rest\<rparr>)}"
  proof (rule dispatch_loop_prefix [OF _ _ _ all])
    show "length (rxbuf ?t) < 2 ^ 64"
      using Cons.prems(3) by (simp only: length_append concat.simps transport.select_convs transport.update_convs) simp
  qed (use Cons.prems(1,2) in auto)
  then obtain gs hs u rest where *: "fs = gs @ hs" "rest @ concat segs = concat (map frame_bytes hs)"
    "assemble_all env gs ?t = Some u" "hs = [] \<or> length rest < length (frame_bytes (hd hs))"
    "dispatch_loop env ?t \<in> {LBreak (u\<lparr>rxbuf := rest\<rparr>), LReturn (u\<lparr>rxbuf := rest\<rparr>)}"
    by blast
  have disp: "dispatch env Succeeded ?t = Ret (u\<lparr>rxbuf := rest\<rparr>)"
    using *(5) by (auto simp: dispatch_def afterLoop_def)
  have hs: "assemble_all env hs u = Some (T\<lparr>rxbuf := rxbuf t @ seg\<rparr>)"
    using all *(1,3) by (simp add: assemble_all_append)
  have "length rest \<le> length (rxbuf t @ seg)"
    using arg_cong [OF Cons.prems(2), of length] arg_cong [OF *(2), of length] *(1) by simp
  then have len: "length (rest @ concat segs) < 2 ^ 64" using Cons.prems(3) by simp
  have "receive env segs (u\<lparr>rxbuf := rest\<rparr>) = Ret ((T\<lparr>rxbuf := rest\<rparr>)\<lparr>rxbuf := []\<rparr>)"
  proof (rule Cons.IH [of "u\<lparr>rxbuf := rest\<rparr>" hs])
    show "list_all (data_frame (enablePerMessageDeflate (u\<lparr>rxbuf := rest\<rparr>))) hs"
      using Cons.prems(1) *(1) assemble_all_enable [OF *(3)] by simp
    show "assemble_all env hs (u\<lparr>rxbuf := rest\<rparr>) = Some (T\<lparr>rxbuf := rest\<rparr>)"
      by (simp add: assemble_all_rxbuf hs)
    show "segs \<noteq> [] \<or> hs = []"
    proof (cases hs)
      case (Cons h hs')
      then show ?thesis using *(2,4) by auto
    qed simp
  qed (use *(2) len in auto)
  then show ?case using disp by simp
qed

subsection \<open>The frames of one message\<close>

definition fragment_event :: transport_event where
  "fragment_event = OnMessage [] 0 False FRAGMENT"

lemma assemble_continuations:
  assumes "ps \<noteq> []" "0 < i" "i + length ps = steps" "chunks t \<noteq> []" "fragmentedMessageKind t \<noteq> FRAGMENT"
    and "decode_message env (compressedMessage t) (concat (chunks t @ ps)) (perMessageDeflate t) = Some (ok, msg, p)"
    and "fragmentedMessageKind t = MSG_TEXT \<longrightarrow> validateUtf8 (bytes_of msg)"
  shows "assemble_all env (frames_from env' masked e ty c steps i ps) t =
    Some (t\<lparr>perMessageDeflate := p, chunks := [], compressedMessage := False,
       events := events t @ replicate (length ps - 1) fragment_event @
         [OnMessage msg (length (concat (chunks t @ ps))) (\<not> ok) (fragmentedMessageKind t)]\<rparr>)"
  using assms
proof (induction ps arbitrary: i t e)
  case Nil
  then show ?case by simp
next
  case (Cons q ps)
  define f where "f = fragment_frame env' masked e CONTINUATION (Suc i = steps) q c"
  have ff: "frames_from env' masked e ty c steps i (q # ps) = f # frames_from env' masked (Suc e) ty c steps (Suc i) ps"
    using Cons.prems(2) by (simp add: frames_from_Cons f_def)
  have fields: "f_opcode f = CONTINUATION" "f_fin f = (Suc i = steps)" "f_payload f = bytes_of q"
    by (simp_all add: fragment_frame_def f_def)
  show ?case
  proof (cases "ps = []")
    case True
    then have "Suc i = steps" using Cons.prems(3) by simp
    then show ?thesis
      using Cons.prems True unfolding ff
      by (auto simp: assemble_def Let_def fields frame_kind_def frame_compressed_def frames_from_def)
  next
    case False
    then have ns: "Suc i \<noteq> steps" using Cons.prems(3) by (cases ps) auto
    let ?t = "t\<lparr>chunks := chunks t @ [q], events := events t @ [fragment_event]\<rparr>"
    have a: "assemble env f t = Some ?t"
      using Cons.prems(4,5) ns
      by (simp add: assemble_def Let_def fields frame_kind_def frame_compressed_def fragment_event_def)
    obtain l where l: "length ps = Suc l" using False by (cases ps) auto
    show ?thesis
      unfolding ff using Cons.IH [of "Suc i" ?t "Suc e"] Cons.prems False a l by simp
  qed
qed

definition data_kind :: "byte \<Rightarrow> MessageKind" where
  "data_kind ty = (if ty = TEXT_FRAME then MSG_TEXT else MSG_BINARY)"

lemma assemble_message:
  assumes "ty = TEXT_FRAME \<or> ty = BINARY_FRAME" "ps \<noteq> []" "chunks t = []"
    and "decode_message env (enablePerMessageDeflate t \<and> c) (concat ps) (perMessageDeflate t) = Some (ok, msg, p)"
    and "ty = TEXT_FRAME \<longrightarrow> validateUtf8 (bytes_of msg)"
  shows "assemble_all env (message_frames env' masked e ty c ps) t =
    Some (t\<lparr>fragmentedMessageKind := data_kind ty, perMessageDeflate := p, compressedMessage := False, chunks := [],
       events := events t @ replicate (length ps - 1) fragment_event @
         [OnMessage msg (length (concat ps)) (\<not> ok) (data_kind ty)]\<rparr>)"
proof -
  obtain q qs where ps: "ps = q # qs" using assms(2) by (cases ps) auto
  define f where "f = fragment_frame env' masked e ty (Suc 0 = length ps) q c"
  have ne: "ty \<noteq> CONTINUATION" using assms(1) by (auto simp: opcodes)
  have mf: "message_frames env' masked e ty c ps = f # frames_from env' masked (Suc e) ty c (length ps) (Suc 0) qs"
    unfolding frames_from_0 [symmetric] f_def ps frames_from_Cons by simp
  have fields: "f_opcode f = ty" "f_fin f = (qs = [])" "f_payload f = bytes_of q" "f_rsv1 f = c"
    using ne by (simp_all add: f_def fragment_frame_def ps)
  have kind: "frame_kind f t = data_kind ty" "frame_compressed f t = (enablePerMessageDeflate t \<and> c)"
    using ne by (simp_all add: frame_kind_def frame_compressed_def fields data_kind_def)
  have k: "data_kind ty \<noteq> FRAGMENT" "data_kind ty = MSG_TEXT \<longleftrightarrow> ty = TEXT_FRAME" by (simp_all add: data_kind_def)
  show ?thesis
  proof (cases "qs = []")
    case True
    then show ?thesis
      unfolding mf using assms(3-5) ne k ps
      by (simp add: assemble_def Let_def kind fields frames_from_def)
  next
    case False
    let ?t = "t\<lparr>fragmentedMessageKind := data_kind ty, compressedMessage := (enablePerMessageDeflate t \<and> c),
        chunks := [q], events := events t @ [fragment_event]\<rparr>"
    have a: "assemble env f t = Some ?t"
      using assms(3) ne k False by (simp add: assemble_def Let_def kind fields fragment_event_def)
    obtain l where l: "length qs = Suc l" using False by (cases qs) auto
    have "assemble_all env (frames_from env' masked (Suc e) ty c (length ps) (Suc 0) qs) ?t =
        Some (?t\<lparr>perMessageDeflate := p, chunks := [], compressedMessage := False,
          events := events ?t @ replicate (length qs - 1) fragment_event @
            [OnMessage msg (length (concat (chunks ?t @ qs))) (\<not> ok) (fragmentedMessageKind ?t)]\<rparr>)"
      by (rule assemble_continuations) (use False ps assms(4,5) k in auto)
    then show ?thesis
      unfolding mf using a l ps by simp
  qed
qed

lemma data_frames_message:
  assumes "ty = TEXT_FRAME \<or> ty = BINARY_FRAME" "length (concat ps) < 2 ^ 63" "c \<longrightarrow> enabled"
  shows "list_all (data_frame enabled) (message_frames env masked e ty c ps)"
proof -
  have "length q < 2 ^ 63" if "q \<in> set ps" for q
    using assms(2) member_le_sum_list [of "length q" "map length ps"] that by (simp add: length_concat)
  then show ?thesis
    using assms(1,3)
    by (auto simp: message_frames_def list_all_iff in_set_enumerate_eq data_frame_def valid_frame_def fragment_frame_def
        isData_def opcodes split: prod.splits)
qed

subsection \<open>Properties\<close>

text \<open>
  C1. A message sent is the message delivered. Take any sender that may send (client or server,
  masking or not, compression off or on) and a receiver between messages. Whatever bytes each
  \<open>send\<close> call of the sender accepts and however the bytes are cut into reads at the receiver, once
  all bytes are through, the receiver's callback has got one notification per fragment but the
  last, followed by exactly the text or binary message, and nothing is left in its buffers. With compression the
  receiver's decompressor is assumed to invert the sender's compressor on the message.
\<close>

theorem message_delivered:
  fixes t :: "'y transport" and r :: "'z transport"
  assumes "sendData env ty m c None t = Ret (info, t')" "si_success info"
    and "ty = TEXT_FRAME \<and> validateUtf8 (bytes_of m) \<or> ty = BINARY_FRAME"
    and "wire_out (sock t) @ txbuf t = []"
    and "wire = (if c then fst (snd (the (pmd_compress (zlib env) m (perMessageDeflate t)))) else m)"
    and "if c then enablePerMessageDeflate r \<and> pmd_decompress (zlib env') wire (perMessageDeflate r) = Some (True, m, q)
         else q = perMessageDeflate r"
    and "length wire < 2 ^ 63"
    and "concat segs = wire_out (sock t') @ txbuf t'" "length (concat segs) < 2 ^ 64" "rxbuf r = []" "chunks r = []"
  shows "\<exists>r'. receive env' segs r = Ret r' \<and>
    events r' = events r @ replicate (length (fragments wire) - 1) (OnMessage [] 0 False FRAGMENT) @
      [OnMessage m (length wire) False (if ty = TEXT_FRAME then MSG_TEXT else MSG_BINARY)] \<and>
    rxbuf r' = [] \<and> chunks r' = [] \<and> readyState r' = readyState r \<and> perMessageDeflate r' = q"
proof -
  have t': "t' = sendWire env ty wire c None (if c then t\<lparr>perMessageDeflate := snd (snd (the (pmd_compress (zlib env) m (perMessageDeflate t))))\<rparr> else t)"
    using assms(1,2,5)
    by (auto simp: sendData_def sendPlain_def send_failed_def split: if_splits option.splits bool.splits)
  let ?fs = "message_frames env (useMask t) (epochReads t) ty c (fragments wire)"
  have out: "wire_out (sock t') @ txbuf t' = concat (map frame_bytes ?fs)"
    using sent_sendWire [of None env ty wire c "if c then t\<lparr>perMessageDeflate := snd (snd (the (pmd_compress (zlib env) m (perMessageDeflate t))))\<rparr> else t"]
      assms(4) unfolding t' sent_def by (cases c) simp_all
  have ty: "ty = TEXT_FRAME \<or> ty = BINARY_FRAME" using assms(3) by auto
  have dm: "decode_message env' (enablePerMessageDeflate r \<and> c) (concat (fragments wire)) (perMessageDeflate r) = Some (True, m, q)"
    using assms(5,6) by (auto simp: decode_message_def)
  have u8: "ty = TEXT_FRAME \<longrightarrow> validateUtf8 (bytes_of m)" using assms(3) by (auto simp: opcodes)
  have df: "list_all (data_frame (enablePerMessageDeflate r)) ?fs"
    by (rule data_frames_message [OF ty]) (use assms(6,7) in \<open>auto split: if_splits\<close>)
  note am = assemble_message [OF ty fragments_nonempty assms(11) dm u8, of env "useMask t" "epochReads t"]
  have segs: "segs \<noteq> [] \<or> ?fs = []"
  proof (cases segs)
    case Nil
    then have "concat (map frame_bytes ?fs) = []" using assms(8) out by simp
    moreover have "2 \<le> length (frame_bytes f)" if "f \<in> set ?fs" for f
      using next_frame_bounds [OF next_frame_frame_bytes] df that by (auto simp: list_all_iff data_frame_def)
    ultimately have "?fs = []" by (cases ?fs) force+
    then show ?thesis by simp
  qed simp
  have "receive env' segs r = Ret ((r\<lparr>fragmentedMessageKind := data_kind ty, perMessageDeflate := q, compressedMessage := False, chunks := [],
       events := events r @ replicate (length (fragments wire) - 1) fragment_event @
         [OnMessage m (length (concat (fragments wire))) (\<not> True) (data_kind ty)]\<rparr>)\<lparr>rxbuf := []\<rparr>)"
    by (rule receive_frames [OF df _ _ am segs]) (use assms(8-10) out in auto)
  then show ?thesis by (simp add: fragment_event_def data_kind_def)
qed

text \<open>A client and a server that have just been connected, for the witnesses.\<close>

definition demo_env :: "string tenv" where
  "demo_env = \<lparr>steadyAt = (\<lambda>_. 0), epochAt = (\<lambda>_. 1600000000), zlib = store_zlib\<rparr>"

definition demo_socket :: socket where
  "demo_socket = Socket_new 3 \<lparr>fildes_read = 5, fildes_write = 6, pipe_data = [], pipe_capacity = 8192\<rparr>"

definition demo_client :: "string transport" where
  "demo_client = (Transport_new demo_env MSG_TEXT demo_socket)\<lparr>readyState := OPEN\<rparr>"

definition demo_server :: "string transport" where
  "demo_server = (Transport_new demo_env MSG_TEXT demo_socket)\<lparr>readyState := OPEN, useMask := False\<rparr>"

lemmas demo_defs = demo_client_def demo_server_def Transport_new_def demo_socket_def Socket_new_def

theorem message_delivered_witness:
  "\<exists>info t' r'. sendData demo_env TEXT_FRAME ''hi'' False None demo_client = Ret (info, t') \<and>
     receive demo_env [wire_out (sock t') @ txbuf t'] demo_server = Ret r' \<and>
     events r' = [OnMessage ''hi'' 2 False MSG_TEXT]"
proof -
  have can: "can_send demo_client" by (simp add: can_send_def demo_client_def)
  define info where "info = \<lparr>si_success = True, si_compressionError = False, si_payloadSize = 2, si_wireSize = 2\<rparr>"
  define t' where "t' = sendWire demo_env TEXT_FRAME ''hi'' False None demo_client"
  have send: "sendData demo_env TEXT_FRAME ''hi'' False None demo_client = Ret (info, t')"
    using can by (simp add: sendData_def sendPlain_def info_def t'_def)
  have fr: "fragments ''hi'' = [''hi'']" by (simp add: fragments_def kChunkSize_def)
  have "sent t' = frame_bytes (fragment_frame demo_env True 0 TEXT_FRAME True ''hi'' False)"
    unfolding t'_def by (subst sent_sendWire) (simp_all add: fr message_frames_def demo_defs sent_def)
  then have len: "length (wire_out (sock t') @ txbuf t') = 8"
    unfolding sent_def [symmetric]
    by (simp add: frame_bytes_def fragment_frame_def Let_def length_build_header built_header_size_def)
  have u8: "validateUtf8 (bytes_of ''hi'')" by (rule validateUtf8_ascii) (auto simp: bytes_of_def byte_of_char_def)
  have "\<exists>r'. receive demo_env [wire_out (sock t') @ txbuf t'] demo_server = Ret r' \<and>
    events r' = events demo_server @ replicate (length (fragments ''hi'') - 1) (OnMessage [] 0 False FRAGMENT) @
      [OnMessage ''hi'' (length ''hi'') False (if TEXT_FRAME = TEXT_FRAME then MSG_TEXT else MSG_BINARY)] \<and>
    rxbuf r' = [] \<and> chunks r' = [] \<and> readyState r' = readyState demo_server \<and>
    perMessageDeflate r' = perMessageDeflate demo_server"
    by (rule message_delivered [OF send]) (use len u8 in \<open>simp_all add: info_def demo_defs\<close>)
  then show ?thesis using send fr by (auto simp: demo_defs)
qed

end
