(* ===== verification/TransportProperties.thy ===== *)
theory TransportProperties
  imports Messages
begin

section \<open>Life of a connection\<close>

text \<open>
  Properties of the transport as a state machine: a step relation over its public operations with
  the number of connections made, the exactly-once close notification, the answer to pings and to
  close frames, the conditions under which \<open>dispatch\<close> leaves its buffers, and the timers.
\<close>

lemma now_readyState [simp]: "readyState (snd (now env t)) = readyState t"
  by (simp add: now_def)

lemma step_of_outcome_Continue [simp]: "step_of_outcome x = Continue y \<longleftrightarrow> x = Ret y"
  by (cases x) auto

lemma step_of_outcome_Leave: "step_of_outcome x = Leave r \<longleftrightarrow> x = Fault \<and> r = LFault \<or> x = Hang \<and> r = LHang"
  by (cases x) auto

text \<open>The state a turn of the frame loop ends in, however it ends.\<close>

fun end_state :: "'a loop_end \<Rightarrow> 'a option" where
  "end_state (LBreak t) = Some t"
| "end_state (LReturn t) = Some t"
| "end_state LFault = None"
| "end_state LHang = None"

fun step_state :: "'a step \<Rightarrow> 'a option" where
  "step_state (Continue t) = Some t"
| "step_state (Leave r) = end_state r"

lemma stepFrame_inv:
  assumes "step_state (stepFrame env t) = Some t'"
  obtains "t' = t" | status reason w where "t' = close env status reason w False t"
  | ws d t2 where "step_state (handleFrame env ws d (unmaskReceiveBuffer ws t)) = Some t2" "t' = t2 \<or> t' = erase_frame ws t2"
proof -
  define ws where "ws = parse_header (rxbuf t)"
  define h where "h = handleFrame env ws (string_of_bytes (take (unat (N ws)) (drop (header_size ws) (rxbuf (unmaskReceiveBuffer ws t)))))
    (unmaskReceiveBuffer ws t)"
  have "t' = t \<or> (\<exists>status reason w. t' = close env status reason w False t) \<or>
      (\<exists>t2. step_state h = Some t2 \<and> (t' = t2 \<or> t' = erase_frame ws t2))"
    using assms unfolding stepFrame_def Let_def ws_def [symmetric] h_def [symmetric]
    by (cases h) (auto split: if_splits)
  then show thesis using that unfolding h_def by blast
qed

subsection \<open>Invariants of the connection state\<close>

text \<open>
  A property of the ready state and of the callbacks made so far that delivering, closing and the
  two closing transitions keep is kept by every operation except the connect functions.
\<close>

locale transport_invariant =
  fixes P :: "'z transport \<Rightarrow> bool"
  assumes depends: "readyState t' = readyState t \<Longrightarrow> events t' = events t \<Longrightarrow> P t' = P t"
    and message: "P t \<Longrightarrow> P (t\<lparr>events := events t @ [OnMessage m n er mk]\<rparr>)"
    and progress: "P t \<Longrightarrow> P (t\<lparr>events := events t @ [OnProgress x y]\<rparr>)"
    and closed: "P t \<Longrightarrow> P (setReadyState env CLOSED t)"
    and closing: "P t \<Longrightarrow> readyState t \<noteq> CLOSED \<Longrightarrow> P (setReadyState env CLOSING t)"
begin

lemma updates [simp]:
  "P (t\<lparr>txbuf := a\<rparr>) = P t" "P (t\<lparr>sock := b\<rparr>) = P t" "P (t\<lparr>closeCode := d\<rparr>) = P t" "P (t\<lparr>closeReason := e\<rparr>) = P t"
  "P (t\<lparr>closeWireSize := f\<rparr>) = P t" "P (t\<lparr>closeRemote := g\<rparr>) = P t" "P (t\<lparr>requestInitCancellation := h\<rparr>) = P t"
  "P (t\<lparr>closingTimePoint := i\<rparr>) = P t" "P (t\<lparr>nextGCDTimePoint := j\<rparr>) = P t" "P (t\<lparr>lastSendPingTimePoint := k\<rparr>) = P t"
  "P (t\<lparr>lastReceivePongTimePoint := l\<rparr>) = P t" "P (t\<lparr>steadyReads := n\<rparr>) = P t" "P (t\<lparr>epochReads := o1\<rparr>) = P t"
  "P (t\<lparr>perMessageDeflate := p\<rparr>) = P t" "P (t\<lparr>rxbuf := q\<rparr>) = P t" "P (t\<lparr>chunks := r\<rparr>) = P t"
  "P (t\<lparr>fragmentedMessageKind := u\<rparr>) = P t" "P (t\<lparr>compressedMessage := v\<rparr>) = P t"
  by (rule depends; simp)+

lemmas transitions [simp] = message progress closed closing

lemma inv_now [simp]: "P (snd (now env t)) = P t"
  by (simp add: now_def)

lemma inv_configure [simp]: "P (configure opts pong interval timeout t) = P t"
  by (rule depends) (simp_all add: configure_def)

lemma inv_socket [simp]: "P (closeSocket t) = P t" "P (wakeUp r t) = P t"
  by (simp_all add: closeSocket_def wakeUp_def)

lemma inv_sendOnSocket [simp]: "P t \<Longrightarrow> P (sendOnSocket env t)"
proof (induction env t rule: sendOnSocket.induct)
  case (1 env t)
  then show ?case by (subst sendOnSocket.simps) (auto simp: Let_def split: prod.split)
qed

lemma inv_sendFragment [simp]: "P t \<Longrightarrow> P (sendFragment env ty f m c t)"
  by (simp add: sendFragment_def getRandomUnsigned_def appendToSendBuffer_def Let_def)

lemma inv_fragment_loop [simp]: "P t \<Longrightarrow> P (fragment_loop env ty c prog steps k rest t)"
  by (cases prog; induction k arbitrary: rest t) (simp_all add: Let_def)

lemma inv_sendWire [simp]: "P t \<Longrightarrow> P (sendWire env ty w c prog t)"
  by (simp add: sendWire_def Let_def)

lemma inv_sendPlain [simp]: "P t \<Longrightarrow> P (snd (sendPlain env ty m prog t))"
  by (simp add: sendPlain_def)

lemma inv_sendData: "sendData env ty m c prog t = Ret (info, t') \<Longrightarrow> P t \<Longrightarrow> P t'"
  by (auto simp: sendData_def sendPlain_def split: if_splits option.splits bool.splits)

lemma inv_sendPing [simp]: "P t \<Longrightarrow> P (snd (sendPing env m t))"
  by (simp add: sendPing_def Let_def split_beta)

lemma inv_sendCloseFrame [simp]: "P t \<Longrightarrow> P (sendCloseFrame env s r t)"
  by (simp add: sendCloseFrame_def)

lemma inv_switch [simp]: "P t \<Longrightarrow> P (closeSocketAndSwitchToClosedState env s r w rem t)"
  by (simp add: closeSocketAndSwitchToClosedState_def)

lemma inv_close [simp]: "P t \<Longrightarrow> P (close env s r w rem t)"
  by (simp add: close_def Let_def split_beta)

lemma inv_deliver [simp]: "P t \<Longrightarrow> P (deliver env k m w e t)"
  by (simp add: deliver_def)

lemma inv_emitMessage: "emitMessage env k m c t = Ret t' \<Longrightarrow> P t \<Longrightarrow> P t'"
  by (auto simp: emitMessage_def Let_def split: if_splits option.splits)

lemma inv_sequence_check [simp]: "P t \<Longrightarrow> P (sequence_check env ws t)"
  by (simp add: sequence_check_def Let_def)

lemma inv_handleData: "handleData env ws d t = Ret t' \<Longrightarrow> P t \<Longrightarrow> P t'"
  by (auto simp: handleData_def Let_def map_outcome_Ret dest!: inv_emitMessage split: if_splits)

lemma inv_handleClose [simp]: "P t \<Longrightarrow> P (handleClose env ws d t)"
  by (simp add: handleClose_def Let_def split_beta)

lemma inv_handlePong [simp]: "P t \<Longrightarrow> P (handlePong env d t)"
  by (simp add: handlePong_def Let_def split_beta)

lemma inv_handleFrame: "step_state (handleFrame env ws d t) = Some t' \<Longrightarrow> P t \<Longrightarrow> P t'"
proof -
  assume h: "step_state (handleFrame env ws d t) = Some t'" and t: "P t"
  have p: "step_state (handlePing env d t) = Some t' \<Longrightarrow> P t'"
    using t by (auto simp: handlePing_def Let_def split: if_splits)
  have q: "step_state (step_of_outcome (handleData env ws d t)) = Some t' \<Longrightarrow> P t'"
    using t by (cases "handleData env ws d t") (auto dest: inv_handleData)
  show ?thesis using h p q t by (auto simp: handleFrame_def split: if_splits)
qed

lemma inv_stepFrame: "step_state (stepFrame env t) = Some t' \<Longrightarrow> P t \<Longrightarrow> P t'"
proof (erule stepFrame_inv)
  fix ws d t2
  assume "step_state (handleFrame env ws d (unmaskReceiveBuffer ws t)) = Some t2" "t' = t2 \<or> t' = erase_frame ws t2" "P t"
  then show "P t'"
    using inv_handleFrame [of env ws d "unmaskReceiveBuffer ws t" t2]
    by (auto simp: unmaskReceiveBuffer_def erase_frame_def split: if_splits)
qed simp_all

lemma inv_dispatch_loop: "end_state (dispatch_loop env t) = Some t' \<Longrightarrow> P t \<Longrightarrow> P t'"
proof (induction env t rule: dispatch_loop.induct)
  case (1 env t)
  show ?case
  proof (cases "stepFrame env t")
    case (Continue u)
    then show ?thesis
      using "1.IH" [OF Continue] "1.prems" inv_stepFrame [of env t u] by (simp add: dispatch_loop.simps [of env t])
  next
    case (Leave r)
    then show ?thesis
      using "1.prems" inv_stepFrame [of env t t'] by (simp add: dispatch_loop.simps [of env t])
  qed
qed

lemma inv_dispatch: "dispatch env pr t = Ret t' \<Longrightarrow> P t \<Longrightarrow> P t'"
  using inv_dispatch_loop [of env t]
  by (auto simp: dispatch_def afterLoop_def Let_def split: loop_end.splits if_splits)

lemma inv_poll_parts [simp]:
  "P t \<Longrightarrow> P (heartbeat env t)" "P t \<Longrightarrow> P (snd (pollDelay env t))" "P t \<Longrightarrow> P (closing_expired env t)"
  by (simp_all add: heartbeat_def pollDelay_def closing_expired_def pingTimeoutExceeded_def pingIntervalExceeded_def
      closingDelayExceeded_def Let_def split_beta)

lemma inv_read_loop: "P t \<Longrightarrow> P (snd (read_loop t))"
proof (induction t rule: read_loop.induct)
  case (1 t)
  then show ?case by (subst read_loop.simps) (auto simp: Let_def split: prod.split)
qed

lemma inv_write_loop:
  assumes "write_loop env t = Some t'"
  shows "P t \<longrightarrow> P t'"
proof (rule write_loop.raw_induct [OF _ assms, where P = "\<lambda>env t t'. P t \<longrightarrow> P t'"])
  fix loop :: "'z tenv \<Rightarrow> 'z transport \<Rightarrow> 'z transport option" and env t t'
  assume "\<And>env t y. loop env t = Some y \<Longrightarrow> P t \<longrightarrow> P y"
    and "(if isSendBufferEmpty t \<or> requestInitCancellation t then Some t
      else case isReadyToWrite 10 (sock t) of (r, s) \<Rightarrow>
        if r = PollError then Some (setReadyState env CLOSED (closeSocket (t\<lparr>sock := s\<rparr>)))
        else if r = ReadyForWrite then loop env (sendOnSocket env (t\<lparr>sock := s\<rparr>))
        else loop env (t\<lparr>sock := s\<rparr>)) = Some t'"
  then show "P t \<longrightarrow> P t'" by (auto split: if_splits prod.splits)
qed

lemma inv_poll: "poll env t = Some (pr, t') \<Longrightarrow> P t \<Longrightarrow> P t'"
proof -
  assume p: "poll env t = Some (pr, t')" and t: "P t"
  define t2 where "t2 = snd (pollDelay env (heartbeat env t))"
  define s where "s = snd (isReadyToRead (fst (pollDelay env (heartbeat env t))) (sock t2))"
  have b: "P t2" using t by (simp add: t2_def)
  have rl: "P (snd (read_loop (t2\<lparr>sock := s\<rparr>)))" using b by (simp add: inv_read_loop)
  show ?thesis
    using p rl b
    by (auto simp: poll_def Let_def split_beta t2_def [symmetric] s_def [symmetric] bind_eq_Some_conv
        split: if_splits PollResult.splits dest!: inv_write_loop)
qed

end

subsection \<open>Close notifications\<close>

definition is_close :: "transport_event \<Rightarrow> bool" where
  "is_close e = (case e of OnClose _ _ _ _ \<Rightarrow> True | _ \<Rightarrow> False)"

definition closes :: "'z transport \<Rightarrow> nat" where
  "closes t = length (filter is_close (events t))"

text \<open>Notifications so far, less the one that belongs to the closed state: connects change it, no
  other operation does.\<close>

definition balance :: "'z transport \<Rightarrow> int" where
  "balance t = int (closes t) - (if readyState t = CLOSED then 1 else 0)"

interpretation notified: transport_invariant "\<lambda>t. balance t = b" for b
  by unfold_locales (auto simp: balance_def closes_def is_close_def setReadyState_def)

text \<open>The state \<open>CONNECTING\<close> exists but is never entered.\<close>

interpretation settled: transport_invariant "\<lambda>t. readyState t \<noteq> CONNECTING"
  by unfold_locales (auto simp: setReadyState_def)

lemma init_fields:
  "events (initTimePointsAndGCDAfterConnect env t) = events t"
  "readyState (initTimePointsAndGCDAfterConnect env t) = readyState t"
  by (simp_all add: initTimePointsAndGCDAfterConnect_def now_def Let_def)

lemma balance_open: "readyState t = CLOSED \<Longrightarrow> balance (setReadyState env OPEN t) = balance t + 1"
  by (simp add: setReadyState_def balance_def closes_def init_fields)

subsection \<open>Runs\<close>

text \<open>The states a transport can be in after \<open>n\<close> successful connects: the public operations in
  any order, with arbitrary arguments, and the outside world changing the socket in between.\<close>

inductive run :: "'z tenv \<Rightarrow> nat \<Rightarrow> 'z transport \<Rightarrow> bool" for env where
  run_new: "run env 0 (Transport_new env kind s)"
| run_configure: "run env n t \<Longrightarrow> run env n (configure opts pong interval timeout t)"
| run_world: "run env n t \<Longrightarrow> run env n (t\<lparr>sock := s\<rparr>)"
| run_connect: "run env n t \<Longrightarrow> readyState t = CLOSED \<Longrightarrow> run env (Suc n) (setReadyState env OPEN (t\<lparr>sock := s\<rparr>))"
| run_send: "run env n t \<Longrightarrow> sendData env ty m c progress t = Ret (info, t') \<Longrightarrow> run env n t'"
| run_ping: "run env n t \<Longrightarrow> sendPing env m t = (info, t') \<Longrightarrow> run env n t'"
| run_close: "run env n t \<Longrightarrow> run env n (close env status reason w remote t)"
| run_poll: "run env n t \<Longrightarrow> poll env t = Some (pr, t') \<Longrightarrow> run env n t'"
| run_dispatch: "run env n t \<Longrightarrow> dispatch env pr t = Ret t' \<Longrightarrow> run env n t'"

lemma balance_start [simp]:
  "balance (Transport_new env kind s) = -1" "balance (t\<lparr>sock := s\<rparr>) = balance t"
  by (simp_all add: balance_def closes_def Transport_new_def)

lemma balance_run: "run env n t \<Longrightarrow> balance t = int n - 1"
proof (induction rule: run.induct)
  case (run_ping n t m info t')
  then show ?case using notified.inv_sendPing [OF run_ping.IH, of env m] by simp
next
  case (run_connect n t s)
  then show ?case using balance_open [of "t\<lparr>sock := s\<rparr>" env] by simp
qed (auto dest: notified.inv_sendData notified.inv_poll notified.inv_dispatch)



subsection \<open>Timers\<close>

lemma crem_nonneg: "0 \<le> a \<Longrightarrow> 0 < b \<Longrightarrow> crem a b = a mod b"
  by (cases "a = 0") (simp_all add: crem_def)

lemma greatestCommonDivisor_gcd: "0 \<le> a \<Longrightarrow> 0 \<le> b \<Longrightarrow> greatestCommonDivisor a b = gcd a b"
proof (induction a b rule: greatestCommonDivisor.induct)
  case (1 a b)
  show ?case
  proof (cases "b = 0")
    case True
    then show ?thesis using "1.prems" by (subst greatestCommonDivisor.simps) simp
  next
    case False
    then show ?thesis
      using "1.IH" [OF False] "1.prems"
      by (subst greatestCommonDivisor.simps) (simp add: crem_nonneg gcd_red_int [of a b])
  qed
qed

text \<open>
  The heartbeat period set by \<open>configure\<close> hits every deadline: with both a ping interval and a
  ping timeout it is their greatest common divisor, with one of them it is that one, and it is not
  positive when neither is set.
\<close>

theorem configure_period:
  "let g = pingIntervalOrTimeoutGCDSecs (configure opts pong interval timeout t)
   in (interval > 0 \<and> timeout > 0 \<longrightarrow> g = gcd interval timeout) \<and>
      (interval > 0 \<and> timeout \<le> 0 \<longrightarrow> g = interval) \<and> (interval \<le> 0 \<and> timeout > 0 \<longrightarrow> g = timeout) \<and>
      (g > 0 \<longleftrightarrow> interval > 0 \<or> timeout > 0)"
  by (auto simp: configure_def greatestCommonDivisor_gcd Let_def)

theorem configure_period_witness:
  "pingIntervalOrTimeoutGCDSecs (configure default_options True 45 60 demo_client) = 15"
proof -
  have "gcd (45 :: int) 60 = 15" by (simp add: gcd_red_int [of 45 60] gcd_red_int [of 60 45])
  then show ?thesis using configure_period [of default_options True 45 60 demo_client] by (simp add: Let_def)
qed

text \<open>
  \<open>poll\<close> never sleeps past the next heartbeat: with a positive period \<open>g\<close>, and the next
  deadline at most one period ahead, the timeout it passes to the system lies between 0 and \<open>g\<close>
  seconds and ends no later than the new deadline, which is again after the current time and at
  most one period ahead.
\<close>

theorem poll_wakes_for_heartbeat:
  assumes "pingIntervalOrTimeoutGCDSecs t = g" "g > 0" "\<not> requestInitCancellation t"
    and "n = steadyAt env (steadyReads t)" "nextGCDTimePoint t \<le> n + seconds g"
    and "pollDelay env t = (delay, t')"
  shows "0 \<le> delay \<and> delay \<le> 1000 * g \<and> n + milliseconds delay \<le> nextGCDTimePoint t' \<and>
    n < nextGCDTimePoint t' \<and> nextGCDTimePoint t' \<le> n + seconds g"
proof (cases "n \<ge> nextGCDTimePoint t")
  case True
  then show ?thesis
    using assms by (auto simp: pollDelay_def now_def Let_def seconds_def milliseconds_def)
next
  case False
  define d where "d = nextGCDTimePoint t - n"
  have d: "0 < d" "d \<le> g * 1000000000" using False assms(5) by (auto simp: d_def seconds_def)
  have "delay = d div 1000000" "nextGCDTimePoint t' = nextGCDTimePoint t"
    using False assms by (auto simp: pollDelay_def now_def Let_def d_def)
  moreover have "d div 1000000 * 1000000 \<le> d" "0 \<le> d div 1000000" "d div 1000000 \<le> 1000 * g"
  proof -
    show "d div 1000000 * 1000000 \<le> d" by (simp add: minus_mod_eq_div_mult [symmetric])
    show "0 \<le> d div 1000000" using d(1) by (simp add: pos_imp_zdiv_nonneg_iff)
    show "d div 1000000 \<le> 1000 * g" using zdiv_mono1 [OF d(2), of 1000000] by simp
  qed
  ultimately show ?thesis using False assms(5) by (simp add: milliseconds_def d_def)
qed

theorem poll_wakes_for_heartbeat_witness:
  "let t = demo_client\<lparr>pingIntervalOrTimeoutGCDSecs := 15, nextGCDTimePoint := 4500000000\<rparr>;
       (delay, t') = pollDelay demo_env t
   in 0 \<le> delay \<and> delay \<le> 15000 \<and> milliseconds delay \<le> nextGCDTimePoint t'"
proof -
  let ?t = "demo_client\<lparr>pingIntervalOrTimeoutGCDSecs := 15, nextGCDTimePoint := 4500000000\<rparr>"
  obtain delay t' where d: "pollDelay demo_env ?t = (delay, t')" by (cases "pollDelay demo_env ?t")
  show ?thesis
    using poll_wakes_for_heartbeat [OF _ _ _ refl _ d, of 15] d
    by (simp add: demo_defs demo_env_def seconds_def Let_def)
qed

subsection \<open>When dispatch leaves its buffer\<close>

lemma emitMessage_no_fault: "emitMessage env k m c t \<noteq> Fault"
  by (simp add: emitMessage_def Let_def split: option.split)

lemma map_outcome_no_fault: "x \<noteq> Fault \<Longrightarrow> map_outcome f x \<noteq> Fault"
  by (cases x) simp_all

lemma handleFrame_no_fault: "handleFrame env ws d t \<noteq> Leave LFault"
proof -
  have "handleData env ws d t \<noteq> Fault"
    by (simp add: handleData_def Let_def emitMessage_no_fault map_outcome_no_fault)
  then show ?thesis
    unfolding handleFrame_def handlePing_def Let_def by (cases "handleData env ws d t") simp_all
qed

text \<open>
  C24. Processing a frame reads or writes outside the receive buffer (or asks for a string of
  negative length) exactly when the announced payload length is so large that adding the header
  size wraps around in 64 bits to a value not above the bytes received: the size check is then
  passed. Such a header is accepted from a peer before any payload.
\<close>

theorem frame_fault_iff_length_wraps:
  assumes "length (rxbuf t) < 2 ^ 64"
  shows "stepFrame env t = Leave LFault \<longleftrightarrow>
    (let ws = parse_header (rxbuf t); hs = header_size ws; len = length (rxbuf t)
     in 2 \<le> len \<and> hs \<le> len \<and> \<not> (rsv1 ws \<and> \<not> enablePerMessageDeflate t) \<and> \<not> rsv2 ws \<and> \<not> rsv3 ws \<and>
        \<not> (\<not> fin ws \<and> isControl (opcode ws)) \<and> 2 ^ 64 \<le> hs + unat (N ws) \<and> hs + unat (N ws) - 2 ^ 64 \<le> len)"
proof -
  define ws where "ws = parse_header (rxbuf t)"
  define sum :: u64 where "sum = word_of_nat (header_size ws) + N ws"
  have hs: "header_size ws \<le> 14" using header_size_parse_start [of "rxbuf t"] by (simp add: ws_def)
  have N: "unat (N ws) < 2 ^ 64" using unsigned_less [of "N ws", where ?'a = nat] by simp
  have "unat sum = (header_size ws + unat (N ws)) mod 2 ^ 64"
    by (simp add: sum_def unat_word_ariths unat_of_nat mod_add_left_eq)
  also have "\<dots> = (if header_size ws + unat (N ws) < 2 ^ 64 then header_size ws + unat (N ws)
      else header_size ws + unat (N ws) - 2 ^ 64)"
    using hs N by (simp add: mod_if)
  finally have chk: "((word_of_nat (length (rxbuf t)) :: u64) < sum) = (length (rxbuf t) <
      (if header_size ws + unat (N ws) < 2 ^ 64 then header_size ws + unat (N ws) else header_size ws + unat (N ws) - 2 ^ 64))"
    using assms by (simp add: word_less_nat_alt unat_of_nat)
  have "stepFrame env t = Leave LFault \<longleftrightarrow> 2 \<le> length (rxbuf t) \<and> header_size ws \<le> length (rxbuf t) \<and>
      \<not> ((rsv1 ws \<and> \<not> enablePerMessageDeflate t) \<or> rsv2 ws \<or> rsv3 ws) \<and>
      \<not> (word_of_nat (length (rxbuf t)) :: u64) < sum \<and> \<not> (\<not> fin ws \<and> isControl (opcode ws)) \<and>
      length (rxbuf t) < header_size ws + unat (N ws)"
    unfolding stepFrame_def Let_def ws_def [symmetric] sum_def
    using handleFrame_no_fault [of env ws _ "unmaskReceiveBuffer ws t"]
    by (auto simp: ws_def not_less split: step.splits)
  then show ?thesis
    unfolding chk Let_def ws_def [symmetric] using assms hs N by (auto simp: not_less)
qed

theorem frame_fault_iff_length_wraps_witness:
  "stepFrame demo_env (demo_client\<lparr>rxbuf := [0x82, 0x7f, 0xff, 0xff, 0xff, 0xff, 0xff, 0xff, 0xff, 0xff]\<rparr>) = Leave LFault"
proof -
  let ?b = "[0x82, 0x7f, 0xff, 0xff, 0xff, 0xff, 0xff, 0xff, 0xff, 0xff] :: byte list"
  let ?t = "demo_client\<lparr>rxbuf := ?b\<rparr>"
  have ws: "parse_header ?b = \<lparr>header_size = 10, fin = True, rsv1 = False, rsv2 = False, rsv3 = False, mask = False,
      opcode = 2, N0 = 127, N = -1, masking_key = [0, 0, 0, 0]\<rparr>"
    by code_simp
  have n: "unat (-1 :: u64) = 2 ^ 64 - 1" by (simp add: unsigned_minus_1_eq_mask mask_eq_exp_minus_1)
  show ?thesis
    by (subst frame_fault_iff_length_wraps) (simp_all add: ws n Let_def)
qed

subsection \<open>Close frames\<close>

lemma validateUtf8_const:
  "validateUtf8 (bytes_of kInvalidFramePayloadDataMessage)" "validateUtf8 (bytes_of kNoStatusCodeErrorMessage)"
  "validateUtf8 (bytes_of (kInvalidCloseCodeMessage @ '': '' @ string_of_nat n))"
proof -
  show "validateUtf8 (bytes_of kInvalidFramePayloadDataMessage)" "validateUtf8 (bytes_of kNoStatusCodeErrorMessage)"
    by (rule validateUtf8_ascii; simp add: bytes_of_def byte_of_char_def kInvalidFramePayloadDataMessage_def
        kNoStatusCodeErrorMessage_def)+
  have "unat (byte_of_char c) < 128" if "c \<in> set (string_of_nat n)" for c
  proof -
    have "c_isdigit c" using string_of_nat_digits that by blast
    then show ?thesis by (simp add: c_isdigit_def byte_of_char_def unat_of_nat)
  qed
  then show "validateUtf8 (bytes_of (kInvalidCloseCodeMessage @ '': '' @ string_of_nat n))"
    by (intro validateUtf8_ascii) (auto simp: bytes_of_def byte_of_char_def kInvalidCloseCodeMessage_def)
qed




text \<open>A socket that would block leaves everything in the send buffer.\<close>

lemma sendOnSocket_blocked:
  assumes "sys_sends (sock t) = []" "sockfd (sock t) \<noteq> -1"
  shows "sendOnSocket env t = (if txbuf t = [] then t else t\<lparr>sock := (sock t)\<lparr>sys_errno := EAGAIN\<rparr>\<rparr>)"
  using assms by (subst sendOnSocket.simps) (simp add: socket_send_def isWaitNeeded_def Let_def)

lemma sendPlain_blocked:
  assumes "sys_sends (sock t) = []" "sockfd (sock t) \<noteq> -1" "length m < kChunkSize"
  shows "readyState (snd (sendPlain env ty m progress t)) = readyState t"
    "events (snd (sendPlain env ty m progress t)) = events t"
  using assms
  by (auto simp: sendPlain_def sendWire_def sendFragment_def getRandomUnsigned_def appendToSendBuffer_def Let_def
      sendOnSocket_blocked wakeUp_def)


subsection \<open>Pings and aborted sends\<close>

text \<open>
  A ping is answered: dispatching a ping frame of at most 125 bytes puts a pong frame with the
  same payload behind everything sent before, and then reports the ping.
\<close>

theorem ping_answered:
  assumes "can_send t" "enablePong t" "length d \<le> 125"
  shows "\<exists>t'. handlePing env d t = Continue t' \<and>
    sent t' = sent t @ frame_bytes (fragment_frame env (useMask t) (epochReads t) PONG True d False) \<and>
    events t' = events (snd (sendPlain env PONG d None t)) @ [OnMessage d (length d) False MSG_PING]"
proof -
  have fr: "fragments d = [d]" using assms(3) by (simp add: fragments_def kChunkSize_def)
  have "sent (snd (sendPlain env PONG d None t)) =
      sent t @ frame_bytes (fragment_frame env (useMask t) (epochReads t) PONG True d False)"
    using assms(1) by (simp add: sendPlain_def sent_sendWire fr message_frames_def)
  then show ?thesis
    using assms(2,3) by (simp add: handlePing_def deliver_def Let_def sent_def)
qed

theorem ping_answered_witness:
  "\<exists>t'. handlePing demo_env ''are you there'' demo_server = Continue t' \<and>
     events t' = [OnMessage ''are you there'' 13 False MSG_PING]"
  using ping_answered [of demo_server "''are you there''" demo_env]
    sendPlain_blocked(2) [of demo_server "''are you there''" demo_env PONG None]
  by (auto simp: can_send_def demo_defs kChunkSize_def)

text \<open>
  A progress callback that returns false on the first step of a fragmented message cuts it off
  after the first fragment: the only frame sent is not final, so the receiver keeps waiting for the
  rest, while the caller is told that the whole message was sent.
\<close>

theorem aborted_send_reports_success:
  assumes "can_send t" "2 * kChunkSize \<le> length m"
  shows "\<exists>info t'. sendData env ty m False (Some (\<lambda>_ _. False)) t = Ret (info, t') \<and>
    si_success info \<and> si_wireSize info = length m \<and>
    sent t' = sent t @ frame_bytes (fragment_frame env (useMask t) (epochReads t) ty False (take kChunkSize m) False)"
proof -
  define steps where "steps = length m div kChunkSize"
  have steps: "2 \<le> steps" using assms(2) by (simp add: steps_def kChunkSize_def)
  then have k: "steps = Suc (Suc (steps - 2))" by simp
  have big: "\<not> length m < kChunkSize" using assms(2) by (simp add: kChunkSize_def)
  define t1 where "t1 = sendFragment env ty False (take kChunkSize m) False t"
  have loop: "fragment_loop env ty False (Some (\<lambda>_ _. False)) steps steps m t =
      t1\<lparr>events := events t1 @ [OnProgress 0 steps]\<rparr>"
    by (subst (2) k) (use steps in \<open>simp add: t1_def Let_def\<close>)
  have ev: "sent (t\<lparr>events := e\<rparr>) = sent t" for t :: "'a transport" and e by (simp add: sent_def)
  have "sent (sendWire env ty m False (Some (\<lambda>_ _. False)) t) = sent t1"
    using loop big by (simp add: sendWire_def Let_def steps_def [symmetric] ev)
  then show ?thesis
    using assms(1) by (simp add: sendData_def sendPlain_def t1_def sent_sendFragment)
qed

theorem aborted_send_reports_success_witness:
  "\<exists>info t'. sendData demo_env BINARY_FRAME (replicate (2 * kChunkSize) CHR ''x'') False (Some (\<lambda>_ _. False)) demo_client =
       Ret (info, t') \<and> si_success info \<and> si_wireSize info = 2 * kChunkSize"
proof -
  have "can_send demo_client" by (simp add: can_send_def demo_client_def)
  from aborted_send_reports_success [OF this, of "replicate (2 * kChunkSize) CHR ''x''" demo_env BINARY_FRAME]
  show ?thesis by (simp only: length_replicate) blast
qed

end
