(* ===== verification/WebSocket.thy ===== *)
theory WebSocket
  imports Connect TransportProperties
begin

section \<open>The WebSocket object\<close>

text \<open>
  \<^verbatim>\<open>IXWebSocket.cpp\<close> and \<^verbatim>\<open>IXExponentialBackoff.cpp\<close>: configuration, connecting with retries, the background loop and
  sending. The object is a record with the code's members; the calls of the user's message callback
  and of the traffic tracker are collected in \<open>ws_calls\<close>, in order, and do not call back. The \<open>k\<close>-th
  connection has the environment \<open>atts k\<close>; \<open>stops k\<close> is the flag \<open>_stop\<close>, which another thread sets,
  at its \<open>k\<close>-th read. Sleeping is recorded in \<open>ws_sleeps\<close>.
\<close>

subsection \<open>Messages to the user\<close>

datatype WebSocketMessageType = Message | Open | Close | Error | Ping | Pong | Fragment

record WebSocketErrorInfo =
  ei_retries :: u32
  ei_wait_time :: nat
  ei_http_status :: int
  ei_reason :: string
  ei_decompressionError :: bool

record WebSocketOpenInfo =
  oi_uri :: string
  oi_headers :: WebSocketHttpHeaders

record WebSocketCloseInfo =
  ci_code :: u16
  ci_reason :: string
  ci_remote :: bool

record WebSocketMessage =
  msg_type :: WebSocketMessageType
  msg_str :: string
  msg_wireSize :: nat
  msg_errorInfo :: WebSocketErrorInfo
  msg_openInfo :: WebSocketOpenInfo
  msg_closeInfo :: WebSocketCloseInfo
  msg_binary :: bool

datatype ws_call = OnMessageCallback WebSocketMessage | OnTraffic nat bool

definition noError :: WebSocketErrorInfo where
  "noError = \<lparr>ei_retries = 0, ei_wait_time = 0, ei_http_status = 0, ei_reason = [], ei_decompressionError = False\<rparr>"

definition noOpen :: WebSocketOpenInfo where
  "noOpen = \<lparr>oi_uri = [], oi_headers = []\<rparr>"

definition noClose :: WebSocketCloseInfo where
  "noClose = \<lparr>ci_code = 0, ci_reason = [], ci_remote = False\<rparr>"

subsection \<open>State\<close>

record 'z websocket =
  ws_transport :: "'z transport"
  ws_url :: string
  ws_extraHeaders :: WebSocketHttpHeaders
  ws_perMessageDeflateOptions :: deflate_options
  ws_trafficTracker :: bool
  ws_joinable :: bool
  ws_automaticReconnection :: bool
  ws_maxWait :: u32
  ws_handshakeTimeoutSecs :: int
  ws_enablePong :: bool
  ws_pingIntervalSecs :: int
  ws_pingTimeoutSecs :: int
  ws_calls :: "ws_call list"
  ws_attempts :: nat
  ws_stopReads :: nat
  ws_sleeps :: "nat list"

definition kDefaultHandShakeTimeoutSecs :: int where
  "kDefaultHandShakeTimeoutSecs = 60"

definition kDefaultMaxWaitBetweenReconnectionRetries :: u32 where
  "kDefaultMaxWaitBetweenReconnectionRetries = 10 * 1000"

definition WebSocket_new :: "'z transport \<Rightarrow> 'z websocket" where
  "WebSocket_new t =
     \<lparr>ws_transport = t, ws_url = [], ws_extraHeaders = [], ws_perMessageDeflateOptions = deflateOptions False False False 15 15,
      ws_trafficTracker = False, ws_joinable = False, ws_automaticReconnection = True,
      ws_maxWait = kDefaultMaxWaitBetweenReconnectionRetries, ws_handshakeTimeoutSecs = kDefaultHandShakeTimeoutSecs,
      ws_enablePong = True, ws_pingIntervalSecs = -1, ws_pingTimeoutSecs = -1, ws_calls = [], ws_attempts = 0, ws_stopReads = 0,
      ws_sleeps = []\<rparr>"

text \<open>What one callback of the transport becomes: the close callback of the constructor, and the
  message callback of \<open>run\<close> followed by the traffic tracker. Progress callbacks are the user's.\<close>

fun message_type :: "MessageKind \<Rightarrow> WebSocketMessageType" where
  "message_type MSG_TEXT = Message"
| "message_type MSG_BINARY = Message"
| "message_type MSG_PING = Ping"
| "message_type MSG_PONG = Pong"
| "message_type FRAGMENT = Fragment"

fun calls_of :: "bool \<Rightarrow> transport_event \<Rightarrow> ws_call list" where
  "calls_of traffic (OnClose status reason n remote) =
     [OnMessageCallback \<lparr>msg_type = Close, msg_str = [], msg_wireSize = n, msg_errorInfo = noError, msg_openInfo = noOpen,
        msg_closeInfo = \<lparr>ci_code = status, ci_reason = reason, ci_remote = remote\<rparr>, msg_binary = False\<rparr>]"
| "calls_of traffic (OnMessage m n err kind) =
     OnMessageCallback \<lparr>msg_type = message_type kind, msg_str = m, msg_wireSize = n,
        msg_errorInfo = noError\<lparr>ei_decompressionError := err\<rparr>, msg_openInfo = noOpen, msg_closeInfo = noClose,
        msg_binary = (kind = MSG_BINARY)\<rparr>
     # (if traffic then [OnTraffic (length m) True] else [])"
| "calls_of traffic (OnProgress x y) = []"

text \<open>Hand the transport's callbacks on and put the transport back.\<close>

definition drain :: "'z websocket \<Rightarrow> 'z transport \<Rightarrow> 'z websocket" where
  "drain w t = w\<lparr>ws_transport := t\<lparr>events := []\<rparr>,
     ws_calls := ws_calls w @ concat (map (calls_of (ws_trafficTracker w)) (events t))\<rparr>"

subsection \<open>Configuration\<close>

definition setUrl :: "string \<Rightarrow> 'z websocket \<Rightarrow> 'z websocket" where
  "setUrl address w = w\<lparr>ws_url := address\<rparr>"

definition setExtraHeaders :: "WebSocketHttpHeaders \<Rightarrow> 'z websocket \<Rightarrow> 'z websocket" where
  "setExtraHeaders headers w = w\<lparr>ws_extraHeaders := headers\<rparr>"

definition setPerMessageDeflateOptions :: "deflate_options \<Rightarrow> 'z websocket \<Rightarrow> 'z websocket" where
  "setPerMessageDeflateOptions opts w = w\<lparr>ws_perMessageDeflateOptions := opts\<rparr>"

definition setHeartBeatPeriod :: "int \<Rightarrow> 'z websocket \<Rightarrow> 'z websocket" where
  "setHeartBeatPeriod secs w = w\<lparr>ws_pingIntervalSecs := secs\<rparr>"

definition setPingInterval :: "int \<Rightarrow> 'z websocket \<Rightarrow> 'z websocket" where
  "setPingInterval secs w = w\<lparr>ws_pingIntervalSecs := secs\<rparr>"

definition setPingTimeout :: "int \<Rightarrow> 'z websocket \<Rightarrow> 'z websocket" where
  "setPingTimeout secs w = w\<lparr>ws_pingTimeoutSecs := secs\<rparr>"

definition ws_setPong :: "bool \<Rightarrow> 'z websocket \<Rightarrow> 'z websocket" where
  "ws_setPong b w = w\<lparr>ws_enablePong := b\<rparr>"

definition disablePerMessageDeflate :: "'z websocket \<Rightarrow> 'z websocket" where
  "disablePerMessageDeflate w = w\<lparr>ws_perMessageDeflateOptions := deflateOptions False False False 15 15\<rparr>"

definition setMaxWaitBetweenReconnectionRetries :: "u32 \<Rightarrow> 'z websocket \<Rightarrow> 'z websocket" where
  "setMaxWaitBetweenReconnectionRetries n w = w\<lparr>ws_maxWait := n\<rparr>"

definition setAutomaticReconnection :: "bool \<Rightarrow> 'z websocket \<Rightarrow> 'z websocket" where
  "setAutomaticReconnection b w = w\<lparr>ws_automaticReconnection := b\<rparr>"

definition setTrafficTracker :: "bool \<Rightarrow> 'z websocket \<Rightarrow> 'z websocket" where
  "setTrafficTracker b w = w\<lparr>ws_trafficTracker := b\<rparr>"

subsection \<open>States\<close>

definition ws_isConnected :: "'z websocket \<Rightarrow> bool" where
  "ws_isConnected w = (readyState (ws_transport w) = OPEN)"

definition ws_isClosing :: "'z websocket \<Rightarrow> bool" where
  "ws_isClosing w = (readyState (ws_transport w) = CLOSING)"

fun readyStateToString :: "ReadyState \<Rightarrow> string" where
  "readyStateToString OPEN = ''OPEN''"
| "readyStateToString CONNECTING = ''CONNECTING''"
| "readyStateToString CLOSING = ''CLOSING''"
| "readyStateToString CLOSED = ''CLOSED''"

subsection \<open>Connecting\<close>

definition ws_configure :: "'z websocket \<Rightarrow> 'z transport" where
  "ws_configure w =
     configure (ws_perMessageDeflateOptions w) (ws_enablePong w) (ws_pingIntervalSecs w) (ws_pingTimeoutSecs w) (ws_transport w)"

definition open_message :: "WebSocketInitResult \<Rightarrow> WebSocketMessage" where
  "open_message status =
     \<lparr>msg_type = Open, msg_str = [], msg_wireSize = 0, msg_errorInfo = noError,
      msg_openInfo = \<lparr>oi_uri = init_uri status, oi_headers = init_headers status\<rparr>, msg_closeInfo = noClose, msg_binary = False\<rparr>"

definition after_connect :: "handshake_result \<times> 'z transport \<Rightarrow> 'z websocket \<Rightarrow> handshake_result \<times> 'z websocket" where
  "after_connect rt w =
     (let w1 = w\<lparr>ws_transport := snd rt\<rparr>
      in case fst rt of
           HandshakeOutOfRange \<Rightarrow> (fst rt, w1)
         | Init status \<Rightarrow>
             if \<not> init_success status then (fst rt, w1)
             else (fst rt, w1\<lparr>ws_calls := ws_calls w1 @ [OnMessageCallback (open_message status)]\<rparr>))"

definition ws_connect :: "'z tenv \<Rightarrow> 'z attempt \<Rightarrow> int \<Rightarrow> 'z websocket \<Rightarrow> (handshake_result \<times> 'z websocket) option" where
  "ws_connect env a timeoutSecs w =
     Option.bind (connectToUrl env a (ws_url w) (ws_extraHeaders w) timeoutSecs (ws_configure w)) (\<lambda>rt. Some (after_connect rt w))"

definition ws_connectToSocket :: "'z tenv \<Rightarrow> 'z attempt \<Rightarrow> int \<Rightarrow> int \<Rightarrow> 'z websocket \<Rightarrow> (handshake_result \<times> 'z websocket) option" where
  "ws_connectToSocket env a fd timeoutSecs w =
     Option.bind (connectToSocket env a fd timeoutSecs (ws_configure w)) (\<lambda>rt. Some (after_connect rt w))"

text \<open>A \<open>double\<close> that does not fit an \<open>unsigned\<close> has no defined conversion: the argument \<open>unfit\<close>.\<close>

definition calculateRetryWaitMilliseconds :: "(nat \<Rightarrow> u32) \<Rightarrow> u32 \<Rightarrow> u32 \<Rightarrow> u32" where
  "calculateRetryWaitMilliseconds unfit retry_count maxWait =
     (let v = 2 ^ unat retry_count * 100 :: nat;
          wait_time = (if v < 2 ^ 32 then word_of_nat v else unfit v)
      in if wait_time > maxWait \<or> wait_time = 0 then maxWait else wait_time)"

definition error_message :: "u32 \<Rightarrow> nat \<Rightarrow> WebSocketInitResult \<Rightarrow> WebSocketMessage" where
  "error_message retries wait status =
     \<lparr>msg_type = Error, msg_str = [], msg_wireSize = 0,
      msg_errorInfo = \<lparr>ei_retries = retries, ei_wait_time = wait, ei_http_status = init_http_status status,
        ei_reason = init_errorStr status, ei_decompressionError = False\<rparr>,
      msg_openInfo = noOpen, msg_closeInfo = noClose, msg_binary = False\<rparr>"

definition report_error :: "u32 \<Rightarrow> nat \<Rightarrow> WebSocketInitResult \<Rightarrow> 'z websocket \<Rightarrow> 'z websocket" where
  "report_error retries wait status w =
     w\<lparr>ws_calls := ws_calls w @ [OnMessageCallback (error_message retries wait status)]\<rparr>"

definition read_stop :: "(nat \<Rightarrow> bool) \<Rightarrow> 'z websocket \<Rightarrow> bool \<times> 'z websocket" where
  "read_stop stops w = (stops (ws_stopReads w), w\<lparr>ws_stopReads := ws_stopReads w + 1\<rparr>)"

text \<open>The retry loop; \<^const>\<open>False\<close> is an exception that leaves it.\<close>

partial_function (option) checkConnection_loop ::
  "'z tenv \<Rightarrow> (nat \<Rightarrow> 'z attempt) \<Rightarrow> (nat \<Rightarrow> bool) \<Rightarrow> (nat \<Rightarrow> u32) \<Rightarrow> bool \<Rightarrow> u32 \<Rightarrow> nat \<Rightarrow> 'z websocket \<Rightarrow> (bool \<times> 'z websocket) option" where
  "checkConnection_loop env atts stops unfit first retries duration w0 =
     (if ws_isConnected w0 \<or> ws_isClosing w0 then Some (True, w0)
      else case read_stop stops w0 of (stopped, w) \<Rightarrow>
        if stopped then Some (True, w)
        else if \<not> first \<and> \<not> ws_automaticReconnection w then Some (True, w)
        else
          Option.bind
            (ws_connect env (atts (ws_attempts w)) (ws_handshakeTimeoutSecs w)
              (w\<lparr>ws_sleeps := (if duration > 0 then ws_sleeps w @ [duration] else ws_sleeps w), ws_attempts := ws_attempts w + 1\<rparr>))
            (\<lambda>(r, w1).
              case r of
                HandshakeOutOfRange \<Rightarrow> Some (False, w1)
              | Init status \<Rightarrow>
                  if init_success status then checkConnection_loop env atts stops unfit False retries duration w1
                  else if ws_automaticReconnection w1 then
                    checkConnection_loop env atts stops unfit False (retries + 1)
                      (unat (calculateRetryWaitMilliseconds unfit retries (ws_maxWait w1)))
                      (report_error (retries + 1) (unat (calculateRetryWaitMilliseconds unfit retries (ws_maxWait w1))) status w1)
                  else checkConnection_loop env atts stops unfit False retries duration (report_error 0 0 status w1)))"

definition checkConnection ::
  "'z tenv \<Rightarrow> (nat \<Rightarrow> 'z attempt) \<Rightarrow> (nat \<Rightarrow> bool) \<Rightarrow> (nat \<Rightarrow> u32) \<Rightarrow> bool \<Rightarrow> 'z websocket \<Rightarrow> (bool \<times> 'z websocket) option" where
  "checkConnection env atts stops unfit first w = checkConnection_loop env atts stops unfit first 0 0 w"

subsection \<open>The background loop\<close>

datatype run_end = RunReturned | RunThrew | RunFault

text \<open>\<open>poll\<close> and \<open>dispatch\<close>, one after the other.\<close>

definition ws_turn :: "'z tenv \<Rightarrow> 'z websocket \<Rightarrow> 'z websocket outcome" where
  "ws_turn env w =
     (case poll env (ws_transport w) of
        None \<Rightarrow> Hang
      | Some (pollResult, t) \<Rightarrow> map_outcome (drain w) (dispatch env pollResult t))"

partial_function (option) run_loop ::
  "'z tenv \<Rightarrow> (nat \<Rightarrow> 'z attempt) \<Rightarrow> (nat \<Rightarrow> bool) \<Rightarrow> (nat \<Rightarrow> u32) \<Rightarrow> bool \<Rightarrow> 'z websocket \<Rightarrow> (run_end \<times> 'z websocket) option" where
  "run_loop env atts stops unfit first w =
     Option.bind (checkConnection env atts stops unfit first w) (\<lambda>(ok, w1).
       if \<not> ok then Some (RunThrew, w1)
       else if readyState (ws_transport w1) = CLOSED then Some (RunReturned, w1)
       else case read_stop stops w1 of (stopped, w2) \<Rightarrow>
         if stopped \<and> \<not> ws_isClosing w2 then Some (RunReturned, w2)
         else case ws_turn env w2 of
           Ret w3 \<Rightarrow> run_loop env atts stops unfit False w3
         | Fault \<Rightarrow> Some (RunFault, w2)
         | Hang \<Rightarrow> None)"

definition ws_run ::
  "'z tenv \<Rightarrow> (nat \<Rightarrow> 'z attempt) \<Rightarrow> (nat \<Rightarrow> bool) \<Rightarrow> (nat \<Rightarrow> u32) \<Rightarrow> 'z websocket \<Rightarrow> (run_end \<times> 'z websocket) option" where
  "ws_run env atts stops unfit w = run_loop env atts stops unfit True w"

definition ws_start :: "'z websocket \<Rightarrow> 'z websocket" where
  "ws_start w = (if ws_joinable w then w else w\<lparr>ws_joinable := True\<rparr>)"

definition ws_close :: "'z tenv \<Rightarrow> u16 \<Rightarrow> string \<Rightarrow> 'z websocket \<Rightarrow> 'z websocket" where
  "ws_close env status reason w = drain w (close env status reason 0 False (ws_transport w))"

text \<open>\<open>stop\<close>: with the thread at the head of its loop, it runs on with \<open>_stop\<close> set and is joined.\<close>

definition ws_stop ::
  "'z tenv \<Rightarrow> (nat \<Rightarrow> 'z attempt) \<Rightarrow> (nat \<Rightarrow> u32) \<Rightarrow> u16 \<Rightarrow> string \<Rightarrow> 'z websocket \<Rightarrow> (run_end \<times> 'z websocket) option" where
  "ws_stop env atts unfit status reason w =
     (let w1 = ws_close env status reason w
      in if \<not> ws_joinable w1 then Some (RunReturned, w1)
         else Option.bind (run_loop env atts (\<lambda>_. True) unfit False w1) (\<lambda>(e, w2). Some (e, w2\<lparr>ws_joinable := False\<rparr>)))"

subsection \<open>Sending\<close>

datatype SendMessageKind = SendText | SendBinary | SendPing

definition sendMessage ::
  "'z tenv \<Rightarrow> string \<Rightarrow> SendMessageKind \<Rightarrow> (nat \<Rightarrow> nat \<Rightarrow> bool) option \<Rightarrow> 'z websocket \<Rightarrow> (WebSocketSendInfo \<times> 'z websocket) outcome" where
  "sendMessage env text kind progress w =
     (if \<not> ws_isConnected w then Ret (send_failed, w)
      else map_outcome
        (\<lambda>(info, t). let w1 = drain w t
           in (info, if ws_trafficTracker w1 then w1\<lparr>ws_calls := ws_calls w1 @ [OnTraffic (si_wireSize info) False]\<rparr> else w1))
        (case kind of
           SendText \<Rightarrow> sendText env text progress (ws_transport w)
         | SendBinary \<Rightarrow> sendBinary env text progress (ws_transport w)
         | SendPing \<Rightarrow> Ret (sendPing env text (ws_transport w))))"

definition ws_sendBinary :: "'z tenv \<Rightarrow> string \<Rightarrow> (nat \<Rightarrow> nat \<Rightarrow> bool) option \<Rightarrow> 'z websocket \<Rightarrow> (WebSocketSendInfo \<times> 'z websocket) outcome" where
  "ws_sendBinary env text progress w = sendMessage env text SendBinary progress w"

definition ws_sendText :: "'z tenv \<Rightarrow> string \<Rightarrow> (nat \<Rightarrow> nat \<Rightarrow> bool) option \<Rightarrow> 'z websocket \<Rightarrow> (WebSocketSendInfo \<times> 'z websocket) outcome" where
  "ws_sendText env text progress w =
     (if \<not> validateUtf8 (bytes_of text)
      then Ret (send_failed, ws_close env kInvalidFramePayloadData kInvalidFramePayloadDataMessage w)
      else sendMessage env text SendText progress w)"

definition ws_send :: "'z tenv \<Rightarrow> string \<Rightarrow> bool \<Rightarrow> (nat \<Rightarrow> nat \<Rightarrow> bool) option \<Rightarrow> 'z websocket \<Rightarrow> (WebSocketSendInfo \<times> 'z websocket) outcome" where
  "ws_send env data binary progress w = (if binary then ws_sendBinary env data progress w else ws_sendText env data progress w)"

definition ws_ping :: "'z tenv \<Rightarrow> string \<Rightarrow> 'z websocket \<Rightarrow> (WebSocketSendInfo \<times> 'z websocket) outcome" where
  "ws_ping env text w = (if length text > 125 then Ret (send_failed, w) else sendMessage env text SendPing None w)"

definition ws_bufferedAmount :: "'z websocket \<Rightarrow> nat" where
  "ws_bufferedAmount w = bufferedAmount (ws_transport w)"

end
