(* ===== verification/Float32.thy ===== *)
theory Float32
  imports Complex_Main
begin

section \<open>Single precision arithmetic\<close>

text \<open>
  The type \<open>float\<close> of the sample server: a value is the rational it stands for, and every operation
  rounds its exact result to 24 significant bits, to nearest and to even in the middle. Overflow,
  denormal numbers and the special values do not occur in the code.
\<close>

fun bits :: "nat \<Rightarrow> nat" where
  "bits n = (if n = 0 then 0 else Suc (bits (n div 2)))"

declare bits.simps [simp del]

definition pow2 :: "int \<Rightarrow> rat" where
  "pow2 e = (if 0 \<le> e then 2 ^ nat e else 1 / 2 ^ nat (- e))"

definition round_even :: "rat \<Rightarrow> int" where
  "round_even y =
     (let f = \<lfloor>y\<rfloor>; d = y - of_int f
      in if d < 1 / 2 then f else if d > 1 / 2 then f + 1 else if even f then f else f + 1)"

definition fl_exponent :: "rat \<Rightarrow> int" where
  "fl_exponent x =
     (case quotient_of x of (a, b) \<Rightarrow>
        let e = int (bits (nat a)) - int (bits (nat b)) - 24 in if x / pow2 e \<ge> 2 ^ 24 then e + 1 else e)"

definition fl :: "rat \<Rightarrow> rat" where
  "fl x = (if x = 0 then 0 else let e = fl_exponent \<bar>x\<bar> in sgn x * of_int (round_even (\<bar>x\<bar> / pow2 e)) * pow2 e)"

text \<open>Conversion to an integer type drops the fraction.\<close>

definition float_to_int :: "rat \<Rightarrow> int" where
  "float_to_int x = (if x \<ge> 0 then \<lfloor>x\<rfloor> else - \<lfloor>- x\<rfloor>)"

subsection \<open>The significand has 24 bits\<close>

lemma pow2_pos [simp]: "0 < pow2 e"
  by (simp add: pow2_def)

lemma pow2_nonneg [simp]: "0 \<le> pow2 e"
  by (simp add: pow2_def)

lemma pow2_nonzero [simp]: "pow2 e \<noteq> 0"
  using pow2_pos [of e] by linarith

lemma pow2_add: "pow2 (a + b) = pow2 a * pow2 b"
proof -
  have p: "pow2 (int n) = 2 ^ n" "pow2 (- int n) = 1 / 2 ^ n" for n by (simp_all add: pow2_def)
  have s: "pow2 (a + 1) = 2 * pow2 a" for a
  proof (cases "0 \<le> a")
    case True
    then show ?thesis by (simp add: pow2_def nat_add_distrib)
  next
    case False
    then have "nat (- a) = Suc (nat (- (a + 1)))" by simp
    then show ?thesis using False by (simp add: pow2_def)
  qed
  have "pow2 (a + int n) = pow2 a * 2 ^ n" for a n
  proof (induction n)
    case (Suc n)
    have "pow2 (a + int (Suc n)) = pow2 ((a + int n) + 1)" by (simp add: algebra_simps)
    then show ?case using s [of "a + int n"] Suc by simp
  qed simp
  then have pos: "pow2 (a + int n) = pow2 a * pow2 (int n)" for a n by (simp add: p)
  show ?thesis
  proof (cases "0 \<le> b")
    case True
    then show ?thesis using pos [of a "nat b"] by simp
  next
    case False
    then have "pow2 a = pow2 (a + b) * pow2 (int (nat (- b)))" using pos [of "a + b" "nat (- b)"] by simp
    then have "pow2 a = pow2 (a + b) * 2 ^ nat (- b)" unfolding p .
    moreover have "pow2 b = 1 / 2 ^ nat (- b)" using False by (simp add: pow2_def)
    ultimately show ?thesis by simp
  qed
qed

lemma bits_bounds: "n > 0 \<Longrightarrow> 2 ^ bits n \<le> 2 * n \<and> n < 2 ^ bits n"
proof (induction n rule: bits.induct)
  case (1 n)
  show ?case
  proof (cases "n div 2 = 0")
    case True
    then have "n = 1" using 1(2) by (simp add: div_eq_0_iff)
    then show ?thesis by (simp add: bits.simps [of "Suc 0"] bits.simps [of 0])
  next
    case False
    have "2 ^ bits (n div 2) \<le> 2 * (n div 2) \<and> n div 2 < 2 ^ bits (n div 2)" using 1 False by simp
    moreover have "bits n = Suc (bits (n div 2))" using 1(2) by (simp add: bits.simps [of n])
    ultimately show ?thesis by auto
  qed
qed

lemma fl_exponent_range:
  assumes "x > 0"
  shows "2 ^ 23 \<le> x / pow2 (fl_exponent x) \<and> x / pow2 (fl_exponent x) < 2 ^ 24"
proof -
  obtain a b where q: "quotient_of x = (a, b)" by fastforce
  have b: "b > 0" and x: "x = of_int a / of_int b" using q quotient_of_denom_pos quotient_of_div by blast+
  then have a: "a > 0" using assms by (simp add: zero_less_divide_iff)
  let ?a = "bits (nat a)" and ?b = "bits (nat b)"
  define e where "e = int ?a - int ?b - 24"
  have A: "(2 :: rat) ^ ?a \<le> 2 * of_int a" "(of_int a :: rat) < 2 ^ ?a"
  proof -
    have "2 ^ ?a \<le> 2 * nat a" "nat a < 2 ^ ?a" using bits_bounds [of "nat a"] a by auto
    then have "(of_nat (2 ^ ?a) :: rat) \<le> of_nat (2 * nat a)" "(of_nat (nat a) :: rat) < of_nat (2 ^ ?a)" by (simp_all only: of_nat_le_iff of_nat_less_iff)
    then show "(2 :: rat) ^ ?a \<le> 2 * of_int a" "(of_int a :: rat) < 2 ^ ?a" using a by simp_all
  qed
  have B: "(2 :: rat) ^ ?b \<le> 2 * of_int b" "(of_int b :: rat) < 2 ^ ?b"
  proof -
    have "2 ^ ?b \<le> 2 * nat b" "nat b < 2 ^ ?b" using bits_bounds [of "nat b"] b by auto
    then have "(of_nat (2 ^ ?b) :: rat) \<le> of_nat (2 * nat b)" "(of_nat (nat b) :: rat) < of_nat (2 ^ ?b)" by (simp_all only: of_nat_le_iff of_nat_less_iff)
    then show "(2 :: rat) ^ ?b \<le> 2 * of_int b" "(of_int b :: rat) < 2 ^ ?b" using b by simp_all
  qed
  have p: "pow2 e * 2 ^ ?b * 2 ^ 24 = 2 ^ ?a"
  proof -
    have "pow2 e * pow2 (int ?b) * pow2 24 = pow2 (int ?a)" by (simp add: pow2_add [symmetric] e_def)
    then show ?thesis by (simp add: pow2_def)
  qed
  have lo: "2 ^ 23 * pow2 e \<le> x"
  proof -
    have "2 ^ 23 * pow2 e * of_int b \<le> 2 ^ 23 * pow2 e * 2 ^ ?b" using B(2) by simp
    also have "\<dots> = 2 ^ ?a / 2" using p by (simp add: algebra_simps)
    also have "\<dots> \<le> of_int a" using A(1) by simp
    finally show ?thesis using b by (simp add: x pos_le_divide_eq)
  qed
  have hi: "x < 2 ^ 25 * pow2 e"
  proof -
    have "of_int a < (2 :: rat) ^ ?a" by (rule A(2))
    also have "\<dots> = 2 ^ 24 * pow2 e * 2 ^ ?b" using p by (simp add: algebra_simps)
    also have "\<dots> \<le> 2 ^ 24 * pow2 e * (2 * of_int b)" using B(1) by simp
    finally show ?thesis using b by (simp add: x pos_divide_less_eq algebra_simps)
  qed
  have fe: "fl_exponent x = (if x / pow2 e \<ge> 2 ^ 24 then e + 1 else e)" by (simp add: fl_exponent_def q Let_def e_def)
  show ?thesis
  proof (cases "x / pow2 e \<ge> 2 ^ 24")
    case True
    have "pow2 (fl_exponent x) = pow2 e * 2" using True fe pow2_add [of e 1] by (simp add: pow2_def [of 1])
    then show ?thesis using True hi by (simp add: field_simps)
  next
    case False
    then show ?thesis using lo fe by (simp add: field_simps)
  qed
qed

lemma pow2_strict_mono: "a < b \<Longrightarrow> 2 * pow2 a \<le> pow2 b"
proof -
  assume "a < b"
  then have "pow2 b = pow2 a * pow2 (b - a)" using pow2_add [of a "b - a"] by simp
  moreover have "pow2 (b - a) \<ge> 2"
    using \<open>a < b\<close> power_increasing [of 1 "nat (b - a)" "2 :: rat"] by (simp add: pow2_def)
  ultimately show ?thesis by (simp add: mult.commute)
qed

text \<open>The exponent is the only one that fits, so a result can be computed with any that does.\<close>

lemma fl_eq:
  assumes "x > 0" "2 ^ 23 \<le> x / pow2 e" "x / pow2 e < 2 ^ 24"
  shows "fl x = of_int (round_even (x / pow2 e)) * pow2 e"
proof -
  let ?f = "fl_exponent x"
  note r = fl_exponent_range [OF assms(1)]
  have "?f = e"
  proof (rule ccontr)
    assume "?f \<noteq> e"
    then consider "?f < e" | "e < ?f" by linarith
    then show False
    proof cases
      case 1
      then have "2 * pow2 ?f \<le> pow2 e" by (rule pow2_strict_mono)
      then show False using r assms(2) by (simp add: field_simps)
    next
      case 2
      then have "2 * pow2 e \<le> pow2 ?f" by (rule pow2_strict_mono)
      then show False using r assms(3) by (simp add: field_simps)
    qed
  qed
  then show ?thesis using assms(1) by (simp add: fl_def Let_def)
qed

lemma round_even_error: "\<bar>of_int (round_even y) - y\<bar> \<le> 1 / 2"
proof -
  have f: "of_int \<lfloor>y\<rfloor> \<le> y" "y < of_int \<lfloor>y\<rfloor> + 1" by linarith+
  consider "round_even y = \<lfloor>y\<rfloor>" "y - of_int \<lfloor>y\<rfloor> \<le> 1 / 2" | "round_even y = \<lfloor>y\<rfloor> + 1" "y - of_int \<lfloor>y\<rfloor> \<ge> 1 / 2"
    unfolding round_even_def Let_def by (cases "y - of_int \<lfloor>y\<rfloor> < 1 / 2"; cases "y - of_int \<lfloor>y\<rfloor> > 1 / 2"; cases "even \<lfloor>y\<rfloor>") auto
  then show ?thesis
  proof cases
    case 1
    then show ?thesis using f by linarith
  next
    case 2
    then have "of_int (round_even y) = of_int \<lfloor>y\<rfloor> + (1 :: rat)" by simp
    then show ?thesis using f 2(2) by linarith
  qed
qed

text \<open>The relative error of one operation.\<close>

lemma fl_error:
  assumes "x \<ge> 0"
  shows "\<bar>fl x - x\<bar> \<le> x / 2 ^ 24"
proof (cases "x = 0")
  case False
  then have x: "x > 0" using assms by simp
  let ?p = "pow2 (fl_exponent x)"
  note r = fl_exponent_range [OF x]
  have "fl x - x = (of_int (round_even (x / ?p)) - x / ?p) * ?p"
    using fl_eq [OF x r [THEN conjunct1] r [THEN conjunct2]] by (simp add: field_simps)
  then have "\<bar>fl x - x\<bar> = \<bar>of_int (round_even (x / ?p)) - x / ?p\<bar> * ?p" by (simp add: abs_mult less_imp_le)
  also have "\<dots> \<le> 1 / 2 * ?p" using round_even_error [of "x / ?p"] by (intro mult_right_mono) simp_all
  also have "\<dots> \<le> x / 2 ^ 24" using r by (simp add: field_simps)
  finally show ?thesis .
qed (simp add: fl_def)

lemma fl_nonneg: "x \<ge> 0 \<Longrightarrow> fl x \<ge> 0"
proof -
  assume "x \<ge> 0"
  moreover have "x / 2 ^ 24 \<le> x" using \<open>x \<ge> 0\<close> by simp
  ultimately show ?thesis using fl_error [of x] by linarith
qed

text \<open>Rounding stays below a bound that needs no rounding.\<close>

lemma round_even_le: "y \<le> of_int n \<Longrightarrow> round_even y \<le> n"
proof -
  assume a: "y \<le> of_int n"
  then have f: "\<lfloor>y\<rfloor> \<le> n" by (metis floor_mono floor_of_int)
  show ?thesis
  proof (cases "\<lfloor>y\<rfloor> = n")
    case True
    then have "y = of_int n" using a by linarith
    then show ?thesis by (simp add: round_even_def Let_def)
  next
    case False
    then show ?thesis using f by (auto simp: round_even_def Let_def)
  qed
qed

lemma fl_le:
  assumes "0 \<le> x" "x \<le> y" "y = of_int m * pow2 e" "2 ^ 23 \<le> m" "m < 2 ^ 24"
  shows "fl x \<le> y"
proof (cases "x = 0")
  case True
  then show ?thesis using assms(2) by (simp add: fl_def)
next
  case False
  then have x: "x > 0" using assms(1) by simp
  let ?f = "fl_exponent x"
  note r = fl_exponent_range [OF x]
  have fx: "fl x = of_int (round_even (x / pow2 ?f)) * pow2 ?f" using fl_eq [OF x] r by blast
  have "(of_int (2 ^ 23) :: rat) \<le> of_int m" "(of_int m :: rat) < of_int (2 ^ 24)"
    using assms(4,5) by (simp_all only: of_int_le_iff of_int_less_iff)
  then have m: "(2 :: rat) ^ 23 \<le> of_int m" "of_int m < (2 :: rat) ^ 24" by simp_all
  show ?thesis
  proof (cases "?f < e")
    case True
    have "round_even (x / pow2 ?f) \<le> 2 ^ 24" using r by (intro round_even_le) simp
    then have "(of_int (round_even (x / pow2 ?f)) :: rat) \<le> of_int (2 ^ 24)" by (simp only: of_int_le_iff)
    then have "fl x \<le> 2 ^ 24 * pow2 ?f" unfolding fx by (intro mult_right_mono) simp_all
    also have "\<dots> \<le> 2 ^ 23 * pow2 e" using pow2_strict_mono [OF True] by simp
    also have "\<dots> \<le> y" using m(1) unfolding assms(3) by (intro mult_right_mono) simp_all
    finally show ?thesis .
  next
    case False
    have "?f \<le> e"
    proof (rule ccontr)
      assume "\<not> ?f \<le> e"
      then have "2 * pow2 e \<le> pow2 ?f" by (intro pow2_strict_mono) simp
      then have "2 ^ 24 * pow2 e \<le> 2 ^ 23 * pow2 ?f" by simp
      also have "\<dots> \<le> x" using r by (simp add: field_simps)
      also have "\<dots> \<le> of_int m * pow2 e" using assms(2,3) by simp
      finally show False using m(2) by simp
    qed
    then have e: "?f = e" using False by simp
    have "x / pow2 e \<le> of_int m" using assms(2,3) by (simp add: field_simps)
    then have "(of_int (round_even (x / pow2 e)) :: rat) \<le> of_int m" by (simp add: round_even_le)
    then show ?thesis unfolding fx e assms(3) by (intro mult_right_mono) simp_all
  qed
qed

text \<open>A result whose nearest representable value is known.\<close>

lemma round_even_near: "\<bar>y - of_int m\<bar> < 1 / 2 \<Longrightarrow> round_even y = m"
proof -
  assume a: "\<bar>y - of_int m\<bar> < 1 / 2"
  show ?thesis
  proof (cases "y \<ge> of_int m")
    case True
    then have "\<lfloor>y\<rfloor> = m" "y - of_int m < 1 / 2" using a by linarith+
    then show ?thesis by (simp add: round_even_def Let_def)
  next
    case False
    then have "\<lfloor>y\<rfloor> = m - 1" "y - of_int (m - 1) > 1 / 2" using a by simp_all linarith+
    then show ?thesis by (simp add: round_even_def Let_def)
  qed
qed

lemma fl_near:
  assumes "x > 0" "2 ^ 23 \<le> x / pow2 e" "x / pow2 e < 2 ^ 24" "\<bar>x / pow2 e - of_int m\<bar> < 1 / 2"
  shows "fl x = of_int m * pow2 e"
  using fl_eq [OF assms(1-3)] round_even_near [OF assms(4)] by simp

end
