(* ===== verification/SampleDataStore.thy ===== *)
theory SampleDataStore
  imports Prelude Float32
begin

section \<open>The sample server's data store\<close>

text \<open>
  \<^verbatim>\<open>SampleDataStore.cpp\<close> of \<^verbatim>\<open>mtl-sample-api-server\<close>: grade responses with random times and grades. JSON values are
  a datatype with the operations the code uses of \<^verbatim>\<open>nlohmann::json\<close> (an object is a map sorted by key;
  indexing a null makes it an object, indexing any other value than an object throws). Exceptions are
  values of \<open>sample_exn\<close>. The time functions of the C library depend on the time zone, and \<open>rand\<close> on
  the library: both are the record \<open>libc\<close>, with \<open>lc_rand seed i\<close> the \<open>i\<close>-th number after \<open>srand(seed)\<close>.
\<close>

subsection \<open>JSON\<close>

datatype json = JNull | JBool bool | JInt int | JFloat rat | JString string | JArray "json list" | JObject "(string \<times> json) list"

text \<open>\<open>std::invalid_argument\<close>, \<open>json::parse_error\<close>, any other exception; and a read outside a string,
  which is no exception but undefined.\<close>

datatype sample_exn = InvalidArgument string | ParseError string | OtherException | OutOfBounds

definition and_then :: "'e + 'a \<Rightarrow> ('a \<Rightarrow> 'e + 'b) \<Rightarrow> 'e + 'b" where
  "and_then x f = (case x of Inl e \<Rightarrow> Inl e | Inr v \<Rightarrow> f v)"

fun string_less :: "string \<Rightarrow> string \<Rightarrow> bool" where
  "string_less _ [] = False"
| "string_less [] (_ # _) = True"
| "string_less (a # s) (b # t) = (code a < code b \<or> a = b \<and> string_less s t)"

fun object_set :: "string \<Rightarrow> json \<Rightarrow> (string \<times> json) list \<Rightarrow> (string \<times> json) list" where
  "object_set k v [] = [(k, v)]"
| "object_set k v ((k1, v1) # m) =
     (if k = k1 then (k, v) # m else if string_less k k1 then (k, v) # (k1, v1) # m else (k1, v1) # object_set k v m)"

text \<open>\<open>j[k] = v\<close>.\<close>

fun json_set :: "string \<Rightarrow> json \<Rightarrow> json \<Rightarrow> sample_exn + json" where
  "json_set k v JNull = Inr (JObject [(k, v)])"
| "json_set k v (JObject m) = Inr (JObject (object_set k v m))"
| "json_set k v _ = Inl OtherException"

text \<open>\<open>j[k]\<close> read, \<open>j.find(k)\<close> and the conversion to a string.\<close>

fun json_index :: "json \<Rightarrow> string \<Rightarrow> sample_exn + json" where
  "json_index JNull k = Inr JNull"
| "json_index (JObject m) k = Inr (case map_of m k of None \<Rightarrow> JNull | Some v \<Rightarrow> v)"
| "json_index _ k = Inl OtherException"

fun json_contains :: "json \<Rightarrow> string \<Rightarrow> bool" where
  "json_contains (JObject m) k = (map_of m k \<noteq> None)"
| "json_contains _ k = False"

fun json_string :: "json \<Rightarrow> sample_exn + string" where
  "json_string (JString s) = Inr s"
| "json_string _ = Inl OtherException"

fun json_empty :: "json \<Rightarrow> bool" where
  "json_empty JNull = True"
| "json_empty (JArray xs) = (xs = [])"
| "json_empty (JObject m) = (m = [])"
| "json_empty _ = False"

text \<open>What a range-based \<open>for\<close> runs over: a value that is neither array nor object is its own only element.\<close>

fun json_elements :: "json \<Rightarrow> json list" where
  "json_elements JNull = []"
| "json_elements (JArray xs) = xs"
| "json_elements (JObject m) = map snd m"
| "json_elements j = [j]"

lemma json_set_index: "json_set k v j = Inr j' \<Longrightarrow> json_index j' k = Inr v"
proof (cases j)
  case (JObject m)
  assume a: "json_set k v j = Inr j'"
  have "map_of (object_set k v m) k = Some v" by (induction m rule: object_set.induct [of _ k v]) auto
  then show ?thesis using a JObject by auto
qed auto

lemma json_set_other: "json_set k v (JObject m) = Inr j \<Longrightarrow> k' \<noteq> k \<Longrightarrow> json_index j k' = json_index (JObject m) k'"
proof -
  assume "json_set k v (JObject m) = Inr j" "k' \<noteq> k"
  moreover have "map_of (object_set k v m) k' = map_of m k'" using \<open>k' \<noteq> k\<close> by (induction m rule: object_set.induct [of _ k v]) auto
  ultimately show ?thesis by auto
qed

subsection \<open>The C library\<close>

record timeval =
  tv_sec :: int
  tv_usec :: int

record tm =
  tm_year :: int
  tm_mon :: int
  tm_mday :: int
  tm_hour :: int
  tm_min :: int
  tm_sec :: int
  tm_gmtoff :: int

record libc =
  lc_time :: int
  lc_gmtoff :: "int \<Rightarrow> int"
  lc_strftime :: "int \<Rightarrow> string"
  lc_zone :: "int \<Rightarrow> string"
  lc_strptime :: "string \<Rightarrow> tm"
  lc_timelocal :: "tm \<Rightarrow> int"
  lc_rand :: "u32 \<Rightarrow> nat \<Rightarrow> nat"

definition RAND_MAX :: nat where
  "RAND_MAX = 2147483647"

text \<open>\<open>std::stoi\<close> on a short string: leading space, a sign, digits.\<close>

definition stoi :: "string \<Rightarrow> sample_exn + int" where
  "stoi s =
     (let r = snd (signed_prefix (skip_space s))
      in if r = [] \<or> \<not> c_isdigit (hd r) then Inl (InvalidArgument ''stoi'') else Inr (prefix_int (skip_space s)))"

subsection \<open>Times\<close>

definition mk_timestampMsIndex :: nat where
  "mk_timestampMsIndex = 20"

definition mk_timestampMsLength :: nat where
  "mk_timestampMsLength = 3"

definition mk_timestampTimezoneIndex :: nat where
  "mk_timestampTimezoneIndex = 23"

definition mk_timestampTimezoneMaxLength :: nat where
  "mk_timestampTimezoneMaxLength = 6"

definition mk_stringBuffLength :: nat where
  "mk_stringBuffLength = 64"

definition mk_maxRunLength :: u32 where
  "mk_maxRunLength = 60"

definition mk_roundingMagnitude :: rat where
  "mk_roundingMagnitude = 100"

definition mk_roundingThreshold :: rat where
  "mk_roundingThreshold = 1 / 2"

definition pad3 :: "int \<Rightarrow> string" where
  "pad3 n = (let s = string_of_int n in replicate (3 - length s) (CHR ''0'') @ s)"

definition GetCurrentTimeAsString :: "libc \<Rightarrow> string" where
  "GetCurrentTimeAsString lc =
     take (mk_stringBuffLength - 1) (lc_strftime lc (lc_time lc) @ ''.'' @ pad3 0 @ lc_zone lc (lc_time lc))"

definition TimevalToString :: "libc \<Rightarrow> timeval \<Rightarrow> string" where
  "TimevalToString lc tv =
     (let nowtime = tv_sec tv + lc_gmtoff lc (tv_sec tv)
      in take (mk_stringBuffLength - 1) (lc_strftime lc nowtime @ ''.'' @ pad3 (tv_usec tv) @ lc_zone lc nowtime))"

text \<open>The text up to the milliseconds and the time zone, as the two \<open>strncpy\<close> put them together.\<close>

definition timestamp_buffer :: "string \<Rightarrow> string" where
  "timestamp_buffer utcTimestamp =
     (let a = take (mk_timestampMsIndex - 1) (c_str utcTimestamp)
      in if length a < mk_timestampMsIndex - 1 then a
         else a @ take mk_timestampTimezoneMaxLength (c_str (drop mk_timestampTimezoneIndex utcTimestamp)))"

definition StringToTimeval :: "libc \<Rightarrow> string \<Rightarrow> sample_exn + timeval" where
  "StringToTimeval lc utcTimestamp =
     (if length utcTimestamp < mk_timestampTimezoneIndex then Inl OutOfBounds
      else let tm = lc_strptime lc (timestamp_buffer utcTimestamp)
           in and_then (stoi (take mk_timestampMsLength (c_str (drop mk_timestampMsIndex utcTimestamp)))) (\<lambda>ms.
                Inr \<lparr>tv_sec = lc_timelocal lc tm - tm_gmtoff tm, tv_usec = ms * 1000\<rparr>))"

text \<open>\<open>timercmp(a, b, >)\<close>.\<close>

definition timer_after :: "timeval \<Rightarrow> timeval \<Rightarrow> bool" where
  "timer_after a b = (if tv_sec a = tv_sec b then tv_usec a > tv_usec b else tv_sec a > tv_sec b)"

subsection \<open>Random values\<close>

text \<open>\<open>(float) rand() / (float) RAND_MAX\<close>.\<close>

definition rand_fraction :: "nat \<Rightarrow> rat" where
  "rand_fraction r = fl (fl (of_nat r) / fl (of_nat RAND_MAX))"

definition half :: "int \<Rightarrow> int" where
  "half n = (if n \<ge> 0 then n div 2 else - ((- n) div 2))"

text \<open>The seed, and the new start and end in seconds.\<close>

definition random_seed :: "timeval \<Rightarrow> timeval \<Rightarrow> u32" where
  "random_seed startTv endTv = word_of_int (half (tv_sec startTv + tv_sec endTv))"

definition random_times :: "(nat \<Rightarrow> nat) \<Rightarrow> timeval \<Rightarrow> timeval \<Rightarrow> int \<times> int" where
  "random_times rand startTv endTv =
     (let avgSeconds = random_seed startTv endTv;
          lateRange = (word_of_int (tv_sec endTv - uint avgSeconds) :: u32);
          randSeconds = fl (rand_fraction (rand 0) * fl (of_nat (unat lateRange)));
          newEnd = float_to_int (fl (fl (of_int (tv_sec endTv)) - randSeconds));
          startEndInterval = (if lateRange > mk_maxRunLength then mk_maxRunLength else lateRange)
      in (newEnd - uint startEndInterval, newEnd))"

definition RandomizeTimeValues :: "libc \<Rightarrow> json \<Rightarrow> string \<Rightarrow> string \<Rightarrow> sample_exn + u32 \<times> json" where
  "RandomizeTimeValues lc response startTime endTime =
     and_then (StringToTimeval lc startTime) (\<lambda>startTv.
     and_then (StringToTimeval lc endTime) (\<lambda>endTv.
       case random_times (lc_rand lc (random_seed startTv endTv)) startTv endTv of (newStart, newEnd) \<Rightarrow>
         and_then (json_set ''batchEnd'' (JString (TimevalToString lc \<lparr>tv_sec = newEnd, tv_usec = 0\<rparr>)) response) (\<lambda>r1.
         and_then (json_set ''batchStart'' (JString (TimevalToString lc \<lparr>tv_sec = newStart, tv_usec = 0\<rparr>)) r1) (\<lambda>r2.
           Inr (random_seed startTv endTv, r2)))))"

definition random_grade :: "nat \<Rightarrow> rat" where
  "random_grade r = fl (of_int (float_to_int (fl (fl (rand_fraction r * mk_roundingMagnitude) + mk_roundingThreshold))) / mk_roundingMagnitude)"

definition RandomizeGradeValue :: "nat \<Rightarrow> json \<Rightarrow> sample_exn + json" where
  "RandomizeGradeValue r grade =
     and_then (json_set ''value'' (JFloat (random_grade r)) grade) (\<lambda>g. json_set ''confidenceScore'' (JFloat 1) g)"

text \<open>The loop over the requested grades, with the numbers from the \<open>i\<close>-th on.\<close>

fun random_grades :: "(nat \<Rightarrow> nat) \<Rightarrow> nat \<Rightarrow> json list \<Rightarrow> sample_exn + json list" where
  "random_grades rand i [] = Inr []"
| "random_grades rand i (g # gs) =
     and_then (RandomizeGradeValue (rand i) g) (\<lambda>g1. and_then (random_grades rand (i + 1) gs) (\<lambda>gs1. Inr (g1 # gs1)))"

definition response_grades :: "(nat \<Rightarrow> nat) \<Rightarrow> json \<Rightarrow> sample_exn + json" where
  "response_grades rand grades =
     (if \<not> json_empty grades then and_then (random_grades rand 2 (json_elements grades)) (\<lambda>gs. Inr (JArray gs))
      else and_then (RandomizeGradeValue (rand 2) (JObject [(''element'', JString ''Cu'')])) (\<lambda>g. Inr (JArray [g])))"

definition random_batch :: "nat \<Rightarrow> string" where
  "random_batch r = string_of_int (float_to_int (fl (rand_fraction r * 100)))"

definition response_head :: "string \<Rightarrow> string \<Rightarrow> json" where
  "response_head requestId haulingUnitId =
     JObject [(''haulingUnitID'', JString haulingUnitId), (''requestID'', JString requestId), (''systemID'', JString ''testServer''),
              (''type'', JString ''gradeResponse''), (''version'', JString ''2.3'')]"

definition GetGradeResponse :: "libc \<Rightarrow> string \<Rightarrow> string \<Rightarrow> string \<Rightarrow> string \<Rightarrow> json \<Rightarrow> sample_exn + json" where
  "GetGradeResponse lc requestId haulingUnitId startTime endTime grades =
     and_then (RandomizeTimeValues lc (response_head requestId haulingUnitId) startTime endTime) (\<lambda>(seed, r1).
     and_then (json_set ''batchID'' (JString (random_batch (lc_rand lc seed 1))) r1) (\<lambda>r2.
     and_then (response_grades (lc_rand lc seed) grades) (\<lambda>newGrades. json_set ''grades'' newGrades r2)))"

subsection \<open>Random values are in range\<close>

lemma rand_fraction_range:
  assumes "r \<le> RAND_MAX"
  shows "0 \<le> rand_fraction r \<and> rand_fraction r \<le> 1"
proof -
  have R: "fl (of_nat RAND_MAX) = 2147483648"
    using fl_near [of 2147483647 7 16777216] by (simp add: RAND_MAX_def pow2_def)
  have r: "(of_nat r :: rat) \<le> 2147483648" using assms by (simp add: RAND_MAX_def)
  have "fl (of_nat r) \<le> 2147483648"
    by (rule fl_le [OF _ r, where m = "2 ^ 23" and e = 8]) (simp_all add: pow2_def)
  then have q: "0 \<le> fl (of_nat r) / fl (of_nat RAND_MAX)" "fl (of_nat r) / fl (of_nat RAND_MAX) \<le> 1"
    using fl_nonneg [of "of_nat r"] by (simp_all add: R)
  have "rand_fraction r \<le> 1" unfolding rand_fraction_def
    by (rule fl_le [OF q, where m = "2 ^ 23" and e = "-23"]) (simp_all add: pow2_def)
  then show ?thesis using fl_nonneg [OF q(1)] by (simp add: rand_fraction_def)
qed

lemma float_to_int_range: "0 \<le> x \<Longrightarrow> x \<le> of_int n \<Longrightarrow> 0 \<le> float_to_int x \<and> float_to_int x \<le> n"
  by (simp add: float_to_int_def) (metis floor_mono floor_of_int)

lemma hundred: "0 \<le> x \<Longrightarrow> x \<le> 1 \<Longrightarrow> 0 \<le> fl (x * 100) \<and> fl (x * 100) \<le> 100"
proof -
  assume "0 \<le> x" "x \<le> 1"
  then have x: "0 \<le> x * 100" "x * 100 \<le> 100" by simp_all
  have "fl (x * 100) \<le> 100" by (rule fl_le [OF x, where m = 13107200 and e = "- 17"]) (simp_all add: pow2_def)
  then show ?thesis using fl_nonneg [OF x(1)] by simp
qed

text \<open>
  The random values of a response are in range, in the arithmetic of \<open>float\<close>: for every number
  \<open>rand\<close> can return, the batch number is from 0 to 100 and a grade is a multiple of a hundredth, rounded
  to \<open>float\<close>, from 0 to 1.
\<close>

theorem random_values_in_range:
  assumes "r \<le> RAND_MAX"
  shows "\<exists>b k. random_batch r = string_of_int b \<and> 0 \<le> b \<and> b \<le> 100 \<and>
    random_grade r = fl (of_int k / 100) \<and> 0 \<le> k \<and> k \<le> 100 \<and> 0 \<le> random_grade r \<and> random_grade r \<le> 1"
proof -
  note q = rand_fraction_range [OF assms]
  have h: "0 \<le> fl (rand_fraction r * 100) \<and> fl (rand_fraction r * 100) \<le> 100" using hundred q by blast
  have b: "0 \<le> float_to_int (fl (rand_fraction r * 100)) \<and> float_to_int (fl (rand_fraction r * 100)) \<le> 100"
    using float_to_int_range [of _ 100] h by simp
  let ?x = "fl (rand_fraction r * 100) + 1 / 2"
  have x: "0 \<le> ?x" "?x \<le> 201 / 2" using h by simp_all
  have "fl ?x \<le> 201 / 2" by (rule fl_le [OF x, where m = 13172736 and e = "-17"]) (simp_all add: pow2_def)
  then have y: "0 \<le> fl ?x" "fl ?x \<le> 201 / 2" using fl_nonneg [OF x(1)] by simp_all
  define k where "k = float_to_int (fl ?x)"
  have k: "0 \<le> k" "k \<le> 100" using y by (simp_all add: k_def float_to_int_def)
  have g: "random_grade r = fl (of_int k / 100)" by (simp add: random_grade_def k_def mk_roundingMagnitude_def mk_roundingThreshold_def)
  have kk: "0 \<le> (of_int k / 100 :: rat)" "(of_int k / 100 :: rat) \<le> 1" using k by simp_all
  have "fl (of_int k / 100) \<le> 1" by (rule fl_le [OF kk, where m = "2 ^ 23" and e = "-23"]) (simp_all add: pow2_def)
  then show ?thesis using b k g fl_nonneg [OF kk(1)]
    by (intro exI [of _ "float_to_int (fl (rand_fraction r * 100))"] exI [of _ k]) (simp add: random_batch_def)
qed

theorem random_values_in_range_witness:
  "\<exists>b. random_batch 12345 = string_of_int b \<and> 0 \<le> b \<and> b \<le> 100"
  using random_values_in_range [of 12345] by (auto simp: RAND_MAX_def)

text \<open>The lowest number gives batch 0, where the comment in the code says 1 to 100.\<close>

lemma batch_zero: "random_batch 0 = ''0''"
  by (simp add: random_batch_def rand_fraction_def fl_def float_to_int_def string_of_int_def digit_char_def string_of_nat.simps [of 0])
    code_simp

subsection \<open>Times of a response\<close>

text \<open>
  The length of the batch in a response does not depend on chance: for a request whose times are
  in order and fit 32 bits, it is the second half of the requested range, and at most a minute.
\<close>

theorem batch_length:
  assumes "0 \<le> tv_sec s" "tv_sec s \<le> tv_sec e" "tv_sec e < 2 ^ 32"
  shows "snd (random_times rand s e) - fst (random_times rand s e) = min (tv_sec e - (tv_sec s + tv_sec e) div 2) 60"
proof -
  let ?h = "(tv_sec s + tv_sec e) div 2"
  have h: "0 \<le> ?h" "?h \<le> tv_sec e" "?h < 2 ^ 32" using assms by linarith+
  have u: "uint (word_of_int n :: u32) = n" if "0 \<le> n" "n < 2 ^ 32" for n
    using that by (simp add: uint_word_of_int)
  have seed: "uint (random_seed s e) = ?h" using h assms u [of ?h] by (simp add: random_seed_def half_def)
  define L :: u32 where "L = word_of_int (tv_sec e - ?h)"
  have r: "uint L = tv_sec e - ?h" unfolding L_def using h assms by (intro u) linarith+
  have m: "uint mk_maxRunLength = 60" by (simp add: mk_maxRunLength_def)
  have "L > mk_maxRunLength \<longleftrightarrow> tv_sec e - ?h > 60" unfolding word_less_def m r ..
  then show ?thesis unfolding random_times_def Let_def seed L_def [symmetric] by (simp add: r m min_def)
qed

theorem batch_length_witness:
  "snd (random_times (\<lambda>_. 7) \<lparr>tv_sec = 1000, tv_usec = 0\<rparr> \<lparr>tv_sec = 1090, tv_usec = 0\<rparr>)
     - fst (random_times (\<lambda>_. 7) \<lparr>tv_sec = 1000, tv_usec = 0\<rparr> \<lparr>tv_sec = 1090, tv_usec = 0\<rparr>) = 45"
  using batch_length [of "\<lparr>tv_sec = 1000, tv_usec = 0\<rparr>" "\<lparr>tv_sec = 1090, tv_usec = 0\<rparr>" "\<lambda>_. 7"] by simp

text \<open>
  The times of a response can lie outside the request: seconds since 1970 do not fit the 24 bits
  of a \<open>float\<close>. For the request the sample client sends by default, from 22:17:00 to 22:19:00 on
  2019-07-17, the batch ends at 22:19:44, whatever \<open>rand\<close> returns.
\<close>

theorem default_request_ends_late:
  assumes "rand 0 \<le> RAND_MAX"
  shows "random_times rand \<lparr>tv_sec = 1563401820, tv_usec = 0\<rparr> \<lparr>tv_sec = 1563401940, tv_usec = 0\<rparr> =
    (1563401940 + 44 - 60, 1563401940 + 44)"
proof -
  have sixty: "fl 60 = 60" using fl_near [of 60 "-18" 15728640] by (simp add: pow2_def)
  define x where "x = fl (rand_fraction (rand 0) * 60)"
  have q: "0 \<le> rand_fraction (rand 0) * 60" "rand_fraction (rand 0) * 60 \<le> 60" using rand_fraction_range [OF assms] by simp_all
  have x: "0 \<le> x" "x \<le> 60" unfolding x_def
    using fl_nonneg [OF q(1)] fl_le [OF q, of 15728640 "-18"] by (simp_all add: pow2_def)
  have e: "fl 1563401940 = 1563401984" using fl_near [of 1563401940 7 12214078] by (simp add: pow2_def)
  have "fl (1563401984 - x) = 1563401984" using fl_near [of "1563401984 - x" 7 12214078] x by (simp add: pow2_def abs_if)
  moreover have "random_seed \<lparr>tv_sec = 1563401820, tv_usec = 0\<rparr> \<lparr>tv_sec = 1563401940, tv_usec = 0\<rparr> = 1563401880"
    by (simp add: random_seed_def half_def)
  ultimately show ?thesis
    by (simp add: random_times_def Let_def x_def [symmetric] sixty e float_to_int_def mk_maxRunLength_def)
qed

theorem default_request_ends_late_witness:
  "snd (random_times (\<lambda>_. 1804289383) \<lparr>tv_sec = 1563401820, tv_usec = 0\<rparr> \<lparr>tv_sec = 1563401940, tv_usec = 0\<rparr>) = 1563401984"
  using default_request_ends_late [of "\<lambda>_. 1804289383"] by (simp add: RAND_MAX_def)

end
