(* ===== verification/Cobra.thy ===== *)
theory Cobra
  imports WebSocket SampleDataStore Base64
begin

section \<open>The Cobra connection\<close>

text \<open>
  \<^verbatim>\<open>ixcobra/IXCobraConnection.cpp\<close>, a publish/subscribe protocol over a WebSocket object, and \<^verbatim>\<open>ixcrypto/IXHMac.cpp\<close>.
  JSON values are those of \<open>SampleDataStore\<close>, integers of both signs in one constructor; the operations
  of \<^verbatim>\<open>jsoncpp\<close> that differ from the other JSON library are defined here. The parser, the writers, the text of
  floating-point numbers and the keyed digest are parameters. The calls of the user's callbacks and
  of the trackers are collected in \<open>cb_calls\<close> and do not call back. An exception that leaves a
  function is \<open>Thrown\<close>.
\<close>

subsection \<open>Results\<close>

datatype 'a cobra_result = Done 'a | Thrown | Undefined | Stuck

fun cbind :: "'a cobra_result \<Rightarrow> ('a \<Rightarrow> 'b cobra_result) \<Rightarrow> 'b cobra_result" where
  "cbind (Done x) f = f x"
| "cbind Thrown f = Thrown"
| "cbind Undefined f = Undefined"
| "cbind Stuck f = Stuck"

fun unthrow :: "sample_exn + 'a \<Rightarrow> 'a cobra_result" where
  "unthrow (Inl e) = Thrown"
| "unthrow (Inr x) = Done x"

lemma cbind_Done: "cbind x f = Done y \<longleftrightarrow> (\<exists>z. x = Done z \<and> f z = Done y)"
  by (cases x) simp_all

subsection \<open>JSON values\<close>

fun isMember :: "json \<Rightarrow> string \<Rightarrow> sample_exn + bool" where
  "isMember JNull k = Inr False"
| "isMember (JObject m) k = Inr (map_of m k \<noteq> None)"
| "isMember _ k = Inl OtherException"

fun isObject :: "json \<Rightarrow> bool" where
  "isObject (JObject m) = True"
| "isObject _ = False"

fun asString :: "(rat \<Rightarrow> string) \<Rightarrow> json \<Rightarrow> sample_exn + string" where
  "asString floatText JNull = Inr []"
| "asString floatText (JString s) = Inr s"
| "asString floatText (JBool b) = Inr (if b then ''true'' else ''false'')"
| "asString floatText (JInt i) = Inr (string_of_int i)"
| "asString floatText (JFloat r) = Inr (floatText r)"
| "asString floatText _ = Inl OtherException"

text \<open>\<open>isUInt64\<close> and \<open>asUInt64\<close>.\<close>

fun json_u64 :: "json \<Rightarrow> u64 option" where
  "json_u64 (JInt i) = (if i \<ge> 0 then Some (word_of_int i) else None)"
| "json_u64 (JFloat r) = (if 0 \<le> r \<and> r < 2 ^ 64 \<and> r = of_int \<lfloor>r\<rfloor> then Some (word_of_int \<lfloor>r\<rfloor>) else None)"
| "json_u64 _ = None"

fun value_elements :: "json \<Rightarrow> json list" where
  "value_elements (JArray xs) = xs"
| "value_elements (JObject m) = map snd m"
| "value_elements _ = []"

text \<open>\<open>if (!v.isMember(k)) return missing; x = v[k]\<close>.\<close>

definition with_member :: "string \<Rightarrow> json \<Rightarrow> 'a cobra_result \<Rightarrow> (json \<Rightarrow> 'a cobra_result) \<Rightarrow> 'a cobra_result" where
  "with_member k v missing f =
     cbind (unthrow (isMember v k)) (\<lambda>found. if \<not> found then missing else cbind (unthrow (json_index v k)) f)"

text \<open>An object that is put together key by key.\<close>

definition object_of :: "(string \<times> json) list \<Rightarrow> json" where
  "object_of kvs = JObject (fold (\<lambda>(k, v). object_set k v) kvs [])"

subsection \<open>State\<close>

datatype CobraConnectionEventType =
  EventAuthenticated | EventError | EventOpen | EventClosed | EventSubscribed | EventUnSubscribed | EventPublished

datatype CobraConnectionPublishMode = PublishImmediate | PublishBatch

datatype cobra_call =
  EventCallback CobraConnectionEventType string WebSocketHttpHeaders string u64
| TrafficTracker nat bool
| PublishTracker bool bool
| SubscriptionCallback nat json

record 'z cobra =
  cb_webSocket :: "'z websocket"
  cb_roleName :: string
  cb_roleSecret :: string
  cb_publishMode :: CobraConnectionPublishMode
  cb_authenticated :: bool
  cb_body :: json
  cb_pdu :: json
  cb_eventCallback :: bool
  cb_trafficTracker :: bool
  cb_publishTracker :: bool
  cb_cbs :: "string \<rightharpoonup> nat option"
  cb_messageQueue :: "string list"
  cb_id :: u64
  cb_calls :: "cobra_call list"

record 'z cobra_env =
  ce_tenv :: "'z tenv"
  ce_atts :: "nat \<Rightarrow> 'z attempt"
  ce_unfit :: "nat \<Rightarrow> u32"
  ce_parse :: "string \<Rightarrow> json option"
  ce_write :: "json \<Rightarrow> string"
  ce_styled :: "json \<Rightarrow> string"
  ce_floatText :: "rat \<Rightarrow> string"
  ce_doubleText :: "nat \<Rightarrow> string"
  ce_hmacMd5 :: "string \<Rightarrow> string \<Rightarrow> byte list"

definition kQueueMaxSize :: nat where
  "kQueueMaxSize = 256"

definition CobraConnection_new :: "bool \<Rightarrow> bool \<Rightarrow> 'z transport \<Rightarrow> 'z cobra" where
  "CobraConnection_new traffic publishes t =
     \<lparr>cb_webSocket = WebSocket_new t, cb_roleName = [], cb_roleSecret = [], cb_publishMode = PublishImmediate, cb_authenticated = False,
      cb_body = JNull, cb_pdu = object_of [(''action'', JString ''rtm/publish'')], cb_eventCallback = False, cb_trafficTracker = traffic,
      cb_publishTracker = publishes, cb_cbs = Map.empty, cb_messageQueue = [], cb_id = 0, cb_calls = []\<rparr>"

subsection \<open>Callbacks\<close>

definition cobra_call_out :: "cobra_call \<Rightarrow> 'z cobra \<Rightarrow> 'z cobra" where
  "cobra_call_out x c = c\<lparr>cb_calls := cb_calls c @ [x]\<rparr>"

definition invokeTrafficTrackerCallback :: "nat \<Rightarrow> bool \<Rightarrow> 'z cobra \<Rightarrow> 'z cobra" where
  "invokeTrafficTrackerCallback n incoming c = (if cb_trafficTracker c then cobra_call_out (TrafficTracker n incoming) c else c)"

definition invokePublishTrackerCallback :: "bool \<Rightarrow> bool \<Rightarrow> 'z cobra \<Rightarrow> 'z cobra" where
  "invokePublishTrackerCallback was_sent acked c = (if cb_publishTracker c then cobra_call_out (PublishTracker was_sent acked) c else c)"

text \<open>The static setters of the trackers, seen by this connection; no callback resets them.\<close>

definition setTrafficTrackerCallback :: "bool \<Rightarrow> 'z cobra \<Rightarrow> 'z cobra" where
  "setTrafficTrackerCallback callback c = c\<lparr>cb_trafficTracker := callback\<rparr>"

definition setPublishTrackerCallback :: "bool \<Rightarrow> 'z cobra \<Rightarrow> 'z cobra" where
  "setPublishTrackerCallback callback c = c\<lparr>cb_publishTracker := callback\<rparr>"

definition setEventCallback :: "bool \<Rightarrow> 'z cobra \<Rightarrow> 'z cobra" where
  "setEventCallback callback c = c\<lparr>cb_eventCallback := callback\<rparr>"

definition invokeEventCallback ::
  "CobraConnectionEventType \<Rightarrow> string \<Rightarrow> WebSocketHttpHeaders \<Rightarrow> string \<Rightarrow> u64 \<Rightarrow> 'z cobra \<Rightarrow> 'z cobra" where
  "invokeEventCallback eventType errorMsg headers subscriptionId msgId c =
     (if cb_eventCallback c then cobra_call_out (EventCallback eventType errorMsg headers subscriptionId msgId) c else c)"

definition invokeErrorCallback :: "string \<Rightarrow> string \<Rightarrow> 'z cobra \<Rightarrow> 'z cobra" where
  "invokeErrorCallback errorMsg serializedPdu c =
     invokeEventCallback EventError (errorMsg @ '' : received pdu => '' @ serializedPdu) [] [] (- 1) c"

subsection \<open>Sending\<close>

text \<open>The callback for a closed connection; during a send the WebSocket object calls back for this only.\<close>

definition cobra_closed :: "WebSocketMessage \<Rightarrow> 'z cobra \<Rightarrow> 'z cobra" where
  "cobra_closed msg c =
     invokeEventCallback EventClosed
       (''Close code '' @ string_of_nat (unat (ci_code (msg_closeInfo msg))) @ '' reason '' @ ci_reason (msg_closeInfo msg)) [] [] (- 1)
       (c\<lparr>cb_authenticated := False\<rparr>)"

fun cobra_during_send :: "ws_call \<Rightarrow> 'z cobra \<Rightarrow> 'z cobra" where
  "cobra_during_send (OnMessageCallback msg) c =
     (if msg_type msg = Close then cobra_closed msg (invokeTrafficTrackerCallback (msg_wireSize msg) True c) else c)"
| "cobra_during_send (OnTraffic n incoming) c = c"

definition new_calls :: "'z websocket \<Rightarrow> 'z websocket \<Rightarrow> ws_call list" where
  "new_calls w w1 = drop (length (ws_calls w)) (ws_calls w1)"

definition cobra_send :: "'z cobra_env \<Rightarrow> string \<Rightarrow> 'z cobra \<Rightarrow> (WebSocketSendInfo \<times> 'z cobra) cobra_result" where
  "cobra_send env txt0 c =
     (case ws_send (ce_tenv env) txt0 False None (cb_webSocket c) of
        Ret (info, w) \<Rightarrow> Done (info, fold cobra_during_send (new_calls (cb_webSocket c) w) (c\<lparr>cb_webSocket := w\<rparr>))
      | Fault \<Rightarrow> Undefined
      | Hang \<Rightarrow> Stuck)"

definition take_id :: "'z cobra \<Rightarrow> json \<times> 'z cobra" where
  "take_id c = (JInt (uint (cb_id c)), c\<lparr>cb_id := cb_id c + 1\<rparr>)"

definition handshake_pdu :: "string \<Rightarrow> json \<Rightarrow> json" where
  "handshake_pdu role n =
     object_of [(''action'', JString ''auth/handshake''),
       (''body'', object_of [(''data'', object_of [(''role'', JString role)]), (''method'', JString ''role_secret'')]), (''id'', n)]"

definition sendHandshakeMessage :: "'z cobra_env \<Rightarrow> 'z cobra \<Rightarrow> (bool \<times> 'z cobra) cobra_result" where
  "sendHandshakeMessage env c =
     (case take_id c of (n, c1) \<Rightarrow>
        let serializedJson = ce_write env (handshake_pdu (cb_roleName c) n)
        in cbind (cobra_send env serializedJson (invokeTrafficTrackerCallback (length serializedJson) False c1))
             (\<lambda>(info, c2). Done (si_success info, c2)))"

text \<open>The digest has sixteen octets.\<close>

definition hmac :: "(string \<Rightarrow> string \<Rightarrow> byte list) \<Rightarrow> string \<Rightarrow> string \<Rightarrow> string option" where
  "hmac md5 data key = base64_encode (md5 key data) 16"

definition auth_pdu :: "string \<Rightarrow> json \<Rightarrow> json" where
  "auth_pdu digest n =
     object_of [(''action'', JString ''auth/authenticate''),
       (''body'', object_of [(''credentials'', object_of [(''hash'', JString digest)]), (''method'', JString ''role_secret'')]), (''id'', n)]"

definition sendAuthMessage :: "'z cobra_env \<Rightarrow> string \<Rightarrow> 'z cobra \<Rightarrow> (bool \<times> 'z cobra) cobra_result" where
  "sendAuthMessage env nonce c =
     (case hmac (ce_hmacMd5 env) nonce (cb_roleSecret c) of
        None \<Rightarrow> Undefined
      | Some digest \<Rightarrow>
          (case take_id c of (n, c1) \<Rightarrow>
             let serializedJson = ce_write env (auth_pdu digest n)
             in cbind (cobra_send env serializedJson (invokeTrafficTrackerCallback (length serializedJson) False c1))
                  (\<lambda>(info, c2). Done (si_success info, c2))))"

definition publishMessage :: "'z cobra_env \<Rightarrow> string \<Rightarrow> 'z cobra \<Rightarrow> (bool \<times> 'z cobra) cobra_result" where
  "publishMessage env serializedJson c =
     cbind (cobra_send env serializedJson c)
       (\<lambda>(info, c1). Done (si_success info, invokeTrafficTrackerCallback (si_wireSize info) False c1))"

subsection \<open>The queue\<close>

definition enqueue :: "string \<Rightarrow> 'z cobra \<Rightarrow> 'z cobra" where
  "enqueue msg c =
     (let q = (if length (cb_messageQueue c) = kQueueMaxSize then butlast (cb_messageQueue c) else cb_messageQueue c)
      in c\<lparr>cb_messageQueue := msg # q\<rparr>)"

text \<open>The loop of \<open>flushQueue\<close>, which holds the mutex of the queue \<open>q\<close>. A message is taken off behind its
  publication; one that fails is appended, and still there.\<close>

function flush_loop :: "'z cobra_env \<Rightarrow> string list \<Rightarrow> 'z cobra \<Rightarrow> (bool \<times> 'z cobra) cobra_result" where
  "flush_loop env q c =
     (if q = [] then Done (True, c\<lparr>cb_messageQueue := []\<rparr>)
      else cbind (publishMessage env (last q) c) (\<lambda>(ok, c1).
        if \<not> ok then Done (False, c1\<lparr>cb_messageQueue := q @ [last q]\<rparr>)
        else flush_loop env (butlast q) c1))"
  by auto
termination by (relation "measure (\<lambda>(env, q, c). length q)") auto

declare flush_loop.simps [simp del]

definition cobra_flushQueue :: "'z cobra_env \<Rightarrow> 'z cobra \<Rightarrow> (bool \<times> 'z cobra) cobra_result" where
  "cobra_flushQueue env c = flush_loop env (cb_messageQueue c) c"

subsection \<open>Messages from the server\<close>

definition handleHandshakeResponse :: "'z cobra_env \<Rightarrow> json \<Rightarrow> 'z cobra \<Rightarrow> (bool \<times> 'z cobra) cobra_result" where
  "handleHandshakeResponse env pdu c =
     (if \<not> isObject pdu then Done (False, c)
      else with_member ''body'' pdu (Done (False, c)) (\<lambda>body.
        with_member ''data'' body (Done (False, c)) (\<lambda>data.
          with_member ''nonce'' data (Done (False, c)) (\<lambda>nonce.
            case nonce of JString s \<Rightarrow> sendAuthMessage env s c | _ \<Rightarrow> Done (False, c)))))"

definition subscription_response :: "CobraConnectionEventType \<Rightarrow> json \<Rightarrow> 'z cobra \<Rightarrow> (bool \<times> 'z cobra) cobra_result" where
  "subscription_response eventType pdu c =
     (if \<not> isObject pdu then Done (False, c)
      else with_member ''body'' pdu (Done (False, c)) (\<lambda>body.
        with_member ''subscription_id'' body (Done (False, c)) (\<lambda>subscriptionId.
          case subscriptionId of JString s \<Rightarrow> Done (True, invokeEventCallback eventType [] [] s (- 1) c) | _ \<Rightarrow> Done (False, c))))"

definition handleSubscriptionResponse :: "json \<Rightarrow> 'z cobra \<Rightarrow> (bool \<times> 'z cobra) cobra_result" where
  "handleSubscriptionResponse pdu c = subscription_response EventSubscribed pdu c"

definition handleUnsubscriptionResponse :: "json \<Rightarrow> 'z cobra \<Rightarrow> (bool \<times> 'z cobra) cobra_result" where
  "handleUnsubscriptionResponse pdu c = subscription_response EventUnSubscribed pdu c"

text \<open>An empty callback throws when it is called.\<close>

fun deliver_all :: "nat option \<Rightarrow> json list \<Rightarrow> 'z cobra \<Rightarrow> 'z cobra cobra_result" where
  "deliver_all cb [] c = Done c"
| "deliver_all None (m # ms) c = Thrown"
| "deliver_all (Some f) (m # ms) c = deliver_all (Some f) ms (cobra_call_out (SubscriptionCallback f m) c)"

definition handleSubscriptionData :: "'z cobra_env \<Rightarrow> json \<Rightarrow> 'z cobra \<Rightarrow> (bool \<times> 'z cobra) cobra_result" where
  "handleSubscriptionData env pdu c =
     (if \<not> isObject pdu then Done (False, c)
      else with_member ''body'' pdu (Done (False, c)) (\<lambda>body.
        with_member ''subscription_id'' body (Done (False, c)) (\<lambda>subscriptionId.
          cbind (unthrow (asString (ce_floatText env) subscriptionId)) (\<lambda>channel.
            case cb_cbs c channel of
              None \<Rightarrow> Done (False, c)
            | Some cb \<Rightarrow>
                with_member ''messages'' body (Done (False, c)) (\<lambda>messages.
                  cbind (deliver_all cb (value_elements messages) c) (\<lambda>c1. Done (True, c1)))))))"

definition handlePublishResponse :: "json \<Rightarrow> 'z cobra \<Rightarrow> (bool \<times> 'z cobra) cobra_result" where
  "handlePublishResponse pdu c =
     (if \<not> isObject pdu then Done (False, c)
      else with_member ''id'' pdu (Done (False, c)) (\<lambda>n.
        case json_u64 n of
          None \<Rightarrow> Done (False, c)
        | Some msgId \<Rightarrow> Done (True, invokePublishTrackerCallback False True (invokeEventCallback EventPublished [] [] [] msgId c))))"

text \<open>The result of a handler, reported as an error when it is false.\<close>

definition or_error :: "string \<Rightarrow> string \<Rightarrow> (bool \<times> 'z cobra) cobra_result \<Rightarrow> 'z cobra cobra_result" where
  "or_error errorMsg str r = cbind r (\<lambda>(ok, c). Done (if ok then c else invokeErrorCallback errorMsg str c))"

definition cobra_action :: "'z cobra_env \<Rightarrow> string \<Rightarrow> string \<Rightarrow> json \<Rightarrow> 'z cobra \<Rightarrow> 'z cobra cobra_result" where
  "cobra_action env str action data c =
     (if action = ''auth/handshake/ok'' then or_error ''Error extracting nonce from handshake response'' str (handleHandshakeResponse env data c)
      else if action = ''auth/handshake/error'' then Done (invokeErrorCallback ''Handshake error'' str c)
      else if action = ''auth/authenticate/ok'' then
        cbind (cobra_flushQueue env (invokeEventCallback EventAuthenticated [] [] [] (- 1) (c\<lparr>cb_authenticated := True\<rparr>))) (\<lambda>(ok, c1). Done c1)
      else if action = ''auth/authenticate/error'' then Done (invokeErrorCallback ''Authentication error'' str c)
      else if action = ''rtm/subscription/data'' then cbind (handleSubscriptionData env data c) (\<lambda>(ok, c1). Done c1)
      else if action = ''rtm/subscribe/ok'' then or_error ''Error processing subscribe response'' str (handleSubscriptionResponse data c)
      else if action = ''rtm/subscribe/error'' then Done (invokeErrorCallback ''Subscription error'' str c)
      else if action = ''rtm/unsubscribe/ok'' then or_error ''Error processing unsubscribe response'' str (handleUnsubscriptionResponse data c)
      else if action = ''rtm/unsubscribe/error'' then Done (invokeErrorCallback ''Unsubscription error'' str c)
      else if action = ''rtm/publish/ok'' then or_error ''Error processing publish response'' str (handlePublishResponse data c)
      else if action = ''rtm/publish/error'' then Done (invokeErrorCallback ''Publish error'' str c)
      else Done (invokeErrorCallback ''Un-handled message type'' str c))"

definition cobra_text :: "'z cobra_env \<Rightarrow> string \<Rightarrow> 'z cobra \<Rightarrow> 'z cobra cobra_result" where
  "cobra_text env str c =
     (case ce_parse env str of
        None \<Rightarrow> Done (invokeErrorCallback ''Invalid json'' str c)
      | Some data \<Rightarrow>
          with_member ''action'' data (Done (invokeErrorCallback ''Missing action'' str c)) (\<lambda>a.
            cbind (unthrow (asString (ce_floatText env) a)) (\<lambda>action. cobra_action env str action data c)))"

definition cobra_onMessage :: "'z cobra_env \<Rightarrow> WebSocketMessage \<Rightarrow> 'z cobra \<Rightarrow> 'z cobra cobra_result" where
  "cobra_onMessage env msg c0 =
     (let c = invokeTrafficTrackerCallback (msg_wireSize msg) True c0
      in case msg_type msg of
           Open \<Rightarrow>
             cbind (sendHandshakeMessage env (invokeEventCallback EventOpen [] (oi_headers (msg_openInfo msg)) [] (- 1) c)) (\<lambda>(ok, c1). Done c1)
         | Close \<Rightarrow> Done (cobra_closed msg c)
         | Message \<Rightarrow> cobra_text env (msg_str msg) c
         | Error \<Rightarrow>
             Done (invokeErrorCallback
               (''Connection error: '' @ ei_reason (msg_errorInfo msg) @ [LF]
                @ ''#retries: '' @ string_of_nat (unat (ei_retries (msg_errorInfo msg))) @ [LF]
                @ ''Wait time(ms): '' @ ce_doubleText env (ei_wait_time (msg_errorInfo msg)) @ [LF]
                @ ''HTTP Status: '' @ string_of_int (ei_http_status (msg_errorInfo msg)) @ [LF]) [] c)
         | _ \<Rightarrow> Done c)"

fun cobra_handle :: "'z cobra_env \<Rightarrow> WebSocketMessage list \<Rightarrow> 'z cobra \<Rightarrow> 'z cobra cobra_result" where
  "cobra_handle env [] c = Done c"
| "cobra_handle env (m # ms) c = cbind (cobra_onMessage env m c) (cobra_handle env ms)"

subsection \<open>Calls of the user\<close>

definition cobra_configure :: "string \<Rightarrow> string \<Rightarrow> string \<Rightarrow> string \<Rightarrow> deflate_options \<Rightarrow> 'z cobra \<Rightarrow> 'z cobra" where
  "cobra_configure appkey endpoint rolename rolesecret opts c =
     c\<lparr>cb_roleName := rolename, cb_roleSecret := rolesecret,
       cb_webSocket := setPerMessageDeflateOptions opts (setUrl (endpoint @ ''/v2?appkey='' @ appkey) (cb_webSocket c))\<rparr>"

definition setPublishMode :: "CobraConnectionPublishMode \<Rightarrow> 'z cobra \<Rightarrow> 'z cobra" where
  "setPublishMode mode c = c\<lparr>cb_publishMode := mode\<rparr>"

definition cobra_connect :: "'z cobra \<Rightarrow> bool \<times> 'z cobra" where
  "cobra_connect c = (True, c\<lparr>cb_webSocket := ws_start (cb_webSocket c)\<rparr>)"

text \<open>What the thread of the WebSocket object still delivers before it is joined goes to the callback;
  the object is no longer open then, so that nothing is sent.\<close>

definition cobra_messages :: "ws_call list \<Rightarrow> WebSocketMessage list" where
  "cobra_messages calls = concat (map (\<lambda>x. case x of OnMessageCallback m \<Rightarrow> [m] | OnTraffic n incoming \<Rightarrow> []) calls)"

definition cobra_disconnect :: "'z cobra_env \<Rightarrow> 'z cobra \<Rightarrow> 'z cobra cobra_result" where
  "cobra_disconnect env c =
     (case ws_stop (ce_tenv env) (ce_atts env) (ce_unfit env) kNormalClosureCode kNormalClosureMessage (cb_webSocket c) of
        None \<Rightarrow> Stuck
      | Some (RunFault, w) \<Rightarrow> Undefined
      | Some (RunThrew, w) \<Rightarrow> Thrown
      | Some (RunReturned, w) \<Rightarrow>
          cobra_handle env (cobra_messages (new_calls (cb_webSocket c) w)) (c\<lparr>cb_authenticated := False, cb_webSocket := w\<rparr>))"

definition CobraConnection_delete :: "'z cobra_env \<Rightarrow> 'z cobra \<Rightarrow> 'z cobra cobra_result" where
  "CobraConnection_delete env c = cbind (cobra_disconnect env c) (\<lambda>c1. Done (setEventCallback False c1))"

definition cobra_isConnected :: "'z cobra \<Rightarrow> bool" where
  "cobra_isConnected c = ws_isConnected (cb_webSocket c)"

definition isAuthenticated :: "'z cobra \<Rightarrow> bool" where
  "isAuthenticated c \<longleftrightarrow> cobra_isConnected c \<and> cb_authenticated c"

definition publish :: "'z cobra_env \<Rightarrow> json \<Rightarrow> json \<Rightarrow> 'z cobra \<Rightarrow> (u64 \<times> 'z cobra) cobra_result" where
  "publish env channels msg c =
     (let c0 = invokePublishTrackerCallback True False c
      in cbind (unthrow (and_then (json_set ''channels'' channels (cb_body c0)) (json_set ''message'' msg))) (\<lambda>body.
         cbind (unthrow (and_then (json_set ''body'' body (cb_pdu c0)) (json_set ''id'' (fst (take_id c0))))) (\<lambda>pdu.
           let c1 = (snd (take_id c0))\<lparr>cb_body := body, cb_pdu := pdu\<rparr>;
               serializedJson = ce_write env pdu
           in if cb_publishMode c1 = PublishBatch \<or> \<not> cb_authenticated c1 then Done (cb_id c0, enqueue serializedJson c1)
              else cbind (publishMessage env serializedJson c1) (\<lambda>(ok, c2). Done (cb_id c0, if ok then c2 else enqueue serializedJson c2)))))"

definition subscribe :: "'z cobra_env \<Rightarrow> string \<Rightarrow> string \<Rightarrow> nat option \<Rightarrow> 'z cobra \<Rightarrow> 'z cobra cobra_result" where
  "subscribe env channel flt cb c =
     (case take_id c of (n, c1) \<Rightarrow>
        let body = object_of ((''channel'', JString channel) # (if flt \<noteq> [] then [(''filter'', JString flt)] else []));
            pdu = object_of [(''action'', JString ''rtm/subscribe''), (''body'', body), (''id'', n)]
        in cbind (cobra_send env (ce_styled env pdu) c1) (\<lambda>(info, c2). Done (c2\<lparr>cb_cbs := (cb_cbs c2)(channel \<mapsto> cb)\<rparr>)))"

definition unsubscribe :: "'z cobra_env \<Rightarrow> string \<Rightarrow> 'z cobra \<Rightarrow> 'z cobra cobra_result" where
  "unsubscribe env channel c =
     (if cb_cbs c channel = None then Done c
      else case take_id (c\<lparr>cb_cbs := (cb_cbs c)(channel := None)\<rparr>) of (n, c1) \<Rightarrow>
        let pdu = object_of [(''action'', JString ''rtm/unsubscribe''), (''body'', object_of [(''subscription_id'', JString channel)]), (''id'', n)]
        in cbind (cobra_send env (ce_styled env pdu) c1) (\<lambda>(info, c2). Done c2))"

definition cobra_suspend :: "'z cobra_env \<Rightarrow> 'z cobra \<Rightarrow> 'z cobra cobra_result" where
  "cobra_suspend env c = cobra_disconnect env c"

definition cobra_resume :: "'z cobra \<Rightarrow> 'z cobra" where
  "cobra_resume c = snd (cobra_connect c)"

end
