(* ===== verification/Redis.thy ===== *)
theory Redis
  imports Cobra
begin

section \<open>The Redis client\<close>

text \<open>
  \<^verbatim>\<open>ws/IXRedisClient.cpp\<close> over a plain socket, with no cancellation request and no progress callback. The
  environment holds what the system will answer to the next socket. Results are those of the Cobra
  connection: an exception of a callback is \<^const>\<open>Thrown\<close>, a call that does not return \<^const>\<open>Stuck\<close>, and
  \<^const>\<open>Undefined\<close> a variable that is read before it is set or the invalid range of \<^const>\<open>readBytes\<close>. The
  callbacks of a subscription work on a state of the caller. Its loop runs until the client is
  stopped; \<open>redis_rounds\<close> makes a given number of its rounds, and \<open>stopped k\<close> is what the flag \<open>_stop\<close>
  shows at the \<open>k\<close>-th of them.
\<close>

subsection \<open>State\<close>

record redis_env =
  re_net :: net
  re_pipe :: pipe_os
  re_script :: socket

record redis_client =
  rc_socket :: "socket option"
  rc_stop :: bool

definition RedisClient_new :: redis_client where
  "RedisClient_new = \<lparr>rc_socket = None, rc_stop = False\<rparr>"

abbreviation uncancelled :: "nat \<Rightarrow> bool" where
  "uncancelled \<equiv> \<lambda>_. False"

fun returning :: "'a option \<Rightarrow> 'a cobra_result" where
  "returning None = Stuck"
| "returning (Some x) = Done x"

definition put_socket :: "socket \<Rightarrow> redis_client \<Rightarrow> redis_client" where
  "put_socket s c = c\<lparr>rc_socket := Some s\<rparr>"

subsection \<open>Connecting and authenticating\<close>

definition redis_connect :: "redis_env \<Rightarrow> string \<Rightarrow> int \<Rightarrow> redis_client \<Rightarrow> (bool \<times> redis_client) cobra_result" where
  "redis_connect env hostname portnr c =
     (case createSocket (re_pipe env) False (re_script env) of
        Inl errorMsg \<Rightarrow> Done (False, c\<lparr>rc_socket := None\<rparr>)
      | Inr s \<Rightarrow> cbind (returning (socket_connect (re_net env) hostname portnr uncancelled s)) (\<lambda>(ok, errMsg, s1). Done (ok, put_socket s1 c)))"

text \<open>A command is written and its answer waited for: \<open>None\<close> for a write that failed, or the result of the poll.\<close>

definition redis_command :: "string \<Rightarrow> socket \<Rightarrow> (PollResultType option \<times> socket) cobra_result" where
  "redis_command txt0 s =
     cbind (returning (writeBytes uncancelled txt0 s)) (\<lambda>(sent, s1).
       if \<not> sent then Done (None, s1) else case isReadyToRead (- 1) s1 of (pollResult, s2) \<Rightarrow> Done (Some pollResult, s2))"

definition redis_line :: "socket \<Rightarrow> (bool \<times> string \<times> socket) cobra_result" where
  "redis_line s = returning (readLine uncancelled s)"

definition redis_auth :: "string \<Rightarrow> redis_client \<Rightarrow> (bool \<times> string \<times> redis_client) cobra_result" where
  "redis_auth password c =
     (case rc_socket c of
        None \<Rightarrow> Done (False, [], c)
      | Some s \<Rightarrow>
          cbind (redis_command (''AUTH '' @ password @ CRLF) s) (\<lambda>(pollResult, s1).
            if pollResult = None \<or> pollResult = Some PollError then Done (False, [], put_socket s1 c)
            else cbind (redis_line s1) (\<lambda>(lineValid, line, s2). Done (lineValid, line, put_socket s2 c))))"

subsection \<open>Publishing\<close>

definition writeString :: "string \<Rightarrow> string" where
  "writeString str = ''$'' @ string_of_nat (length str) @ CRLF @ str @ CRLF"

definition publish_command :: "string \<Rightarrow> string \<Rightarrow> string" where
  "publish_command channel message = ''*3'' @ CRLF @ writeString ''PUBLISH'' @ writeString channel @ writeString message"

text \<open>The result, and the text left in \<open>errMsg\<close>.\<close>

definition redis_publish :: "string \<Rightarrow> string \<Rightarrow> redis_client \<Rightarrow> (bool \<times> string \<times> redis_client) cobra_result" where
  "redis_publish channel message c =
     (case rc_socket c of
        None \<Rightarrow> Done (False, ''socket is not initialized'', c)
      | Some s \<Rightarrow>
          cbind (redis_command (publish_command channel message) s) (\<lambda>(pollResult, s1).
            if pollResult = None then Done (False, ''Cannot write bytes to socket'', put_socket s1 c)
            else if pollResult = Some PollError then Done (False, ''Error while polling for result'', put_socket s1 c)
            else cbind (redis_line s1) (\<lambda>(lineValid, line, s2).
              if line = [] \<or> hd line \<noteq> CHR '':'' then Done (False, line, put_socket s2 c) else Done (lineValid, [], put_socket s2 c))))"

subsection \<open>Subscribing\<close>

text \<open>\<open>int n; ss >> n\<close> on the line without its first character; \<open>n\<close> stays unset when there is only space.\<close>

definition line_int :: "string \<Rightarrow> int cobra_result" where
  "line_int line = (if skip_space (tl line) = [] then Undefined else Done (extract_int 0 (tl line)))"

text \<open>The length is converted to \<open>size_t\<close>; the socket reports no progress.\<close>

definition redis_bytes :: "int \<Rightarrow> socket \<Rightarrow> (string option \<times> socket) cobra_result" where
  "redis_bytes n s =
     cbind (returning (readBytes (nat (n mod 2 ^ 64)) uncancelled s)) (\<lambda>(r, s1).
       let s2 = s1\<lparr>progress_calls := progress_calls s\<rparr>
       in case r of ReadOk t \<Rightarrow> Done (Some t, s2) | ReadFailed \<Rightarrow> Done (None, s2) | ReadFault \<Rightarrow> Undefined)"

text \<open>The items \<open>i\<close>, \<open>i + 1\<close>, \<dots> of a message, \<open>k\<close> of them; the third goes to the callback.\<close>

primrec redis_items ::
  "(string \<Rightarrow> 'a \<Rightarrow> 'a cobra_result) \<Rightarrow> nat \<Rightarrow> nat \<Rightarrow> socket \<Rightarrow> 'a \<Rightarrow> (bool \<times> socket \<times> 'a) cobra_result" where
  "redis_items callback 0 i s a = Done (True, s, a)"
| "redis_items callback (Suc k) i s a =
     cbind (redis_line s) (\<lambda>(lineValid, line, s1).
       if \<not> lineValid then Done (False, s1, a)
       else cbind (line_int line) (\<lambda>stringSize.
         cbind (redis_bytes stringSize s1) (\<lambda>(readResult, s2).
           case readResult of
             None \<Rightarrow> Done (False, s2, a)
           | Some str \<Rightarrow>
               cbind (if i = 2 then callback str a else Done a) (\<lambda>a1.
                 cbind (returning (readByte uncancelled s2)) (\<lambda>(c1, s3).
                   cbind (returning (readByte uncancelled s3)) (\<lambda>(c2, s4). redis_items callback k (Suc i) s4 a1))))))"

datatype redis_turn = Again | Ended bool

definition redis_round ::
  "(string \<Rightarrow> 'a \<Rightarrow> 'a cobra_result) \<Rightarrow> bool \<Rightarrow> socket \<Rightarrow> 'a \<Rightarrow> (redis_turn \<times> socket \<times> 'a) cobra_result" where
  "redis_round callback stopped s a =
     (if stopped then Done (Ended True, s, a)
      else case isReadyToRead 10 s of (pollResult, s1) \<Rightarrow>
        if pollResult = PollError then Done (Ended False, s1, a)
        else if pollResult = Timeout then Done (Again, s1, a)
        else cbind (redis_line s1) (\<lambda>(lineValid, line, s2).
          if \<not> lineValid then Done (Ended False, s2, a)
          else cbind (line_int line) (\<lambda>arraySize.
            cbind (redis_items callback (nat arraySize) 0 s2 a) (\<lambda>(ok, s3, a1). Done (if ok then Again else Ended False, s3, a1)))))"

fun redis_rounds ::
  "(string \<Rightarrow> 'a \<Rightarrow> 'a cobra_result) \<Rightarrow> (nat \<Rightarrow> bool) \<Rightarrow> nat \<Rightarrow> nat \<Rightarrow> socket \<Rightarrow> 'a \<Rightarrow> (redis_turn \<times> socket \<times> 'a) cobra_result" where
  "redis_rounds callback stopped 0 k s a = Done (Again, s, a)"
| "redis_rounds callback stopped (Suc n) k s a =
     cbind (redis_round callback (stopped k) s a) (\<lambda>(t, s1, a1).
       if t = Again then redis_rounds callback stopped n (Suc k) s1 a1 else Done (t, s1, a1))"

text \<open>The lines of the answer, put together.\<close>

primrec reply_lines :: "nat \<Rightarrow> string \<Rightarrow> socket \<Rightarrow> (bool \<times> string \<times> socket) cobra_result" where
  "reply_lines 0 oss s = Done (True, oss, s)"
| "reply_lines (Suc k) oss s =
     cbind (redis_line s) (\<lambda>(lineValid, line, s1). if \<not> lineValid then Done (False, oss @ line, s1) else reply_lines k (oss @ line) s1)"

definition redis_subscribe ::
  "(string \<Rightarrow> 'a \<Rightarrow> 'a cobra_result) \<Rightarrow> (string \<Rightarrow> 'a \<Rightarrow> 'a cobra_result) \<Rightarrow> (nat \<Rightarrow> bool) \<Rightarrow> nat \<Rightarrow> string \<Rightarrow> redis_client \<Rightarrow> 'a \<Rightarrow>
     (redis_turn \<times> redis_client \<times> 'a) cobra_result" where
  "redis_subscribe responseCallback callback stopped n channel c0 a =
     (let c = c0\<lparr>rc_stop := False\<rparr>
      in case rc_socket c of
           None \<Rightarrow> Done (Ended False, c, a)
         | Some s \<Rightarrow>
             cbind (redis_command (''SUBSCRIBE '' @ channel @ CRLF) s) (\<lambda>(pollResult, s1).
               if pollResult = None \<or> pollResult = Some PollError then Done (Ended False, put_socket s1 c, a)
               else cbind (reply_lines 6 [] s1) (\<lambda>(valid, oss, s2).
                 if \<not> valid then Done (Ended False, put_socket s2 c, a)
                 else cbind (responseCallback oss a) (\<lambda>a1.
                   cbind (redis_rounds callback stopped n 0 s2 a1) (\<lambda>(t, s3, a2).
                     Done (t, (put_socket s3 c)\<lparr>rc_stop := (t = Ended True)\<rparr>, a2))))))"

definition redis_stop :: "redis_client \<Rightarrow> redis_client" where
  "redis_stop c = c\<lparr>rc_stop := True\<rparr>"

end
