(* ===== verification/Uuid.thy ===== *)
theory Uuid
  imports Prelude
begin

section \<open>Identifiers and checksums\<close>

text \<open>
  \<^verbatim>\<open>ixcrypto/IXUuid.cpp\<close> and \<^verbatim>\<open>ixcrypto/IXHash.cpp\<close>. The two random words of an identifier are
  arguments. Its text has 32 digits, and is the same for the same 122 random bits only; the checksum
  notices every change of one octet, whatever its place, but not of two.
\<close>

unbundle bit_operations_syntax

subsection \<open>Uuid\<close>

fun hex_text :: "nat \<Rightarrow> string" where
  "hex_text n =
     (if n < 16 then [''0123456789abcdef'' ! n] else hex_text (n div 16) @ [''0123456789abcdef'' ! (n mod 16)])"

declare hex_text.simps [simp del]

text \<open>\<open>std::setw(w)\<close> with \<open>std::setfill('0')\<close>.\<close>

definition hex_field :: "nat \<Rightarrow> u32 \<Rightarrow> string" where
  "hex_field w x = (let s = hex_text (unat x) in replicate (w - length s) (CHR ''0'') @ s)"

definition Uuid_new :: "u64 \<Rightarrow> u64 \<Rightarrow> u64 \<times> u64" where
  "Uuid_new ab cd = ((ab AND 0xFFFFFFFFFFFF0FFF) OR 0x4000, (cd AND 0x3FFFFFFFFFFFFFFF) OR 0x8000000000000000)"

definition Uuid_toString :: "u64 \<times> u64 \<Rightarrow> string" where
  "Uuid_toString x =
     (let a = ucast (drop_bit 32 (fst x)) :: u32; b = ucast (fst x AND 0xFFFFFFFF) :: u32;
          c = ucast (drop_bit 32 (snd x)) :: u32; d = ucast (snd x AND 0xFFFFFFFF) :: u32
      in hex_field 8 a @ hex_field 4 (drop_bit 16 b) @ hex_field 4 (b AND 0xFFFF) @
         hex_field 4 (drop_bit 16 c) @ hex_field 4 (c AND 0xFFFF) @ hex_field 8 d)"

definition uuid4 :: "u64 \<Rightarrow> u64 \<Rightarrow> string" where
  "uuid4 r1 r2 = Uuid_toString (Uuid_new r1 r2)"

subsection \<open>Hash\<close>

definition djb2_step :: "byte \<Rightarrow> u64 \<Rightarrow> u64" where
  "djb2_step c hashAddress = (push_bit 5 hashAddress + hashAddress) + ucast c"

definition djb2Hash :: "byte list \<Rightarrow> u64" where
  "djb2Hash bytes = fold djb2_step bytes 5381"

subsection \<open>The text of an identifier\<close>

text \<open>The \<open>w\<close> lowest hexadecimal digits.\<close>

fun hex_digits :: "nat \<Rightarrow> nat \<Rightarrow> string" where
  "hex_digits 0 n = []"
| "hex_digits (Suc w) n = hex_digits w (n div 16) @ [''0123456789abcdef'' ! (n mod 16)]"

lemma length_hex_digits [simp]: "length (hex_digits w n) = w"
  by (induction w n rule: hex_digits.induct) auto

lemma hex_digits_0: "hex_digits w 0 = replicate w (CHR ''0'')"
  by (induction w) (simp_all add: replicate_append_same)

lemma hex_text_digits: "n < 16 ^ w \<Longrightarrow> 0 < w \<Longrightarrow> replicate (w - length (hex_text n)) (CHR ''0'') @ hex_text n = hex_digits w n"
proof (induction w arbitrary: n)
  case (Suc w)
  show ?case
  proof (cases "n < 16")
    case True
    then show ?thesis by (subst (1 2) hex_text.simps) (simp add: hex_digits_0)
  next
    case False
    then have w: "0 < w" using Suc.prems by (cases w) auto
    have "n div 16 < 16 ^ w" using Suc.prems by (simp add: less_mult_imp_div_less mult.commute)
    then show ?thesis using False Suc.IH [of "n div 16"] w by (subst (1 2) hex_text.simps) simp
  qed
qed simp

lemma hex_field_digits: "unat x < 16 ^ w \<Longrightarrow> 0 < w \<Longrightarrow> hex_field w x = hex_digits w (unat x)"
  by (simp add: hex_field_def Let_def hex_text_digits)

lemma hex_digits_append: "hex_digits v (n div 16 ^ w) @ hex_digits w n = hex_digits (v + w) n"
proof (induction w arbitrary: n)
  case (Suc w)
  have "n div (16 * 16 ^ w) = n div 16 div 16 ^ w" by (simp add: div_mult2_eq)
  then show ?case using Suc.IH [of "n div 16"] by (simp add: append_assoc [symmetric] del: append_assoc)
qed simp

lemma hex_digits_mod: "hex_digits w (n mod 16 ^ w) = hex_digits w n"
proof (induction w arbitrary: n)
  case (Suc w)
  have "n mod (16 * 16 ^ w) div 16 = n div 16 mod 16 ^ w" "n mod (16 * 16 ^ w) mod 16 = n mod 16"
    by (simp_all add: mod_mult2_eq)
  then show ?case using Suc.IH [of "n div 16"] by simp
qed simp

lemma hex_digit_inj: "i < 16 \<Longrightarrow> j < 16 \<Longrightarrow> ''0123456789abcdef'' ! i = ''0123456789abcdef'' ! j \<Longrightarrow> i = j"
  using nth_eq_iff_index_eq [of "''0123456789abcdef''" i j] by simp

lemma hex_digits_inj: "m < 16 ^ w \<Longrightarrow> n < 16 ^ w \<Longrightarrow> hex_digits w m = hex_digits w n \<Longrightarrow> m = n"
proof (induction w arbitrary: m n)
  case (Suc w)
  have "m div 16 < 16 ^ w" "n div 16 < 16 ^ w" using Suc.prems by (simp_all add: less_mult_imp_div_less mult.commute)
  then have "m div 16 = n div 16" using Suc.IH Suc.prems(3) by simp
  moreover have "m mod 16 = n mod 16" using Suc.prems(3) hex_digit_inj [of "m mod 16" "n mod 16"] by simp
  ultimately show ?case by (metis div_mult_mod_eq)
qed simp

lemma take_unat64: "take_bit 64 (unat (x :: u64)) = unat x"
  using unsigned_less [of x, where ?'a = nat] by (intro take_bit_nat_eq_self) simp

lemma take_unat32: "take_bit 32 (unat (x :: u32)) = unat x"
  using unsigned_less [of x, where ?'a = nat] by (intro take_bit_nat_eq_self) simp

lemma low_half: "unat (ucast (x AND 0xFFFFFFFF :: u64) :: u32) = unat x mod 2 ^ 32"
proof -
  have m: "(0xFFFFFFFF :: u64) = mask 32" by (simp add: mask_eq_exp_minus_1)
  have x: "x AND 0xFFFFFFFF = take_bit 32 x" unfolding m by (rule take_bit_eq_mask [symmetric])
  have "unat (ucast (take_bit 32 x) :: u32) = take_bit 32 (take_bit 32 (unat x))"
    by (simp add: unsigned_ucast_eq unsigned_take_bit_eq del: take_bit_of_nat)
  then show ?thesis unfolding x by (simp add: take_bit_eq_mod)
qed

lemma high_half: "unat (ucast (drop_bit 32 x :: u64) :: u32) = unat x div 2 ^ 32"
proof -
  have "unat x < 2 ^ 64" using unsigned_less [of x] by simp
  then have "unat x div 2 ^ 32 < 2 ^ 32" by (simp add: div_less_iff_less_mult)
  moreover have "unat (ucast (drop_bit 32 x) :: u32) = take_bit 32 (drop_bit 32 (unat x))"
    by (simp add: unsigned_ucast_eq unsigned_drop_bit_eq take_unat64)
  ultimately show ?thesis by (simp add: take_bit_eq_mod drop_bit_eq_div)
qed

lemma low_quarter: "unat (x AND 0xFFFF :: u32) = unat x mod 2 ^ 16"
proof -
  have m: "(0xFFFF :: u32) = mask 16" by (simp add: mask_eq_exp_minus_1)
  have x: "x AND 0xFFFF = take_bit 16 x" unfolding m by (rule take_bit_eq_mask [symmetric])
  have "unat (take_bit 16 x) = take_bit 16 (unat x)" by (simp add: unsigned_take_bit_eq)
  then show ?thesis unfolding x by (simp add: take_bit_eq_mod)
qed

lemma half_text: "hex_field 4 (drop_bit 16 b) @ hex_field 4 (b AND 0xFFFF) = hex_digits 8 (unat (b :: u32))"
proof -
  have b: "unat b < 2 ^ 32" using unsigned_less [of b] by simp
  have "unat (drop_bit 16 b) = drop_bit 16 (unat b)" by (simp add: unsigned_drop_bit_eq take_unat32)
  then have "unat (drop_bit 16 b) = unat b div 16 ^ 4" by (simp only: drop_bit_eq_div) simp
  moreover have "unat b div 16 ^ 4 < 16 ^ 4" using b by (simp add: div_less_iff_less_mult)
  ultimately have 1: "hex_field 4 (drop_bit 16 b) = hex_digits 4 (unat b div 16 ^ 4)" by (simp add: hex_field_digits)
  have "unat (b AND 0xFFFF) = unat b mod 16 ^ 4" by (simp add: low_quarter)
  then have 2: "hex_field 4 (b AND 0xFFFF) = hex_digits 4 (unat b)" using hex_digits_mod [of 4 "unat b"] by (simp add: hex_field_digits)
  show ?thesis unfolding 1 2 using hex_digits_append [of 4 "unat b" 4] by simp
qed

lemma toString_digits: "Uuid_toString (ab, cd) = hex_digits 16 (unat ab) @ hex_digits 16 (unat cd)"
proof -
  have f: "hex_field 8 x = hex_digits 8 (unat x)" for x :: u32 using unsigned_less [of x, where ?'a = nat] by (simp add: hex_field_digits)
  have p: "hex_digits 8 (unat x div 2 ^ 32) @ hex_digits 8 (unat x mod 2 ^ 32) = hex_digits 16 (unat x)" for x :: u64
    using hex_digits_append [of 8 "unat x" 8] hex_digits_mod [of 8 "unat x"] by simp
  have "Uuid_toString (ab, cd) =
      (hex_field 8 (ucast (drop_bit 32 ab) :: u32) @
        hex_field 4 (drop_bit 16 (ucast (ab AND 0xFFFFFFFF) :: u32)) @ hex_field 4 ((ucast (ab AND 0xFFFFFFFF) :: u32) AND 0xFFFF)) @
      (hex_field 4 (drop_bit 16 (ucast (drop_bit 32 cd) :: u32)) @ hex_field 4 ((ucast (drop_bit 32 cd) :: u32) AND 0xFFFF)) @
        hex_field 8 (ucast (cd AND 0xFFFFFFFF) :: u32)"
    by (simp add: Uuid_toString_def Let_def)
  then show ?thesis unfolding half_text f high_half low_half using p by (metis append_assoc)
qed

subsection \<open>The random bits\<close>

lemma drop_or: "drop_bit n (a OR b) = drop_bit n a OR drop_bit n (b :: u64)"
  by (simp add: drop_bit_or)

definition uuid_mask_ab :: u64 where
  "uuid_mask_ab = 0xFFFFFFFFFFFF0FFF"

definition uuid_mask_cd :: u64 where
  "uuid_mask_cd = 0x3FFFFFFFFFFFFFFF"

lemma masked_inj:
  assumes "m AND v = (0 :: u64)"
  shows "(x AND m) OR v = (y AND m) OR v \<longleftrightarrow> x AND m = y AND m"
proof
  assume a: "(x AND m) OR v = (y AND m) OR v"
  have d: "\<not> (bit m n \<and> bit v n)" for n using assms by (metis bit_0_eq bit_and_iff bot_apply bot_bool_def)
  have "z AND m = ((z AND m) OR v) AND m" for z
    by (rule bit_word_eqI) (use d in \<open>auto simp: bit_simps\<close>)
  then show "x AND m = y AND m" using a by metis
qed simp

lemma hex16_inj: "hex_digits 16 (unat x) = hex_digits 16 (unat (y :: u64)) \<longleftrightarrow> x = y"
proof
  have b: "unat z < 16 ^ 16" for z :: u64 using unsigned_less [of z, where ?'a = nat] by simp
  assume "hex_digits 16 (unat x) = hex_digits 16 (unat y)"
  then show "x = y" using hex_digits_inj [OF b b] word_unat_eq_iff by blast
qed simp

lemma uuid4_eq: "uuid4 r1 r2 = uuid4 s1 s2 \<longleftrightarrow> r1 AND uuid_mask_ab = s1 AND uuid_mask_ab \<and> r2 AND uuid_mask_cd = s2 AND uuid_mask_cd"
proof -
  have m: "uuid_mask_ab AND 0x4000 = 0" "uuid_mask_cd AND 0x8000000000000000 = 0" by (simp_all add: uuid_mask_ab_def uuid_mask_cd_def)
  have "uuid4 r1 r2 = uuid4 s1 s2 \<longleftrightarrow> Uuid_new r1 r2 = Uuid_new s1 s2"
    by (simp add: uuid4_def Uuid_new_def toString_digits hex16_inj)
  also have "\<dots> \<longleftrightarrow> r1 AND uuid_mask_ab = s1 AND uuid_mask_ab \<and> r2 AND uuid_mask_cd = s2 AND uuid_mask_cd"
    using masked_inj [OF m(1), of r1 s1] masked_inj [OF m(2), of r2 s2] by (simp add: Uuid_new_def uuid_mask_ab_def uuid_mask_cd_def)
  finally show ?thesis .
qed

lemma hex_digits_chars: "set (hex_digits w n) \<subseteq> set ''0123456789abcdef''"
proof (induction w arbitrary: n)
  case (Suc w)
  have "''0123456789abcdef'' ! (n mod 16) \<in> set ''0123456789abcdef''" by (rule nth_mem) simp
  then show ?case using Suc.IH [of "n div 16"] unfolding hex_digits.simps set_append by (intro Un_least) (simp_all only: set_simps, blast)
qed simp

lemma hex_digits_nth: "i < w \<Longrightarrow> hex_digits w n ! i = ''0123456789abcdef'' ! (n div 16 ^ (w - 1 - i) mod 16)"
proof (induction w arbitrary: n)
  case (Suc w)
  show ?case
  proof (cases "i = w")
    case False
    then have "i < w" "w - i = Suc (w - 1 - i)" using Suc.prems by auto
    then show ?thesis using Suc.IH [of "n div 16"] by (simp add: nth_append div_mult2_eq)
  qed (simp add: nth_append)
qed simp

lemma nibble: "unat (x :: u64) div 2 ^ k mod 16 = unat (drop_bit k x AND 15)"
proof -
  have m: "(15 :: u64) = mask 4" by (simp add: mask_eq_exp_minus_1)
  have x: "drop_bit k x AND 15 = take_bit 4 (drop_bit k x)" unfolding m by (rule take_bit_eq_mask [symmetric])
  have "unat (take_bit 4 (drop_bit k x)) = take_bit 4 (drop_bit k (unat x))"
    by (simp add: unsigned_take_bit_eq unsigned_drop_bit_eq take_unat64)
  then show ?thesis unfolding x by (simp add: take_bit_eq_mod drop_bit_eq_div)
qed

lemma and_nibble: "x AND 15 = take_bit 4 (x :: u64)"
proof -
  have m: "(15 :: u64) = mask 4" by (simp add: mask_eq_exp_minus_1)
  show ?thesis unfolding m by (rule take_bit_eq_mask [symmetric])
qed

lemma version_nibble: "unat (drop_bit 12 ((r AND 0xFFFFFFFFFFFF0FFF) OR 0x4000 :: u64) AND 15) = 4"
  by (simp add: and_nibble)

lemma variant_nibble: "drop_bit 60 ((r AND 0x3FFFFFFFFFFFFFFF) OR 0x8000000000000000 :: u64) AND 15 \<in> {8, 9, 10, 11}"
proof -
  let ?x = "take_bit 4 (drop_bit 60 r) AND 3"
  have e: "drop_bit 60 ((r AND 0x3FFFFFFFFFFFFFFF) OR 0x8000000000000000 :: u64) AND 15 = ?x OR 8"
    by (simp add: and_nibble)
  have "?x \<le> 3" by (rule word_and_le1)
  then have "unat ?x = 0 \<or> unat ?x = 1 \<or> unat ?x = 2 \<or> unat ?x = 3" by (auto simp: word_le_nat_alt)
  then have "?x \<in> {of_nat 0, of_nat 1, of_nat 2, of_nat 3}" by (smt (verit, best) insert_iff of_nat_unat ucast_id)
  then show ?thesis unfolding e by auto
qed

text \<open>
  C38. An identifier has the shape of a version 4 UUID for every pair of random words: 32 lower-case
  hexadecimal digits, of which the thirteenth is the version and the seventeenth the variant.
\<close>

theorem uuid4_shape:
  "length (uuid4 r1 r2) = 32 \<and> set (uuid4 r1 r2) \<subseteq> set ''0123456789abcdef'' \<and> uuid4 r1 r2 ! 12 = CHR ''4'' \<and>
     uuid4 r1 r2 ! 16 \<in> set ''89ab''"
proof (intro conjI)
  let ?ab = "(r1 AND 0xFFFFFFFFFFFF0FFF) OR 0x4000" and ?cd = "(r2 AND 0x3FFFFFFFFFFFFFFF) OR 0x8000000000000000"
  have u: "uuid4 r1 r2 = hex_digits 16 (unat ?ab) @ hex_digits 16 (unat ?cd)"
    unfolding uuid4_def Uuid_new_def toString_digits ..
  show "length (uuid4 r1 r2) = 32" "set (uuid4 r1 r2) \<subseteq> set ''0123456789abcdef''"
    unfolding u by (simp, unfold set_append, intro Un_least hex_digits_chars)
  have "uuid4 r1 r2 ! 12 = ''0123456789abcdef'' ! (unat ?ab div 2 ^ 12 mod 16)"
    using hex_digits_nth [of 12 16 "unat ?ab"] unfolding u by (simp add: nth_append)
  then show "uuid4 r1 r2 ! 12 = CHR ''4''" unfolding nibble version_nibble by simp
  have "uuid4 r1 r2 ! 16 = ''0123456789abcdef'' ! (unat ?cd div 2 ^ 60 mod 16)"
    using hex_digits_nth [of 0 16 "unat ?cd"] unfolding u by (simp add: nth_append)
  then show "uuid4 r1 r2 ! 16 \<in> set ''89ab''" unfolding nibble using variant_nibble [of r2] by auto
qed

text \<open>
  Two identifiers are the same text exactly when their random words agree outside the six
  fixed bits: none of the 122 random bits is lost on the way to the text.
\<close>

theorem uuid4_injective:
  "uuid4 r1 r2 = uuid4 s1 s2 \<longleftrightarrow> r1 AND uuid_mask_ab = s1 AND uuid_mask_ab \<and> r2 AND uuid_mask_cd = s2 AND uuid_mask_cd"
  by (rule uuid4_eq)

subsection \<open>The checksum\<close>

text \<open>One step multiplies by the odd number 33, which has an inverse, and adds.\<close>

lemma djb2_step_mult: "djb2_step c h = 33 * h + ucast c"
proof -
  have "push_bit 5 h + h = 33 * h" by (simp add: push_bit_eq_mult)
  then show ?thesis unfolding djb2_step_def by simp
qed

lemma djb2_step_inj: "djb2_step c h = djb2_step c h' \<longleftrightarrow> h = h'"
proof
  assume "djb2_step c h = djb2_step c h'"
  then have "33 * h = 33 * h'" by (simp add: djb2_step_mult)
  then have "1117984489315730401 * (33 * h) = 1117984489315730401 * (33 * h')" by simp
  then have "(1117984489315730401 * 33) * h = (1117984489315730401 * 33) * h'" by (simp only: mult.assoc)
  moreover have "(1117984489315730401 * 33 :: u64) = 1" by (simp add: word_eq_iff_unsigned)
  ultimately show "h = h'" by (simp only: mult_1)
qed simp

lemma djb2_fold_inj: "fold djb2_step bs h = fold djb2_step bs h' \<longleftrightarrow> h = h'"
  by (induction bs arbitrary: h h') (simp_all add: djb2_step_inj)

lemma djb2_one_change:
  assumes "i < length bs" "c \<noteq> bs ! i"
  shows "djb2Hash (bs[i := c]) \<noteq> djb2Hash bs"
proof
  assume a: "djb2Hash (bs[i := c]) = djb2Hash bs"
  let ?h = "fold djb2_step (take i bs) 5381" and ?t = "drop (Suc i) bs"
  have 1: "djb2Hash (bs[i := c]) = fold djb2_step ?t (djb2_step c ?h)"
    using assms(1) by (simp add: upd_conv_take_nth_drop djb2Hash_def)
  have "djb2Hash (take i bs @ bs ! i # ?t) = fold djb2_step ?t (djb2_step (bs ! i) ?h)" by (simp add: djb2Hash_def)
  then have "fold djb2_step ?t (djb2_step c ?h) = fold djb2_step ?t (djb2_step (bs ! i) ?h)"
    using a 1 id_take_nth_drop [OF assms(1)] by simp
  then have "(ucast c :: u64) = ucast (bs ! i)" by (simp add: djb2_fold_inj djb2_step_mult)
  then have "unat (ucast c :: u64) = unat (ucast (bs ! i) :: u64)" by simp
  moreover have "take_bit 64 (unat x) = unat x" for x :: byte
    using unsigned_less [of x, where ?'a = nat] by (intro take_bit_nat_eq_self) simp
  ultimately have "c = bs ! i" by (simp add: unsigned_ucast_eq word_unat_eq_iff)
  then show False using assms(2) by simp
qed

text \<open>
  The checksum finds every change of a single octet: contents of the same length that differ in
  one place have different checksums.
\<close>

theorem djb2_detects_one_change:
  assumes "i < length bs" "c \<noteq> bs ! i"
  shows "djb2Hash (bs[i := c]) \<noteq> djb2Hash bs"
  by (rule djb2_one_change [OF assms])

theorem djb2_detects_one_change_witness: "djb2Hash [1, 7, 3] \<noteq> djb2Hash [1, 2, 3]"
  using djb2_detects_one_change [of 1 "[1, 2, 3]" 7] by simp

text \<open>Two changes can cancel each other.\<close>

lemma djb2_misses_two_changes: "djb2Hash [1, 33] = djb2Hash [2, 0]"
proof -
  have "djb2_step 33 (djb2_step 1 h) = djb2_step 0 (djb2_step 2 h)" for h
    unfolding djb2_step_mult by (simp add: distrib_left)
  then show ?thesis unfolding djb2Hash_def by (simp only: fold_simps)
qed

end
