(* ===== verification/SocketServer.thy ===== *)
theory SocketServer
  imports SocketConnect
begin

section \<open>The socket server\<close>

text \<open>
  \<^verbatim>\<open>IXSocketServer.cpp\<close> and \<^verbatim>\<open>IXConnectionState.cpp\<close>. The server has a thread that accepts connections, a thread
  that joins the finished ones, one thread per connection, and the thread of its owner, which calls
  \<open>start\<close>, \<open>stop\<close> and \<open>wait\<close>. Each thread is a program counter, and \<open>server_step\<close> is their interleaving:
  a step is what happens under one lock or between two accesses to shared members. A connection
  thread is kept in the list with its connection state, as in the code; \<open>th_conn\<close> numbers the accepted
  connections. \<open>sv_fds\<close> is the process's descriptor table, which tells whose descriptor a close hits.
  The virtual functions of the subclasses are the record \<open>server_class\<close>. Results of \<open>poll\<close> and \<open>accept\<close>
  are chosen by the rules; socket options have no effect here.
\<close>

subsection \<open>ConnectionState\<close>

record connection_state =
  cs_id :: string
  cs_terminated :: bool

definition ConnectionState_new :: "u64 \<Rightarrow> connection_state \<times> u64" where
  "ConnectionState_new globalId = (\<lparr>cs_id = string_of_int (uint globalId), cs_terminated = False\<rparr>, globalId + 1)"

definition setTerminated :: "connection_state \<Rightarrow> connection_state" where
  "setTerminated c = c\<lparr>cs_terminated := True\<rparr>"

subsection \<open>State\<close>

record 'l thread =
  th_fd :: int
  th_conn :: nat
  th_state :: connection_state
  th_local :: 'l

datatype owner = Listener | Connection nat

datatype accept_pc =
  AcceptNone | AcceptTop | AcceptPoll | Accepted int nat | Counted int nat connection_state
| AcceptPush int nat connection_state | AcceptEnded

datatype gc_pc = GcNone | GcTop | GcScan nat | GcTest | GcCount | GcEnded

datatype stop_pc = StopIdle | StopSnapshot | StopClients | StopAccept | StopJoinAccept | StopGc | StopJoinGc | StopFinish

record ('l, 'g) server =
  sv_port :: int
  sv_host :: string
  sv_backlog :: int
  sv_maxConnections :: nat
  sv_serverFd :: int
  sv_stop :: bool
  sv_stopGc :: bool
  sv_accept :: accept_pc
  sv_gc :: gc_pc
  sv_stopper :: stop_pc
  sv_waiting :: bool
  sv_threads :: "'l thread list"
  sv_globalId :: u64
  sv_shared :: 'g
  sv_fds :: "int \<rightharpoonup> owner"
  sv_accepted :: nat
  sv_dropped :: "nat list"
  sv_log :: "string list"
  sv_aborted :: bool

text \<open>What one step of a connection thread does: wait, end the process by an exception nobody
  catches, or go on, closing descriptors and writing to the log.\<close>

datatype ('l, 'g) handled = Blocked | Crashed | Went "'l thread" 'g "int list" "string list"

record ('l, 'g) server_class =
  sc_local :: 'l
  sc_step :: "'l thread \<Rightarrow> 'g \<Rightarrow> ('l, 'g) handled"
  sc_finished :: "'l \<Rightarrow> bool"
  sc_count :: "'g \<Rightarrow> nat"
  sc_stopBegin :: "'g \<Rightarrow> 'g"
  sc_stopNext :: "'g \<Rightarrow> ('g \<times> int list) option"
  sc_stopEnd :: "'g \<Rightarrow> 'g \<times> int list"

definition kDefaultPort :: int where
  "kDefaultPort = 8080"

definition kDefaultHost :: string where
  "kDefaultHost = ''127.0.0.1''"

definition kDefaultTcpBacklog :: int where
  "kDefaultTcpBacklog = 5"

definition kDefaultMaxConnections :: nat where
  "kDefaultMaxConnections = 32"

definition SocketServer_new :: "int \<Rightarrow> string \<Rightarrow> int \<Rightarrow> nat \<Rightarrow> 'g \<Rightarrow> ('l, 'g) server" where
  "SocketServer_new port host backlog maxConnections g =
     \<lparr>sv_port = port, sv_host = host, sv_backlog = backlog, sv_maxConnections = maxConnections, sv_serverFd = -1,
      sv_stop = False, sv_stopGc = False, sv_accept = AcceptNone, sv_gc = GcNone, sv_stopper = StopIdle, sv_waiting = False,
      sv_threads = [], sv_globalId = 0, sv_shared = g, sv_fds = Map.empty, sv_accepted = 0, sv_dropped = [], sv_log = [],
      sv_aborted = False\<rparr>"

subsection \<open>Operations\<close>

definition logError :: "string \<Rightarrow> ('l, 'g) server \<Rightarrow> ('l, 'g) server" where
  "logError str s = s\<lparr>sv_log := sv_log s @ [str]\<rparr>"

definition close_fds :: "int list \<Rightarrow> ('l, 'g) server \<Rightarrow> ('l, 'g) server" where
  "close_fds fds s = s\<lparr>sv_fds := sv_fds s |` (- set fds)\<rparr>"

text \<open>The outcomes of the system calls of \<open>listen\<close>: a descriptor or the \<open>errno\<close> of the failure.\<close>

record listen_os =
  os_socket :: "int + int"
  os_setsockopt :: "int option"
  os_bind :: "int option"
  os_listen :: "int option"

definition listen_error :: "(int \<Rightarrow> string) \<Rightarrow> string \<Rightarrow> int \<Rightarrow> ('l, 'g) server \<Rightarrow> (bool \<times> string) \<times> ('l, 'g) server" where
  "listen_error strerr call err s =
     ((False, ''SocketServer::listen() error calling '' @ call @ ''at address '' @ sv_host s @ '':'' @ string_of_int (sv_port s)
        @ '' : '' @ strerr err), close_fds [sv_serverFd s] s)"

definition server_listen :: "(int \<Rightarrow> string) \<Rightarrow> listen_os \<Rightarrow> ('l, 'g) server \<Rightarrow> (bool \<times> string) \<times> ('l, 'g) server" where
  "server_listen strerr os s0 =
     (case os_socket os of
        Inl err \<Rightarrow> ((False, ''SocketServer::listen() error creating socket): '' @ strerr err), s0\<lparr>sv_serverFd := -1\<rparr>)
      | Inr fd \<Rightarrow>
          let s = s0\<lparr>sv_serverFd := fd, sv_fds := (sv_fds s0)(fd \<mapsto> Listener)\<rparr>
          in case os_setsockopt os of
               Some err \<Rightarrow> listen_error strerr ''setsockopt(SO_REUSEADDR) '' err s
             | None \<Rightarrow>
                 case os_bind os of
                   Some err \<Rightarrow> listen_error strerr ''bind '' err s
                 | None \<Rightarrow>
                     case os_listen os of
                       Some err \<Rightarrow> listen_error strerr ''listen '' err s
                     | None \<Rightarrow> ((True, []), s))"

definition server_start :: "('l, 'g) server \<Rightarrow> ('l, 'g) server" where
  "server_start s0 =
     (let s = (if sv_accept s0 = AcceptNone then s0\<lparr>sv_accept := AcceptTop\<rparr> else s0)
      in if sv_gc s = GcNone then s\<lparr>sv_gc := GcTop\<rparr> else s)"

definition stopAcceptingConnections :: "('l, 'g) server \<Rightarrow> ('l, 'g) server" where
  "stopAcceptingConnections s = s\<lparr>sv_stop := True\<rparr>"

definition getConnectionsThreadsCount :: "('l, 'g) server \<Rightarrow> nat" where
  "getConnectionsThreadsCount s = length (sv_threads s)"

text \<open>The body of \<open>run\<close> from the accepted descriptor on, up to the check of \<open>_stop\<close>.\<close>

definition admit :: "('l, 'g) server_class \<Rightarrow> int \<Rightarrow> nat \<Rightarrow> ('l, 'g) server \<Rightarrow> ('l, 'g) server" where
  "admit C fd c s =
     (if sc_count C (sv_shared s) \<ge> sv_maxConnections s then
        (close_fds [fd] (logError (''SocketServer::run() reached max connections = '' @ string_of_int (int (sv_maxConnections s))
           @ ''. Not accepting connection'') s))\<lparr>sv_accept := AcceptTop\<rparr>
      else case ConnectionState_new (sv_globalId s) of
        (cs, globalId) \<Rightarrow> s\<lparr>sv_globalId := globalId, sv_accept := Counted fd c cs\<rparr>)"

definition launch :: "('l, 'g) server_class \<Rightarrow> int \<Rightarrow> nat \<Rightarrow> connection_state \<Rightarrow> ('l, 'g) server \<Rightarrow> ('l, 'g) server" where
  "launch C fd c cs s =
     s\<lparr>sv_threads := sv_threads s @ [\<lparr>th_fd = fd, th_conn = c, th_state = cs, th_local = sc_local C\<rparr>], sv_accept := AcceptTop\<rparr>"

text \<open>One iteration of the scan of \<open>closeTerminatedThreads\<close>, which holds the lock on the list; a join
  waits for the thread.\<close>

definition scan :: "('l, 'g) server_class \<Rightarrow> nat \<Rightarrow> ('l, 'g) server \<Rightarrow> ('l, 'g) server option" where
  "scan C i s =
     (if i \<ge> length (sv_threads s) then Some (s\<lparr>sv_gc := GcTest\<rparr>)
      else let t = sv_threads s ! i
           in if \<not> cs_terminated (th_state t) then Some (s\<lparr>sv_gc := GcScan (i + 1)\<rparr>)
              else if \<not> sc_finished C (th_local t) then None
              else Some (s\<lparr>sv_threads := take i (sv_threads s) @ drop (i + 1) (sv_threads s)\<rparr>))"

subsection \<open>Threads\<close>

text \<open>The thread of \<open>run\<close>.\<close>

inductive accept_step :: "('l, 'g) server_class \<Rightarrow> (int \<Rightarrow> string) \<Rightarrow> ('l, 'g) server \<Rightarrow> ('l, 'g) server \<Rightarrow> bool" for C strerr where
  stopped: "sv_accept s = AcceptTop \<Longrightarrow> sv_stop s \<Longrightarrow> accept_step C strerr s (s\<lparr>sv_accept := AcceptEnded\<rparr>)"
| go_on: "sv_accept s = AcceptTop \<Longrightarrow> \<not> sv_stop s \<Longrightarrow> accept_step C strerr s (s\<lparr>sv_accept := AcceptPoll\<rparr>)"
| poll_error: "sv_accept s = AcceptPoll \<Longrightarrow>
    accept_step C strerr s ((logError (''SocketServer::run() error in select: '' @ strerr err) s)\<lparr>sv_accept := AcceptTop\<rparr>)"
| nothing: "sv_accept s = AcceptPoll \<Longrightarrow> accept_step C strerr s (s\<lparr>sv_accept := AcceptTop\<rparr>)"
| accept_error: "sv_accept s = AcceptPoll \<Longrightarrow> err \<noteq> EAGAIN \<Longrightarrow> err \<noteq> EINPROGRESS \<Longrightarrow>
    accept_step C strerr s ((logError (''SocketServer::run() error accepting connection: '' @ string_of_int err @ '', '' @ strerr err) s)
      \<lparr>sv_accept := AcceptTop\<rparr>)"
| accepted: "sv_accept s = AcceptPoll \<Longrightarrow> fd \<ge> 0 \<Longrightarrow> sv_fds s fd = None \<Longrightarrow>
    accept_step C strerr s (s\<lparr>sv_accept := Accepted fd (sv_accepted s), sv_accepted := sv_accepted s + 1,
      sv_fds := (sv_fds s)(fd \<mapsto> Connection (sv_accepted s))\<rparr>)"
| admitted: "sv_accept s = Accepted fd c \<Longrightarrow> accept_step C strerr s (admit C fd c s)"
| abandoned: "sv_accept s = Counted fd c cs \<Longrightarrow> sv_stop s \<Longrightarrow>
    accept_step C strerr s (s\<lparr>sv_accept := AcceptEnded, sv_dropped := sv_dropped s @ [c]\<rparr>)"
| kept: "sv_accept s = Counted fd c cs \<Longrightarrow> \<not> sv_stop s \<Longrightarrow> accept_step C strerr s (s\<lparr>sv_accept := AcceptPush fd c cs\<rparr>)"
| launched: "sv_accept s = AcceptPush fd c cs \<Longrightarrow> (\<forall>i. sv_gc s \<noteq> GcScan i) \<Longrightarrow> accept_step C strerr s (launch C fd c cs s)"

text \<open>The thread of \<open>runGC\<close>.\<close>

inductive gc_step :: "('l, 'g) server_class \<Rightarrow> ('l, 'g) server \<Rightarrow> ('l, 'g) server \<Rightarrow> bool" for C where
  begin_scan: "sv_gc s = GcTop \<Longrightarrow> gc_step C s (s\<lparr>sv_gc := GcScan 0\<rparr>)"
| scanning: "sv_gc s = GcScan i \<Longrightarrow> scan C i s = Some s' \<Longrightarrow> gc_step C s s'"
| test: "sv_gc s = GcTest \<Longrightarrow> gc_step C s (s\<lparr>sv_gc := (if sv_stopGc s then GcCount else GcTop)\<rparr>)"
| count: "sv_gc s = GcCount \<Longrightarrow> gc_step C s (s\<lparr>sv_gc := (if getConnectionsThreadsCount s = 0 then GcEnded else GcTop)\<rparr>)"

text \<open>The owner: \<open>start\<close>, \<open>wait\<close>, and \<open>stop\<close> of the subclass, which ends with the base class's.\<close>

inductive owner_step :: "('l, 'g) server_class \<Rightarrow> ('l, 'g) server \<Rightarrow> ('l, 'g) server \<Rightarrow> bool" for C where
  start: "sv_stopper s = StopIdle \<Longrightarrow> owner_step C s (server_start s)"
| wait: "owner_step C s (s\<lparr>sv_waiting := True\<rparr>)"
| stop_call: "sv_stopper s = StopIdle \<Longrightarrow> owner_step C s ((stopAcceptingConnections s)\<lparr>sv_stopper := StopSnapshot\<rparr>)"
| snapshot: "sv_stopper s = StopSnapshot \<Longrightarrow>
    owner_step C s (s\<lparr>sv_shared := sc_stopBegin C (sv_shared s), sv_stopper := StopClients\<rparr>)"
| close_client: "sv_stopper s = StopClients \<Longrightarrow> sc_stopNext C (sv_shared s) = Some (g, fds) \<Longrightarrow>
    owner_step C s (close_fds fds (s\<lparr>sv_shared := g\<rparr>))"
| clients_closed: "sv_stopper s = StopClients \<Longrightarrow> sc_stopNext C (sv_shared s) = None \<Longrightarrow> owner_step C s (s\<lparr>sv_stopper := StopAccept\<rparr>)"
| stop_accept: "sv_stopper s = StopAccept \<Longrightarrow>
    owner_step C s (if sv_accept s \<noteq> AcceptNone then s\<lparr>sv_stop := True, sv_stopper := StopJoinAccept\<rparr> else s\<lparr>sv_stopper := StopGc\<rparr>)"
| join_accept: "sv_stopper s = StopJoinAccept \<Longrightarrow> sv_accept s = AcceptEnded \<Longrightarrow>
    owner_step C s (s\<lparr>sv_accept := AcceptNone, sv_stop := False, sv_stopper := StopGc\<rparr>)"
| stop_gc: "sv_stopper s = StopGc \<Longrightarrow>
    owner_step C s (if sv_gc s \<noteq> GcNone then s\<lparr>sv_stopGc := True, sv_stopper := StopJoinGc\<rparr> else s\<lparr>sv_stopper := StopFinish\<rparr>)"
| join_gc: "sv_stopper s = StopJoinGc \<Longrightarrow> sv_gc s = GcEnded \<Longrightarrow>
    owner_step C s (s\<lparr>sv_gc := GcNone, sv_stopGc := False, sv_stopper := StopFinish\<rparr>)"
| stop_return: "sv_stopper s = StopFinish \<Longrightarrow> sc_stopEnd C (sv_shared s) = (g, fds) \<Longrightarrow>
    owner_step C s (close_fds (sv_serverFd s # fds) (s\<lparr>sv_waiting := False, sv_shared := g, sv_stopper := StopIdle\<rparr>))"

text \<open>The connection threads.\<close>

inductive handler_step :: "('l, 'g) server_class \<Rightarrow> ('l, 'g) server \<Rightarrow> ('l, 'g) server \<Rightarrow> bool" for C where
  went: "i < length (sv_threads s) \<Longrightarrow> sc_step C (sv_threads s ! i) (sv_shared s) = Went t g fds lg \<Longrightarrow>
    handler_step C s (close_fds fds (s\<lparr>sv_threads := (sv_threads s)[i := t], sv_shared := g, sv_log := sv_log s @ lg\<rparr>))"
| crashed: "i < length (sv_threads s) \<Longrightarrow> sc_step C (sv_threads s ! i) (sv_shared s) = Crashed \<Longrightarrow>
    handler_step C s (s\<lparr>sv_aborted := True\<rparr>)"

definition server_step :: "('l, 'g) server_class \<Rightarrow> (int \<Rightarrow> string) \<Rightarrow> ('l, 'g) server \<Rightarrow> ('l, 'g) server \<Rightarrow> bool" where
  "server_step C strerr s s' \<longleftrightarrow>
     \<not> sv_aborted s \<and> (accept_step C strerr s s' \<or> gc_step C s s' \<or> owner_step C s s' \<or> handler_step C s s')"

inductive_cases accept_stepE: "accept_step C strerr s s'"
inductive_cases gc_stepE: "gc_step C s s'"
inductive_cases owner_stepE: "owner_step C s s'"
inductive_cases handler_stepE: "handler_step C s s'"

text \<open>The states of a server that was constructed and told to listen.\<close>

inductive server_reachable :: "('l, 'g) server_class \<Rightarrow> (int \<Rightarrow> string) \<Rightarrow> ('l, 'g) server \<Rightarrow> ('l, 'g) server \<Rightarrow> bool"
  for C strerr s0 where
  listening: "server_reachable C strerr s0 (snd (server_listen strerr os s0))"
| stepped: "server_reachable C strerr s0 s \<Longrightarrow> server_step C strerr s s' \<Longrightarrow> server_reachable C strerr s0 s'"

end
