(* ===== verification/SocketServerProperties.thy ===== *)
theory SocketServerProperties
  imports SocketServer
begin

section \<open>What every server keeps\<close>

text \<open>
  Invariants of the interleaving that do not depend on the subclass, and the contract between the
  base class and the handler of a connection as the locale \<open>server_handler\<close>: a handler closes its
  descriptor before it finishes and marks its connection as terminated, and the base class then
  loses no descriptor and no thread, and \<open>stop\<close> can return.
\<close>

subsection \<open>Threads and the stop sequence\<close>

definition server_inv :: "('l, 'g) server \<Rightarrow> bool" where
  "server_inv s \<longleftrightarrow>
     (sv_gc s = GcNone \<longrightarrow> sv_threads s = [] \<and> sv_accept s = AcceptNone) \<and>
     (sv_stopGc s \<longleftrightarrow> sv_stopper s = StopJoinGc) \<and>
     (sv_stopper s \<in> {StopGc, StopJoinGc, StopFinish} \<longrightarrow> sv_accept s = AcceptNone) \<and>
     (sv_gc s \<in> {GcCount, GcEnded} \<longrightarrow> sv_stopGc s) \<and>
     (sv_gc s = GcEnded \<longrightarrow> sv_threads s = []) \<and>
     (sv_stopper s = StopFinish \<longrightarrow> sv_gc s = GcNone) \<and>
     (sv_stopper s = StopJoinGc \<longrightarrow> sv_gc s \<noteq> GcNone)"

lemma close_fds_simps [simp]:
  "sv_port (close_fds fds s) = sv_port s" "sv_host (close_fds fds s) = sv_host s"
  "sv_maxConnections (close_fds fds s) = sv_maxConnections s" "sv_stop (close_fds fds s) = sv_stop s"
  "sv_stopGc (close_fds fds s) = sv_stopGc s" "sv_accept (close_fds fds s) = sv_accept s" "sv_gc (close_fds fds s) = sv_gc s"
  "sv_stopper (close_fds fds s) = sv_stopper s" "sv_threads (close_fds fds s) = sv_threads s"
  "sv_shared (close_fds fds s) = sv_shared s" "sv_accepted (close_fds fds s) = sv_accepted s"
  "sv_dropped (close_fds fds s) = sv_dropped s" "sv_aborted (close_fds fds s) = sv_aborted s" "sv_log (close_fds fds s) = sv_log s"
  "sv_fds (close_fds fds s) fd = (if fd \<in> set fds then None else sv_fds s fd)"
  by (simp_all add: close_fds_def restrict_map_def)

lemma logError_simps [simp]:
  "sv_stop (logError m s) = sv_stop s" "sv_stopGc (logError m s) = sv_stopGc s" "sv_accept (logError m s) = sv_accept s"
  "sv_gc (logError m s) = sv_gc s" "sv_stopper (logError m s) = sv_stopper s" "sv_threads (logError m s) = sv_threads s"
  "sv_shared (logError m s) = sv_shared s" "sv_accepted (logError m s) = sv_accepted s" "sv_fds (logError m s) = sv_fds s"
  "sv_dropped (logError m s) = sv_dropped s" "sv_aborted (logError m s) = sv_aborted s"
  "sv_maxConnections (logError m s) = sv_maxConnections s"
  by (simp_all add: logError_def)

lemma admit_cases:
  obtains m where "admit C fd c s = (close_fds [fd] (logError m s))\<lparr>sv_accept := AcceptTop\<rparr>"
  | cs g where "admit C fd c s = s\<lparr>sv_globalId := g, sv_accept := Counted fd c cs\<rparr>" "\<not> cs_terminated cs"
proof (cases "sc_count C (sv_shared s) \<ge> sv_maxConnections s")
  case True
  then show ?thesis using that(1) by (simp add: admit_def)
next
  case False
  then show ?thesis using that(2) by (simp add: admit_def ConnectionState_new_def)
qed

lemma scan_cases:
  assumes "scan C i s = Some s'"
  obtains "s' = s\<lparr>sv_gc := GcTest\<rparr>" "i \<ge> length (sv_threads s)"
  | "s' = s\<lparr>sv_gc := GcScan (i + 1)\<rparr>" "i < length (sv_threads s)" "\<not> cs_terminated (th_state (sv_threads s ! i))"
  | "s' = s\<lparr>sv_threads := take i (sv_threads s) @ drop (i + 1) (sv_threads s)\<rparr>" "i < length (sv_threads s)"
    "sc_finished C (th_local (sv_threads s ! i))" "cs_terminated (th_state (sv_threads s ! i))"
proof -
  consider "i \<ge> length (sv_threads s)" | "i < length (sv_threads s)" "\<not> cs_terminated (th_state (sv_threads s ! i))"
    | "i < length (sv_threads s)" "cs_terminated (th_state (sv_threads s ! i))" by linarith
  then show thesis
  proof cases
    case 1
    then show thesis using assms that(1) by (simp add: scan_def)
  next
    case 2
    then show thesis using assms that(2) by (simp add: scan_def Let_def)
  next
    case 3
    then show thesis using assms that(3) by (simp add: scan_def Let_def split: if_splits)
  qed
qed

lemma inv_accept: "accept_step C strerr s s' \<Longrightarrow> server_inv s \<Longrightarrow> server_inv s'"
proof (induction rule: accept_step.induct)
  case (admitted s fd c)
  then show ?case by (cases rule: admit_cases [of C fd c s]) (auto simp: server_inv_def)
qed (auto simp: server_inv_def launch_def)

lemma inv_gc: "gc_step C s s' \<Longrightarrow> server_inv s \<Longrightarrow> server_inv s'"
proof (induction rule: gc_step.induct)
  case (scanning s i s')
  show ?case using scanning(2)
    by (cases rule: scan_cases) (use scanning in \<open>auto simp: server_inv_def\<close>)
qed (auto simp: server_inv_def getConnectionsThreadsCount_def)

lemma inv_owner: "owner_step C s s' \<Longrightarrow> server_inv s \<Longrightarrow> server_inv s'"
  by (induction rule: owner_step.induct) (auto simp: server_inv_def server_start_def stopAcceptingConnections_def Let_def)

lemma inv_handler: "handler_step C s s' \<Longrightarrow> server_inv s \<Longrightarrow> server_inv s'"
  by (induction rule: handler_step.induct) (auto simp: server_inv_def)

lemma server_listen_simps [simp]:
  "sv_accept (snd (server_listen strerr os s)) = sv_accept s" "sv_gc (snd (server_listen strerr os s)) = sv_gc s"
  "sv_stopper (snd (server_listen strerr os s)) = sv_stopper s" "sv_stopGc (snd (server_listen strerr os s)) = sv_stopGc s"
  "sv_threads (snd (server_listen strerr os s)) = sv_threads s" "sv_shared (snd (server_listen strerr os s)) = sv_shared s"
  "sv_accepted (snd (server_listen strerr os s)) = sv_accepted s" "sv_log (snd (server_listen strerr os s)) = sv_log s"
  "sv_stop (snd (server_listen strerr os s)) = sv_stop s" "sv_aborted (snd (server_listen strerr os s)) = sv_aborted s"
  "sv_maxConnections (snd (server_listen strerr os s)) = sv_maxConnections s"
  by (auto simp: server_listen_def listen_error_def Let_def split: sum.splits option.splits)

lemma server_listen_fds: "sv_fds (snd (server_listen strerr os s)) fd = Some (Connection c) \<Longrightarrow> sv_fds s fd = Some (Connection c)"
  by (auto simp: server_listen_def listen_error_def Let_def split: sum.splits option.splits if_splits)

lemma SocketServer_new_simps [simp]:
  "sv_accept (SocketServer_new p h b m g) = AcceptNone" "sv_gc (SocketServer_new p h b m g) = GcNone"
  "sv_stopper (SocketServer_new p h b m g) = StopIdle" "sv_stopGc (SocketServer_new p h b m g) = False"
  "sv_threads (SocketServer_new p h b m g) = []" "sv_shared (SocketServer_new p h b m g) = g"
  "sv_accepted (SocketServer_new p h b m g) = 0" "sv_log (SocketServer_new p h b m g) = []"
  "sv_stop (SocketServer_new p h b m g) = False" "sv_aborted (SocketServer_new p h b m g) = False"
  "sv_maxConnections (SocketServer_new p h b m g) = m" "sv_fds (SocketServer_new p h b m g) = Map.empty"
  by (simp_all add: SocketServer_new_def)

lemma server_inv_reachable:
  "server_reachable C strerr (SocketServer_new port host backlog m g) s \<Longrightarrow> server_inv s"
proof (induction rule: server_reachable.induct)
  case (listening os)
  then show ?case by (simp add: server_inv_def)
next
  case (stepped s s')
  then show ?case by (auto simp: server_step_def dest: inv_accept inv_gc inv_owner inv_handler)
qed

subsection \<open>The contract of a handler\<close>

text \<open>\<open>holds\<close> says that the handler has still to close its descriptor; \<open>tinv\<close> relates its program
  counter to the flag in its connection state.\<close>

locale server_handler =
  fixes C :: "('l, 'g) server_class" and holds :: "'l \<Rightarrow> bool" and tinv :: "'l thread \<Rightarrow> bool"
  assumes local_holds: "holds (sc_local C)"
    and finished_released: "sc_finished C l \<Longrightarrow> \<not> holds l"
    and step_identity: "sc_step C t g = Went t' g' fds lg \<Longrightarrow> th_fd t' = th_fd t \<and> th_conn t' = th_conn t"
    and step_holds: "sc_step C t g = Went t' g' fds lg \<Longrightarrow> holds (th_local t) \<Longrightarrow> holds (th_local t') \<or> th_fd t \<in> set fds"
    and local_tinv: "tinv \<lparr>th_fd = fd, th_conn = c, th_state = cs, th_local = sc_local C\<rparr>"
    and step_tinv: "sc_step C t g = Went t' g' fds lg \<Longrightarrow> tinv t \<Longrightarrow> tinv t'"
    and finished_terminated: "tinv t \<Longrightarrow> sc_finished C (th_local t) \<Longrightarrow> cs_terminated (th_state t)"
begin

text \<open>Open descriptors are accounted for: dropped when \<open>stop\<close> came in between, held by the accepting
  thread, or held by the thread of their connection.\<close>

definition in_accept :: "accept_pc \<Rightarrow> int \<Rightarrow> nat \<Rightarrow> bool" where
  "in_accept pc fd c \<longleftrightarrow> pc = Accepted fd c \<or> (\<exists>cs. pc = Counted fd c cs \<or> pc = AcceptPush fd c cs)"

definition accounted :: "('l, 'g) server \<Rightarrow> bool" where
  "accounted s \<longleftrightarrow>
     (\<forall>fd c. sv_fds s fd = Some (Connection c) \<longrightarrow>
        c \<in> set (sv_dropped s) \<or> in_accept (sv_accept s) fd c \<or>
        (\<exists>t \<in> set (sv_threads s). th_fd t = fd \<and> th_conn t = c \<and> holds (th_local t)))"

definition released :: "('l, 'g) server \<Rightarrow> bool" where
  "released s \<longleftrightarrow> (\<forall>t \<in> set (sv_threads s). tinv t)"

lemma removed_thread:
  assumes "i < length xs" "t \<in> set xs" "t \<notin> set (take i xs @ drop (i + 1) xs)"
  shows "t = xs ! i"
  using assms id_take_nth_drop [of i xs] by (metis Un_iff add.commute plus_1_eq_Suc set_ConsD set_append)

lemma accounted_accept: "accept_step C strerr s s' \<Longrightarrow> accounted s \<Longrightarrow> accounted s'"
proof (induction rule: accept_step.induct)
  case (admitted s fd c)
  show ?case
  proof (cases rule: admit_cases [of C fd c s])
    case (1 m)
    then show ?thesis using admitted unfolding accounted_def in_accept_def by (fastforce split: if_splits)
  next
    case (2 cs g)
    then show ?thesis using admitted unfolding accounted_def in_accept_def by fastforce
  qed
next
  case (launched s fd c cs)
  then show ?case using local_holds by (fastforce simp: accounted_def in_accept_def launch_def)
next
  case (accepted s fd)
  then show ?case by (fastforce simp: accounted_def in_accept_def split: if_splits)
qed (fastforce simp: accounted_def in_accept_def)+

lemma accounted_gc: "gc_step C s s' \<Longrightarrow> accounted s \<Longrightarrow> accounted s'"
proof (induction rule: gc_step.induct)
  case (scanning s i s')
  show ?case using scanning(2)
  proof (cases rule: scan_cases)
    case 3
    have "t \<in> set (take i (sv_threads s) @ drop (i + 1) (sv_threads s))" if "t \<in> set (sv_threads s)" "holds (th_local t)" for t
      using removed_thread [OF 3(2) that(1)] that(2) 3(3) finished_released by auto
    then show ?thesis using scanning(3) unfolding 3(1) accounted_def by fastforce
  qed (use scanning in \<open>auto simp: accounted_def\<close>)
qed (auto simp: accounted_def)

lemma accounted_owner: "owner_step C s s' \<Longrightarrow> accounted s \<Longrightarrow> accounted s'"
  by (induction rule: owner_step.induct)
    (fastforce simp: accounted_def in_accept_def server_start_def stopAcceptingConnections_def Let_def split: if_splits)+

lemma accounted_handler: "handler_step C s s' \<Longrightarrow> accounted s \<Longrightarrow> accounted s'"
proof (induction rule: handler_step.induct)
  case (went i s t g fds lg)
  show ?case unfolding accounted_def
  proof (intro allI impI)
    fix fd c
    let ?s = "close_fds fds (s\<lparr>sv_threads := (sv_threads s)[i := t], sv_shared := g, sv_log := sv_log s @ lg\<rparr>)"
    assume a: "sv_fds ?s fd = Some (Connection c)"
    then have o: "sv_fds s fd = Some (Connection c)" "fd \<notin> set fds" by (simp_all split: if_splits)
    consider "c \<in> set (sv_dropped s)" | "in_accept (sv_accept s) fd c"
      | u where "u \<in> set (sv_threads s)" "th_fd u = fd" "th_conn u = c" "holds (th_local u)"
      using went.prems o(1) unfolding accounted_def by blast
    then show "c \<in> set (sv_dropped ?s) \<or> in_accept (sv_accept ?s) fd c \<or>
      (\<exists>t \<in> set (sv_threads ?s). th_fd t = fd \<and> th_conn t = c \<and> holds (th_local t))"
    proof cases
      case 3
      show ?thesis
      proof (cases "u = sv_threads s ! i")
        case True
        then show ?thesis
          using 3 o(2) step_identity [OF went(2)] step_holds [OF went(2)] set_update_memI [OF went(1), of t] by auto
      next
        case False
        then have "u \<in> set ((sv_threads s)[i := t])" using 3(1) by (metis in_set_conv_nth length_list_update nth_list_update_neq)
        then show ?thesis using 3 by auto
      qed
    qed auto
  qed
next
  case (crashed i s)
  then show ?case by (simp add: accounted_def)
qed

lemma accounted_reachable:
  "server_reachable C strerr (SocketServer_new port host backlog m g) s \<Longrightarrow> accounted s"
proof (induction rule: server_reachable.induct)
  case (listening os)
  then show ?case by (auto simp: accounted_def dest!: server_listen_fds)
next
  case (stepped s s')
  then show ?case
    by (auto simp: server_step_def dest: accounted_accept accounted_gc accounted_owner accounted_handler)
qed

text \<open>What is left when \<open>stop\<close> is about to return.\<close>

lemma stopped_clean:
  assumes "server_reachable C strerr (SocketServer_new port host backlog m g) s" "sv_stopper s = StopFinish"
  shows "sv_threads s = [] \<and> sv_accept s = AcceptNone \<and> sv_gc s = GcNone \<and>
    (\<forall>fd c. sv_fds s fd = Some (Connection c) \<longrightarrow> c \<in> set (sv_dropped s))"
  using server_inv_reachable [OF assms(1)] accounted_reachable [OF assms(1)] assms(2)
  by (auto simp: server_inv_def accounted_def in_accept_def)

text \<open>Connections are numbered apart.\<close>

definition numbered :: "('l, 'g) server \<Rightarrow> bool" where
  "numbered s \<longleftrightarrow> distinct (map th_conn (sv_threads s)) \<and> (\<forall>t \<in> set (sv_threads s). th_conn t < sv_accepted s) \<and>
     (\<forall>fd c. in_accept (sv_accept s) fd c \<longrightarrow> c < sv_accepted s \<and> c \<notin> th_conn ` set (sv_threads s))"

lemma numbered_accept: "accept_step C strerr s s' \<Longrightarrow> numbered s \<Longrightarrow> numbered s'"
proof (induction rule: accept_step.induct)
  case (admitted s fd c)
  then show ?case by (cases rule: admit_cases [of C fd c s]) (auto simp: numbered_def in_accept_def)
qed (fastforce simp: numbered_def in_accept_def launch_def)+

lemma numbered_subset:
  "numbered s \<Longrightarrow> set ts \<subseteq> set (sv_threads s) \<Longrightarrow> distinct (map th_conn ts) \<Longrightarrow> numbered (s\<lparr>sv_threads := ts\<rparr>)"
  unfolding numbered_def by (simp add: image_iff) (meson subsetD)

lemma numbered_gc: "gc_step C s s' \<Longrightarrow> numbered s \<Longrightarrow> numbered s'"
proof (induction rule: gc_step.induct)
  case (scanning s i s')
  show ?case using scanning(2)
  proof (cases rule: scan_cases)
    case 3
    have sub: "set (take i (sv_threads s) @ drop (i + 1) (sv_threads s)) \<subseteq> set (sv_threads s)"
      by (auto dest: in_set_takeD in_set_dropD)
    have "map th_conn (sv_threads s) = map th_conn (take i (sv_threads s)) @ th_conn (sv_threads s ! i) # map th_conn (drop (i + 1) (sv_threads s))"
      using id_take_nth_drop [OF 3(2)] by (metis Suc_eq_plus1 list.simps(9) map_append)
    then have "distinct (map th_conn (take i (sv_threads s) @ drop (i + 1) (sv_threads s)))"
      using scanning(3) unfolding numbered_def by auto
    then show ?thesis using numbered_subset [OF scanning(3) sub] unfolding 3(1) by blast
  qed (use scanning in \<open>auto simp: numbered_def\<close>)
qed (auto simp: numbered_def)

lemma numbered_owner: "owner_step C s s' \<Longrightarrow> numbered s \<Longrightarrow> numbered s'"
  by (induction rule: owner_step.induct)
    (auto simp: numbered_def in_accept_def server_start_def stopAcceptingConnections_def Let_def)

lemma went_conns:
  assumes "i < length ts" "sc_step C (ts ! i) g = Went t g' fds lg"
  shows "map th_conn (ts[i := t]) = map th_conn ts"
  using assms step_identity [OF assms(2)] by (simp add: map_update list_update_same_conv)

lemma numbered_handler: "handler_step C s s' \<Longrightarrow> numbered s \<Longrightarrow> numbered s'"
proof (induction rule: handler_step.induct)
  case (went i s t g fds lg)
  have m: "map th_conn ((sv_threads s)[i := t]) = map th_conn (sv_threads s)" using went_conns [OF went(1,2)] .
  then have "th_conn ` set ((sv_threads s)[i := t]) = th_conn ` set (sv_threads s)" by (metis set_map)
  then have "(\<forall>u \<in> set ((sv_threads s)[i := t]). th_conn u < sv_accepted s) \<longleftrightarrow> (\<forall>u \<in> set (sv_threads s). th_conn u < sv_accepted s)"
    "th_conn ` set ((sv_threads s)[i := t]) = th_conn ` set (sv_threads s)" by (metis (mono_tags, lifting) imageE imageI)+
  then show ?case using went.prems m unfolding numbered_def by simp
qed (simp add: numbered_def)

lemma numbered_reachable:
  "server_reachable C strerr (SocketServer_new port host backlog m g) s \<Longrightarrow> numbered s"
proof (induction rule: server_reachable.induct)
  case (listening os)
  then show ?case by (simp add: numbered_def in_accept_def)
next
  case (stepped s s')
  then show ?case by (auto simp: server_step_def dest: numbered_accept numbered_gc numbered_owner numbered_handler)
qed

text \<open>A thread that has let go of its descriptor is marked, so that the collector will join it.\<close>

lemma released_step: "server_step C strerr s s' \<Longrightarrow> released s \<Longrightarrow> released s'"
proof -
  assume step: "server_step C strerr s s'" and r: "released s"
  have acc: "accept_step C strerr u u' \<Longrightarrow> released u \<Longrightarrow> released u'" for u u'
  proof (induction rule: accept_step.induct)
    case (admitted s fd c)
    then show ?case by (cases rule: admit_cases [of C fd c s]) (auto simp: released_def)
  qed (use local_tinv in \<open>auto simp: released_def launch_def\<close>)
  have gc: "gc_step C u u' \<Longrightarrow> released u \<Longrightarrow> released u'" for u u'
  proof (induction rule: gc_step.induct)
    case (scanning s i s')
    show ?case using scanning(2)
      by (cases rule: scan_cases) (use scanning in \<open>auto simp: released_def dest: in_set_takeD in_set_dropD\<close>)
  qed (auto simp: released_def)
  have own: "owner_step C u u' \<Longrightarrow> released u \<Longrightarrow> released u'" for u u'
    by (induction rule: owner_step.induct) (auto simp: released_def server_start_def stopAcceptingConnections_def Let_def)
  have han: "handler_step C u u' \<Longrightarrow> released u \<Longrightarrow> released u'" for u u'
  proof (induction rule: handler_step.induct)
    case (went i s t g fds lg)
    have "sv_threads s ! i \<in> set (sv_threads s)" using went(1) by simp
    then show ?case using went.prems step_tinv [OF went(2)] set_update_subset_insert [of "sv_threads s" i t]
      unfolding released_def by auto
  qed (simp add: released_def)
  show ?thesis using step r acc gc own han unfolding server_step_def by blast
qed

lemma released_reachable:
  "server_reachable C strerr (SocketServer_new port host backlog m g) s \<Longrightarrow> released s"
proof (induction rule: server_reachable.induct)
  case (listening os)
  then show ?case by (simp add: released_def)
qed (rule released_step)

subsection \<open>The collector and the end of stop\<close>

abbreviation steps :: "(int \<Rightarrow> string) \<Rightarrow> ('l, 'g) server \<Rightarrow> ('l, 'g) server \<Rightarrow> bool" where
  "steps strerr \<equiv> (server_step C strerr)\<^sup>*\<^sup>*"

lemma gc_moves: "gc_step C s s' \<Longrightarrow> \<not> sv_aborted s \<Longrightarrow> server_step C strerr s s'"
  by (simp add: server_step_def)

lemma collector_scans:
  assumes "\<not> sv_aborted s" "sv_gc s = GcScan i"
    and "\<forall>t \<in> set (drop i (sv_threads s)). cs_terminated (th_state t) \<and> sc_finished C (th_local t)"
  shows "steps strerr s (s\<lparr>sv_gc := GcTest, sv_threads := take i (sv_threads s)\<rparr>)"
  using assms
proof (induction "length (sv_threads s) - i" arbitrary: s)
  case 0
  then have "scan C i s = Some (s\<lparr>sv_gc := GcTest\<rparr>)" by (simp add: scan_def)
  then have "server_step C strerr s (s\<lparr>sv_gc := GcTest\<rparr>)" using 0 scanning gc_moves by blast
  moreover have "s\<lparr>sv_gc := GcTest, sv_threads := take i (sv_threads s)\<rparr> = s\<lparr>sv_gc := GcTest\<rparr>" using 0(1) by simp
  ultimately show ?case by simp
next
  case (Suc n)
  have i: "i < length (sv_threads s)" using Suc(2) by simp
  let ?s = "s\<lparr>sv_threads := take i (sv_threads s) @ drop (i + 1) (sv_threads s)\<rparr>"
  have "sv_threads s ! i \<in> set (drop i (sv_threads s))" using i by (metis Cons_nth_drop_Suc list.set_intros(1))
  then have "scan C i s = Some ?s" using Suc(5) i by (simp add: scan_def Let_def)
  then have one: "server_step C strerr s ?s" using Suc(3,4) scanning gc_moves by blast
  have "set (drop i (sv_threads ?s)) \<subseteq> set (drop i (sv_threads s))"
    using i set_drop_subset_set_drop [of i "i + 1" "sv_threads s"] by simp
  then have "\<forall>t \<in> set (drop i (sv_threads ?s)). cs_terminated (th_state t) \<and> sc_finished C (th_local t)" using Suc(5) by blast
  moreover have "n = length (sv_threads ?s) - i" using Suc(2) i by simp
  moreover have "\<not> sv_aborted ?s" "sv_gc ?s = GcScan i" using Suc(3,4) by simp_all
  ultimately have "steps strerr ?s (?s\<lparr>sv_gc := GcTest, sv_threads := take i (sv_threads ?s)\<rparr>)" using Suc(1) [of ?s] by blast
  moreover have "take i (sv_threads ?s) = take i (sv_threads s)" using i by simp
  ultimately have "steps strerr ?s (?s\<lparr>sv_gc := GcTest, sv_threads := take i (sv_threads s)\<rparr>)" by (simp only:)
  then have "steps strerr ?s (s\<lparr>sv_gc := GcTest, sv_threads := take i (sv_threads s)\<rparr>)" by simp
  then show ?case using one by (metis converse_rtranclp_into_rtranclp)
qed

text \<open>From every point of the collector's loop the stop can return, once all threads are finished.\<close>

abbreviation can_return :: "(int \<Rightarrow> string) \<Rightarrow> ('l, 'g) server \<Rightarrow> bool" where
  "can_return strerr s \<equiv> \<exists>s'. steps strerr s s' \<and> sv_stopper s' = StopIdle \<and> sv_threads s' = []"

definition stopping :: "('l, 'g) server \<Rightarrow> bool" where
  "stopping s \<longleftrightarrow> sv_stopper s = StopJoinGc \<and> \<not> sv_aborted s \<and> sv_stopGc s \<and>
     (\<forall>t \<in> set (sv_threads s). cs_terminated (th_state t) \<and> sc_finished C (th_local t))"

lemma step_can_return: "server_step C strerr s s' \<Longrightarrow> can_return strerr s' \<Longrightarrow> can_return strerr s"
  by (meson converse_rtranclp_into_rtranclp)

lemma ended_can_return:
  assumes "stopping s" "sv_gc s = GcEnded" "sv_threads s = []"
  shows "can_return strerr s"
proof (rule step_can_return)
  let ?u = "s\<lparr>sv_gc := GcNone, sv_stopGc := False, sv_stopper := StopFinish\<rparr>"
  show "server_step C strerr s ?u" using assms join_gc [of s C] unfolding server_step_def stopping_def by blast
  obtain g fds where g: "sc_stopEnd C (sv_shared ?u) = (g, fds)" by fastforce
  let ?v = "close_fds (sv_serverFd ?u # fds) (?u\<lparr>sv_waiting := False, sv_shared := g, sv_stopper := StopIdle\<rparr>)"
  have "server_step C strerr ?u ?v" using assms stop_return [of ?u C, OF _ g] unfolding server_step_def stopping_def by simp
  moreover have "sv_stopper ?v = StopIdle" "sv_threads ?v = []" using assms by simp_all
  ultimately show "can_return strerr ?u" by blast
qed

lemma empty_can_return:
  assumes "stopping s" "sv_gc s = GcTest" "sv_threads s = []"
  shows "can_return strerr s"
proof (rule step_can_return)
  show "server_step C strerr s (s\<lparr>sv_gc := GcCount\<rparr>)"
    using assms gc_moves [OF test [of s C]] by (simp add: stopping_def)
  have "server_step C strerr (s\<lparr>sv_gc := GcCount\<rparr>) (s\<lparr>sv_gc := GcEnded\<rparr>)"
    using assms gc_moves [OF count [of "s\<lparr>sv_gc := GcCount\<rparr>" C]] by (simp add: stopping_def getConnectionsThreadsCount_def)
  moreover have "can_return strerr (s\<lparr>sv_gc := GcEnded\<rparr>)"
    by (rule ended_can_return) (use assms in \<open>simp_all add: stopping_def\<close>)
  ultimately show "can_return strerr (s\<lparr>sv_gc := GcCount\<rparr>)" by (rule step_can_return)
qed

lemma top_can_return:
  assumes "stopping s" "sv_gc s = GcTop"
  shows "can_return strerr s"
proof (rule step_can_return)
  show "server_step C strerr s (s\<lparr>sv_gc := GcScan 0\<rparr>)" using assms begin_scan gc_moves unfolding stopping_def by blast
  have "steps strerr (s\<lparr>sv_gc := GcScan 0\<rparr>) (s\<lparr>sv_gc := GcTest, sv_threads := []\<rparr>)"
    using collector_scans [of "s\<lparr>sv_gc := GcScan 0\<rparr>" 0 strerr] assms by (simp add: stopping_def)
  moreover have "can_return strerr (s\<lparr>sv_gc := GcTest, sv_threads := []\<rparr>)"
    by (rule empty_can_return) (use assms in \<open>simp_all add: stopping_def\<close>)
  ultimately show "can_return strerr (s\<lparr>sv_gc := GcScan 0\<rparr>)" by (meson rtranclp_trans)
qed

lemma count_can_return:
  assumes "stopping s" "sv_gc s = GcCount"
  shows "can_return strerr s"
proof (cases "sv_threads s = []")
  case True
  have "server_step C strerr s (s\<lparr>sv_gc := GcEnded\<rparr>)"
    using True assms gc_moves [OF count [of s C]] by (simp add: stopping_def getConnectionsThreadsCount_def)
  then show ?thesis by (rule step_can_return [OF _ ended_can_return]) (use True assms in \<open>simp_all add: stopping_def\<close>)
next
  case False
  have "server_step C strerr s (s\<lparr>sv_gc := GcTop\<rparr>)"
    using False assms gc_moves [OF count [of s C]] by (simp add: stopping_def getConnectionsThreadsCount_def)
  then show ?thesis by (rule step_can_return [OF _ top_can_return]) (use assms in \<open>simp_all add: stopping_def\<close>)
qed

lemma test_can_return:
  assumes "stopping s" "sv_gc s = GcTest"
  shows "can_return strerr s"
proof (rule step_can_return)
  show "server_step C strerr s (s\<lparr>sv_gc := GcCount\<rparr>)"
    using assms gc_moves [OF test [of s C]] by (simp add: stopping_def)
  show "can_return strerr (s\<lparr>sv_gc := GcCount\<rparr>)" by (rule count_can_return) (use assms in \<open>simp_all add: stopping_def\<close>)
qed

lemma stop_completes:
  assumes reach: "server_reachable C strerr (SocketServer_new port host backlog m g) s"
    and st: "sv_stopper s = StopJoinGc" "\<not> sv_aborted s" and fin: "\<forall>t \<in> set (sv_threads s). sc_finished C (th_local t)"
  shows "can_return strerr s"
proof -
  note inv = server_inv_reachable [OF reach]
  have s: "stopping s" and gc: "sv_gc s \<noteq> GcNone"
    using fin st released_reachable [OF reach] inv finished_terminated
    unfolding stopping_def released_def server_inv_def by blast+
  show ?thesis
  proof (cases "sv_gc s")
    case (GcScan i)
    have sub: "set (take i (sv_threads s)) \<subseteq> set (sv_threads s)" "set (drop i (sv_threads s)) \<subseteq> set (sv_threads s)"
      by (simp_all add: set_take_subset set_drop_subset)
    have "steps strerr s (s\<lparr>sv_gc := GcTest, sv_threads := take i (sv_threads s)\<rparr>)"
      using collector_scans [OF st(2) GcScan] s sub unfolding stopping_def by blast
    moreover have "can_return strerr (s\<lparr>sv_gc := GcTest, sv_threads := take i (sv_threads s)\<rparr>)"
      by (rule test_can_return) (use s sub in \<open>auto simp: stopping_def\<close>)
    ultimately show ?thesis by (meson rtranclp_trans)
  next
    case GcEnded
    then show ?thesis using ended_can_return [OF s] inv unfolding server_inv_def by blast
  qed (use top_can_return [OF s] test_can_return [OF s] count_can_return [OF s] gc in auto)
qed

end

end
