(* ===== verification/WebSocketServer.thy ===== *)
theory WebSocketServer
  imports WebSocket SocketServerProperties
begin

section \<open>The WebSocket server\<close>

text \<open>
  \<^verbatim>\<open>IXWebSocketServer.cpp\<close>. A connection thread makes a WebSocket object, enters it into the set of clients,
  does the handshake and runs the object's loop until the connection is closed. The objects are
  shared: the set of clients and the copy \<open>stop\<close> takes of it refer to them, so they live in a heap
  \<open>wg_objects\<close>, addressed by the number of the connection. The set of pointers is a list in the order
  of insertion. \<open>ws_world\<close> holds what comes from outside: the environment, what the system answers
  on each connection, the fresh transports and the user's connection callback, which may configure
  the object. One turn of the loop is one step.
\<close>

subsection \<open>State\<close>

datatype ws_local =
  WsStart | WsInserted | WsServing bool | WsErase | WsTerminate | WsCloseFd | WsDestroy | WsDone

record 'z ws_shared =
  wg_handshakeTimeoutSecs :: int
  wg_enablePong :: bool
  wg_clients :: "nat list"
  wg_objects :: "nat \<rightharpoonup> 'z websocket"
  wg_snapshot :: "nat list"
  wg_todo :: "nat list"

record 'z ws_world =
  wd_env :: "'z tenv"
  wd_attempt :: "nat \<Rightarrow> 'z attempt"
  wd_retry :: "nat \<Rightarrow> 'z attempt"
  wd_unfit :: "nat \<Rightarrow> u32"
  wd_transport :: "nat \<Rightarrow> 'z transport"
  wd_onConnection :: "nat \<Rightarrow> 'z websocket \<Rightarrow> 'z websocket"

definition WebSocketServer_kDefaultHandShakeTimeoutSecs :: int where
  "WebSocketServer_kDefaultHandShakeTimeoutSecs = 3"

definition WebSocketServer_shared :: "int \<Rightarrow> 'z ws_shared" where
  "WebSocketServer_shared handshakeTimeoutSecs =
     \<lparr>wg_handshakeTimeoutSecs = handshakeTimeoutSecs, wg_enablePong = True, wg_clients = [], wg_objects = Map.empty,
      wg_snapshot = [], wg_todo = []\<rparr>"

definition WebSocketServer_new :: "int \<Rightarrow> string \<Rightarrow> int \<Rightarrow> nat \<Rightarrow> int \<Rightarrow> (ws_local, 'z ws_shared) server" where
  "WebSocketServer_new p h backlog maxConnections handshakeTimeoutSecs =
     SocketServer_new p h backlog maxConnections (WebSocketServer_shared handshakeTimeoutSecs)"

definition server_setPong :: "bool \<Rightarrow> 'z ws_shared \<Rightarrow> 'z ws_shared" where
  "server_setPong b g = g\<lparr>wg_enablePong := b\<rparr>"

definition getClients :: "'z ws_shared \<Rightarrow> nat list" where
  "getClients g = wg_clients g"

definition getConnectedClientsCount :: "'z ws_shared \<Rightarrow> nat" where
  "getConnectedClientsCount g = length (wg_clients g)"

subsection \<open>One turn of a running object\<close>

text \<open>The body of the loop of \<open>run\<close>: \<^const>\<open>None\<close> goes round again.\<close>

definition run_turn ::
  "'z tenv \<Rightarrow> (nat \<Rightarrow> 'z attempt) \<Rightarrow> (nat \<Rightarrow> bool) \<Rightarrow> (nat \<Rightarrow> u32) \<Rightarrow> bool \<Rightarrow> 'z websocket \<Rightarrow> (run_end option \<times> 'z websocket) option" where
  "run_turn env atts stops unfit first w =
     Option.bind (checkConnection env atts stops unfit first w) (\<lambda>(ok, w1).
       if \<not> ok then Some (Some RunThrew, w1)
       else if readyState (ws_transport w1) = CLOSED then Some (Some RunReturned, w1)
       else case read_stop stops w1 of (stopped, w2) \<Rightarrow>
         if stopped \<and> \<not> ws_isClosing w2 then Some (Some RunReturned, w2)
         else case ws_turn env w2 of
           Ret w3 \<Rightarrow> Some (None, w3)
         | Fault \<Rightarrow> Some (Some RunFault, w2)
         | Hang \<Rightarrow> None)"

lemma run_loop_turns:
  "run_loop env atts stops unfit first w =
     Option.bind (run_turn env atts stops unfit first w) (\<lambda>(e, w1).
       case e of None \<Rightarrow> run_loop env atts stops unfit False w1 | Some r \<Rightarrow> Some (r, w1))"
  by (subst run_loop.simps)
    (auto simp: run_turn_def split: Option.bind_splits if_splits outcome.splits prod.splits)

definition newly_closed :: "'z websocket \<Rightarrow> 'z websocket \<Rightarrow> int list" where
  "newly_closed w w1 = drop (length (closed_fds (sock (ws_transport w)))) (closed_fds (sock (ws_transport w1)))"

text \<open>Destroying the object: its destructor stops it, and that of the socket closes a descriptor that
  is still open.\<close>

definition destroyed_fds :: "'z tenv \<Rightarrow> 'z websocket \<Rightarrow> int list" where
  "destroyed_fds env w =
     (let w1 = ws_close env kNormalClosureCode kNormalClosureMessage w
      in drop (length (closed_fds (sock (ws_transport w)))) (closed_fds (socket_close (sock (ws_transport w1)))))"

subsection \<open>The thread of a connection\<close>

definition set_local :: "ws_local \<Rightarrow> ws_local thread \<Rightarrow> ws_local thread" where
  "set_local l t = t\<lparr>th_local := l\<rparr>"

definition put_object :: "nat \<Rightarrow> 'z websocket \<Rightarrow> 'z ws_shared \<Rightarrow> 'z ws_shared" where
  "put_object c w g = g\<lparr>wg_objects := (wg_objects g)(c \<mapsto> w)\<rparr>"

definition handle_start :: "'z ws_world \<Rightarrow> ws_local thread \<Rightarrow> 'z ws_shared \<Rightarrow> (ws_local, 'z ws_shared) handled" where
  "handle_start W t g =
     (let c = th_conn t;
          w = ws_setPong (wg_enablePong g) (setAutomaticReconnection False (wd_onConnection W c (WebSocket_new (wd_transport W c))))
      in Went (set_local WsInserted t) ((put_object c w g)\<lparr>wg_clients := wg_clients g @ [c]\<rparr>) [] [])"

definition handle_connect :: "'z ws_world \<Rightarrow> 'z websocket \<Rightarrow> ws_local thread \<Rightarrow> 'z ws_shared \<Rightarrow> (ws_local, 'z ws_shared) handled" where
  "handle_connect W w t g =
     (case ws_connectToSocket (wd_env W) (wd_attempt W (th_conn t)) (th_fd t) (wg_handshakeTimeoutSecs g) w of
        None \<Rightarrow> Blocked
      | Some (HandshakeOutOfRange, w1) \<Rightarrow> Crashed
      | Some (Init status, w1) \<Rightarrow>
          if init_success status then Went (set_local (WsServing True) t) (put_object (th_conn t) w1 g) [] []
          else Went (set_local WsErase t) (put_object (th_conn t) w1 g) []
                 [''WebSocketServer::handleConnection() HTTP status: '' @ string_of_int (init_http_status status)
                    @ '' error: '' @ init_errorStr status])"

definition handle_serve :: "'z ws_world \<Rightarrow> bool \<Rightarrow> 'z websocket \<Rightarrow> ws_local thread \<Rightarrow> 'z ws_shared \<Rightarrow> (ws_local, 'z ws_shared) handled" where
  "handle_serve W first w t g =
     (case run_turn (wd_env W) (wd_retry W) (\<lambda>_. False) (wd_unfit W) first w of
        None \<Rightarrow> Blocked
      | Some (None, w1) \<Rightarrow> Went (set_local (WsServing False) t) (put_object (th_conn t) w1 g) (newly_closed w w1) []
      | Some (Some RunReturned, w1) \<Rightarrow> Went (set_local WsErase t) (put_object (th_conn t) w1 g) (newly_closed w w1) []
      | Some (Some _, w1) \<Rightarrow> Crashed)"

definition handle_erase :: "ws_local thread \<Rightarrow> 'z ws_shared \<Rightarrow> (ws_local, 'z ws_shared) handled" where
  "handle_erase t g =
     Went (set_local WsTerminate t) (g\<lparr>wg_clients := remove1 (th_conn t) (wg_clients g)\<rparr>) []
       (if th_conn t \<in> set (wg_clients g) then [] else [''Cannot delete client''])"

definition handle_destroy :: "'z ws_world \<Rightarrow> 'z websocket \<Rightarrow> ws_local thread \<Rightarrow> 'z ws_shared \<Rightarrow> (ws_local, 'z ws_shared) handled" where
  "handle_destroy W w t g =
     (if th_conn t \<in> set (wg_snapshot g) then Went (set_local WsDone t) g [] []
      else Went (set_local WsDone t) (g\<lparr>wg_objects := (wg_objects g)(th_conn t := None)\<rparr>) (destroyed_fds (wd_env W) w) [])"

definition handleConnection :: "'z ws_world \<Rightarrow> ws_local thread \<Rightarrow> 'z ws_shared \<Rightarrow> (ws_local, 'z ws_shared) handled" where
  "handleConnection W t g =
     (case th_local t of
        WsStart \<Rightarrow> handle_start W t g
      | WsInserted \<Rightarrow> (case wg_objects g (th_conn t) of None \<Rightarrow> Blocked | Some w \<Rightarrow> handle_connect W w t g)
      | WsServing first \<Rightarrow> (case wg_objects g (th_conn t) of None \<Rightarrow> Blocked | Some w \<Rightarrow> handle_serve W first w t g)
      | WsErase \<Rightarrow> handle_erase t g
      | WsTerminate \<Rightarrow> Went (set_local WsCloseFd (t\<lparr>th_state := setTerminated (th_state t)\<rparr>)) g []
                          [''WebSocketServer::handleConnection() done'']
      | WsCloseFd \<Rightarrow> Went (set_local WsDestroy t) g [th_fd t] []
      | WsDestroy \<Rightarrow> (case wg_objects g (th_conn t) of None \<Rightarrow> Blocked | Some w \<Rightarrow> handle_destroy W w t g)
      | WsDone \<Rightarrow> Blocked)"

subsection \<open>Stopping\<close>

definition stop_begin :: "'z ws_shared \<Rightarrow> 'z ws_shared" where
  "stop_begin g = g\<lparr>wg_snapshot := getClients g, wg_todo := getClients g\<rparr>"

definition stop_next :: "'z ws_world \<Rightarrow> 'z ws_shared \<Rightarrow> ('z ws_shared \<times> int list) option" where
  "stop_next W g =
     (case wg_todo g of
        [] \<Rightarrow> None
      | c # cs \<Rightarrow>
          let g1 = g\<lparr>wg_todo := cs\<rparr>
          in case wg_objects g c of
               None \<Rightarrow> Some (g1, [])
             | Some w \<Rightarrow> let w1 = ws_close (wd_env W) kNormalClosureCode kNormalClosureMessage w
                         in Some (put_object c w1 g1, newly_closed w w1))"

text \<open>When \<open>stop\<close> returns, its copy of the set goes and the objects it kept are destroyed.\<close>

definition stop_end :: "'z ws_world \<Rightarrow> 'z ws_shared \<Rightarrow> 'z ws_shared \<times> int list" where
  "stop_end W g =
     (g\<lparr>wg_snapshot := [], wg_objects := wg_objects g |` (- set (wg_snapshot g))\<rparr>,
      concat (map (\<lambda>c. case wg_objects g c of None \<Rightarrow> [] | Some w \<Rightarrow> destroyed_fds (wd_env W) w) (wg_snapshot g)))"

definition WebSocketServer :: "'z ws_world \<Rightarrow> (ws_local, 'z ws_shared) server_class" where
  "WebSocketServer W =
     \<lparr>sc_local = WsStart, sc_step = handleConnection W, sc_finished = (\<lambda>l. l = WsDone), sc_count = getConnectedClientsCount,
      sc_stopBegin = stop_begin, sc_stopNext = stop_next W, sc_stopEnd = stop_end W\<rparr>"

subsection \<open>The handler keeps the contract\<close>

definition ws_holds :: "ws_local \<Rightarrow> bool" where
  "ws_holds l \<longleftrightarrow> l \<noteq> WsDestroy \<and> l \<noteq> WsDone"

definition ws_tinv :: "ws_local thread \<Rightarrow> bool" where
  "ws_tinv t \<longleftrightarrow> (th_local t \<in> {WsCloseFd, WsDestroy, WsDone} \<longrightarrow> cs_terminated (th_state t))"

lemmas handler_defs = handleConnection_def handle_start_def handle_connect_def handle_serve_def handle_erase_def handle_destroy_def
  set_local_def put_object_def Let_def

lemma WebSocketServer_simps [simp]:
  "sc_local (WebSocketServer W) = WsStart" "sc_step (WebSocketServer W) = handleConnection W"
  "sc_finished (WebSocketServer W) l = (l = WsDone)" "sc_count (WebSocketServer W) = getConnectedClientsCount"
  "sc_stopBegin (WebSocketServer W) = stop_begin" "sc_stopNext (WebSocketServer W) = stop_next W"
  "sc_stopEnd (WebSocketServer W) = stop_end W"
  by (simp_all add: WebSocketServer_def)

lemma handler_kept:
  assumes "handleConnection W t g = Went t' g' fds lg"
  shows "th_fd t' = th_fd t \<and> th_conn t' = th_conn t \<and> (ws_holds (th_local t) \<longrightarrow> ws_holds (th_local t') \<or> th_fd t \<in> set fds) \<and>
    (ws_tinv t \<longrightarrow> ws_tinv t')"
  using assms
  by (cases "th_local t")
    (auto simp: handler_defs ws_holds_def ws_tinv_def setTerminated_def
      split: option.splits prod.splits handshake_result.splits run_end.splits if_splits)

interpretation wss: server_handler "WebSocketServer W" ws_holds ws_tinv for W
proof
  show "sc_step (WebSocketServer W) t g = Went t' g' fds lg \<Longrightarrow> th_fd t' = th_fd t \<and> th_conn t' = th_conn t" for t g t' g' fds lg
    by (simp add: handler_kept)
  show "sc_step (WebSocketServer W) t g = Went t' g' fds lg \<Longrightarrow> ws_holds (th_local t) \<Longrightarrow> ws_holds (th_local t') \<or> th_fd t \<in> set fds"
    for t g t' g' fds lg by (auto dest: handler_kept)
  show "sc_step (WebSocketServer W) t g = Went t' g' fds lg \<Longrightarrow> ws_tinv t \<Longrightarrow> ws_tinv t'" for t g t' g' fds lg
    by (auto dest: handler_kept)
qed (simp_all add: ws_holds_def ws_tinv_def)

end
