(* ===== verification/SampleServer.thy ===== *)
theory SampleServer
  imports WebSocketServer SampleDataStore
begin

section \<open>The sample server\<close>

text \<open>
  \<^verbatim>\<open>SampleServer.cpp\<close> and \<^verbatim>\<open>main.cpp\<close> of \<^verbatim>\<open>mtl-sample-api-server\<close>: heartbeats, grade responses and the handler
  of incoming messages, on top of the WebSocket server's clients. The server's state is that of the
  WebSocket server; a message is sent with \<^const>\<open>ws_send\<close> on the client's object. The JSON parser
  and printer are parameters: \<open>parse\<close> gives the text of a \<open>parse_error\<close> or a value, \<open>dump\<close> the text of a
  value. The two regular expressions of the code are spelled out and matched by a small matcher,
  which tries all ways, as \<open>std::regex_search\<close> does. A handler's exception is caught where the code
  catches it, with the request number known by then.
\<close>

subsection \<open>Regular expressions\<close>

datatype re = REChar char | REDigit | RESpace | REEmpty | RESeq re re | REAlt re re | REStar re

text \<open>What can be left over after a match at the beginning.\<close>

function rests :: "re \<Rightarrow> string \<Rightarrow> string list" where
  "rests (REChar c) s = (case s of [] \<Rightarrow> [] | x # t \<Rightarrow> if x = c then [t] else [])"
| "rests REDigit s = (case s of [] \<Rightarrow> [] | x # t \<Rightarrow> if c_isdigit x then [t] else [])"
| "rests RESpace s = (case s of [] \<Rightarrow> [] | x # t \<Rightarrow> if c_isspace x then [t] else [])"
| "rests REEmpty s = [s]"
| "rests (RESeq a b) s = concat (map (rests b) (rests a s))"
| "rests (REAlt a b) s = rests a s @ rests b s"
| "rests (REStar a) s = s # concat (map (rests (REStar a)) (filter (\<lambda>t. length t < length s) (rests a s)))"
  by pat_completeness auto
termination by (relation "measures [\<lambda>(r, s). size r, \<lambda>(r, s). length s]") auto

definition regex_search :: "re \<Rightarrow> string \<Rightarrow> bool" where
  "regex_search r s = list_ex (\<lambda>i. rests r (drop i s) \<noteq> []) [0..<length s + 1]"

definition re_opt :: "re \<Rightarrow> re" where
  "re_opt r = REAlt r REEmpty"

definition re_plus :: "re \<Rightarrow> re" where
  "re_plus r = RESeq r (REStar r)"

fun re_seq :: "re list \<Rightarrow> re" where
  "re_seq [] = REEmpty"
| "re_seq (r # rs) = RESeq r (re_seq rs)"

definition re_times :: "nat \<Rightarrow> re \<Rightarrow> re" where
  "re_times n r = re_seq (replicate n r)"

definition mk_coordinateRegex :: re where
  "mk_coordinateRegex = re_seq [re_opt (REChar (CHR ''-'')), re_plus REDigit, re_opt (re_seq [REChar (CHR ''.''), re_plus REDigit])]"

definition position_regex :: re where
  "position_regex =
     re_seq [mk_coordinateRegex, REChar (CHR '',''), REStar RESpace, mk_coordinateRegex, REChar (CHR '',''), REStar RESpace, mk_coordinateRegex]"

definition timestamp_regex :: re where
  "timestamp_regex =
     re_seq [re_times 4 REDigit, REChar (CHR ''-''), re_times 2 REDigit, REChar (CHR ''-''), re_times 2 REDigit, REChar (CHR ''T''),
       re_times 2 REDigit, REChar (CHR '':''), re_times 2 REDigit, REChar (CHR '':''), re_times 2 REDigit, REChar (CHR ''.''),
       re_times 3 REDigit,
       REAlt (REChar (CHR ''Z''))
         (re_seq [REAlt (REChar (CHR ''+'')) (REChar (CHR ''-'')), re_times 2 REDigit, REChar (CHR '':''), re_times 2 REDigit])]"

subsection \<open>Checks of a request\<close>

definition ValidatePositionFormat :: "string \<Rightarrow> sample_exn + unit" where
  "ValidatePositionFormat coordinate =
     (if \<not> regex_search position_regex coordinate then Inl (InvalidArgument ''Invalid Position Format'') else Inr ())"

definition ValidateTimestampFormat :: "string \<Rightarrow> sample_exn + unit" where
  "ValidateTimestampFormat timestamp =
     (if \<not> regex_search timestamp_regex timestamp then Inl (InvalidArgument ''Invalid Timestamp Format'') else Inr ())"

definition ValidateTimeInequality :: "libc \<Rightarrow> string \<Rightarrow> string \<Rightarrow> sample_exn + unit" where
  "ValidateTimeInequality lc startTime endTime =
     and_then (StringToTimeval lc startTime) (\<lambda>startTv.
     and_then (StringToTimeval lc endTime) (\<lambda>endTv.
       if timer_after startTv endTv then Inl (InvalidArgument ''Start time is earlier than End time'') else Inr ()))"

subsection \<open>Answering a message\<close>

definition get_string :: "json \<Rightarrow> string \<Rightarrow> sample_exn + string" where
  "get_string j k = and_then (json_index j k) json_string"

definition optional_string :: "json \<Rightarrow> string \<Rightarrow> sample_exn + string" where
  "optional_string j k = (if json_contains j k then get_string j k else Inr [])"

text \<open>The body of the \<open>try\<close> block after the type and the request number: the checks and the response.\<close>

definition grade_request :: "libc \<Rightarrow> json \<Rightarrow> string \<Rightarrow> sample_exn + json" where
  "grade_request lc j requestId =
     and_then (get_string j ''startTime'') (\<lambda>startTime.
     and_then (get_string j ''endTime'') (\<lambda>endTime.
     and_then (optional_string j ''haulingUnitID'') (\<lambda>haulingUnitId.
     and_then (json_index j ''estimatedGrades'') (\<lambda>grades.
     and_then (if json_contains j ''position'' then and_then (get_string j ''position'') ValidatePositionFormat else Inr ()) (\<lambda>_.
     and_then (ValidateTimestampFormat startTime) (\<lambda>_.
     and_then (ValidateTimestampFormat endTime) (\<lambda>_.
     and_then (ValidateTimeInequality lc startTime endTime) (\<lambda>_.
       GetGradeResponse lc requestId haulingUnitId startTime endTime grades))))))))"

text \<open>The whole block: no answer, an answer, or an exception with the request number as it is then.\<close>

definition handle_json :: "libc \<Rightarrow> json \<Rightarrow> (string \<times> sample_exn) + json option" where
  "handle_json lc j =
     (case get_string j ''type'' of
        Inl e \<Rightarrow> Inl ([], e)
      | Inr type \<Rightarrow>
          if type \<noteq> ''gradeRequest'' then Inr None
          else case get_string j ''requestID'' of
                 Inl e \<Rightarrow> Inl ([], e)
               | Inr requestId \<Rightarrow>
                   case grade_request lc j requestId of
                     Inl e \<Rightarrow> Inl (requestId, e)
                   | Inr response \<Rightarrow> Inr (Some response))"

definition request_error :: "string \<Rightarrow> int \<Rightarrow> string \<Rightarrow> json" where
  "request_error requestId errorCode errorString =
     JObject [(''errorCode'', JInt errorCode), (''errorString'', JString errorString), (''requestID'', JString requestId),
              (''type'', JString ''requestError'')]"

text \<open>The \<open>catch\<close> clauses. \<^const>\<open>OutOfBounds\<close> is not an exception: the answer is undefined.\<close>

fun answer_error :: "string \<times> sample_exn \<Rightarrow> json option" where
  "answer_error (requestId, InvalidArgument what) = Some (request_error requestId 6 what)"
| "answer_error (requestId, ParseError what) = Some (request_error requestId 4 what)"
| "answer_error (requestId, OtherException) =
     Some (request_error requestId 5 ''Generic parsing error, Likely caused by a missing field in the GradeRequest'')"
| "answer_error (requestId, OutOfBounds) = None"

definition answer :: "libc \<Rightarrow> (string \<Rightarrow> string + json) \<Rightarrow> string \<Rightarrow> json option" where
  "answer lc parse str =
     (case parse str of
        Inl what \<Rightarrow> answer_error ([], ParseError what)
      | Inr j \<Rightarrow> (case handle_json lc j of Inl e \<Rightarrow> answer_error e | Inr response \<Rightarrow> response))"

subsection \<open>Sending\<close>

definition send_client :: "'z tenv \<Rightarrow> string \<Rightarrow> nat \<Rightarrow> 'z ws_shared \<Rightarrow> 'z ws_shared outcome" where
  "send_client env text c g =
     (case wg_objects g c of
        None \<Rightarrow> Ret g
      | Some w \<Rightarrow> map_outcome (\<lambda>(info, w1). put_object c w1 g) (ws_send env text False None w))"

text \<open>The loop over the clients that sends to the source only.\<close>

definition send_to_source :: "'z tenv \<Rightarrow> string \<Rightarrow> nat \<Rightarrow> 'z ws_shared \<Rightarrow> 'z ws_shared outcome" where
  "send_to_source env text source g = (if source \<in> set (getClients g) then send_client env text source g else Ret g)"

fun send_to_all :: "'z tenv \<Rightarrow> string \<Rightarrow> nat list \<Rightarrow> 'z ws_shared \<Rightarrow> 'z ws_shared outcome" where
  "send_to_all env text [] g = Ret g"
| "send_to_all env text (c # cs) g =
     (case send_client env text c g of Ret g1 \<Rightarrow> send_to_all env text cs g1 | Fault \<Rightarrow> Fault | Hang \<Rightarrow> Hang)"

definition ServerMessageHandler ::
  "'z tenv \<Rightarrow> libc \<Rightarrow> (string \<Rightarrow> string + json) \<Rightarrow> (json \<Rightarrow> string) \<Rightarrow> nat \<Rightarrow> WebSocketMessageType \<Rightarrow> string \<Rightarrow> 'z ws_shared \<Rightarrow> 'z ws_shared outcome" where
  "ServerMessageHandler env lc parse dump source type str g =
     (if type \<noteq> Message then Ret g
      else case answer lc parse str of None \<Rightarrow> Ret g | Some response \<Rightarrow> send_to_source env (dump response) source g)"

definition heartbeat_json :: json where
  "heartbeat_json = JObject [(''errorCode'', JInt 0), (''systemID'', JString ''testServer''), (''type'', JString ''heartbeat''),
     (''version'', JString ''2.3'')]"

definition SendHeartbeat :: "'z tenv \<Rightarrow> (json \<Rightarrow> string) \<Rightarrow> 'z ws_shared \<Rightarrow> 'z ws_shared outcome" where
  "SendHeartbeat env dump g = send_to_all env (dump heartbeat_json) (getClients g) g"

text \<open>\<open>SendGradeResponse\<close>: an exception leaves it, and with it the program.\<close>

definition SendGradeResponse :: "'z tenv \<Rightarrow> libc \<Rightarrow> (json \<Rightarrow> string) \<Rightarrow> 'z ws_shared \<Rightarrow> sample_exn + 'z ws_shared outcome" where
  "SendGradeResponse env lc dump g =
     (let endTime = GetCurrentTimeAsString lc
      in and_then (StringToTimeval lc endTime) (\<lambda>endTv.
         let startTime = TimevalToString lc (endTv\<lparr>tv_sec := tv_sec endTv - 60\<rparr>)
         in and_then (GetGradeResponse lc [] ''testShovel'' startTime endTime JNull) (\<lambda>response.
              Inr (send_to_all env (dump response) (getClients g) g))))"

subsection \<open>The main loop\<close>

text \<open>The command line: the options of \<open>getopt_long\<close> in order, \<open>-h\<close> ends the program.\<close>

datatype server_option = OptHelp | OptIp string | OptPort string | OptPassive string | OptOther

record server_config =
  sc_ip :: string
  sc_port :: u32
  sc_passive :: bool
  sc_interval :: u32

definition default_config :: server_config where
  "default_config = \<lparr>sc_ip = ''127.0.0.1'', sc_port = 80, sc_passive = False, sc_interval = 90\<rparr>"

fun read_options :: "server_option list \<Rightarrow> server_config \<Rightarrow> server_config option" where
  "read_options [] cfg = Some cfg"
| "read_options (OptHelp # os) cfg = None"
| "read_options (OptIp a # os) cfg = read_options os (cfg\<lparr>sc_ip := a\<rparr>)"
| "read_options (OptPort a # os) cfg = read_options os (cfg\<lparr>sc_port := word_of_int (atoi a)\<rparr>)"
| "read_options (OptPassive a # os) cfg = read_options os (cfg\<lparr>sc_interval := word_of_int (atoi a), sc_passive := True\<rparr>)"
| "read_options (OptOther # os) cfg = read_options os cfg"

definition SampleServer_new :: "string \<Rightarrow> u32 \<Rightarrow> (ws_local, 'z ws_shared) server" where
  "SampleServer_new webSocketIpAddress webSocketPortNumber =
     WebSocketServer_new (sint webSocketPortNumber) webSocketIpAddress kDefaultTcpBacklog kDefaultMaxConnections
       WebSocketServer_kDefaultHandShakeTimeoutSecs"

text \<open>\<open>InitServer_\<close>: the threads start only if the server could listen; a failure is printed and the
  program goes on without a server.\<close>

definition InitServer :: "(int \<Rightarrow> string) \<Rightarrow> listen_os \<Rightarrow> (ws_local, 'z ws_shared) server \<Rightarrow> (ws_local, 'z ws_shared) server" where
  "InitServer strerr os s = (case server_listen strerr os s of ((ok, err), s1) \<Rightarrow> if ok then server_start s1 else s1)"

text \<open>One round of the loop: a heartbeat to every client, then a grade response to every client if the
  interval has passed. The difference of times is compared after conversion to \<open>long\<close>, which holds an
  \<open>unsigned\<close>. Before each round the other threads may have changed the clients, \<open>others\<close>.\<close>

definition main_round ::
  "'z tenv \<Rightarrow> libc \<Rightarrow> (json \<Rightarrow> string) \<Rightarrow> server_config \<Rightarrow> int \<Rightarrow> 'z ws_shared \<Rightarrow> sample_exn + (int \<times> 'z ws_shared) outcome" where
  "main_round env lc dump cfg intervalStart g =
     (case SendHeartbeat env dump g of
        Fault \<Rightarrow> Inr Fault
      | Hang \<Rightarrow> Inr Hang
      | Ret g1 \<Rightarrow>
          if sc_passive cfg \<and> lc_time lc - intervalStart > uint (sc_interval cfg)
          then and_then (SendGradeResponse env lc dump g1) (\<lambda>sent. Inr (map_outcome (\<lambda>g2. (lc_time lc, g2)) sent))
          else Inr (Ret (intervalStart, g1)))"

fun main_loop ::
  "'z tenv \<Rightarrow> (json \<Rightarrow> string) \<Rightarrow> server_config \<Rightarrow> (libc \<times> ('z ws_shared \<Rightarrow> 'z ws_shared)) list \<Rightarrow> int \<Rightarrow> 'z ws_shared \<Rightarrow>
     sample_exn + (int \<times> 'z ws_shared) outcome" where
  "main_loop env dump cfg [] start g = Inr (Ret (start, g))"
| "main_loop env dump cfg ((lc, others) # rounds) start g =
     (case main_round env lc dump cfg start (others g) of
        Inl e \<Rightarrow> Inl e
      | Inr Fault \<Rightarrow> Inr Fault
      | Inr Hang \<Rightarrow> Inr Hang
      | Inr (Ret (start1, g1)) \<Rightarrow> main_loop env dump cfg rounds start1 g1)"

end
