(* ===== verification/Snake.thy ===== *)
theory Snake
  imports Redis Uuid SampleServer
begin

section \<open>The snake server\<close>

text \<open>
  \<^verbatim>\<open>ws/snake\<close>: \<^verbatim>\<open>IXSnakeProtocol.cpp\<close>, \<^verbatim>\<open>IXSnakeServer.cpp\<close>, \<^verbatim>\<open>IXAppConfig.cpp\<close>, \<^verbatim>\<open>IXSnakeConnectionState.h\<close>, and
  \<^verbatim>\<open>ws_snake.cpp\<close>: a server of the Cobra protocol that passes messages on to Redis. One connection is a
  record of its connection state and its WebSocket object. JSON values are those of \<open>SampleDataStore\<close>, with
  the operations of \<^verbatim>\<open>nlohmann::json\<close> on constant values added; its parser and printer, which throw on
  text that is not JSON or not UTF-8, are parameters, and so are the random words and the keyed digest.
  Every subscription is a task with a thread of its own; the number of rounds it has made is given, and
  it has delivered fewer than \<open>2 ^ 31\<close> messages. What the callbacks print is left out.
\<close>

subsection \<open>JSON\<close>

text \<open>\<open>j[k]\<close> on a constant value: a missing key is undefined.\<close>

fun const_index :: "json \<Rightarrow> string \<Rightarrow> json cobra_result" where
  "const_index (JObject m) k = (case map_of m k of None \<Rightarrow> Undefined | Some v \<Rightarrow> Done v)"
| "const_index _ k = Thrown"

text \<open>The conversion to \<open>int\<close> cuts an integer to 32 bits; for a float out of range it is undefined.\<close>

fun json_int :: "json \<Rightarrow> int cobra_result" where
  "json_int (JInt i) = Done (sint (word_of_int i :: u32))"
| "json_int (JBool b) = Done (if b then 1 else 0)"
| "json_int (JFloat r) =
     (let t = (if r \<ge> 0 then \<lfloor>r\<rfloor> else \<lceil>r\<rceil>) in if int_min \<le> t \<and> t \<le> int_max then Done t else Undefined)"
| "json_int _ = Thrown"

text \<open>\<open>pdu.value("id", 1)\<close>.\<close>

fun value_id :: "json \<Rightarrow> int cobra_result" where
  "value_id (JObject m) = (case map_of m ''id'' of None \<Rightarrow> Done 1 | Some v \<Rightarrow> json_int v)"
| "value_id _ = Thrown"

text \<open>A value written as a list in braces is an object when every element is an array of a string and a value.\<close>

fun is_pair :: "json \<Rightarrow> bool" where
  "is_pair (JArray [JString k, v]) = True"
| "is_pair _ = False"

fun pair_of :: "json \<Rightarrow> string \<times> json" where
  "pair_of (JArray [JString k, v]) = (k, v)"
| "pair_of _ = ([], JNull)"

definition init_list :: "json list \<Rightarrow> json" where
  "init_list xs = (if list_all is_pair xs then object_of (rev (map pair_of xs)) else JArray xs)"

subsection \<open>AppConfig\<close>

record AppConfig =
  ac_hostname :: string
  ac_port :: int
  ac_redisHosts :: "string list"
  ac_redisPort :: int
  ac_redisPassword :: string
  ac_apps :: json
  ac_verbose :: bool

definition isAppKeyValid :: "AppConfig \<Rightarrow> string \<Rightarrow> bool" where
  "isAppKeyValid cfg appkey = json_contains (ac_apps cfg) appkey"

definition getRoleSecret :: "AppConfig \<Rightarrow> string \<Rightarrow> string \<Rightarrow> string cobra_result" where
  "getRoleSecret cfg appkey role =
     (if \<not> isAppKeyValid cfg appkey then Done []
      else cbind (const_index (ac_apps cfg) appkey) (\<lambda>app.
        cbind (const_index app ''roles'') (\<lambda>roles.
          cbind (unthrow (json_index roles role)) (\<lambda>r.
            cbind (unthrow (json_index r ''secret'')) (\<lambda>secret. unthrow (json_string secret))))))"

subsection \<open>State\<close>

record 'z snake =
  sn_webSocket :: "'z websocket"
  sn_connectionId :: string
  sn_nonce :: string
  sn_role :: string
  sn_appkey :: string
  sn_redisClient :: redis_client
  sn_tasks :: "json list"
  sn_nonces :: nat

record 'z snake_env =
  se_tenv :: "'z tenv"
  se_parse :: "string \<Rightarrow> json option"
  se_dump :: "json \<Rightarrow> string option"
  se_random :: "nat \<Rightarrow> u64 \<times> u64"
  se_hmacMd5 :: "string \<Rightarrow> string \<Rightarrow> byte list"
  se_redis :: redis_env
  se_taskRedis :: "nat \<Rightarrow> redis_env"
  se_taskEnds :: "nat \<Rightarrow> bool"

definition SnakeConnectionState_new :: "string \<Rightarrow> 'z websocket \<Rightarrow> 'z snake" where
  "SnakeConnectionState_new connectionId w =
     \<lparr>sn_webSocket = w, sn_connectionId = connectionId, sn_nonce = [], sn_role = [], sn_appkey = [], sn_redisClient = RedisClient_new,
      sn_tasks = [], sn_nonces = 0\<rparr>"

definition generateNonce :: "'z snake_env \<Rightarrow> 'z snake \<Rightarrow> string \<times> 'z snake" where
  "generateNonce env sn = (case se_random env (sn_nonces sn) of (r1, r2) \<Rightarrow> (uuid4 r1 r2, sn\<lparr>sn_nonces := sn_nonces sn + 1\<rparr>))"

subsection \<open>Answers\<close>

text \<open>\<open>ws->sendText(response.dump())\<close>, whose result is dropped.\<close>

definition respond :: "'z snake_env \<Rightarrow> json \<Rightarrow> 'z snake \<Rightarrow> 'z snake cobra_result" where
  "respond env response sn =
     (case se_dump env response of
        None \<Rightarrow> Thrown
      | Some str \<Rightarrow>
          (case ws_sendText (se_tenv env) str None (sn_webSocket sn) of
             Ret (info, w) \<Rightarrow> Done (sn\<lparr>sn_webSocket := w\<rparr>)
           | Fault \<Rightarrow> Undefined
           | Hang \<Rightarrow> Stuck))"

definition response_pdu :: "string \<Rightarrow> json \<Rightarrow> int \<Rightarrow> json" where
  "response_pdu action body n = object_of [(''action'', JString action), (''id'', JInt n), (''body'', body)]"

definition answer_pdu :: "'z snake_env \<Rightarrow> json \<Rightarrow> string \<Rightarrow> json \<Rightarrow> 'z snake \<Rightarrow> 'z snake cobra_result" where
  "answer_pdu env pdu action body sn = cbind (value_id pdu) (\<lambda>n. respond env (response_pdu action body n) sn)"

definition handleError :: "'z snake_env \<Rightarrow> string \<Rightarrow> json \<Rightarrow> string \<Rightarrow> 'z snake \<Rightarrow> 'z snake cobra_result" where
  "handleError env action pdu errMsg sn = answer_pdu env pdu (action @ ''/error'') (object_of [(''reason'', JString errMsg)]) sn"

subsection \<open>Authentication\<close>

definition handleHandshake :: "'z snake_env \<Rightarrow> json \<Rightarrow> 'z snake \<Rightarrow> 'z snake cobra_result" where
  "handleHandshake env pdu sn0 =
     cbind (const_index pdu ''body'') (\<lambda>body.
       cbind (const_index body ''data'') (\<lambda>data.
         cbind (const_index data ''role'') (\<lambda>r.
           cbind (unthrow (json_string r)) (\<lambda>role.
             case generateNonce env sn0 of (nonce, sn) \<Rightarrow>
               let sn1 = sn\<lparr>sn_nonce := nonce, sn_role := role\<rparr>
               in answer_pdu env pdu ''auth/handshake/ok''
                    (object_of [(''data'', object_of [(''nonce'', JString (sn_nonce sn1)), (''connection_id'', JString (sn_connectionId sn1))])]) sn1))))"

definition authentication_failed :: "string \<Rightarrow> json" where
  "authentication_failed reason = object_of [(''error'', JString ''authentication_failed''), (''reason'', JString reason)]"

definition handleAuth :: "'z snake_env \<Rightarrow> AppConfig \<Rightarrow> json \<Rightarrow> 'z snake \<Rightarrow> 'z snake cobra_result" where
  "handleAuth env cfg pdu sn =
     cbind (getRoleSecret cfg (sn_appkey sn) (sn_role sn)) (\<lambda>secret.
       if secret = [] then answer_pdu env pdu ''auth/authenticate/error'' (authentication_failed ''invalid secret'') sn
       else case hmac (se_hmacMd5 env) (sn_nonce sn) secret of
              None \<Rightarrow> Undefined
            | Some serverHash \<Rightarrow>
                cbind (const_index pdu ''body'') (\<lambda>body.
                  cbind (const_index body ''credentials'') (\<lambda>credentials.
                    cbind (const_index credentials ''hash'') (\<lambda>h.
                      cbind (unthrow (json_string h)) (\<lambda>clientHash.
                        if serverHash \<noteq> clientHash
                        then answer_pdu env pdu ''auth/authenticate/error'' (authentication_failed ''invalid hash'') sn
                        else answer_pdu env pdu ''auth/authenticate/ok'' JNull sn)))))"

subsection \<open>Publishing\<close>

fun json_strings :: "json list \<Rightarrow> string list cobra_result" where
  "json_strings [] = Done []"
| "json_strings (j # js) = cbind (unthrow (json_string j)) (\<lambda>s. cbind (json_strings js) (\<lambda>ss. Done (s # ss)))"

definition app_channel :: "string \<Rightarrow> string \<Rightarrow> string" where
  "app_channel appkey channel = appkey @ ''::'' @ channel"

text \<open>The loop over the channels ends with the text of an error, if any.\<close>

fun publish_channels :: "'z snake_env \<Rightarrow> json \<Rightarrow> string list \<Rightarrow> 'z snake \<Rightarrow> (string option \<times> 'z snake) cobra_result" where
  "publish_channels env pdu [] sn = Done (None, sn)"
| "publish_channels env pdu (channel # channels) sn =
     (case se_dump env pdu of
        None \<Rightarrow> Thrown
      | Some message \<Rightarrow>
          cbind (redis_publish (app_channel (sn_appkey sn) channel) message (sn_redisClient sn)) (\<lambda>(ok, errMsg, c).
            if \<not> ok then Done (Some errMsg, sn\<lparr>sn_redisClient := c\<rparr>)
            else publish_channels env pdu channels (sn\<lparr>sn_redisClient := c\<rparr>)))"

definition publish_to :: "'z snake_env \<Rightarrow> json \<Rightarrow> string list \<Rightarrow> 'z snake \<Rightarrow> 'z snake cobra_result" where
  "publish_to env pdu channels sn =
     cbind (publish_channels env pdu channels sn) (\<lambda>(failed, sn1).
       case failed of
         Some errMsg \<Rightarrow> handleError env ''rtm/publish'' pdu (''Cannot publish to redis host '' @ errMsg) sn1
       | None \<Rightarrow> answer_pdu env pdu ''rtm/publish/ok'' JNull sn1)"

definition handlePublish :: "'z snake_env \<Rightarrow> json \<Rightarrow> 'z snake \<Rightarrow> 'z snake cobra_result" where
  "handlePublish env pdu sn =
     cbind (const_index pdu ''body'') (\<lambda>body.
       if json_contains body ''channels'' then
         cbind (unthrow (json_index body ''channels'')) (\<lambda>channels.
           cbind (json_strings (json_elements channels)) (\<lambda>cs. publish_to env pdu cs sn))
       else if json_contains body ''channel'' then
         cbind (unthrow (json_index body ''channel'')) (\<lambda>channel.
           cbind (json_strings [channel]) (\<lambda>cs. publish_to env pdu cs sn))
       else handleError env ''rtm/publish'' pdu ''Missing channels or channel field in publish data'' sn)"

subsection \<open>Subscriptions\<close>

text \<open>The two callbacks, on the connection and the number of messages delivered.\<close>

definition subscription_message :: "'z snake_env \<Rightarrow> string \<Rightarrow> string \<Rightarrow> 'z snake \<times> int \<Rightarrow> ('z snake \<times> int) cobra_result" where
  "subscription_message env subscriptionId messageStr sn_id =
     (case se_parse env messageStr of
        None \<Rightarrow> Thrown
      | Some j \<Rightarrow>
          cbind (unthrow (json_index j ''body'')) (\<lambda>body.
            cbind (unthrow (json_index body ''message'')) (\<lambda>msg.
              cbind (respond env (response_pdu ''rtm/subscription/data''
                  (object_of [(''subscription_id'', JString subscriptionId), (''messages'', init_list [msg])]) (snd sn_id)) (fst sn_id)) (\<lambda>sn.
                Done (sn, snd sn_id + 1)))))"

definition subscription_started :: "'z snake_env \<Rightarrow> json \<Rightarrow> string \<Rightarrow> string \<Rightarrow> 'z snake \<times> int \<Rightarrow> ('z snake \<times> int) cobra_result" where
  "subscription_started env pdu subscriptionId redisResponse sn_id =
     cbind (answer_pdu env pdu ''rtm/subscribe/ok'' (object_of [(''subscription_id'', JString subscriptionId)]) (fst sn_id)) (\<lambda>sn.
       Done (sn, snd sn_id))"

text \<open>The \<open>i\<close>-th task of the connection, after at most \<open>n\<close> rounds; \<open>True\<close> when it has ended by then.\<close>

definition handleRedisSubscription :: "'z snake_env \<Rightarrow> AppConfig \<Rightarrow> nat \<Rightarrow> nat \<Rightarrow> json \<Rightarrow> 'z snake \<Rightarrow> (bool \<times> 'z snake) cobra_result" where
  "handleRedisSubscription env cfg i n pdu sn =
     cbind (const_index pdu ''body'') (\<lambda>body.
       cbind (const_index body ''channel'') (\<lambda>c.
         cbind (unthrow (json_string c)) (\<lambda>channel.
           let ended = (\<lambda>errMsg. cbind (handleError env ''rtm/subscribe'' pdu errMsg sn) (\<lambda>sn1. Done (True, sn1)))
           in case ac_redisHosts cfg of
                [] \<Rightarrow> Undefined
              | hostname # _ \<Rightarrow>
                  cbind (redis_connect (se_taskRedis env i) hostname (ac_redisPort cfg) RedisClient_new) (\<lambda>(ok, client).
                    if \<not> ok then ended (''Cannot connect to redis host '' @ hostname @ '':'' @ string_of_int (ac_redisPort cfg))
                    else cbind (if ac_redisPassword cfg = [] then Done (True, [], client) else redis_auth (ac_redisPassword cfg) client) (\<lambda>(ok1, authResponse, client1).
                      if \<not> ok1 then ended ''Cannot authenticated to redis''
                      else cbind (redis_subscribe (subscription_started env pdu channel) (subscription_message env channel) uncancelled n
                          (app_channel (sn_appkey sn) channel) client1 (sn, 0)) (\<lambda>(t, client2, (sn1, k)).
                        if t = Ended False
                        then cbind (handleError env ''rtm/subscribe'' pdu (''Error subscribing to channel '' @ app_channel (sn_appkey sn) channel) sn1) (\<lambda>sn2. Done (True, sn2))
                        else Done (t \<noteq> Again, sn1)))))))"

text \<open>The new task is started; then the \<open>std::future\<close> of the previous one is replaced, which waits for that
  task to end.\<close>

definition handleSubscribe :: "'z snake_env \<Rightarrow> json \<Rightarrow> 'z snake \<Rightarrow> 'z snake cobra_result" where
  "handleSubscribe env pdu sn =
     (if sn_tasks sn \<noteq> [] \<and> \<not> se_taskEnds env (length (sn_tasks sn) - 1) then Stuck
      else Done (sn\<lparr>sn_tasks := sn_tasks sn @ [pdu]\<rparr>))"

definition handleUnSubscribe :: "'z snake_env \<Rightarrow> json \<Rightarrow> 'z snake \<Rightarrow> 'z snake cobra_result" where
  "handleUnSubscribe env pdu sn =
     cbind (const_index pdu ''body'') (\<lambda>body.
       cbind (unthrow (json_index body ''subscription_id'')) (\<lambda>subscriptionId.
         answer_pdu env pdu ''rtm/unsubscribe/ok'' (object_of [(''subscription_id'', subscriptionId)])
           (sn\<lparr>sn_redisClient := redis_stop (sn_redisClient sn)\<rparr>)))"

subsection \<open>Messages\<close>

definition processCobraMessage :: "'z snake_env \<Rightarrow> AppConfig \<Rightarrow> string \<Rightarrow> 'z snake \<Rightarrow> 'z snake cobra_result" where
  "processCobraMessage env cfg str sn =
     (case se_parse env str of
        None \<Rightarrow> Thrown
      | Some pdu \<Rightarrow>
          cbind (unthrow (json_index pdu ''action'')) (\<lambda>action.
            if action = JString ''auth/handshake'' then handleHandshake env pdu sn
            else if action = JString ''auth/authenticate'' then handleAuth env cfg pdu sn
            else if action = JString ''rtm/publish'' then handlePublish env pdu sn
            else if action = JString ''rtm/subscribe'' then handleSubscribe env pdu sn
            else if action = JString ''rtm/unsubscribe'' then handleUnSubscribe env pdu sn
            else Done sn))"

text \<open>\<open>path.rfind(c)\<close> and the text behind it.\<close>

definition after_last :: "char \<Rightarrow> string \<Rightarrow> string option" where
  "after_last c s = (if c \<in> set s then Some (rev (takeWhile (\<lambda>x. x \<noteq> c) (rev s))) else None)"

definition parseAppKey :: "string \<Rightarrow> string" where
  "parseAppKey uri = (case after_last (CHR ''='') uri of Some appkey \<Rightarrow> appkey | None \<Rightarrow> [])"

definition snake_open :: "'z snake_env \<Rightarrow> AppConfig \<Rightarrow> string \<Rightarrow> 'z snake \<Rightarrow> 'z snake cobra_result" where
  "snake_open env cfg uri sn0 =
     (let sn = sn0\<lparr>sn_appkey := parseAppKey uri\<rparr>
      in case ac_redisHosts cfg of
           [] \<Rightarrow> Undefined
         | h # _ \<Rightarrow> cbind (redis_connect (se_redis env) h (ac_redisPort cfg) (sn_redisClient sn)) (\<lambda>(ok, c). Done (sn\<lparr>sn_redisClient := c\<rparr>)))"

definition snake_onMessage :: "'z snake_env \<Rightarrow> AppConfig \<Rightarrow> WebSocketMessage \<Rightarrow> 'z snake \<Rightarrow> 'z snake cobra_result" where
  "snake_onMessage env cfg msg sn =
     (case msg_type msg of
        Open \<Rightarrow> snake_open env cfg (oi_uri (msg_openInfo msg)) sn
      | Message \<Rightarrow> processCobraMessage env cfg (msg_str msg) sn
      | _ \<Rightarrow> Done sn)"

fun snake_handle :: "'z snake_env \<Rightarrow> AppConfig \<Rightarrow> WebSocketMessage list \<Rightarrow> 'z snake \<Rightarrow> 'z snake cobra_result" where
  "snake_handle env cfg [] sn = Done sn"
| "snake_handle env cfg (m # ms) sn = cbind (snake_onMessage env cfg m sn) (snake_handle env cfg ms)"

subsection \<open>The server\<close>

definition SnakeServer_new :: "AppConfig \<Rightarrow> (ws_local, 'z ws_shared) server" where
  "SnakeServer_new cfg =
     WebSocketServer_new (ac_port cfg) (ac_hostname cfg) kDefaultTcpBacklog kDefaultMaxConnections WebSocketServer_kDefaultHandShakeTimeoutSecs"

definition snake_run :: "(int \<Rightarrow> string) \<Rightarrow> listen_os \<Rightarrow> (ws_local, 'z ws_shared) server \<Rightarrow> bool \<times> (ws_local, 'z ws_shared) server" where
  "snake_run strerr os s = (case server_listen strerr os s of ((ok, err), s1) \<Rightarrow> if \<not> ok then (False, s1) else (True, server_start s1))"

text \<open>\<open>load\<close>: \<open>None\<close> is a file that cannot be opened. Of an empty file the first octet is taken the address of,
  which is undefined.\<close>

definition load_file :: "byte list option \<Rightarrow> byte list cobra_result" where
  "load_file file = (case file of None \<Rightarrow> Done [] | Some bs \<Rightarrow> if bs = [] then Undefined else Done bs)"

definition snake_readAsString :: "byte list option \<Rightarrow> string cobra_result" where
  "snake_readAsString file = cbind (load_file file) (\<lambda>vec. Done (string_of_bytes vec))"

text \<open>The configuration that \<open>ws_snake_main\<close> makes; without one it returns 1.\<close>

definition ws_snake_config ::
  "(string \<Rightarrow> json option) \<Rightarrow> int \<Rightarrow> string \<Rightarrow> string \<Rightarrow> int \<Rightarrow> string \<Rightarrow> bool \<Rightarrow> byte list option \<Rightarrow> AppConfig option cobra_result" where
  "ws_snake_config parse p hostname redisHosts redisPort redisPassword verbose file =
     cbind (snake_readAsString file) (\<lambda>str.
       if str = [] then Done None
       else case parse str of
              None \<Rightarrow> Thrown
            | Some j \<Rightarrow> cbind (unthrow (json_index j ''apps'')) (\<lambda>apps.
                Done (Some \<lparr>ac_hostname = hostname, ac_port = p, ac_redisHosts = getlines (CHR '';'') redisHosts, ac_redisPort = redisPort,
                  ac_redisPassword = redisPassword, ac_apps = apps, ac_verbose = verbose\<rparr>)))"

end
