(* ===== verification/FileTransfer.thy ===== *)
theory FileTransfer
  imports Snake
begin

section \<open>Sending files\<close>

text \<open>
  The tools \<^verbatim>\<open>ws_send.cpp\<close>, \<^verbatim>\<open>ws_receive.cpp\<close> and \<^verbatim>\<open>ws_transfer.cpp\<close>: a sender puts a file with its
  checksum into one message, a relay passes messages on to all other clients, a receiver checks the
  message and writes the file. Of \<^verbatim>\<open>msgpack11.cpp\<close> the writer for the values in use is modelled, a value of
  another kind comes with its text; its parser is a parameter. A file system is a map of names to contents,
  with what can be opened, how much is written, and what can be renamed. The condition variable
  that the sender waits on is a step relation at the end. What is printed is left out.
\<close>

subsection \<open>MessagePack\<close>

datatype MsgPack = MpNil | MpBool bool | MpString string | MpBinary "byte list" | MpObject "(MsgPack \<times> MsgPack) list" | MpOther "byte list"

text \<open>\<open>verify_length\<close> throws.\<close>

definition mp_length :: "nat \<Rightarrow> byte list \<Rightarrow> byte list option" where
  "mp_length len header = (if len > 0xffffffff then None else Some header)"

definition dump_string :: "string \<Rightarrow> byte list option" where
  "dump_string s =
     (let len = length s
      in map_option (\<lambda>header. header @ bytes_of s)
           (mp_length len
              (if len \<le> 0x1f then [0xa0 OR of_nat len] else if len \<le> 0xff then [0xd9, of_nat len]
               else if len \<le> 0xffff then 0xda # be_bytes 2 len else 0xdb # be_bytes 4 len)))"

definition dump_binary :: "byte list \<Rightarrow> byte list option" where
  "dump_binary bs =
     (let len = length bs
      in map_option (\<lambda>header. header @ bs)
           (mp_length len
              (if len \<le> 0xff then [0xc4, of_nat len] else if len \<le> 0xffff then 0xc5 # be_bytes 2 len else 0xc6 # be_bytes 4 len)))"

definition dump_header :: "nat \<Rightarrow> byte list option" where
  "dump_header len =
     mp_length len (if len \<le> 15 then [0x80 OR of_nat len] else if len \<le> 0xffff then 0xde # be_bytes 2 len else 0xdf # be_bytes 4 len)"

definition opt_append :: "byte list option \<Rightarrow> byte list option \<Rightarrow> byte list option" where
  "opt_append x y = (case x of None \<Rightarrow> None | Some a \<Rightarrow> map_option (\<lambda>b. a @ b) y)"

fun mp_bytes :: "MsgPack \<Rightarrow> byte list option" where
  "mp_bytes MpNil = Some [0xc0]"
| "mp_bytes (MpBool b) = Some [if b then 0xc3 else 0xc2]"
| "mp_bytes (MpString s) = dump_string s"
| "mp_bytes (MpBinary bs) = dump_binary bs"
| "mp_bytes (MpOther bs) = Some bs"
| "mp_bytes (MpObject m) = foldl opt_append (dump_header (length m)) (map (\<lambda>(k, v). opt_append (mp_bytes k) (mp_bytes v)) m)"

definition mp_dump :: "MsgPack \<Rightarrow> string option" where
  "mp_dump v = map_option string_of_bytes (mp_bytes v)"

fun mp_index :: "MsgPack \<Rightarrow> string \<Rightarrow> MsgPack" where
  "mp_index (MpObject m) k = (case map_of m (MpString k) of None \<Rightarrow> MpNil | Some v \<Rightarrow> v)"
| "mp_index _ k = MpNil"

fun string_value :: "MsgPack \<Rightarrow> string" where
  "string_value (MpString s) = s"
| "string_value _ = []"

fun binary_items :: "MsgPack \<Rightarrow> byte list" where
  "binary_items (MpBinary bs) = bs"
| "binary_items _ = []"

definition mp_object :: "(string \<times> MsgPack) list \<Rightarrow> MsgPack" where
  "mp_object kvs = MpObject (map (\<lambda>(k, v). (MpString k, v)) kvs)"

subsection \<open>The sender\<close>

record 'z transfer_env =
  fe_tenv :: "'z tenv"
  fe_parse :: "string \<Rightarrow> MsgPack option"

record 'z sender =
  sd_webSocket :: "'z websocket"
  sd_id :: string

definition hash_text :: "byte list \<Rightarrow> string" where
  "hash_text content = string_of_int (uint (djb2Hash content))"

definition file_message :: "string \<Rightarrow> string \<Rightarrow> byte list \<Rightarrow> MsgPack" where
  "file_message ident filename content =
     mp_object [(''content'', MpBinary content), (''djb2_hash'', MpString (hash_text content)), (''filename'', MpString filename),
       (''id'', MpString ident), (''kind'', MpString ''send'')]"

text \<open>The loop that waits until the buffer is empty reads its size twice a round; \<open>amount k\<close> is what the
  \<open>k\<close>-th read finds.\<close>

partial_function (option) wait_sent :: "(nat \<Rightarrow> nat) \<Rightarrow> nat \<Rightarrow> nat option" where
  "wait_sent amount k = (if amount (k + 1) \<noteq> 0 then wait_sent amount (k + 2) else Some (k + 2))"

text \<open>The time taken is in milliseconds; the transfer rate is divided by it.\<close>

definition sender_sendMessage ::
  "'z transfer_env \<Rightarrow> byte list option \<Rightarrow> string \<Rightarrow> u64 \<times> u64 \<Rightarrow> (nat \<Rightarrow> nat) \<Rightarrow> u64 \<Rightarrow> 'z sender \<Rightarrow> (WebSocketSendInfo \<times> 'z sender) cobra_result" where
  "sender_sendMessage env file filename r amount duration sd0 =
     cbind (load_file file) (\<lambda>content.
       let ident = uuid4 (fst r) (snd r);
           sd = sd0\<lparr>sd_id := ident\<rparr>
       in case mp_dump (file_message ident filename content) of
            None \<Rightarrow> Thrown
          | Some str \<Rightarrow>
              (case ws_sendBinary (fe_tenv env) str (Some (\<lambda>current total. True)) (sd_webSocket sd) of
                 Fault \<Rightarrow> Undefined
               | Hang \<Rightarrow> Stuck
               | Ret (info, w) \<Rightarrow>
                   cbind (returning (wait_sent amount 0)) (\<lambda>k.
                     if duration = 0 then Undefined else Done (info, sd\<lparr>sd_webSocket := w\<rparr>))))"

text \<open>What the sender prints about a message, and whether it notifies its main thread.\<close>

definition sender_onMessage :: "'z transfer_env \<Rightarrow> WebSocketMessage \<Rightarrow> 'z sender \<Rightarrow> bool \<times> string" where
  "sender_onMessage env msg sd =
     (case msg_type msg of
        Open \<Rightarrow> (True, [])
      | Message \<Rightarrow>
          (True,
           case fe_parse env (msg_str msg) of
             None \<Rightarrow> ''Invalid MsgPack response''
           | Some data \<Rightarrow> if sd_id sd \<noteq> string_value (mp_index data ''id'') then ''Invalid id'' else [])
      | _ \<Rightarrow> (False, []))"

subsection \<open>The receiver\<close>

record files =
  fs_files :: "string \<rightharpoonup> byte list"
  fs_writable :: "string \<Rightarrow> bool"
  fs_room :: nat
  fs_renames :: "string \<Rightarrow> string \<Rightarrow> bool"

record 'z receiver =
  rv_webSocket :: "'z websocket"
  rv_files :: files
  rv_fragments :: nat

text \<open>\<open>std::ofstream\<close> and \<open>rename\<close>, whose failures nobody looks at.\<close>

definition write_file :: "string \<Rightarrow> byte list \<Rightarrow> files \<Rightarrow> files" where
  "write_file name bs fs =
     (if fs_writable fs (c_str name) then fs\<lparr>fs_files := (fs_files fs)(c_str name \<mapsto> take (fs_room fs) bs)\<rparr> else fs)"

definition rename_file :: "string \<Rightarrow> string \<Rightarrow> files \<Rightarrow> files" where
  "rename_file a b fs =
     (case fs_files fs (c_str a) of
        None \<Rightarrow> fs
      | Some bs \<Rightarrow>
          if fs_renames fs (c_str a) (c_str b) then fs\<lparr>fs_files := ((fs_files fs)(c_str a := None))(c_str b \<mapsto> bs)\<rparr> else fs)"

definition extractFilename :: "string \<Rightarrow> string" where
  "extractFilename path0 = (case after_last (CHR ''/'') path0 of Some filename \<Rightarrow> filename | None \<Rightarrow> path0)"

definition receiver_send :: "'z transfer_env \<Rightarrow> MsgPack \<Rightarrow> 'z receiver \<Rightarrow> 'z receiver cobra_result" where
  "receiver_send env msg rv =
     (case mp_dump msg of
        None \<Rightarrow> Thrown
      | Some str \<Rightarrow>
          (case ws_send (fe_tenv env) str False None (rv_webSocket rv) of
             Ret (info, w) \<Rightarrow> Done (rv\<lparr>rv_webSocket := w\<rparr>)
           | Fault \<Rightarrow> Undefined
           | Hang \<Rightarrow> Stuck))"

definition receiver_handleError :: "'z transfer_env \<Rightarrow> string \<Rightarrow> string \<Rightarrow> 'z receiver \<Rightarrow> 'z receiver cobra_result" where
  "receiver_handleError env errMsg ident rv =
     receiver_send env (mp_object [(''id'', MpString ident), (''kind'', MpString ''error''), (''message'', MpString errMsg)]) rv"

definition handleMessage :: "'z transfer_env \<Rightarrow> string \<Rightarrow> 'z receiver \<Rightarrow> 'z receiver cobra_result" where
  "handleMessage env str rv =
     (case fe_parse env str of
        None \<Rightarrow> receiver_handleError env ''Invalid MsgPack'' [] rv
      | Some data \<Rightarrow>
          let content = binary_items (mp_index data ''content'')
          in if hash_text content \<noteq> string_value (mp_index data ''djb2_hash'') then receiver_handleError env ''Hash mismatch.'' [] rv
             else if content = [] then Undefined
             else let filename = extractFilename (string_value (mp_index data ''filename''));
                      filenameTmp = filename @ ''.tmp'';
                      fs = rename_file filenameTmp filename (write_file filenameTmp content (rv_files rv))
                  in receiver_send env (mp_object [(''ack'', MpBool True), (''filename'', mp_index data ''filename''), (''id'', mp_index data ''id'')])
                       (rv\<lparr>rv_files := fs\<rparr>))"

definition receiver_onMessage :: "'z transfer_env \<Rightarrow> WebSocketMessage \<Rightarrow> 'z receiver \<Rightarrow> (bool \<times> 'z receiver) cobra_result" where
  "receiver_onMessage env msg rv =
     (case msg_type msg of
        Open \<Rightarrow> Done (True, rv)
      | Message \<Rightarrow> cbind (handleMessage env (msg_str msg) rv) (\<lambda>rv1. Done (True, rv1))
      | Fragment \<Rightarrow> Done (False, rv\<lparr>rv_fragments := rv_fragments rv + 1\<rparr>)
      | _ \<Rightarrow> Done (False, rv))"

subsection \<open>The relay\<close>

text \<open>\<open>amount c k\<close>: the size of the buffer of client \<open>c\<close> at the \<open>k\<close>-th read after the send to it.\<close>

definition relay_to :: "'z tenv \<Rightarrow> (nat \<Rightarrow> nat \<Rightarrow> nat) \<Rightarrow> string \<Rightarrow> bool \<Rightarrow> nat \<Rightarrow> 'z ws_shared \<Rightarrow> 'z ws_shared outcome" where
  "relay_to env amount str binary c g =
     (case wg_objects g c of
        None \<Rightarrow> Ret g
      | Some w \<Rightarrow>
          (case ws_send env str binary (Some (\<lambda>current total. True)) w of
             Fault \<Rightarrow> Fault
           | Hang \<Rightarrow> Hang
           | Ret (info, w1) \<Rightarrow> (case wait_sent (amount c) 0 of None \<Rightarrow> Hang | Some k \<Rightarrow> Ret (put_object c w1 g))))"

fun relay_to_all :: "'z tenv \<Rightarrow> (nat \<Rightarrow> nat \<Rightarrow> nat) \<Rightarrow> string \<Rightarrow> bool \<Rightarrow> nat \<Rightarrow> nat list \<Rightarrow> 'z ws_shared \<Rightarrow> 'z ws_shared outcome" where
  "relay_to_all env amount str binary source [] g = Ret g"
| "relay_to_all env amount str binary source (c # cs) g =
     (if c \<noteq> source then
        (case relay_to env amount str binary c g of
           Ret g1 \<Rightarrow> relay_to_all env amount str binary source cs g1 | Fault \<Rightarrow> Fault | Hang \<Rightarrow> Hang)
      else relay_to_all env amount str binary source cs g)"

definition transfer_onMessage ::
  "'z tenv \<Rightarrow> (nat \<Rightarrow> nat \<Rightarrow> nat) \<Rightarrow> nat \<Rightarrow> WebSocketMessage \<Rightarrow> 'z ws_shared \<Rightarrow> 'z ws_shared outcome" where
  "transfer_onMessage env amount source msg g =
     (if msg_type msg = Message then relay_to_all env amount (msg_str msg) (msg_binary msg) source (getClients g) g else Ret g)"

definition ws_transfer_run :: "(int \<Rightarrow> string) \<Rightarrow> listen_os \<Rightarrow> int \<Rightarrow> string \<Rightarrow> bool \<times> (ws_local, 'z ws_shared) server" where
  "ws_transfer_run strerr os p hostname =
     (case server_listen strerr os (WebSocketServer_new p hostname kDefaultTcpBacklog kDefaultMaxConnections WebSocketServer_kDefaultHandShakeTimeoutSecs) of
        ((ok, err), s1) \<Rightarrow> if \<not> ok then (False, s1) else (True, server_start s1))"

subsection \<open>Waiting\<close>

text \<open>
  The main thread of the sender waits for the connection, sends its file, and waits for a message.
  \<open>notify_one\<close> wakes a thread that waits; nobody else notices it. Wakes without a notification, which the
  standard allows, are left out. An answer comes to a file that was sent.
\<close>

datatype tool_pc = BeforeConnection | WaitingConnection | Working | BeforeMessage | WaitingMessage | Through
datatype net_pc = Connecting | Connected | Answered

record tool =
  tl_pc :: tool_pc
  tl_net :: net_pc

inductive tool_step :: "tool \<Rightarrow> tool \<Rightarrow> bool" where
  wait_connection: "tl_pc s = BeforeConnection \<Longrightarrow> tool_step s (s\<lparr>tl_pc := WaitingConnection\<rparr>)"
| opened: "tl_net s = Connecting \<Longrightarrow> tool_step s (s\<lparr>tl_net := Connected, tl_pc := (if tl_pc s = WaitingConnection then Working else tl_pc s)\<rparr>)"
| worked: "tl_pc s = Working \<Longrightarrow> tool_step s (s\<lparr>tl_pc := BeforeMessage\<rparr>)"
| wait_message: "tl_pc s = BeforeMessage \<Longrightarrow> tool_step s (s\<lparr>tl_pc := WaitingMessage\<rparr>)"
| answered: "tl_net s = Connected \<Longrightarrow> tl_pc s \<in> {BeforeMessage, WaitingMessage} \<Longrightarrow>
    tool_step s (s\<lparr>tl_net := Answered, tl_pc := (if tl_pc s = WaitingMessage then Through else tl_pc s)\<rparr>)"

definition tool_start :: tool where
  "tool_start = \<lparr>tl_pc = BeforeConnection, tl_net = Connecting\<rparr>"

end
