(* ===== verification/Fifo.thy ===== *)
theory Fifo
  imports Prelude "HOL-Library.Sublist"
begin

section \<open>Queues between threads\<close>

text \<open>
  The contract of the queues through which one thread hands work to another: the message queue of
  \<^verbatim>\<open>IXWebSocketMessageQueue.cpp\<close>, the requests of \<^verbatim>\<open>IXHttpClient.cpp\<close> and the metrics of
  \<^verbatim>\<open>IXCobraMetricsThreadedPublisher.cpp\<close>. Each protects its operations by a mutex, so that the operations of the threads form one sequence; whatever that sequence is, what
  comes out is what went in, in order.
\<close>

datatype 'a queue_op = Put 'a | Get

fun puts :: "'a queue_op list \<Rightarrow> 'a list" where
  "puts [] = []"
| "puts (Put x # ops) = x # puts ops"
| "puts (Get # ops) = puts ops"

locale fifo_queue =
  fixes put :: "'a \<Rightarrow> 's \<Rightarrow> 's"
    and get :: "'s \<Rightarrow> 'a option \<times> 's"
    and contents :: "'s \<Rightarrow> 'a list"
  assumes put_contents: "contents (put x s) = contents s @ [x]"
    and get_empty: "contents s = [] \<Longrightarrow> get s = (None, s)"
    and get_front: "contents s = x # xs \<Longrightarrow> \<exists>s'. get s = (Some x, s') \<and> contents s' = xs"
begin

lemma get_option: "get s = (r, s') \<Longrightarrow> contents s = (case r of None \<Rightarrow> [] | Some x \<Rightarrow> [x]) @ contents s'"
  using get_empty [of s] get_front [of s] by (cases "contents s") auto

fun run :: "'a queue_op list \<Rightarrow> 's \<Rightarrow> 'a list \<times> 's" where
  "run [] s = ([], s)"
| "run (Put x # ops) s = run ops (put x s)"
| "run (Get # ops) s =
     (case get s of (r, s1) \<Rightarrow> case run ops s1 of (out, s2) \<Rightarrow> ((case r of None \<Rightarrow> [] | Some x \<Rightarrow> [x]) @ out, s2))"

lemma run_history: "run ops s = (out, s') \<Longrightarrow> out @ contents s' = contents s @ puts ops"
proof (induction ops s arbitrary: out rule: run.induct)
  case (3 ops s)
  obtain r s1 where g: "get s = (r, s1)" by fastforce
  obtain out1 s2 where o: "run ops s1 = (out1, s2)" by fastforce
  then have "s2 = s'" using "3.prems" g by simp
  then show ?case using "3.IH" [OF g [symmetric]] "3.prems" g o get_option [OF g] by auto
qed (auto simp: put_contents)

lemma run_in_order: "run ops s = (out, s') \<Longrightarrow> contents s = [] \<Longrightarrow> prefix out (puts ops)"
  using run_history [of ops s out s'] by (metis append_Nil prefixI)

lemma run_gets: "run (replicate n Get) s = (out, s') \<Longrightarrow> out = take n (contents s) \<and> contents s' = drop n (contents s)"
proof (induction n arbitrary: s out)
  case (Suc n)
  obtain r s1 where g: "get s = (r, s1)" by fastforce
  obtain out1 where o: "run (replicate n Get) s1 = (out1, s')" using Suc.prems g by (auto split: prod.splits)
  have e: "r = None \<Longrightarrow> contents s1 = []" using get_front [of s] g by (cases "contents s") (use get_empty [of s] in auto)
  show ?case using Suc.IH [OF o] Suc.prems g o get_option [OF g] e by (cases r) auto
qed simp

end

end
