(* ===== verification/HttpClient.thy ===== *)
theory HttpClient
  imports Connect
begin

section \<open>The HTTP client\<close>

text \<open>
  \<^verbatim>\<open>IXHttpClient.cpp\<close>. A request goes through the URL parser, the socket factory, the connection and the
  blocking transfers of the socket; its response is read line by line, and its body by content length or
  in chunks. The record \<open>http_env\<close> holds what comes from outside: the outcomes of the system calls, the
  clocks of the two timeouts, zlib, the largest block the allocator gives, and the values of
  variables the code reads uninitialised. \<^const>\<open>None\<close> is a call that does not return. A redirect
  calls \<open>request\<close> again under the mutex it holds, \<open>Relocks\<close>.
\<close>

subsection \<open>Arguments and results\<close>

record HttpRequestArgs =
  args_url :: string
  args_verb :: string
  args_extraHeaders :: WebSocketHttpHeaders
  args_body :: string
  args_connectTimeout :: int
  args_transferTimeout :: int
  args_followRedirects :: bool
  args_maxRedirects :: int
  args_verbose :: bool
  args_compress :: bool
  args_logger :: bool

record 'z http_env =
  he_attempt :: "'z attempt"
  he_connectStart :: int
  he_connectClock :: "nat \<Rightarrow> int"
  he_transferStart :: int
  he_transferClock :: "nat \<Rightarrow> int"
  he_memory :: int
  he_garbage :: "nat \<Rightarrow> u64"

datatype http_result = Responded HttpResponse | Relocks | RequestThrows | RequestUndefined

datatype body_result = Body string | BodyError HttpErrorCode string string | BodyThrows | BodyUndefined

definition kPost :: string where "kPost = ''POST''"

definition kGet :: string where "kGet = ''GET''"

definition kHead :: string where "kHead = ''HEAD''"

definition kDel :: string where "kDel = ''DEL''"

definition kPut :: string where "kPut = ''PUT''"

definition http_reply :: "int \<Rightarrow> HttpErrorCode \<Rightarrow> WebSocketHttpHeaders \<Rightarrow> string \<Rightarrow> string \<Rightarrow> nat \<Rightarrow> nat \<Rightarrow> http_result" where
  "http_reply status err headers payload errorMsg uploadSize downloadSize =
     Responded \<lparr>resp_statusCode = status, resp_description = [], resp_errorCode = err, resp_headers = headers, resp_payload = payload,
       resp_errorMsg = errorMsg, resp_uploadSize = uploadSize, resp_downloadSize = downloadSize\<rparr>"

definition http_log :: "HttpRequestArgs \<Rightarrow> string \<Rightarrow> string list \<Rightarrow> string list" where
  "http_log args msg lg = (if args_logger args then lg @ [msg] else lg)"

definition verbose_log :: "HttpRequestArgs \<Rightarrow> string \<Rightarrow> string list \<Rightarrow> string list" where
  "verbose_log args msg lg = (if args_verbose args then http_log args msg lg else lg)"

subsection \<open>Encoding of parameters\<close>

definition hex_digit :: "nat \<Rightarrow> char" where
  "hex_digit n = (if n < 10 then char_of (48 + n) else char_of (55 + n))"

definition url_safe :: "char \<Rightarrow> bool" where
  "url_safe c \<longleftrightarrow> c_isalnum c \<or> c = CHR ''-'' \<or> c = CHR ''_'' \<or> c = CHR ''.'' \<or> c = CHR ''~''"

definition urlEncode :: "string \<Rightarrow> string" where
  "urlEncode value =
     concat (map (\<lambda>c. if url_safe c then [c] else [CHR ''%'', hex_digit (code c div 16), hex_digit (code c mod 16)]) value)"

text \<open>\<open>httpParameters\<close> is a map: its pairs in the order of their keys.\<close>

fun serialize_from :: "nat \<Rightarrow> nat \<Rightarrow> (string \<times> string) list \<Rightarrow> string" where
  "serialize_from count i [] = []"
| "serialize_from count i ((k, v) # ps) =
     urlEncode k @ ''='' @ urlEncode v @ (if i < count - 1 then ''&'' else []) @ serialize_from count (i + 1) ps"

definition serializeHttpParameters :: "(string \<times> string) list \<Rightarrow> string" where
  "serializeHttpParameters httpParameters = serialize_from (length httpParameters) 0 httpParameters"

subsection \<open>The text of a request\<close>

text \<open>The defaults are decided by the headers of the response, which are still empty, so they are
  always written.\<close>

definition http_request_text :: "'z henv \<Rightarrow> string \<Rightarrow> string \<Rightarrow> string \<Rightarrow> string \<Rightarrow> HttpRequestArgs \<Rightarrow> string" where
  "http_request_text env verb hostName pathName body args =
     verb @ '' '' @ pathName @ '' HTTP/1.1'' @ CRLF
     @ ''Host: '' @ hostName @ CRLF
     @ (if args_compress args then ''Accept-Encoding: gzip'' @ CRLF else [])
     @ concat (map (\<lambda>(k, v). k @ '': '' @ v @ CRLF) (args_extraHeaders args))
     @ ''Accept: */*'' @ CRLF
     @ ''User-Agent: '' @ userAgent env @ CRLF
     @ (if verb = kPost \<or> verb = kPut then
          ''Content-Length: '' @ string_of_nat (length body) @ CRLF
          @ (if headers_find (args_extraHeaders args) ''Content-Type'' = None
             then ''Content-Type: application/x-www-form-urlencoded'' @ CRLF else [])
          @ CRLF @ body
        else CRLF)"

subsection \<open>Numbers read from the stream\<close>

text \<open>\<open>sscanf(line.c_str(), "HTTP/1.1 %d", &code)\<close>.\<close>

definition scan_status :: "string \<Rightarrow> int option" where
  "scan_status line =
     (let l = c_str line in
      if take 8 l \<noteq> ''HTTP/1.1'' then None
      else let r = skip_space (drop 8 l)
           in if snd (signed_prefix r) = [] then None else Some (atoi r))"

text \<open>\<open>ssize_t x = init; stream >> x\<close>, as \<^const>\<open>extract_int\<close>.\<close>

definition extract_long :: "int \<Rightarrow> string \<Rightarrow> int" where
  "extract_long init s =
     (let r = skip_space s in
      if r = [] then init else max long_min (min long_max (prefix_int r)))"

definition c_isxdigit :: "char \<Rightarrow> bool" where
  "c_isxdigit c \<longleftrightarrow> c_isdigit c \<or> 65 \<le> code c \<and> code c \<le> 70 \<or> 97 \<le> code c \<and> code c \<le> 102"

definition xdigit_val :: "char \<Rightarrow> nat" where
  "xdigit_val c = (if c_isdigit c then code c - 48 else if code c \<le> 70 then code c - 55 else code c - 87)"

definition xdigits_val :: "string \<Rightarrow> nat" where
  "xdigits_val s = foldl (\<lambda>n c. 16 * n + xdigit_val c) 0 s"

definition hex_sign :: "string \<Rightarrow> bool \<times> string" where
  "hex_sign r = (if r \<noteq> [] \<and> hd r = CHR ''-'' then (True, tl r) else if r \<noteq> [] \<and> hd r = CHR ''+'' then (False, tl r) else (False, r))"

definition hex_prefix :: "string \<Rightarrow> string" where
  "hex_prefix r = (if take 2 r = ''0x'' \<or> take 2 r = ''0X'' then drop 2 r else r)"

text \<open>\<open>ss.str(""); ss << std::hex << line; ss >> chunkSize\<close>: nothing happens on a stream that is not good, and
  white space alone leaves the variable uninitialised; text without a digit stores 0; a value out
  of range stores the maximum. A stream that was read to its end or failed is not good afterwards,
  since \<open>str("")\<close> does not clear its state.\<close>

definition chunk_size :: "bool \<Rightarrow> u64 \<Rightarrow> string \<Rightarrow> u64 \<times> bool" where
  "chunk_size good garbage line =
     (let r = skip_space line in
      if \<not> good \<or> r = [] then (garbage, False)
      else let (neg, r1) = hex_sign r; r2 = hex_prefix r1; ds = takeWhile c_isxdigit r2; v = xdigits_val ds
           in if ds = [] then (0, False)
              else if v \<ge> 2 ^ 64 then (- 1, False)
              else (if neg then - of_nat v else of_nat v, dropWhile c_isxdigit r2 \<noteq> []))"

subsection \<open>Reading the body\<close>

partial_function (option) chunk_loop ::
  "'z http_env \<Rightarrow> HttpRequestArgs \<Rightarrow> (nat \<Rightarrow> bool) \<Rightarrow> bool \<Rightarrow> nat \<Rightarrow> string \<Rightarrow> string list \<Rightarrow> socket \<Rightarrow> (body_result \<times> string list \<times> socket) option" where
  "chunk_loop env args cancel good n payload lg s =
     Option.bind (readLine cancel s) (\<lambda>(valid, line, s1).
       if \<not> valid then Some (BodyError ChunkReadError payload [], lg, s1)
       else case chunk_size good (he_garbage env n) line of (chunkSize, good1) \<Rightarrow>
         let lg1 = verbose_log args (''Reading '' @ string_of_nat (unat chunkSize) @ '' bytes'' @ [LF]) lg
         in if int ((length payload + unat chunkSize) mod 2 ^ 64) > he_memory env then Some (BodyThrows, lg1, s1)
            else Option.bind (readBytes (unat chunkSize) cancel s1) (\<lambda>(r, s2).
              case r of
                ReadFailed \<Rightarrow> Some (BodyError ChunkReadError payload ''Cannot read chunk'', lg1, s2)
              | ReadFault \<Rightarrow> Some (BodyUndefined, lg1, s2)
              | ReadOk chunk \<Rightarrow>
                  Option.bind (readLine cancel s2) (\<lambda>(valid2, line2, s3).
                    if \<not> valid2 then Some (BodyError ChunkReadError (payload @ chunk) [], lg1, s3)
                    else if chunkSize = 0 then Some (Body (payload @ chunk), lg1, s3)
                    else chunk_loop env args cancel good1 (n + 1) (payload @ chunk) lg1 s3)))"

definition read_content :: "'z http_env \<Rightarrow> (nat \<Rightarrow> bool) \<Rightarrow> string \<Rightarrow> socket \<Rightarrow> (body_result \<times> socket) option" where
  "read_content env cancel val s =
     (let contentLength = extract_long (-1) val
      in if contentLength < 0 \<or> contentLength > he_memory env then Some (BodyThrows, s)
         else Option.bind (readBytes (nat contentLength) cancel s) (\<lambda>(r, s1).
           case r of
             ReadFailed \<Rightarrow> Some (BodyError ChunkReadError [] ''Cannot read chunk'', s1)
           | ReadFault \<Rightarrow> Some (BodyUndefined, s1)
           | ReadOk content \<Rightarrow> Some (Body content, s1)))"

definition read_body ::
  "'z http_env \<Rightarrow> HttpRequestArgs \<Rightarrow> (nat \<Rightarrow> bool) \<Rightarrow> int \<Rightarrow> WebSocketHttpHeaders \<Rightarrow> string list \<Rightarrow> socket \<Rightarrow> (body_result \<times> string list \<times> socket) option" where
  "read_body env args cancel status headers lg s =
     (case headers_find headers ''Content-Length'' of
        Some val \<Rightarrow> map_option (\<lambda>(b, s1). (b, lg, s1)) (read_content env cancel val s)
      | None \<Rightarrow>
          if headers_find headers ''Transfer-Encoding'' = Some ''chunked'' then chunk_loop env args cancel True 0 [] lg s
          else if status = 204 then Some (Body [], lg, s)
          else Some (BodyError CannotReadBody [] ''Cannot read http body'', lg, s))"

definition MAX_WBITS :: int where
  "MAX_WBITS = 15"

definition gzipInflate :: "'z zlib \<Rightarrow> string \<Rightarrow> string \<Rightarrow> (bool \<times> string) option" where
  "gzipInflate zl inp out =
     (case z_inflateInit2 zl (16 + MAX_WBITS) of
        None \<Rightarrow> Some (False, out)
      | Some z \<Rightarrow> map_option (\<lambda>(ok, out1, z1). (ok, out1)) (decompress_loop zl (uInt_prefix inp) out z))"

subsection \<open>Requests\<close>

text \<open>From the body on; \<open>operator[]\<close> enters an empty content encoding into the headers if there is none.\<close>

definition http_body ::
  "'z http_env \<Rightarrow> HttpRequestArgs \<Rightarrow> (nat \<Rightarrow> bool) \<Rightarrow> int \<Rightarrow> WebSocketHttpHeaders \<Rightarrow> nat \<Rightarrow> string list \<Rightarrow> socket \<Rightarrow>
     (http_result \<times> string list \<times> socket) option" where
  "http_body env args cancel status headers uploadSize lg s =
     Option.bind (read_body env args cancel status headers lg s) (\<lambda>(b, lg1, s1).
       case b of
         BodyThrows \<Rightarrow> Some (RequestThrows, lg1, s1)
       | BodyUndefined \<Rightarrow> Some (RequestUndefined, lg1, s1)
       | BodyError err payload msg \<Rightarrow> Some (http_reply status err headers payload msg uploadSize 0, lg1, s1)
       | Body payload \<Rightarrow>
           let (encoding, headers1) = headers_index headers ''Content-Encoding'' in
           if encoding \<noteq> ''gzip'' then Some (http_reply status HttpOk headers1 payload [] uploadSize (length payload), lg1, s1)
           else Option.bind (gzipInflate (h_zlib (at_henv (he_attempt env))) payload []) (\<lambda>(ok, decompressedPayload).
             if \<not> ok then Some (http_reply status Gzip headers1 payload ''Error decompressing payload'' uploadSize (length payload), lg1, s1)
             else Some (http_reply status HttpOk headers1 decompressedPayload [] uploadSize (length payload), lg1, s1)))"

definition http_redirects :: "HttpRequestArgs \<Rightarrow> int \<Rightarrow> bool" where
  "http_redirects args status \<longleftrightarrow> 301 \<le> status \<and> status \<le> 308 \<and> args_followRedirects args"

definition http_finish ::
  "'z http_env \<Rightarrow> HttpRequestArgs \<Rightarrow> (nat \<Rightarrow> bool) \<Rightarrow> string \<Rightarrow> int \<Rightarrow> int \<Rightarrow> WebSocketHttpHeaders \<Rightarrow> nat \<Rightarrow> string list \<Rightarrow> socket \<Rightarrow>
     (http_result \<times> string list \<times> socket) option" where
  "http_finish env args cancel verb redirects status headers uploadSize lg s =
     (if http_redirects args status then
        (if headers_find headers ''Location'' = None
         then Some (http_reply status MissingLocation headers [] ''Missing location header for redirect'' uploadSize 0, lg, s)
         else if redirects \<ge> args_maxRedirects args
         then Some (http_reply status TooManyRedirects headers [] (''Too many redirects: '' @ string_of_int redirects) uploadSize 0, lg, s)
         else Some (Relocks, lg, s))
      else if verb = ''HEAD'' then Some (http_reply status HttpOk headers [] [] uploadSize 0, lg, s)
      else http_body env args cancel status headers uploadSize lg s)"

text \<open>From the status line on.\<close>

definition http_receive ::
  "'z http_env \<Rightarrow> HttpRequestArgs \<Rightarrow> (nat \<Rightarrow> bool) \<Rightarrow> string \<Rightarrow> int \<Rightarrow> nat \<Rightarrow> string list \<Rightarrow> socket \<Rightarrow>
     (http_result \<times> string list \<times> socket) option" where
  "http_receive env args cancel verb redirects uploadSize lg s =
     Option.bind (readLine cancel s) (\<lambda>(lineValid, line, s1).
       if \<not> lineValid then Some (http_reply 0 CannotReadStatusLine [] [] ''Cannot retrieve status line'' uploadSize 0, lg, s1)
       else let lg1 = verbose_log args (''Status line '' @ line) lg in
         case scan_status line of
           None \<Rightarrow> Some (http_reply 0 MissingStatus [] [] ''Cannot parse response code from status line'' uploadSize 0, lg1, s1)
         | Some status \<Rightarrow>
             Option.bind (parseHttpHeaders cancel s1) (\<lambda>(result, s2).
               case result of
                 HeadersOutOfRange \<Rightarrow> Some (RequestThrows, lg1, s2)
               | Headers headersValid headers \<Rightarrow>
                   if \<not> headersValid
                   then Some (http_reply status HeaderParsingError headers [] ''Cannot parse http headers'' uploadSize 0, lg1, s2)
                   else http_finish env args cancel verb redirects status headers uploadSize lg1 s2))"

definition request_log :: "string \<Rightarrow> url \<Rightarrow> string \<Rightarrow> string" where
  "request_log verb u req =
     ''Sending '' @ verb @ '' request to '' @ host u @ '':'' @ string_of_int (port u) @ [LF]
     @ ''request size: '' @ string_of_nat (length req) @ '' bytes'' @ [LF]
     @ ''============='' @ [LF] @ req @ ''============='' @ [LF, LF]"

definition request ::
  "'z http_env \<Rightarrow> string \<Rightarrow> string \<Rightarrow> string \<Rightarrow> HttpRequestArgs \<Rightarrow> int \<Rightarrow> (http_result \<times> string list \<times> socket option) option" where
  "request env address verb body args redirects =
     (case parse_url address of
        None \<Rightarrow> Some (http_reply 0 UrlMalformed [] [] (''Cannot parse url: '' @ address) 0 0, [], None)
      | Some u \<Rightarrow>
          case createSocket (at_pipe (he_attempt env)) (protocol u = ''https'') (at_socket (he_attempt env)) of
            Inl errorMsg \<Rightarrow> Some (http_reply 0 CannotCreateSocket [] [] errorMsg 0 0, [], None)
          | Inr s \<Rightarrow>
              let req = http_request_text (at_henv (he_attempt env)) verb (host u) (path u) body args;
                  cancel1 = makeCancellationRequestWithTimeout (args_connectTimeout args) (\<lambda>_. False) (he_connectStart env) (he_connectClock env);
                  cancel2 = makeCancellationRequestWithTimeout (args_transferTimeout args) (\<lambda>_. False) (he_transferStart env) (he_transferClock env)
              in Option.bind (socket_connect (h_net (at_henv (he_attempt env))) (host u) (port u) cancel1 s) (\<lambda>(success, errMsg, s1).
                   if \<not> success
                   then Some (http_reply 0 CannotConnect [] [] (''Cannot connect to url: '' @ address @ '' / error : '' @ errMsg) 0 0, [], Some s1)
                   else let lg = verbose_log args (request_log verb u req) [] in
                     Option.bind (writeBytes cancel2 req s1) (\<lambda>(sent, s2).
                       if \<not> sent then Some (http_reply 0 SendError [] [] ''Cannot send request'' 0 0, lg, Some s2)
                       else map_option (\<lambda>(r, lg1, s3). (r, lg1, Some s3))
                              (http_receive env args cancel2 verb redirects (length req) lg s2))))"

end
