(* ===== verification/HttpServer.thy ===== *)
theory HttpServer
  imports Connect SocketServerProperties
begin

section \<open>The HTTP server\<close>

text \<open>
  \<^verbatim>\<open>IXHttpServer.cpp\<close>. A connection thread counts itself, wraps the descriptor in a socket object, reads one
  request, asks the callback for a response and writes it. The record \<open>http_world\<close> holds what comes from
  outside: the outcomes of the system calls on each connection, the clock, and the callback. The
  default callback serves files; the file system gives a file's size and content, and an allocation
  of more than \<open>memory\<close> bytes throws.
\<close>

subsection \<open>State\<close>

datatype http_local =
  HtStart | HtOpen | HtRead socket | HtReply HttpRequest socket | HtSend HttpResponse socket | HtTerminate socket
| HtCloseFd socket | HtUncount socket | HtDestroy socket | HtDone

record http_shared =
  hg_connectedClientsCount :: int

datatype callback_result = Response HttpResponse "string list" | CallbackThrows

record http_world =
  hw_pipe :: "nat \<Rightarrow> pipe_os"
  hw_script :: "nat \<Rightarrow> socket"
  hw_start :: "nat \<Rightarrow> int"
  hw_clock :: "nat \<Rightarrow> nat \<Rightarrow> int"
  hw_callback :: "HttpRequest \<Rightarrow> connection_state \<Rightarrow> callback_result"

definition HttpServer_new :: "int \<Rightarrow> string \<Rightarrow> int \<Rightarrow> nat \<Rightarrow> (http_local, http_shared) server" where
  "HttpServer_new p h backlog maxConnections = SocketServer_new p h backlog maxConnections \<lparr>hg_connectedClientsCount = 0\<rparr>"

text \<open>The count is an \<open>int\<close>, returned as a \<open>size_t\<close>.\<close>

definition http_getConnectedClientsCount :: "http_shared \<Rightarrow> nat" where
  "http_getConnectedClientsCount g = nat (hg_connectedClientsCount g mod 2 ^ 64)"

subsection \<open>Connections\<close>

definition ht_next :: "http_local \<Rightarrow> http_local thread \<Rightarrow> http_local thread" where
  "ht_next l t = t\<lparr>th_local := l\<rparr>"

text \<open>A null socket, an exception of the header parser or of the callback ends the process; the
  descriptor is closed by the handler and again by the destructor of its socket.\<close>

definition http_handleConnection :: "http_world \<Rightarrow> http_local thread \<Rightarrow> http_shared \<Rightarrow> (http_local, http_shared) handled" where
  "http_handleConnection H t g =
     (case th_local t of
        HtStart \<Rightarrow> Went (ht_next HtOpen t) (g\<lparr>hg_connectedClientsCount := hg_connectedClientsCount g + 1\<rparr>) [] []
      | HtOpen \<Rightarrow>
          (case createSocket_fd (hw_pipe H (th_conn t)) (th_fd t) (hw_script H (th_conn t)) of
             Inl errorMsg \<Rightarrow> Crashed
           | Inr s \<Rightarrow> Went (ht_next (HtRead s) t) g [] [])
      | HtRead s \<Rightarrow>
          (case parseRequest (hw_start H (th_conn t)) (hw_clock H (th_conn t)) s of
             None \<Rightarrow> Blocked
           | Some (RequestOutOfRange, s1) \<Rightarrow> Crashed
           | Some (RequestError msg, s1) \<Rightarrow> Went (ht_next (HtTerminate s1) t) g [] []
           | Some (Request request, s1) \<Rightarrow> Went (ht_next (HtReply request s1) t) g [] [])
      | HtReply request s \<Rightarrow>
          (case hw_callback H request (th_state t) of
             CallbackThrows \<Rightarrow> Crashed
           | Response response lg \<Rightarrow> Went (ht_next (HtSend response s) t) g [] lg)
      | HtSend response s \<Rightarrow>
          (case sendResponse response s of
             None \<Rightarrow> Blocked
           | Some (ok, s1) \<Rightarrow> Went (ht_next (HtTerminate s1) t) g [] (if ok then [] else [''Cannot send response'']))
      | HtTerminate s \<Rightarrow> Went (ht_next (HtCloseFd s) (t\<lparr>th_state := setTerminated (th_state t)\<rparr>)) g [] []
      | HtCloseFd s \<Rightarrow> Went (ht_next (HtUncount s) t) g [th_fd t] []
      | HtUncount s \<Rightarrow> Went (ht_next (HtDestroy s) t) (g\<lparr>hg_connectedClientsCount := hg_connectedClientsCount g - 1\<rparr>) [] []
      | HtDestroy s \<Rightarrow> Went (ht_next HtDone t) g (if sockfd s = -1 then [] else [sockfd s]) []
      | HtDone \<Rightarrow> Blocked)"

text \<open>\<open>stop\<close> closes no clients.\<close>

definition HttpServer_class :: "http_world \<Rightarrow> (http_local, http_shared) server_class" where
  "HttpServer_class H =
     \<lparr>sc_local = HtStart, sc_step = http_handleConnection H, sc_finished = (\<lambda>l. l = HtDone), sc_count = http_getConnectedClientsCount,
      sc_stopBegin = (\<lambda>g. g), sc_stopNext = (\<lambda>g. None), sc_stopEnd = (\<lambda>g. (g, []))\<rparr>"

subsection \<open>The default callback\<close>

text \<open>A file that can be opened has a size, as \<open>tellg\<close> gives it at its end (negative when the position
  is unknown, huge for a directory), and content; what is missing of the content stays zero.\<close>

type_synonym file_system = "string \<Rightarrow> (int \<times> string) option"

definition load :: "file_system \<Rightarrow> int \<Rightarrow> string \<Rightarrow> (bool \<times> string) option" where
  "load fs memory file =
     (case fs file of
        None \<Rightarrow> Some (False, [])
      | Some (streamsize, content) \<Rightarrow>
          if streamsize < 0 \<or> streamsize > memory then None
          else Some (True, take (nat streamsize) (content @ replicate (nat streamsize - length content) NUL)))"

definition readAsString :: "file_system \<Rightarrow> int \<Rightarrow> string \<Rightarrow> (bool \<times> string) option" where
  "readAsString fs memory file = load fs memory file"

definition http_response :: "int \<Rightarrow> string \<Rightarrow> WebSocketHttpHeaders \<Rightarrow> string \<Rightarrow> HttpResponse" where
  "http_response statusCode description headers payload =
     \<lparr>resp_statusCode = statusCode, resp_description = description, resp_errorCode = HttpOk, resp_headers = headers,
      resp_payload = payload, resp_errorMsg = [], resp_uploadSize = 0, resp_downloadSize = 0\<rparr>"

text \<open>Logging looks the user agent up with \<open>operator[]\<close>, which enters an empty one if there is none;
  the headers of the request go into the response.\<close>

definition default_callback :: "file_system \<Rightarrow> int \<Rightarrow> HttpRequest \<Rightarrow> connection_state \<Rightarrow> callback_result" where
  "default_callback fs memory request cs =
     (let uri = (if req_uri request = [] \<or> req_uri request = ''/'' then ''/index.html'' else req_uri request)
      in case readAsString fs memory (''.'' @ uri) of
           None \<Rightarrow> CallbackThrows
         | Some (found, content) \<Rightarrow>
             if \<not> found then Response (http_response 404 ''Not Found'' [] []) []
             else
               (case headers_index (req_headers request) ''User-Agent'' of
                  (agent, requestHeaders) \<Rightarrow>
                    Response
                      (http_response 200 ''OK''
                        (fold (\<lambda>(k, v). headers_assign k v) requestHeaders (headers_assign ''Accept-Ranges'' ''none'' [])) content)
                      [req_method request @ '' '' @ agent @ '' '' @ req_uri request @ '' '' @ string_of_nat (length content)]))"

subsection \<open>The handler keeps the contract of the socket server\<close>

definition ht_holds :: "http_local \<Rightarrow> bool" where
  "ht_holds l \<longleftrightarrow> (case l of HtUncount s \<Rightarrow> False | HtDestroy s \<Rightarrow> False | HtDone \<Rightarrow> False | _ \<Rightarrow> True)"

definition ht_counted :: "http_local \<Rightarrow> bool" where
  "ht_counted l \<longleftrightarrow> (case l of HtStart \<Rightarrow> False | HtDestroy s \<Rightarrow> False | HtDone \<Rightarrow> False | _ \<Rightarrow> True)"

definition ht_tinv :: "http_local thread \<Rightarrow> bool" where
  "ht_tinv t \<longleftrightarrow> (case th_local t of HtCloseFd s \<Rightarrow> cs_terminated (th_state t) | HtUncount s \<Rightarrow> cs_terminated (th_state t)
     | HtDestroy s \<Rightarrow> cs_terminated (th_state t) | HtDone \<Rightarrow> cs_terminated (th_state t) | _ \<Rightarrow> True)"

lemma HttpServer_class_simps [simp]:
  "sc_local (HttpServer_class H) = HtStart" "sc_step (HttpServer_class H) = http_handleConnection H"
  "sc_finished (HttpServer_class H) l = (l = HtDone)" "sc_count (HttpServer_class H) = http_getConnectedClientsCount"
  "sc_stopBegin (HttpServer_class H) g = g" "sc_stopNext (HttpServer_class H) g = None" "sc_stopEnd (HttpServer_class H) g = (g, [])"
  by (simp_all add: HttpServer_class_def)

lemma http_handler_kept:
  assumes "http_handleConnection H t g = Went t' g' fds lg"
  shows "th_fd t' = th_fd t \<and> th_conn t' = th_conn t \<and> (ht_holds (th_local t) \<longrightarrow> ht_holds (th_local t') \<or> th_fd t \<in> set fds) \<and>
    (ht_tinv t \<longrightarrow> ht_tinv t') \<and>
    hg_connectedClientsCount g' - of_bool (ht_counted (th_local t')) = hg_connectedClientsCount g - of_bool (ht_counted (th_local t))"
  using assms
  by (cases "th_local t")
    (auto simp: http_handleConnection_def ht_next_def ht_holds_def ht_counted_def ht_tinv_def setTerminated_def
      split: sum.splits option.splits request_result.splits callback_result.splits)

interpretation https: server_handler "HttpServer_class H" ht_holds ht_tinv for H
proof
  show "sc_step (HttpServer_class H) t g = Went t' g' fds lg \<Longrightarrow> th_fd t' = th_fd t \<and> th_conn t' = th_conn t" for t g t' g' fds lg
    by (simp add: http_handler_kept)
  show "sc_step (HttpServer_class H) t g = Went t' g' fds lg \<Longrightarrow> ht_holds (th_local t) \<Longrightarrow> ht_holds (th_local t') \<or> th_fd t \<in> set fds"
    for t g t' g' fds lg by (auto dest: http_handler_kept)
  show "sc_step (HttpServer_class H) t g = Went t' g' fds lg \<Longrightarrow> ht_tinv t \<Longrightarrow> ht_tinv t'" for t g t' g' fds lg
    by (auto dest: http_handler_kept)
qed (simp_all add: ht_holds_def ht_tinv_def)

subsection \<open>The count of clients\<close>

definition count_exact :: "(http_local, http_shared) server \<Rightarrow> bool" where
  "count_exact s \<longleftrightarrow> hg_connectedClientsCount (sv_shared s) = int (length (filter (\<lambda>t. ht_counted (th_local t)) (sv_threads s)))"

lemma filter_update:
  "i < length xs \<Longrightarrow> int (length (filter P (xs[i := y]))) = int (length (filter P xs)) - of_bool (P (xs ! i)) + of_bool (P y)"
proof -
  assume i: "i < length xs"
  have "filter P xs = filter P (take i xs) @ filter P [xs ! i] @ filter P (drop (Suc i) xs)"
    using i by (metis append_Cons append_Nil filter_append id_take_nth_drop)
  then show ?thesis using i by (simp add: upd_conv_take_nth_drop)
qed

lemma filter_removed:
  "i < length xs \<Longrightarrow> \<not> P (xs ! i) \<Longrightarrow> filter P (take i xs @ drop (i + 1) xs) = filter P xs"
  using id_take_nth_drop [of i xs] by (metis Suc_eq_plus1 filter.simps(2) filter_append)

lemma count_accept: "accept_step (HttpServer_class H) strerr s s' \<Longrightarrow> count_exact s \<Longrightarrow> count_exact s'"
proof (induction rule: accept_step.induct)
  case (admitted s fd c)
  then show ?case by (cases rule: admit_cases [of "HttpServer_class H" fd c s]) (auto simp: count_exact_def)
next
  case (launched s fd c cs)
  then show ?case by (simp add: count_exact_def launch_def ht_counted_def)
qed (auto simp: count_exact_def)

lemma count_gc: "gc_step (HttpServer_class H) s s' \<Longrightarrow> count_exact s \<Longrightarrow> count_exact s'"
proof (induction rule: gc_step.induct)
  case (scanning s i s')
  show ?case using scanning(2)
  proof (cases rule: scan_cases)
    case 3
    have "\<not> ht_counted (th_local (sv_threads s ! i))" using 3(3) by (simp add: ht_counted_def)
    then have "filter (\<lambda>t. ht_counted (th_local t)) (take i (sv_threads s) @ drop (i + 1) (sv_threads s)) =
        filter (\<lambda>t. ht_counted (th_local t)) (sv_threads s)"
      by (rule filter_removed [OF 3(2)])
    then show ?thesis using scanning(3) 3(1) by (simp add: count_exact_def)
  qed (use scanning in \<open>auto simp: count_exact_def\<close>)
qed (auto simp: count_exact_def)

lemma count_owner: "owner_step (HttpServer_class H) s s' \<Longrightarrow> count_exact s \<Longrightarrow> count_exact s'"
  by (induction rule: owner_step.induct)
    (auto simp: count_exact_def server_start_def stopAcceptingConnections_def Let_def)

lemma count_handler: "handler_step (HttpServer_class H) s s' \<Longrightarrow> count_exact s \<Longrightarrow> count_exact s'"
proof (induction rule: handler_step.induct)
  case (went i s t g fds lg)
  have "http_handleConnection H (sv_threads s ! i) (sv_shared s) = Went t g fds lg" using went(2) by simp
  note k = http_handler_kept [OF this]
  show ?case
    using went(3) k filter_update [OF went(1), of "\<lambda>t. ht_counted (th_local t)" t] by (simp add: count_exact_def)
qed (simp add: count_exact_def)

lemma count_reachable:
  assumes "server_reachable (HttpServer_class H) strerr (HttpServer_new p h b m) s"
  shows "count_exact s"
  using assms unfolding HttpServer_new_def
proof (induction rule: server_reachable.induct)
  case (listening os)
  then show ?case by (simp add: count_exact_def)
next
  case (stepped s s')
  then show ?case using count_accept count_gc count_owner count_handler unfolding server_step_def by blast
qed

text \<open>
  C31. The HTTP server stops cleanly and counts right: in every state its threads can reach, the
  number of clients is the number of handlers that have counted themselves and not yet counted
  themselves out, so it is never negative and converts to \<open>size_t\<close> unchanged; and when \<open>stop\<close> comes to its
  end, all threads have finished and been joined, the number is zero, and the only descriptors of
  connections still open are those accepted during the stop and dropped.
\<close>

theorem http_server_counts_and_stops:
  assumes "server_reachable (HttpServer_class H) strerr (HttpServer_new p h b m) s"
  shows "hg_connectedClientsCount (sv_shared s) = int (length (filter (\<lambda>t. ht_counted (th_local t)) (sv_threads s))) \<and>
    (length (sv_threads s) < 2 ^ 64 \<longrightarrow>
       int (http_getConnectedClientsCount (sv_shared s)) = hg_connectedClientsCount (sv_shared s)) \<and>
    (sv_stopper s = StopFinish \<longrightarrow>
       sv_threads s = [] \<and> sv_accept s = AcceptNone \<and> sv_gc s = GcNone \<and> hg_connectedClientsCount (sv_shared s) = 0 \<and>
       (\<forall>fd c. sv_fds s fd = Some (Connection c) \<longrightarrow> c \<in> set (sv_dropped s)))"
proof -
  have c: "hg_connectedClientsCount (sv_shared s) = int (length (filter (\<lambda>t. ht_counted (th_local t)) (sv_threads s)))"
    using count_reachable [OF assms] by (simp add: count_exact_def)
  have l: "length (filter (\<lambda>t. ht_counted (th_local t)) (sv_threads s)) \<le> length (sv_threads s)" by (rule length_filter_le)
  have n: "int (http_getConnectedClientsCount (sv_shared s)) = hg_connectedClientsCount (sv_shared s)"
    if "length (sv_threads s) < 2 ^ 64"
  proof -
    have "length (filter (\<lambda>t. ht_counted (th_local t)) (sv_threads s)) < 2 ^ 64" using l that by (rule le_less_trans)
    then show ?thesis unfolding http_getConnectedClientsCount_def c by (simp add: mod_pos_pos_trivial)
  qed
  show ?thesis
    using c n https.stopped_clean [OF assms [unfolded HttpServer_new_def]] by auto
qed

definition demo_http :: http_world where
  "demo_http = \<lparr>hw_pipe = (\<lambda>_. \<lparr>pipe_ret = Some (4, 5), fcntl_read_ok = True, fcntl_write_ok = True, pipe_strerror = []\<rparr>),
     hw_script = (\<lambda>_. Socket_new (-1) (SelectInterruptPipe_new 8)), hw_start = (\<lambda>_. 0), hw_clock = (\<lambda>_ _. 0),
     hw_callback = default_callback Map.empty 1000\<rparr>"

theorem http_server_counts_and_stops_witness:
  "let s = snd (server_listen (\<lambda>_. []) \<lparr>os_socket = Inr 3, os_setsockopt = None, os_bind = None, os_listen = None\<rparr>
         (HttpServer_new 8080 ''127.0.0.1'' 5 32))
   in server_reachable (HttpServer_class demo_http) (\<lambda>_. []) (HttpServer_new 8080 ''127.0.0.1'' 5 32) s \<and>
      http_getConnectedClientsCount (sv_shared s) = 0"
proof -
  let ?os = "\<lparr>os_socket = Inr 3, os_setsockopt = None, os_bind = None, os_listen = None\<rparr>"
  let ?s = "snd (server_listen (\<lambda>_. []) ?os (HttpServer_new 8080 ''127.0.0.1'' 5 32))"
  have r: "server_reachable (HttpServer_class demo_http) (\<lambda>_. []) (HttpServer_new 8080 ''127.0.0.1'' 5 32) ?s"
    by (rule server_reachable.listening)
  have t: "sv_threads ?s = []" by (simp add: HttpServer_new_def)
  show ?thesis using http_server_counts_and_stops [OF r] r t by (simp add: Let_def)
qed

subsection \<open>Files\<close>

text \<open>
  The default callback answers every request: with the file of that name below the working directory,
  or 404. It takes the path as it comes, so that \<open>..\<close> leads out of the directory; and opening something
  without a size it can allocate, a directory for example, ends the server.
\<close>

lemma default_callback_file:
  assumes "fs (''.'' @ req_uri r) = Some (int (length content), content)" "int (length content) \<le> memory" "req_uri r \<noteq> []" "req_uri r \<noteq> ''/''"
  shows "\<exists>headers lg. default_callback fs memory r cs = Response (http_response 200 ''OK'' headers content) lg"
  using assms by (auto simp: default_callback_def readAsString_def load_def split: prod.splits)

lemma default_callback_leaves_directory:
  "default_callback [''./../../secret'' \<mapsto> (3, ''key'')] 1000 \<lparr>req_uri = ''/../../secret'', req_method = ''GET'', req_version = ''HTTP/1.1'', req_headers = []\<rparr> cs =
     Response (http_response 200 ''OK'' [(''Accept-Ranges'', ''none''), (''User-Agent'', [])] ''key'') [''GET  /../../secret 3'']"
  by code_simp

lemma default_callback_directory_ends_server:
  assumes "fs (''.'' @ req_uri r) = Some (2 ^ 63 - 1, content)" "memory < 2 ^ 63 - 1" "req_uri r \<noteq> []" "req_uri r \<noteq> ''/''"
  shows "default_callback fs memory r cs = CallbackThrows"
  using assms by (simp add: default_callback_def readAsString_def load_def)

end
