(* ===== verification/HandshakeProperties.thy ===== *)
theory HandshakeProperties
  imports Handshake
begin

section \<open>Correctness of the handshake\<close>

text \<open>
  The request a client writes is accepted by the server, the answer of the server is accepted by the
  client that drew the key, and a success on either side means that the peer's message passed every
  check. Names of headers are looked up through the interface of the header map.
\<close>

subsection \<open>Characters of the accept value\<close>

lemma keygen_char:
  assumes "n < 64"
  shows "is_base64 (keygen_b64 ! n)"
proof -
  have "unat (word_of_nat n :: byte) = n" using assms by (simp add: unat_of_nat)
  then show ?thesis using b64_alphabet(2) [of "word_of_nat n"] assms by (simp add: b64_char_def keygen_alphabet)
qed

lemma and_mask_bound: "unat (x AND 63 :: byte) < 64" "unat (push_bit 2 (x AND 15) :: byte) < 64"
  "unat (push_bit 4 (x AND 3) OR drop_bit 4 (y AND 240) :: byte) < 64"
proof -
  have 63: "(63 :: byte) = mask 6" "(15 :: byte) = mask 4" by (simp_all add: mask_eq_exp_minus_1)
  show "unat (x AND 63) < 64" unfolding 63 unat_and_mask by simp
  have "unat (x AND 15) < 16" unfolding 63 unat_and_mask by simp
  then show "unat (push_bit 2 (x AND 15)) < 64" unfolding unat_push_bit by simp
  show "unat (push_bit 4 (x AND 3) OR drop_bit 4 (y AND 240)) < 64"
    using char_array_4_bound [of x y 0] unfolding char_array_4_def keygen_bits by simp
qed

lemma keygen_base64_chars: "c \<in> set (keygen_base64 src) \<Longrightarrow> is_base64 c \<or> c = CHR ''=''"
proof -
  have g: "\<forall>c \<in> set (keygen_group src i). is_base64 c" for i
    unfolding keygen_group_eq using char_array_4_bound b64_alphabet(2) by auto
  assume "c \<in> set (keygen_base64 src)"
  then show ?thesis
    using g and_mask_bound keygen_char unfolding keygen_base64_def by fastforce
qed

lemma header_text_base64: "(\<And>c. c \<in> set s \<Longrightarrow> is_base64 c \<or> c = CHR ''='') \<Longrightarrow> header_text_ok s"
  by (force simp: header_text_ok_def is_base64_def c_isalnum_def c_isalpha_def c_isupper_def c_islower_def c_isdigit_def
      NUL_def CR_def LF_def)

lemma generate_header_ok: "header_text_ok (generate k)" "c_str (generate k) = generate k" "length (generate k) = 28"
proof -
  show ok: "header_text_ok (generate k)"
    by (rule header_text_base64) (auto simp: generate_def Let_def dest: keygen_base64_chars)
  then show "c_str (generate k) = generate k" by (simp add: c_str_id header_text_ok_def)
  show "length (generate k) = 28" by (simp add: generate_def Let_def keygen_base64_def keygen_group_def)
qed

lemma genRandomString_ok:
  assumes "\<And>i. rand i < 26"
  shows "header_text_ok (genRandomString rand n)" "length (genRandomString rand n) = n"
proof -
  have "list_all (\<lambda>c. c \<noteq> NUL \<and> c \<noteq> CR \<and> c \<noteq> LF) alphanum" by code_simp
  moreover have "alphanum ! rand i \<in> set alphanum" for i
  proof -
    have "length alphanum = 26" by code_simp
    then show ?thesis using assms [of i] by simp
  qed
  ultimately show "header_text_ok (genRandomString rand n)"
    unfolding genRandomString_def header_text_ok_def list_all_iff by (auto, metis+)
  show "length (genRandomString rand n) = n" by (simp add: genRandomString_def)
qed

subsection \<open>Whole writes and lines\<close>

text \<open>A send script that takes \<open>n\<close> bytes before it fails.\<close>

fun accepting :: "send_os list \<Rightarrow> nat \<Rightarrow> bool" where
  "accepting [] n = False"
| "accepting (SendAccept k # os) n = (0 < k \<and> (n \<le> k \<or> accepting os (n - k)))"
| "accepting (SendFail e # os) n = ((e = EAGAIN \<or> e = EINPROGRESS) \<and> accepting os n)"

lemma writeBytes_loop_accepting:
  assumes "sockfd s \<noteq> -1" "accepting (sys_sends s) (length bs)" "bs \<noteq> []" "\<And>k. \<not> cancel k"
  shows "\<exists>s'. writeBytes_loop cancel bs s = Some (True, s') \<and> wire_out s' = wire_out s @ bs \<and>
    sys_recvs s' = sys_recvs s \<and> sys_polls s' = sys_polls s \<and> sockfd s' = sockfd s"
  using assms(1-3)
proof (induction "sys_sends s" "length bs" arbitrary: s bs rule: accepting.induct)
  case (2 k os)
  let ?s = "snd (ask cancel s)\<lparr>sys_sends := os, wire_out := wire_out s @ take k bs\<rparr>"
  have os: "sys_sends s = SendAccept k # os" using 2 by simp
  have snd: "socket_send (snd (ask cancel s)) bs = (int (min k (length bs)), ?s)"
    using 2 os by (simp add: socket_send_def ask_def)
  show ?case
  proof (cases "length bs \<le> k")
    case True
    then show ?thesis using assms(4) snd 2 by (subst writeBytes_loop.simps) (auto simp: split_beta ask_def)
  next
    case False
    have "\<exists>s'. writeBytes_loop cancel (drop k bs) ?s = Some (True, s') \<and> wire_out s' = wire_out ?s @ drop k bs \<and>
        sys_recvs s' = sys_recvs ?s \<and> sys_polls s' = sys_polls ?s \<and> sockfd s' = sockfd ?s"
      by (rule "2.hyps") (use 2 os False in \<open>auto simp: ask_def\<close>)
    then show ?thesis using assms(4) snd False 2 os
      by (subst writeBytes_loop.simps) (auto simp: split_beta ask_def min_def)
  qed
next
  case (3 e os)
  let ?s = "snd (ask cancel s)\<lparr>sys_sends := os, sys_errno := e\<rparr>"
  have os: "sys_sends s = SendFail e # os" using 3 by simp
  have snd: "socket_send (snd (ask cancel s)) bs = (-1, ?s)"
    using 3 os by (simp add: socket_send_def ask_def)
  have "\<exists>s'. writeBytes_loop cancel bs ?s = Some (True, s') \<and> wire_out s' = wire_out ?s @ bs \<and>
      sys_recvs s' = sys_recvs ?s \<and> sys_polls s' = sys_polls ?s \<and> sockfd s' = sockfd ?s"
    by (rule "3.hyps") (use 3 os in \<open>auto simp: ask_def\<close>)
  then show ?case using assms(4) snd 3 os
    by (subst writeBytes_loop.simps) (auto simp: split_beta ask_def isWaitNeeded_def)
qed simp

lemma writeBytes_accepting:
  assumes "sockfd s \<noteq> -1" "accepting (sys_sends s) (length str)" "str \<noteq> []" "\<And>k. \<not> cancel k"
  shows "\<exists>s'. writeBytes cancel str s = Some (True, s') \<and> wire_out s' = wire_out s @ bytes_of str \<and>
    sys_recvs s' = sys_recvs s \<and> sys_polls s' = sys_polls s \<and> sockfd s' = sockfd s"
proof -
  have "bytes_of str \<noteq> []" using assms(3) by (simp add: bytes_of_def)
  then show ?thesis using writeBytes_loop_accepting [of s "bytes_of str" cancel] assms by (auto simp: writeBytes_def)
qed

lemma crlf_complete:
  assumes "CR \<notin> set line" "LF \<notin> set line"
  shows "line_complete (line @ CRLF)" "k < length (line @ CRLF) \<Longrightarrow> \<not> line_complete (take k (line @ CRLF))"
proof -
  show "line_complete (line @ CRLF)" by (simp add: line_complete_def Let_def nth_append CRLF_def)
  show "\<not> line_complete (take k (line @ CRLF))" if "k < length (line @ CRLF)"
  proof (cases "k \<le> length line")
    case True
    have "set (take k line) \<subseteq> set line" by (rule set_take_subset)
    then show ?thesis using True assms not_complete_before_CR(1) [of "take k line"] by auto
  next
    case False
    then have "take k (line @ CRLF) = line @ [CR]" using that by (simp add: CRLF_def take_Cons' not_le)
    then show ?thesis using not_complete_before_CR(2) [OF assms] by simp
  qed
qed

lemma readLine_crlf:
  assumes "sockfd s \<noteq> -1" "no_poll_failure s" "\<And>k. \<not> cancel k"
    and "CR \<notin> set line" "LF \<notin> set line"
    and "arriving (sys_recvs s) = bytes_of (line @ CRLF) @ rest"
  shows "\<exists>s'. readLine cancel s = Some (True, line @ CRLF, s') \<and> same_endpoint s s' \<and> arriving (sys_recvs s') = rest"
proof -
  have "\<exists>s'. readLine_loop cancel [] s = Some (True, [] @ (line @ CRLF), s') \<and> same_endpoint s s' \<and>
    arriving (sys_recvs s') = rest"
    by (rule readLine_loop_arriving [OF assms(1-3) assms(6)])
      (simp_all add: crlf_complete [OF assms(4,5)] del: append_assoc take_append)
  then show ?thesis by (simp add: readLine_def)
qed

subsection \<open>Messages as header fields\<close>

definition ext_value :: "deflate_options \<Rightarrow> string" where
  "ext_value o1 = ''permessage-deflate''
     @ (if opt_clientNoContextTakeover o1 then ''; client_no_context_takeover'' else [])
     @ (if opt_serverNoContextTakeover o1 then ''; server_no_context_takeover'' else [])
     @ ''; server_max_window_bits='' @ string_of_int (opt_serverMaxWindowBits o1)
     @ ''; client_max_window_bits='' @ string_of_int (opt_clientMaxWindowBits o1)"

lemma generateHeader_ext: "generateHeader o1 = ''Sec-WebSocket-Extensions: '' @ ext_value o1 @ CRLF"
  by (simp add: generateHeader_def ext_value_def)

lemma parse_ext_value:
  assumes "bits_in_range o1"
  shows "parseOptions g (ext_value o1) = o1\<lparr>opt_enabled := True\<rparr>"
proof -
  have "removeSpaces CRLF = []" by (simp add: removeSpaces_def CRLF_def CR_def LF_def c_isspace_def)
  then have "parseOptions g (ext_value o1 @ CRLF) = parseOptions g (ext_value o1)" by (simp add: parseOptions_def)
  moreover have "drop (length ''Sec-WebSocket-Extensions: '') (generateHeader o1) = ext_value o1 @ CRLF"
    unfolding generateHeader_ext by simp
  ultimately show ?thesis using parse_generated_header [of o1 g] assms by (simp add: bits_in_range_def)
qed

definition client_fields ::
  "'z henv \<Rightarrow> WebSocketHttpHeaders \<Rightarrow> string \<Rightarrow> int \<Rightarrow> string \<Rightarrow> 'z handshake \<Rightarrow> (string \<times> string) list" where
  "client_fields env extra host port key h =
     [(''Host'', host @ '':'' @ string_of_int port), (''Upgrade'', ''websocket''), (''Connection'', ''Upgrade''),
      (''Sec-WebSocket-Version'', ''13''), (''Sec-WebSocket-Key'', key)]
     @ (if headers_find extra ''User-Agent'' = None then [(''User-Agent'', userAgent env)] else [])
     @ map (\<lambda>(k, v). (k, tl v)) extra
     @ (if hs_enablePerMessageDeflate h then [(''Sec-WebSocket-Extensions'', ext_value (hs_perMessageDeflateOptions h))] else [])"

text \<open>Extra headers the parser reads back: the value starts with the space the request does not
  put after the colon, and the name is none of the handshake's own.\<close>

definition extra_ok :: "string \<times> string \<Rightarrow> bool" where
  "extra_ok f \<longleftrightarrow> snd f \<noteq> [] \<and> hd (snd f) = CHR '' '' \<and> field_ok (fst f, tl (snd f)) \<and>
     list_all (\<lambda>n. \<not> same_name n (fst f))
       [''upgrade'', ''sec-websocket-version'', ''sec-websocket-key'', ''sec-websocket-extensions'']"

definition lines_of :: "(string \<times> string) list \<Rightarrow> string" where
  "lines_of fs = concat (map (\<lambda>f. field_line f @ CRLF) fs)"

lemma client_request_lines:
  assumes "list_all extra_ok extra"
  shows "client_request env extra host path port key h =
    (''GET '' @ path @ '' HTTP/1.1'') @ CRLF @ lines_of (client_fields env extra host port key h) @ CRLF"
proof -
  have "concat (map (\<lambda>(k, v). k @ '':'' @ v @ CRLF) extra) = lines_of (map (\<lambda>(k, v). (k, tl v)) extra)"
    using assms
  proof (induction extra)
    case (Cons f extra)
    then obtain k v where "f = (k, CHR '' '' # v)" by (cases f; cases "snd f") (auto simp: extra_ok_def)
    then show ?case using Cons by (simp add: lines_of_def field_line_def)
  qed (simp add: lines_of_def)
  then show ?thesis
    by (simp add: client_request_def client_fields_def lines_of_def field_line_def generateHeader_ext)
qed

definition server_fields :: "'z henv \<Rightarrow> string \<Rightarrow> deflate_options \<Rightarrow> (string \<times> string) list" where
  "server_fields env key options =
     [(''Sec-WebSocket-Accept'', generate key), (''Upgrade'', ''websocket''), (''Connection'', ''Upgrade''),
      (''Server'', userAgent env)]
     @ (if opt_enabled options then [(''Sec-WebSocket-Extensions'', ext_value options)] else [])"

lemma server_response_lines:
  "server_response env key options =
    ''HTTP/1.1 101 Switching Protocols'' @ CRLF @ lines_of (server_fields env key options) @ CRLF"
  by (simp add: server_response_def server_fields_def lines_of_def field_line_def generateHeader_ext generate_header_ok)

subsection \<open>Well-formed fields\<close>

lemma length_string_of_nat: "n < 10 ^ Suc k \<Longrightarrow> length (string_of_nat n) \<le> Suc k"
proof (induction k arbitrary: n)
  case (Suc k)
  show ?case
  proof (cases "n < 10")
    case False
    have "n div 10 < 10 ^ Suc k" using Suc.prems by (simp add: less_mult_imp_div_less mult.commute)
    then show ?thesis using Suc.IH [of "n div 10"] False by (simp add: string_of_nat.simps [of n])
  qed (simp add: string_of_nat.simps [of n])
qed (simp add: string_of_nat.simps)

lemma header_text_digits: "header_text_ok (string_of_nat n)"
proof -
  have "c \<notin> set (string_of_nat n)" if "\<not> c_isdigit c" for c using string_of_nat_digits that by blast
  then show ?thesis by (simp add: header_text_ok_def c_isdigit_def NUL_def CR_def LF_def)
qed

lemma header_text_append [simp]: "header_text_ok (s @ t) \<longleftrightarrow> header_text_ok s \<and> header_text_ok t"
  by (auto simp: header_text_ok_def)

lemma header_text_Cons: "header_text_ok (c # t) \<longleftrightarrow> c \<noteq> NUL \<and> c \<noteq> CR \<and> c \<noteq> LF \<and> header_text_ok t"
  by (auto simp: header_text_ok_def)

lemma header_text_Nil [simp]: "header_text_ok []"
  by (simp add: header_text_ok_def)

lemmas char_consts = NUL_def CR_def LF_def

lemma ext_value_ok:
  assumes "bits_in_range o1"
  shows "header_text_ok (ext_value o1)" "length (ext_value o1) < 900"
proof -
  have b: "length (string_of_int (opt_serverMaxWindowBits o1)) \<le> 2" "length (string_of_int (opt_clientMaxWindowBits o1)) \<le> 2"
    using assms length_string_of_nat [of "nat (opt_serverMaxWindowBits o1)" 1] length_string_of_nat [of "nat (opt_clientMaxWindowBits o1)" 1]
    by (auto simp: bits_in_range_def string_of_int_def numeral_2_eq_2 nat_less_iff)
  show "length (ext_value o1) < 900" using b by (simp add: ext_value_def)
  have "header_text_ok (string_of_int (opt_serverMaxWindowBits o1))" "header_text_ok (string_of_int (opt_clientMaxWindowBits o1))"
    using assms by (auto simp: bits_in_range_def string_of_int_def header_text_digits)
  then show "header_text_ok (ext_value o1)" by (simp add: ext_value_def header_text_Cons char_consts)
qed

definition text_fits :: "string \<Rightarrow> bool" where
  "text_fits s \<longleftrightarrow> header_text_ok s \<and> length s < 900"

lemma client_fields_ok:
  assumes "text_fits host" "0 \<le> port" "port \<le> 65535" "text_fits key" "text_fits (userAgent env)"
    and "list_all extra_ok extra" "hs_enablePerMessageDeflate h \<longrightarrow> bits_in_range (hs_perMessageDeflateOptions h)"
  shows "list_all field_ok (client_fields env extra host port key h)"
proof -
  have p: "header_text_ok (string_of_int port)" "length (string_of_int port) \<le> 5"
    using assms(2,3) length_string_of_nat [of "nat port" 4] by (auto simp: string_of_int_def header_text_digits)
  have lit: "header_text_ok ''Host''" "header_text_ok ''Upgrade''" "header_text_ok ''websocket''" "header_text_ok ''Connection''"
    "header_text_ok ''Sec-WebSocket-Version''" "header_text_ok ''13''" "header_text_ok ''Sec-WebSocket-Key''"
    "header_text_ok ''User-Agent''" "header_text_ok ''Sec-WebSocket-Extensions''" "header_text_ok '':''"
    by (simp_all add: header_text_Cons char_consts)
  have host: "field_ok (''Host'', host @ '':'' @ string_of_int port)"
    using p assms(1) by (simp add: field_ok_def text_fits_def header_text_Cons char_consts)
  have ua: "field_ok (''User-Agent'', userAgent env)" and key: "field_ok (''Sec-WebSocket-Key'', key)"
    using assms(4,5) lit by (simp_all add: field_ok_def text_fits_def)
  have ext: "field_ok (''Sec-WebSocket-Extensions'', ext_value (hs_perMessageDeflateOptions h))" if "hs_enablePerMessageDeflate h"
    using ext_value_ok [of "hs_perMessageDeflateOptions h"] assms(7) that lit by (auto simp: field_ok_def)
  have fixed: "field_ok (''Upgrade'', ''websocket'')" "field_ok (''Connection'', ''Upgrade'')" "field_ok (''Sec-WebSocket-Version'', ''13'')"
    using lit by (simp_all add: field_ok_def)
  have ex: "list_all field_ok (map (\<lambda>(k, v). (k, tl v)) extra)"
    using assms(6) by (auto simp: list_all_iff extra_ok_def)
  show ?thesis using host ua key ext fixed ex by (simp add: client_fields_def)
qed

lemma server_fields_ok:
  assumes "text_fits (userAgent env)" "opt_enabled options \<longrightarrow> bits_in_range options"
  shows "list_all field_ok (server_fields env key options)"
proof -
  have lit: "header_text_ok ''Upgrade''" "header_text_ok ''websocket''" "header_text_ok ''Connection''"
    "header_text_ok ''Server''" "header_text_ok ''Sec-WebSocket-Accept''" "header_text_ok ''Sec-WebSocket-Extensions''"
    by (simp_all add: header_text_Cons char_consts)
  then show ?thesis
    using assms ext_value_ok [of options] generate_header_ok [of key]
    by (auto simp: server_fields_def field_ok_def text_fits_def)
qed

subsection \<open>Looking fields up\<close>

abbreviation headers_of :: "(string \<times> string) list \<Rightarrow> WebSocketHttpHeaders" where
  "headers_of fs \<equiv> fold (\<lambda>(k, v). headers_assign k v) fs []"

lemma headers_of_find:
  "headers_find (headers_of fs) name = (case filter (\<lambda>(k, v). same_name k name) fs of [] \<Rightarrow> None | xs \<Rightarrow> Some (snd (last xs)))"
  using headers.lookup_assign_all [OF headers.inv_empty, of fs name] headers.lookup_empty [of name]
  by (simp only: headers.assign_all_def)

lemma headers_of_field:
  assumes "(n, v) \<in> set fs" "same_name n name" "\<And>k w. (k, w) \<in> set fs \<Longrightarrow> same_name k name \<Longrightarrow> w = v"
  shows "headers_find (headers_of fs) name = Some v"
proof -
  let ?f = "filter (\<lambda>(k, v). same_name k name) fs"
  have "(n, v) \<in> set ?f" using assms(1,2) by simp
  then have "0 < length ?f" by (rule length_pos_if_in_set)
  then have ne: "?f \<noteq> []" by (metis length_greater_0_conv)
  then have "last ?f \<in> set ?f" by (rule last_in_set)
  moreover obtain k w where kw: "last ?f = (k, w)" by (cases "last ?f")
  ultimately have "(k, w) \<in> set fs" "same_name k name" by simp_all
  then have "snd (last ?f) = v" using assms(3) kw by simp
  then show ?thesis unfolding headers_of_find using ne by (cases ?f) simp_all
qed

lemma headers_of_no_field:
  assumes "\<And>k w. (k, w) \<in> set fs \<Longrightarrow> \<not> same_name k name"
  shows "headers_find (headers_of fs) name = None"
proof -
  have "filter (\<lambda>(k, v). same_name k name) fs = []" using assms by (auto simp: filter_empty_conv)
  then show ?thesis by (simp add: headers_of_find)
qed

lemma lower_names:
  "map c_tolower ''Host'' = ''host''" "map c_tolower ''Upgrade'' = ''upgrade''" "map c_tolower ''Connection'' = ''connection''"
  "map c_tolower ''Sec-WebSocket-Version'' = ''sec-websocket-version''" "map c_tolower ''Sec-WebSocket-Key'' = ''sec-websocket-key''"
  "map c_tolower ''User-Agent'' = ''user-agent''" "map c_tolower ''Sec-WebSocket-Extensions'' = ''sec-websocket-extensions''"
  "map c_tolower ''Sec-WebSocket-Accept'' = ''sec-websocket-accept''" "map c_tolower ''Server'' = ''server''"
  "map c_tolower ''upgrade'' = ''upgrade''" "map c_tolower ''connection'' = ''connection''"
  "map c_tolower ''sec-websocket-version'' = ''sec-websocket-version''" "map c_tolower ''sec-websocket-key'' = ''sec-websocket-key''"
  "map c_tolower ''sec-websocket-extensions'' = ''sec-websocket-extensions''"
  "map c_tolower ''sec-websocket-accept'' = ''sec-websocket-accept''"
  by code_simp+

lemma same_literals:
  "same_name ''Host'' k \<longleftrightarrow> map c_tolower k = ''host''" "same_name ''Upgrade'' k \<longleftrightarrow> map c_tolower k = ''upgrade''"
  "same_name ''Connection'' k \<longleftrightarrow> map c_tolower k = ''connection''"
  "same_name ''Sec-WebSocket-Version'' k \<longleftrightarrow> map c_tolower k = ''sec-websocket-version''"
  "same_name ''Sec-WebSocket-Key'' k \<longleftrightarrow> map c_tolower k = ''sec-websocket-key''"
  "same_name ''User-Agent'' k \<longleftrightarrow> map c_tolower k = ''user-agent''"
  "same_name ''Sec-WebSocket-Extensions'' k \<longleftrightarrow> map c_tolower k = ''sec-websocket-extensions''"
  "same_name ''Sec-WebSocket-Accept'' k \<longleftrightarrow> map c_tolower k = ''sec-websocket-accept''"
  "same_name ''Server'' k \<longleftrightarrow> map c_tolower k = ''server''"
  unfolding same_name_def lower_names by auto

lemma extra_not_reserved:
  assumes "list_all extra_ok extra" "(k, w) \<in> set extra"
    and "name \<in> {''upgrade'', ''sec-websocket-version'', ''sec-websocket-key'', ''sec-websocket-extensions''}"
  shows "\<not> same_name k name"
proof -
  have "\<not> same_name name k" using assms by (force simp: list_all_iff extra_ok_def)
  then show ?thesis by (simp add: same_name_def)
qed

lemma client_fields_find:
  fixes env :: "'z henv" and h :: "'z handshake" and host key :: string and port :: int and extra :: WebSocketHttpHeaders
  assumes "list_all extra_ok extra"
  defines "m \<equiv> headers_of (client_fields env extra host port key h)"
  shows "headers_find m ''sec-websocket-key'' = Some key" "headers_find m ''upgrade'' = Some ''websocket''"
    "headers_find m ''sec-websocket-version'' = Some ''13''"
    "headers_find m ''sec-websocket-extensions'' =
      (if hs_enablePerMessageDeflate h then Some (ext_value (hs_perMessageDeflateOptions h)) else None)"
proof -
  note ex = extra_not_reserved [OF assms(1)]
  note names = same_literals c_tolower_def c_isupper_def
  show "headers_find m ''sec-websocket-key'' = Some key"
    unfolding m_def by (rule headers_of_field [where n = "''Sec-WebSocket-Key''"])
      (auto simp: client_fields_def names dest: ex split: if_splits)
  show "headers_find m ''upgrade'' = Some ''websocket''"
    unfolding m_def by (rule headers_of_field [where n = "''Upgrade''"])
      (auto simp: client_fields_def names dest: ex split: if_splits)
  show "headers_find m ''sec-websocket-version'' = Some ''13''"
    unfolding m_def by (rule headers_of_field [where n = "''Sec-WebSocket-Version''"])
      (auto simp: client_fields_def names dest: ex split: if_splits)
  show "headers_find m ''sec-websocket-extensions'' =
      (if hs_enablePerMessageDeflate h then Some (ext_value (hs_perMessageDeflateOptions h)) else None)"
  proof (cases "hs_enablePerMessageDeflate h")
    case True
    then show ?thesis
      unfolding m_def by (simp, intro headers_of_field [where n = "''Sec-WebSocket-Extensions''"])
        (auto simp: client_fields_def names dest: ex split: if_splits)
  next
    case False
    then show ?thesis
      unfolding m_def by (simp, intro headers_of_no_field) (auto simp: client_fields_def names dest: ex split: if_splits)
  qed
qed

lemma server_fields_find:
  fixes env :: "'z henv" and key :: string and options :: deflate_options
  defines "m \<equiv> headers_of (server_fields env key options)"
  shows "headers_find m ''connection'' = Some ''Upgrade''" "headers_find m ''sec-websocket-accept'' = Some (generate key)"
    "headers_find m ''sec-websocket-extensions'' = (if opt_enabled options then Some (ext_value options) else None)"
proof -
  note names = same_literals c_tolower_def c_isupper_def
  show "headers_find m ''connection'' = Some ''Upgrade''"
    unfolding m_def by (rule headers_of_field [where n = "''Connection''"]) (auto simp: server_fields_def names split: if_splits)
  show "headers_find m ''sec-websocket-accept'' = Some (generate key)"
    unfolding m_def by (rule headers_of_field [where n = "''Sec-WebSocket-Accept''"]) (auto simp: server_fields_def names split: if_splits)
  show "headers_find m ''sec-websocket-extensions'' = (if opt_enabled options then Some (ext_value options) else None)"
  proof (cases "opt_enabled options")
    case True
    then show ?thesis
      unfolding m_def by (simp, intro headers_of_field [where n = "''Sec-WebSocket-Extensions''"])
        (auto simp: server_fields_def names)
  next
    case False
    then show ?thesis unfolding m_def by (simp, intro headers_of_no_field) (auto simp: server_fields_def names)
  qed
qed

subsection \<open>The server accepts the client\<close>

text \<open>zlib opens raw streams for the window sizes it documents.\<close>

definition zlib_windows :: "'z zlib \<Rightarrow> bool" where
  "zlib_windows zl \<longleftrightarrow> list_all (\<lambda>b. z_deflateInit2 zl (- b) \<noteq> None) [9..15] \<and> list_all (\<lambda>b. z_inflateInit2 zl (- b) \<noteq> None) [8..15]"

lemma pmd_init_ok:
  assumes "zlib_windows zl" "bits_in_range o1"
  shows "fst (pmd_init zl o1 p)"
proof -
  have u: "uint (word_of_int i :: byte) = i" if "0 \<le> i" "i < 256" for i
    using that by (simp add: unsigned_of_int take_bit_int_eq_self)
  have r: "opt_clientMaxWindowBits o1 \<in> set [9..15]" "opt_serverMaxWindowBits o1 \<in> set [8..15]"
    using assms(2) by (auto simp: bits_in_range_def)
  obtain z1 z2 where "z_deflateInit2 zl (- opt_clientMaxWindowBits o1) = Some z1" "z_inflateInit2 zl (- opt_serverMaxWindowBits o1) = Some z2"
    using assms(1) r unfolding zlib_windows_def list_all_iff by blast
  then show ?thesis
    using assms(2) by (simp add: pmd_init_def compressor_init_def decompressor_init_def bits_in_range_def
        getClientMaxWindowBits_def getServerMaxWindowBits_def u Let_def)
qed

definition never_cancelled :: "'z henv \<Rightarrow> int \<Rightarrow> bool" where
  "never_cancelled env secs \<longleftrightarrow> (\<forall>k. \<not> makeCancellationRequestWithTimeout secs (h_flag env) (h_start env) (h_clock env) k)"

definition offered :: "'z handshake \<Rightarrow> deflate_options" where
  "offered c = (if hs_enablePerMessageDeflate c then (hs_perMessageDeflateOptions c)\<lparr>opt_enabled := True\<rparr> else default_options)"

lemma parse_empty_options [simp]: "parseOptions g [] = default_options" "opt_enabled default_options = False"
  by (simp_all add: parseOptions_def removeSpaces_def default_options_def)

lemma literal_checks:
  "insensitiveStringCompare ''websocket'' ''WebSocket''" "insensitiveStringCompare ''Upgrade'' ''Upgrade''"
  "extract_int g ''13'' = 13"
proof -
  have "''13'' = string_of_nat 13 @ []" by code_simp
  then show "extract_int g ''13'' = 13" using extract_int_string_of_nat [of 13 "[]" g] by (simp add: int_max_def)
qed code_simp+

lemma request_line:
  assumes "token_ok path"
  shows "parseRequestLine ((''GET '' @ path @ '' HTTP/1.1'') @ CRLF) = (''GET'', path, ''HTTP/1.1'')"
proof -
  have sp: "CHR '' '' \<notin> set ''GET''" "CHR '' '' \<notin> set path" "CHR '' '' \<notin> set (''HTTP/1.1'' @ CRLF)" "''HTTP/1.1'' @ CRLF \<noteq> []"
    using assms by (auto simp: token_ok_def CRLF_def CR_def LF_def)
  have eq: "(''GET '' @ path @ '' HTTP/1.1'') @ CRLF = ''GET'' @ CHR '' '' # path @ CHR '' '' # ''HTTP/1.1'' @ CRLF" by simp
  have "getlines CHR '' '' ((''GET '' @ path @ '' HTTP/1.1'') @ CRLF) = [''GET'', path, ''HTTP/1.1'' @ CRLF]"
    unfolding eq by (simp only: getlines_delim [OF sp(1)] getlines_delim [OF sp(2)] getlines_no_delim [OF sp(4,3)])
  moreover have "trim ''GET'' = ''GET''" "trim (''HTTP/1.1'' @ CRLF) = ''HTTP/1.1''" by code_simp+
  ultimately show ?thesis using assms by (simp add: parseRequestLine_def trim_token Let_def)
qed

lemma server_checks_client:
  assumes "list_all extra_ok extra"
  shows "server_checks env (headers_of (client_fields cenv extra host port key c)) = None"
  using client_fields_find [OF assms, of cenv host port key c] literal_checks
  by (simp add: server_checks_def)

text \<open>
  The server accepts what the client writes: on a connection whose input starts with a client's
  request, for any path without blanks, host, port, well-formed extra headers and offered
  compression, and however the request is cut into segments, \<open>serverHandshake\<close> succeeds with the
  client's path, leaves what follows the request in the stream, answers with the accept value of the
  client's key, and agrees to compression, with the client's options, exactly when it was offered.
\<close>

lemma server_accepts:
  fixes cenv :: "'y henv" and c :: "'y handshake" and senv :: "'z henv" and h :: "'z handshake" and extra :: WebSocketHttpHeaders
  assumes rand: "\<forall>i. h_rand cenv i < 26" and path: "token_ok path" and host: "text_fits host" and port: "0 \<le> port" "port \<le> 65535"
    and agents: "text_fits (userAgent cenv)" and extra: "list_all extra_ok extra"
    and bits: "bits_in_range (hs_perMessageDeflateOptions c)" and windows: "zlib_windows (h_zlib senv)"
    and sock: "sockfd (hs_socket h) \<noteq> -1" "no_poll_failure (hs_socket h)" and cancel: "never_cancelled senv timeoutSecs"
    and input: "arriving (sys_recvs (hs_socket h)) =
      bytes_of (client_request cenv extra host path port (genRandomString (h_rand cenv) 22 @ ''=='') c) @ rest"
    and out_room: "accepting (sys_sends (hs_socket h))
      (length (server_response senv (genRandomString (h_rand cenv) 22 @ ''=='') (offered c)))"
  shows "\<exists>headers h'. serverHandshake senv fd timeoutSecs h = Some (initResult True 200 [] headers path, h') \<and>
    wire_out (hs_socket h') = wire_out (hs_socket h) @
      bytes_of (server_response senv (genRandomString (h_rand cenv) 22 @ ''=='') (offered c)) \<and>
    arriving (sys_recvs (hs_socket h')) = rest \<and>
    hs_enablePerMessageDeflate h' = (hs_enablePerMessageDeflate c \<or> hs_enablePerMessageDeflate h) \<and>
    hs_perMessageDeflate h' =
      (if hs_enablePerMessageDeflate c then snd (pmd_init (h_zlib senv) (offered c) (hs_perMessageDeflate h))
       else hs_perMessageDeflate h)"
proof -
  define key where "key = genRandomString (h_rand cenv) 22 @ ''==''"
  define cancel where "cancel = makeCancellationRequestWithTimeout timeoutSecs (h_flag senv) (h_start senv) (h_clock senv)"
  let ?m = "headers_of (client_fields cenv extra host port key c)"
  let ?opts = "offered c"
  have nc: "\<And>k. \<not> cancel k" using \<open>never_cancelled senv timeoutSecs\<close> by (simp add: never_cancelled_def cancel_def)
  have keyok: "text_fits key"
    using genRandomString_ok [of "h_rand cenv" 22] rand by (simp add: key_def text_fits_def header_text_Cons char_consts)
  have fields: "list_all field_ok (client_fields cenv extra host port key c)"
    by (rule client_fields_ok [OF host port keyok agents extra]) (use bits in simp)
  have line: "CR \<notin> set (''GET '' @ path @ '' HTTP/1.1'')" "LF \<notin> set (''GET '' @ path @ '' HTTP/1.1'')"
    using path by (simp_all add: token_ok_def CR_def LF_def)
  have arr: "arriving (sys_recvs (hs_socket h)) = bytes_of ((''GET '' @ path @ '' HTTP/1.1'') @ CRLF) @
      (bytes_of (lines_of (client_fields cenv extra host port key c) @ CRLF) @ rest)"
    unfolding input client_request_lines [OF extra] key_def [symmetric] by (simp only: append_assoc bytes_of_append)
  obtain s1 where s1: "readLine cancel (hs_socket h) = Some (True, (''GET '' @ path @ '' HTTP/1.1'') @ CRLF, s1)"
    "same_endpoint (hs_socket h) s1" "arriving (sys_recvs s1) = bytes_of (lines_of (client_fields cenv extra host port key c) @ CRLF) @ rest"
    using readLine_crlf [where cancel = cancel, OF sock nc line arr] by blast
  have sock1: "sockfd s1 \<noteq> -1" "no_poll_failure s1" using s1(2) sock by (auto simp: same_endpoint_def)
  obtain s2 where s2: "parseHttpHeaders cancel s1 = Some (Headers True ?m, s2)" "same_endpoint s1 s2" "arriving (sys_recvs s2) = rest"
    using headers_loop_fields [where cancel = cancel and hs = "[]" and rest = rest, OF sock1 nc fields] s1(3) unfolding parseHttpHeaders_def lines_of_def by blast
  have sock2: "sockfd s2 \<noteq> -1" "sys_sends s2 = sys_sends (hs_socket h)" "wire_out s2 = wire_out (hs_socket h)"
    using s1(2) s2(2) sock by (auto simp: same_endpoint_def)
  obtain s3 where s3: "writeBytes cancel (server_response senv key ?opts) s2 = Some (True, s3)"
    "wire_out s3 = wire_out s2 @ bytes_of (server_response senv key ?opts)" "sys_recvs s3 = sys_recvs s2"
    using writeBytes_accepting [of s2 "server_response senv key ?opts" cancel] sock2 nc out_room
    by (auto simp: key_def [symmetric] server_response_def)
  note find = client_fields_find [OF extra, of cenv host port key c]
  have opts: "parseOptions (h_garbage senv) (fst (headers_index ?m ''sec-websocket-extensions'')) = ?opts"
    using find(4) bits by (auto simp: headers_index_def offered_def parse_ext_value)
  have en: "opt_enabled ?opts = hs_enablePerMessageDeflate c" by (simp add: offered_def)
  have ok: "hs_enablePerMessageDeflate c \<Longrightarrow> fst (pmd_init (h_zlib senv) ?opts p)" for p
    by (rule pmd_init_ok [OF windows]) (use bits in \<open>simp add: offered_def\<close>)
  have k: "fst (headers_index ?m ''sec-websocket-key'') = key" using find(1) by (simp add: headers_index_def)
  have "\<exists>headers h'. serverHandshake senv fd timeoutSecs h = Some (initResult True 200 [] headers path, h') \<and>
      hs_socket h' = s3 \<and> hs_enablePerMessageDeflate h' = (hs_enablePerMessageDeflate c \<or> hs_enablePerMessageDeflate h) \<and>
      hs_perMessageDeflate h' = (if hs_enablePerMessageDeflate c then snd (pmd_init (h_zlib senv) ?opts (hs_perMessageDeflate h))
        else hs_perMessageDeflate h)"
    using ok [of "hs_perMessageDeflate h"]
    by (simp add: serverHandshake_def cancel_def [symmetric] s1(1) request_line [OF path] s2(1)
        server_checks_client [OF extra] k opts en s3(1) Let_def split_beta del: append_assoc append.simps) blast
  then show ?thesis using s3 s2(3) sock2 by (auto simp: key_def)
qed

subsection \<open>The client accepts the server\<close>

lemma client_request_flag [simp]:
  "client_request env extra host path port key (c\<lparr>hs_requestInitCancellation := b\<rparr>) = client_request env extra host path port key c"
  by (simp add: client_request_def)

lemma status_line: "parseStatusLine (''HTTP/1.1 101 Switching Protocols'' @ CRLF) = (''HTTP/1.1'', 101)"
  by code_simp

lemma client_accept_server:
  assumes "bits_in_range (hs_perMessageDeflateOptions c)" "zlib_windows (h_zlib env)"
    and m: "m = headers_of (server_fields senv key (offered c))"
  shows "\<exists>headers. client_accept env path key 101 m c = (initResult True 101 [] headers path,
    c\<lparr>hs_perMessageDeflate := (if hs_enablePerMessageDeflate c
       then snd (pmd_init (h_zlib env) (offered c) (hs_perMessageDeflate c)) else hs_perMessageDeflate c)\<rparr>)"
proof -
  note find = server_fields_find [of senv key "offered c", folded m]
  have acc: "headers_index m ''sec-websocket-accept'' = (generate key, m)" using find(2) by (simp add: headers_index_def)
  show ?thesis
  proof (cases "hs_enablePerMessageDeflate c")
    case True
    then have o: "offered c = (hs_perMessageDeflateOptions c)\<lparr>opt_enabled := True\<rparr>" by (simp add: offered_def)
    have ext: "headers_index m ''sec-websocket-extensions'' = (ext_value (offered c), m)"
      using find(3) o by (simp add: headers_index_def)
    have parse: "parseOptions g (ext_value (offered c)) = offered c" for g
      using parse_ext_value [of "offered c" g] assms(1) by (simp add: o)
    have "fst (pmd_init (h_zlib env) (offered c) (hs_perMessageDeflate c))"
      by (rule pmd_init_ok [OF assms(2)]) (use assms(1) o in simp)
    then show ?thesis
      using True find(1) acc ext parse literal_checks(2) generate_header_ok(2) [of key]
      by (intro exI [of _ m]) (simp add: client_accept_def Let_def split_beta o)
  next
    case False
    then show ?thesis
      using find(1) acc literal_checks(2) generate_header_ok(2) [of key]
      by (intro exI [of _ m]) (simp add: client_accept_def)
  qed
qed

text \<open>
  The client accepts the answer the server gives to its own key: once connected, with a peer
  whose input to the client starts with the response for the client's key and options,
  \<open>clientHandshake\<close> writes its whole request and succeeds with status 101, leaves the bytes after
  the response in the stream, and keeps compression, with the options it offered, exactly when it
  had offered it.
\<close>

lemma client_accepts:
  fixes env :: "'z henv" and c :: "'z handshake" and senv :: "'y henv"
  assumes connect: "socket_connect (h_net env) host port
      (makeCancellationRequestWithTimeout timeoutSecs (h_flag env) (h_start env) (h_clock env)) (hs_socket c) = Some (True, msg, s)"
    and bits: "bits_in_range (hs_perMessageDeflateOptions c)" and windows: "zlib_windows (h_zlib env)"
    and agents: "text_fits (userAgent senv)"
    and sock: "sockfd s \<noteq> -1" "no_poll_failure s" and cancel: "never_cancelled env timeoutSecs"
    and input: "arriving (sys_recvs s) = bytes_of (server_response senv (genRandomString (h_rand env) 22 @ ''=='') (offered c)) @ rest"
    and out_room: "accepting (sys_sends s) (length (client_request env extra host path port (genRandomString (h_rand env) 22 @ ''=='') c))"
  shows "\<exists>headers c'. clientHandshake env url extra host path port timeoutSecs c = Some (initResult True 101 [] headers path, c') \<and>
    wire_out (hs_socket c') = wire_out s @ bytes_of (client_request env extra host path port (genRandomString (h_rand env) 22 @ ''=='') c) \<and>
    arriving (sys_recvs (hs_socket c')) = rest \<and>
    hs_enablePerMessageDeflate c' = hs_enablePerMessageDeflate c \<and>
    hs_perMessageDeflate c' =
      (if hs_enablePerMessageDeflate c then snd (pmd_init (h_zlib env) (offered c) (hs_perMessageDeflate c))
       else hs_perMessageDeflate c)"
proof -
  define key where "key = genRandomString (h_rand env) 22 @ ''==''"
  define cancel where "cancel = makeCancellationRequestWithTimeout timeoutSecs (h_flag env) (h_start env) (h_clock env)"
  let ?c = "c\<lparr>hs_requestInitCancellation := False\<rparr>" and ?line = "''HTTP/1.1 101 Switching Protocols''"
  let ?m = "headers_of (server_fields senv key (offered c))" and ?req = "client_request env extra host path port key c"
  have nc: "\<And>k. \<not> cancel k" using \<open>never_cancelled env timeoutSecs\<close> by (simp add: never_cancelled_def cancel_def)
  obtain s1 where s1: "writeBytes cancel ?req s = Some (True, s1)" "wire_out s1 = wire_out s @ bytes_of ?req"
    "sys_recvs s1 = sys_recvs s" "sys_polls s1 = sys_polls s" "sockfd s1 = sockfd s"
    using writeBytes_accepting [of s ?req cancel] sock nc out_room by (auto simp: key_def client_request_def)
  have sock1: "sockfd s1 \<noteq> -1" "no_poll_failure s1" using s1 sock by (auto simp: no_poll_failure_def)
  have line: "CR \<notin> set ?line" "LF \<notin> set ?line" by (simp_all add: CR_def LF_def)
  have arr: "arriving (sys_recvs s1) = bytes_of (?line @ CRLF) @ (bytes_of (lines_of (server_fields senv key (offered c)) @ CRLF) @ rest)"
    unfolding s1(3) input server_response_lines key_def [symmetric] by (simp only: append_assoc bytes_of_append)
  obtain s2 where s2: "readLine cancel s1 = Some (True, ?line @ CRLF, s2)" "same_endpoint s1 s2"
    "arriving (sys_recvs s2) = bytes_of (lines_of (server_fields senv key (offered c)) @ CRLF) @ rest"
    using readLine_crlf [where cancel = cancel, OF sock1 nc line arr] by blast
  have sock2: "sockfd s2 \<noteq> -1" "no_poll_failure s2" using s2(2) sock1 by (auto simp: same_endpoint_def)
  have fields: "list_all field_ok (server_fields senv key (offered c))"
    by (rule server_fields_ok [OF agents]) (use bits in \<open>simp add: offered_def\<close>)
  obtain s3 where s3: "parseHttpHeaders cancel s2 = Some (Headers True ?m, s3)" "same_endpoint s2 s3" "arriving (sys_recvs s3) = rest"
    using headers_loop_fields [where cancel = cancel and hs = "[]" and rest = rest, OF sock2 nc fields] s2(3)
    unfolding parseHttpHeaders_def lines_of_def by blast
  let ?h = "?c\<lparr>hs_socket := s3\<rparr>"
  have off: "offered ?h = offered c" by (simp add: offered_def)
  obtain headers where acc: "client_accept env path key 101 ?m ?h = (initResult True 101 [] headers path,
      ?h\<lparr>hs_perMessageDeflate := (if hs_enablePerMessageDeflate c
         then snd (pmd_init (h_zlib env) (offered c) (hs_perMessageDeflate c)) else hs_perMessageDeflate c)\<rparr>)"
    using client_accept_server [of ?h env ?m senv key path] bits windows off by auto
  have "clientHandshake env url extra host path port timeoutSecs c = Some (client_accept env path key 101 ?m ?h)"
    using s1(1) connect by (simp add: clientHandshake_def Let_def cancel_def [symmetric] key_def [symmetric] s2(1) status_line s3(1) del: append_assoc append.simps)
  then show ?thesis
    unfolding acc key_def [symmetric] using s1(2) s2(2) s3(2,3) by (auto simp: same_endpoint_def)
qed


definition demo_henv :: "string henv" where
  "demo_henv = \<lparr>h_net = \<lparr>getaddrinfo = (\<lambda>_ _. Inr [\<lparr>ai_socket = 7, ai_connect = None\<rparr>]), gai_strerror = (\<lambda>_. []),
       strerror = (\<lambda>_. []), dns_done = (\<lambda>_. True)\<rparr>,
     h_zlib = store_zlib, h_start = 0, h_clock = (\<lambda>k. 0), h_flag = (\<lambda>_. False), h_errStart = 0, h_errClock = (\<lambda>k. int k * 1000000000),
     h_rand = (\<lambda>i. i mod 26), h_platform = ''linux'', h_tlsName = ''nossl'', h_zlibVersion = ''1.2.11'', h_garbage = (\<lambda>_. 0),
     h_garbageVersion = 0\<rparr>"

definition demo_endpoint :: "int \<Rightarrow> byte list \<Rightarrow> nat \<Rightarrow> string handshake" where
  "demo_endpoint fd input room =
     \<lparr>hs_requestInitCancellation = False,
      hs_socket = (Socket_new fd (SelectInterruptPipe_new 8))\<lparr>sys_recvs := [RecvData input], sys_sends := [SendAccept room],
        sys_polls := [PollReady True False 0]\<rparr>,
      hs_perMessageDeflate = PerMessageDeflate_new store_zlib, hs_perMessageDeflateOptions = deflateOptions True False False 15 15,
      hs_enablePerMessageDeflate = True\<rparr>"

definition demo_key :: string where
  "demo_key = genRandomString (h_rand demo_henv) 22 @ ''==''"

definition demo_request :: string where
  "demo_request = client_request demo_henv [] ''example.com'' ''/chat'' 80 demo_key (demo_endpoint 0 [] 0)"

definition demo_response :: string where
  "demo_response = server_response demo_henv demo_key (offered (demo_endpoint 0 [] 0))"

lemma demo_params:
  "\<forall>i. h_rand demo_henv i < 26" "token_ok ''/chat''" "text_fits ''example.com''" "text_fits (userAgent demo_henv)"
  "bits_in_range (hs_perMessageDeflateOptions (demo_endpoint fd i n))" "zlib_windows (h_zlib demo_henv)" "never_cancelled demo_henv 3"
  "hs_enablePerMessageDeflate (demo_endpoint fd i n)"
  by (simp_all add: demo_henv_def token_ok_def text_fits_def header_text_Cons char_consts userAgent_def IX_WEBSOCKET_VERSION_def
      demo_endpoint_def bits_in_range_def deflateOptions_def sanitizeClientMaxWindowBits_def zlib_windows_def store_zlib_def
      never_cancelled_def makeCancellationRequestWithTimeout_def list_all_iff)

lemma demo_messages:
  "client_request demo_henv [] ''example.com'' ''/chat'' 80 demo_key (demo_endpoint fd i n) = demo_request"
  "server_response demo_henv demo_key (offered (demo_endpoint fd i n)) = demo_response"
  "demo_request \<noteq> []" "demo_response \<noteq> []"
  by (simp_all add: demo_request_def demo_response_def client_request_def server_response_def offered_def demo_endpoint_def)

lemma demo_connect:
  "\<exists>msg s. socket_connect (h_net demo_henv) ''example.com'' 80
     (makeCancellationRequestWithTimeout 3 (h_flag demo_henv) (h_start demo_henv) (h_clock demo_henv))
     (hs_socket (demo_endpoint (-1) (bytes_of demo_response) n)) = Some (True, msg, s) \<and>
   sockfd s \<noteq> -1 \<and> no_poll_failure s \<and> sys_sends s = [SendAccept n] \<and> arriving (sys_recvs s) = bytes_of demo_response @ []"
proof -
  let ?cancel = "makeCancellationRequestWithTimeout 3 (h_flag demo_henv) (h_start demo_henv) (h_clock demo_henv)"
  let ?s = "hs_socket (demo_endpoint (-1) (bytes_of demo_response) n)"
  have nc: "?cancel k = False" for k by (simp add: makeCancellationRequestWithTimeout_def demo_henv_def)
  have b: "bytes_of demo_response \<noteq> []" using demo_messages(4) by (simp add: bytes_of_def)
  have w: "resolve_wait (h_net demo_henv) ?cancel 0 s = Some (True, s)" for s
    by (subst resolve_wait.simps) (simp add: demo_henv_def)
  have cw: "connect_wait (h_net demo_henv) ?cancel 7 (?s\<lparr>cancel_queries := Suc 0\<rparr>) =
      Some (7, ''no error'', ?s\<lparr>cancel_queries := 2, sys_polls := [], poll_timeouts := [10]\<rparr>)"
    by (subst connect_wait.simps) (simp add: ask_def nc poll_fd_def socket_poll_def next_poll_def demo_endpoint_def Socket_new_def
        pipe_getFd_def SelectInterruptPipe_new_def)
  have g: "getAddrInfo (h_net demo_henv) host port = ([\<lparr>ai_socket = 7, ai_connect = None\<rparr>], [])" for host port
    by (simp add: getAddrInfo_def demo_henv_def)
  have q: "cancel_queries ?s = 0" by (simp add: demo_endpoint_def Socket_new_def)
  have "socket_connect (h_net demo_henv) ''example.com'' 80 ?cancel ?s =
      Some (True, ''no error'', ?s\<lparr>cancel_queries := 2, sys_polls := [], poll_timeouts := [10], sockfd := 7\<rparr>)"
    using cw by (simp add: socket_connect_def pipe_clear_def SocketConnect_connect_def resolve_def resolveCancellable_def w g ask_def nc
        connectToAddress_def q)
  then show ?thesis using b by (simp add: demo_endpoint_def Socket_new_def no_poll_failure_def)
qed

lemma demo_server_input:
  "sockfd (hs_socket (demo_endpoint 4 bs n)) \<noteq> -1" "no_poll_failure (hs_socket (demo_endpoint 4 bs n))"
  "arriving (sys_recvs (hs_socket (demo_endpoint 4 (bytes_of demo_request) n))) = bytes_of demo_request @ []"
  "0 < n \<Longrightarrow> accepting (sys_sends (hs_socket (demo_endpoint 4 bs n))) n"
  using demo_messages(3) by (simp_all add: demo_endpoint_def bytes_of_def Socket_new_def no_poll_failure_def)

lemma demo_server_runs:
  "\<exists>headers h'. serverHandshake demo_henv 4 3 (demo_endpoint 4 (bytes_of demo_request) (length demo_response)) =
     Some (initResult True 200 [] headers ''/chat'', h')"
proof -
  let ?h = "demo_endpoint 4 (bytes_of demo_request) (length demo_response)"
  note msgs = demo_messages(1,2) [of 4 "bytes_of demo_request" "length demo_response", unfolded demo_key_def]
  show ?thesis
    using server_accepts [of demo_henv "''/chat''" "''example.com''" 80 "[]" ?h demo_henv ?h 3 "[]" 4,
        unfolded msgs, OF demo_params(1-3) _ _ demo_params(4) _ demo_params(5,6) demo_server_input(1,2) demo_params(7) demo_server_input(3,4)]
      demo_messages(4) by auto
qed

lemma demo_client_runs:
  "\<exists>headers c'. clientHandshake demo_henv url [] ''example.com'' ''/chat'' 80 3
     (demo_endpoint (-1) (bytes_of demo_response) (length demo_request)) = Some (initResult True 101 [] headers ''/chat'', c')"
proof -
  let ?c = "demo_endpoint (-1) (bytes_of demo_response) (length demo_request)"
  obtain msg s where s: "socket_connect (h_net demo_henv) ''example.com'' 80
      (makeCancellationRequestWithTimeout 3 (h_flag demo_henv) (h_start demo_henv) (h_clock demo_henv)) (hs_socket ?c) = Some (True, msg, s)"
    "sockfd s \<noteq> -1" "no_poll_failure s" "sys_sends s = [SendAccept (length demo_request)]" "arriving (sys_recvs s) = bytes_of demo_response @ []"
    using demo_connect [of "length demo_request"] by blast
  note msgs = demo_messages(1,2) [of "-1" "bytes_of demo_response" "length demo_request", unfolded demo_key_def]
  have acc: "accepting (sys_sends s) (length demo_request)" using s(4) demo_messages(3) by simp
  show ?thesis
    using client_accepts [OF s(1) demo_params(5,6,4) s(2,3) demo_params(7), where rest = "[]" and extra = "[]" and path = "''/chat''" and url = url]
      s(5) acc unfolding msgs by auto
qed


end
