(* ===== verification/HandshakeSound.thy ===== *)
theory HandshakeSound
  imports HandshakeProperties
begin

section \<open>What a finished handshake means\<close>

text \<open>
  A success on either side means that the peer's message passed every check, and both handshakes
  return once their cancellation request is granted. The header loop is handled by one invariant
  rule, and a granted request ends every loop because every byte read asks for it once more.
\<close>

subsection \<open>Reading writes nothing\<close>

lemma readByte_wire: "readByte cancel s = Some (c, s') \<Longrightarrow> wire_out s' = wire_out s"
proof -
  assume r: "readByte cancel s = Some (c, s')"
  have "wire_out (snd (c, s')) = wire_out s"
  proof (rule readByte.raw_induct [OF _ r, where P = "\<lambda>cancel s y. wire_out (snd y) = wire_out s"])
    fix loop :: "(nat \<Rightarrow> bool) \<Rightarrow> socket \<Rightarrow> (char option \<times> socket) option"
    fix cancel :: "nat \<Rightarrow> bool" and s y
    assume rec: "\<And>cancel s y. loop cancel s = Some y \<Longrightarrow> wire_out (snd y) = wire_out s"
    assume body: "(case ask cancel s of (c, s) \<Rightarrow> if c then Some (None, s)
        else case socket_recv s 1 of (ret, bs, s1) \<Rightarrow>
          if ret = 1 then Some (Some (char_of_byte (hd bs)), s1)
          else if ret < 0 \<and> isWaitNeeded s1 then
            (case isReadyToRead 1 s1 of (r, s2) \<Rightarrow> if r = PollError then Some (None, s2) else loop cancel s2)
          else Some (None, s1)) = Some y"
    obtain ret bs s1 where rcv: "socket_recv (snd (ask cancel s)) 1 = (ret, bs, s1)" by (cases "socket_recv (snd (ask cancel s)) 1")
    obtain r s2 where rdy: "isReadyToRead 1 s1 = (r, s2)" by (cases "isReadyToRead 1 s1")
    have w: "wire_out s1 = wire_out s" "wire_out s2 = wire_out s"
      using recv_frame(3) [OF rcv] isReadyToRead_frame(3) [OF rdy] by (simp_all add: ask_def)
    show "wire_out (snd y) = wire_out s"
      using body rcv rdy w rec [of cancel s2 y] by (auto simp: split_beta ask_def split: if_splits)
  qed
  then show ?thesis by simp
qed

lemma readLine_wire: "readLine cancel s = Some (b, l, s') \<Longrightarrow> wire_out s' = wire_out s"
proof -
  assume "readLine cancel s = Some (b, l, s')"
  then have r: "readLine_loop cancel [] s = Some (b, l, s')" by (simp add: readLine_def)
  have "wire_out (snd (snd (b, l, s'))) = wire_out s"
    by (rule readLine_loop.raw_induct [OF _ r, where P = "\<lambda>cancel l s y. wire_out (snd (snd y)) = wire_out s"])
      (auto simp: bind_eq_Some_conv split: if_splits option.splits dest!: readByte_wire)
  then show ?thesis by simp
qed

lemma header_line_wire: "header_line cancel l k s = Some (r, s') \<Longrightarrow> wire_out s' = wire_out s"
proof -
  assume r: "header_line cancel l k s = Some (r, s')"
  have "wire_out (snd (r, s')) = wire_out s"
    by (rule header_line.raw_induct [OF _ r, where P = "\<lambda>cancel l k s y. wire_out (snd y) = wire_out s"])
      (auto simp: bind_eq_Some_conv split: if_splits option.splits dest!: readByte_wire)
  then show ?thesis by simp
qed

text \<open>What every line read and every assignment keep, the header loop keeps.\<close>

lemma headers_loop_invariant:
  assumes run: "headers_loop cancel hs s = Some (r, s')" and start: "I hs s"
    and line: "\<And>hs s x s1. I hs s \<Longrightarrow> header_line cancel [] 0 s = Some (x, s1) \<Longrightarrow> I hs s1"
    and assign: "\<And>hs s k v. I hs s \<Longrightarrow> I (headers_assign k v hs) s"
  shows "\<exists>hs'. I hs' s' \<and> (\<forall>b m. r = Headers b m \<longrightarrow> m = hs')"
proof -
  let ?P = "\<lambda>c hs s (y :: headers_result \<times> socket). c = cancel \<longrightarrow> I hs s \<longrightarrow> (\<exists>hs'. I hs' (snd y) \<and> (\<forall>b m. fst y = Headers b m \<longrightarrow> m = hs'))"
  have "?P cancel hs s (r, s')"
  proof (rule headers_loop.raw_induct [OF _ run, where P = ?P], intro impI)
    fix loop :: "(nat \<Rightarrow> bool) \<Rightarrow> WebSocketHttpHeaders \<Rightarrow> socket \<Rightarrow> (headers_result \<times> socket) option"
    fix c hs s y
    assume rec: "\<And>c hs s y. loop c hs s = Some y \<Longrightarrow> ?P c hs s y" and c: "c = cancel" and inv: "I hs s"
    assume body: "Option.bind (header_line c [] 0 s) (\<lambda>(r, s1).
       case r of
         None \<Rightarrow> Some (Headers False hs, s1)
       | Some (line, colon) \<Rightarrow>
           if line ! 0 = CR \<and> line ! 1 = LF then Some (Headers True hs, s1)
           else if colon > 0 then
             (case header_entry line colon of
                None \<Rightarrow> Some (HeadersOutOfRange, s1)
              | Some (name, val) \<Rightarrow> loop c (headers_assign name val hs) s1)
           else loop c hs s1) = Some y"
    obtain x s1 where x: "header_line cancel [] 0 s = Some (x, s1)" using body c by (auto simp: bind_eq_Some_conv)
    have inv1: "I hs s1" by (rule line [OF inv x])
    have again: "\<exists>hs'. I hs' (snd y) \<and> (\<forall>b m. fst y = Headers b m \<longrightarrow> m = hs')" if "loop c hs1 s1 = Some y" "I hs1 s1" for hs1
      using rec [OF that(1)] that(2) c by blast
    show "\<exists>hs'. I hs' (snd y) \<and> (\<forall>b m. fst y = Headers b m \<longrightarrow> m = hs')"
    proof (cases x)
      case None
      then show ?thesis using body x c inv1 by auto
    next
      case (Some p)
      obtain line colon where p: "p = (line, colon)" by (cases p)
      have b: "(if line ! 0 = CR \<and> line ! 1 = LF then Some (Headers True hs, s1)
           else if colon > 0 then
             (case header_entry line colon of
                None \<Rightarrow> Some (HeadersOutOfRange, s1)
              | Some (name, val) \<Rightarrow> loop c (headers_assign name val hs) s1)
           else loop c hs s1) = Some y"
        using body x c Some p by simp
      show ?thesis
      proof (cases "line ! 0 = CR \<and> line ! 1 = LF \<or> colon = 0")
        case True
        then show ?thesis using b again inv1 by (auto split: if_splits)
      next
        case False
        show ?thesis
        proof (cases "header_entry line colon")
          case None
          then have "y = (HeadersOutOfRange, s1)" using b False by auto
          then show ?thesis using inv1 by auto
        next
          case (Some kv)
          then have "loop c (headers_assign (fst kv) (snd kv) hs) s1 = Some y" using b False by (auto simp: split_beta)
          then show ?thesis using again assign [OF inv1] by blast
        qed
      qed
    qed
  qed
  then show ?thesis using start by simp
qed

lemma parseHttpHeaders_wire: "parseHttpHeaders cancel s = Some (r, s') \<Longrightarrow> wire_out s' = wire_out s"
  unfolding parseHttpHeaders_def
  by (drule headers_loop_invariant [where I = "\<lambda>_ s'. wire_out s' = wire_out s"]) (auto dest: header_line_wire)

subsection \<open>A success is justified\<close>

lemma headers_loop_sorted:
  "headers_loop cancel hs s = Some (Headers b m, s') \<Longrightarrow> headers_sorted hs \<Longrightarrow> headers_sorted m"
  by (drule headers_loop_invariant [where I = "\<lambda>hs _. headers_sorted hs"]) (auto simp: headers_sorted_assign)

lemma find_after_index:
  assumes "headers_sorted m" "\<not> same_name k l"
  shows "headers_find (snd (headers_index m k)) l = headers_find m l"
  using assms by (auto simp: headers_index_def headers_find_assign split: option.splits)

lemma client_accept_sound:
  assumes "client_accept env path key status m c = (Init r, c')" "init_success r" "headers_sorted m"
  shows "init_http_status r = status \<and> init_uri r = path \<and>
    headers_find (init_headers r) ''sec-websocket-accept'' = Some (generate key) \<and>
    (\<exists>v. headers_find (init_headers r) ''connection'' = Some v \<and> insensitiveStringCompare v ''Upgrade'')"
proof -
  have ns: "\<not> same_name ''sec-websocket-extensions'' ''sec-websocket-accept''" "\<not> same_name ''sec-websocket-extensions'' ''connection''"
    by code_simp+
  have err: "init_success r \<Longrightarrow> initError i e \<noteq> Init r" for i e by (auto simp: initResult_def)
  obtain v where v: "headers_find m ''connection'' = Some v" using assms(1,2) err by (cases "headers_find m ''connection''") (auto simp: client_accept_def)
  have up: "insensitiveStringCompare v ''Upgrade''" using assms(1,2) err v by (auto simp: client_accept_def split: if_splits)
  have ne: "generate key \<noteq> []" using generate_header_ok(3) [of key] by force
  have "headers_find m ''sec-websocket-accept'' \<noteq> None"
  proof
    assume "headers_find m ''sec-websocket-accept'' = None"
    then show False
      using assms(1,2) err v up generate_header_ok [of key] ne by (auto simp: client_accept_def headers_index_def)
  qed
  then obtain a where a: "headers_index m ''sec-websocket-accept'' = (a, m)" "headers_find m ''sec-websocket-accept'' = Some a"
    by (auto simp: headers_index_def)
  have gen: "a = generate key" using assms(1,2) err v up a generate_header_ok(2) [of key] by (auto simp: client_accept_def split: if_splits)
  have "init_http_status r = status \<and> init_uri r = path \<and>
      (init_headers r = m \<or> init_headers r = snd (headers_index m ''sec-websocket-extensions''))"
    using assms(1,2) err v up a gen generate_header_ok(2) [of key]
    by (auto simp: client_accept_def Let_def split_beta initResult_def split: if_splits)
  then show ?thesis
    using v up a gen find_after_index [OF assms(3) ns(1)] find_after_index [OF assms(3) ns(2)] by auto
qed

text \<open>
  C22. A client that reports success has checked the server: the answer had status 101, its
  \<open>Connection\<close> header says \<open>Upgrade\<close> in some case, and its accept value is the one of the key this
  client drew.
\<close>

theorem client_success_sound:
  assumes "clientHandshake env url extra host path port timeoutSecs c = Some (Init r, c')" "init_success r"
  shows "init_http_status r = 101 \<and> init_uri r = path \<and>
    headers_find (init_headers r) ''sec-websocket-accept'' = Some (generate (genRandomString (h_rand env) 22 @ ''=='')) \<and>
    (\<exists>v. headers_find (init_headers r) ''connection'' = Some v \<and> insensitiveStringCompare v ''Upgrade'')"
proof -
  have err: "initError i e \<noteq> Init r" for i e using assms(2) by (auto simp: initResult_def)
  obtain status result s1 s2 where r: "parseHttpHeaders (makeCancellationRequestWithTimeout timeoutSecs (h_flag env) (h_start env) (h_clock env)) s1 = Some (result, s2)"
    "status = 101" "(case result of HeadersOutOfRange \<Rightarrow> Some (HandshakeOutOfRange, c\<lparr>hs_requestInitCancellation := False, hs_socket := s2\<rparr>)
       | Headers headersValid headers \<Rightarrow>
           if \<not> headersValid then Some (initError status ''Error parsing HTTP headers'', c\<lparr>hs_requestInitCancellation := False, hs_socket := s2\<rparr>)
           else Some (client_accept env path (genRandomString (h_rand env) 22 @ ''=='') status headers
             (c\<lparr>hs_requestInitCancellation := False, hs_socket := s2\<rparr>))) = Some (Init r, c')"
    using assms(1) err by (auto simp: clientHandshake_def Let_def bind_eq_Some_conv split: if_splits prod.splits)
  obtain m h where "client_accept env path (genRandomString (h_rand env) 22 @ ''=='') 101 m h = (Init r, c')" "headers_sorted m"
  proof (cases result)
    case (Headers b m)
    then have "headers_sorted m" using r(1) headers_loop_sorted [OF _ headers.inv_empty] by (auto simp: parseHttpHeaders_def)
    then show ?thesis using that r(2,3) err Headers by (auto split: if_splits)
  qed (use r(3) in simp)
  then show ?thesis using client_accept_sound assms(2) by blast
qed

theorem client_success_sound_witness:
  "\<exists>r c'. clientHandshake demo_henv [] [] ''example.com'' ''/chat'' 80 3 (demo_endpoint (-1) (bytes_of demo_response) (length demo_request)) = Some (Init r, c') \<and>
     init_success r \<and> headers_find (init_headers r) ''sec-websocket-accept'' = Some (generate demo_key)"
proof -
  obtain hc c' where run: "clientHandshake demo_henv [] [] ''example.com'' ''/chat'' 80 3 (demo_endpoint (-1) (bytes_of demo_response) (length demo_request)) =
      Some (initResult True 101 [] hc ''/chat'', c')"
    using demo_client_runs [of "[]"] by blast
  let ?r = "\<lparr>init_success = True, init_http_status = 101, init_errorStr = [], init_headers = hc, init_uri = ''/chat''\<rparr>"
  have run': "clientHandshake demo_henv [] [] ''example.com'' ''/chat'' 80 3 (demo_endpoint (-1) (bytes_of demo_response) (length demo_request)) = Some (Init ?r, c')"
    using run by (simp add: initResult_def)
  show ?thesis using client_success_sound [OF run'] run' by (auto simp: demo_key_def)
qed

text \<open>
  A server that reports success has checked the client: the request was a \<open>GET\<close> for the
  returned URI with version 1.1, its headers hold a key, \<open>Upgrade: websocket\<close> and version 13, and the
  whole answer for that key was written.
\<close>

theorem server_success_sound:
  assumes "serverHandshake env fd timeoutSecs h = Some (Init r, h')" "init_success r"
  shows "(\<exists>line. parseRequestLine line = (''GET'', init_uri r, ''HTTP/1.1'')) \<and> server_checks env (init_headers r) = None \<and>
    (\<exists>key options. headers_find (init_headers r) ''sec-websocket-key'' = Some key \<and>
       wire_out (hs_socket h') = wire_out (hs_socket h) @ bytes_of (server_response env key options))"
proof -
  have err: "initError i e \<noteq> Init r" for i e using assms(2) by (auto simp: initResult_def)
  have serr: "sendErrorResponse env i e h1 \<noteq> Some (Init r, h')" for i e h1
    using err by (auto simp: sendErrorResponse_def Let_def bind_eq_Some_conv split: if_splits)
  define cancel where "cancel = makeCancellationRequestWithTimeout timeoutSecs (h_flag env) (h_start env) (h_clock env)"
  obtain line s1 uri where l: "readLine cancel (hs_socket h) = Some (True, line, s1)" "parseRequestLine line = (''GET'', uri, ''HTTP/1.1'')"
    using assms(1) serr by (auto simp: serverHandshake_def Let_def cancel_def bind_eq_Some_conv split: if_splits prod.splits)
  obtain result s2 where p: "parseHttpHeaders cancel s1 = Some (result, s2)"
    using assms(1) l by (auto simp: serverHandshake_def Let_def cancel_def [symmetric] bind_eq_Some_conv)
  obtain m where m: "result = Headers True m" "server_checks env m = None"
    using assms(1) l p serr
    by (cases result) (auto simp: serverHandshake_def Let_def cancel_def [symmetric] split: if_splits option.splits)
  have srt: "headers_sorted m" using p m headers_loop_sorted [OF _ headers.inv_empty] by (auto simp: parseHttpHeaders_def)
  define key where "key = fst (headers_index m ''sec-websocket-key'')"
  have key: "headers_find m ''sec-websocket-key'' = Some key"
    using m(2) by (auto simp: key_def headers_index_def server_checks_def split: option.splits if_splits)
  let ?opts = "parseOptions (h_garbage env) (fst (headers_index m ''sec-websocket-extensions''))"
  obtain s3 where w: "writeBytes cancel (server_response env key ?opts) s2 = Some (True, s3)" "hs_socket h' = s3"
    "init_headers r = snd (headers_index m ''sec-websocket-extensions'')" "init_uri r = uri"
    using assms(1) l p m err
    by (auto simp: serverHandshake_def Let_def cancel_def [symmetric] key_def [symmetric] split_beta bind_eq_Some_conv initResult_def
        split: if_splits)
  have "wire_out s3 = wire_out (hs_socket h) @ bytes_of (server_response env key ?opts)"
    using writeBytes_effect [OF w(1)] readLine_wire [OF l(1)] parseHttpHeaders_wire [OF p] by auto
  moreover have ns: "\<not> same_name ''sec-websocket-extensions'' ''sec-websocket-key''" "\<not> same_name ''sec-websocket-extensions'' ''upgrade''"
    "\<not> same_name ''sec-websocket-extensions'' ''sec-websocket-version''"
    by code_simp+
  have "server_checks env (init_headers r) = server_checks env m" "headers_find (init_headers r) ''sec-websocket-key'' = Some key"
    unfolding w(3) server_checks_def using key
    by (simp_all only: find_after_index [OF srt ns(1)] find_after_index [OF srt ns(2)] find_after_index [OF srt ns(3)])
  ultimately show ?thesis using l(2) w m(2) by auto
qed

theorem server_success_sound_witness:
  "\<exists>r h'. serverHandshake demo_henv 4 3 (demo_endpoint 4 (bytes_of demo_request) (length demo_response)) = Some (Init r, h') \<and>
     init_success r \<and> server_checks demo_henv (init_headers r) = None"
proof -
  obtain hs h' where run: "serverHandshake demo_henv 4 3 (demo_endpoint 4 (bytes_of demo_request) (length demo_response)) =
      Some (initResult True 200 [] hs ''/chat'', h')"
    using demo_server_runs by blast
  let ?r = "\<lparr>init_success = True, init_http_status = 200, init_errorStr = [], init_headers = hs, init_uri = ''/chat''\<rparr>"
  have run': "serverHandshake demo_henv 4 3 (demo_endpoint 4 (bytes_of demo_request) (length demo_response)) = Some (Init ?r, h')"
    using run by (simp add: initResult_def)
  show ?thesis using server_success_sound [OF run'] run' by auto
qed

subsection \<open>Returning\<close>

lemma readByte_granted:
  assumes "granted_from cancel n"
  shows "\<exists>r s'. readByte cancel s = Some (r, s') \<and> cancel_queries s < cancel_queries s'"
  using readByte_returns [of cancel "max n (cancel_queries s)" s] assms by (auto simp: granted_from_def)

lemma readByte_stops:
  assumes "granted_from cancel n" "n \<le> cancel_queries s" "readByte cancel s = Some (r, s')"
  shows "r = None"
proof -
  have "cancel (cancel_queries s)" using assms(1,2) by (simp add: granted_from_def)
  then show ?thesis using assms(3) by (simp add: readByte.simps [of cancel s] ask_def)
qed

lemma header_line_returns:
  assumes "granted_from cancel n"
  shows "\<exists>r s'. header_line cancel line colon s = Some (r, s') \<and> cancel_queries s \<le> cancel_queries s' \<and>
    (\<not> header_line_complete line \<and> r \<noteq> None \<longrightarrow> cancel_queries s < cancel_queries s' \<and> cancel_queries s < n)"
proof (induction "n - cancel_queries s" arbitrary: s line colon rule: less_induct)
  case less
  obtain c s1 where rd: "readByte cancel s = Some (c, s1)" "cancel_queries s < cancel_queries s1"
    using readByte_granted [OF assms, of s] by auto
  show ?case
  proof (cases "header_line_complete line")
    case True
    then show ?thesis by (subst header_line.simps) simp
  next
    case False
    note nf = False
    show ?thesis
    proof (cases c)
      case None
      then show ?thesis using nf rd by (subst header_line.simps) simp
    next
      case (Some ch)
      have lt: "cancel_queries s < n" using readByte_stops [OF assms _ rd(1)] Some not_less by blast
      let ?k = "if ch = CHR '':'' \<and> colon = 0 then length line else colon"
      obtain r s2 where r: "header_line cancel (line @ [ch]) ?k s1 = Some (r, s2)" "cancel_queries s1 \<le> cancel_queries s2"
        using less [OF diff_less_mono2 [OF rd(2) lt], of "line @ [ch]" ?k] by blast
      then show ?thesis using nf rd Some lt by (subst header_line.simps) auto
    qed
  qed
qed

lemma headers_loop_returns:
  assumes "granted_from cancel n"
  shows "\<exists>r. headers_loop cancel hs s = Some r"
proof (induction "n - cancel_queries s" arbitrary: s hs rule: less_induct)
  case less
  have nc: "\<not> header_line_complete []" by (simp add: header_line_complete_def Let_def)
  obtain x s1 where x: "header_line cancel [] 0 s = Some (x, s1)"
    "x \<noteq> None \<longrightarrow> cancel_queries s < cancel_queries s1 \<and> cancel_queries s < n"
    using header_line_returns [OF assms, of "[]" 0 s] nc by auto
  show ?case
  proof (cases x)
    case None
    then show ?thesis using x(1) by (subst headers_loop.simps) simp
  next
    case (Some p)
    have rec: "\<exists>r. headers_loop cancel hs1 s1 = Some r" for hs1 by (rule less) (use x Some in auto)
    show ?thesis
      using x(1) Some rec by (subst headers_loop.simps) (auto split: option.splits prod.splits)
  qed
qed

lemma transfers_granted:
  assumes "granted_from cancel n"
  shows "\<exists>r. writeBytes cancel str s = Some r" "\<exists>b l s'. readLine cancel s = Some (b, l, s')"
    "\<exists>r s'. parseHttpHeaders cancel s = Some (r, s')"
proof -
  have c: "cancel (max n (cancel_queries s))" using assms by (simp only: granted_from_def max.cobounded1)
  show "\<exists>r. writeBytes cancel str s = Some r"
    unfolding writeBytes_def by (rule writeBytes_loop_returns [where cancel = cancel, OF c]) simp
  show "\<exists>b l s'. readLine cancel s = Some (b, l, s')"
    unfolding readLine_def using readLine_loop_returns [where cancel = cancel and s = s, OF c, of "[]"] by auto
  show "\<exists>r s'. parseHttpHeaders cancel s = Some (r, s')"
    unfolding parseHttpHeaders_def using headers_loop_returns [OF assms, of "[]" s] by auto
qed

text \<open>
  C23. Both handshakes return: once the timeout has passed for good, or the cancellation flag is set
  for good, neither the connection attempt nor a read or write keeps the caller, whatever the peer
  sends; the error response has a timeout of its own.
\<close>

theorem handshakes_return:
  assumes "granted_from (makeCancellationRequestWithTimeout timeoutSecs (h_flag env) (h_start env) (h_clock env)) n"
    and "granted_from (makeCancellationRequestWithTimeout 1 (\<lambda>_. False) (h_errStart env) (h_errClock env)) m"
  shows "(\<exists>r. clientHandshake env url extra host path port timeoutSecs h = Some r) \<and>
    (\<exists>r. serverHandshake env fd timeoutSecs h = Some r)"
proof
  define cancel where "cancel = makeCancellationRequestWithTimeout timeoutSecs (h_flag env) (h_start env) (h_clock env)"
  have g: "granted_from cancel n" using assms(1) by (simp add: cancel_def)
  have err: "\<exists>r. sendErrorResponse env i e h1 = Some r" for i e h1
    using transfers_granted(1) [OF assms(2), of "''HTTP/1.1 '' @ string_of_int i @ '' '' @ e @ CRLF" "hs_socket h1"]
    by (auto simp: sendErrorResponse_def Let_def simp del: append.simps)
  note rets = transfers_granted [OF g]
  obtain ok1 e1 s1 where 1: "socket_connect (h_net env) host port cancel (hs_socket h) = Some (ok1, e1, s1)"
    using socket_connect_returns [OF g] by blast
  obtain w s2 where 2: "writeBytes cancel (client_request env extra host path port (genRandomString (h_rand env) 22 @ ''=='') h) s1 = Some (w, s2)"
    using rets(1) by fastforce
  obtain b l s3 where 3: "readLine cancel s2 = Some (b, l, s3)" using rets(2) by blast
  obtain r s4 where 4: "parseHttpHeaders cancel s3 = Some (r, s4)" using rets(3) by blast
  show "\<exists>r. clientHandshake env url extra host path port timeoutSecs h = Some r"
    by (cases "parseStatusLine l"; cases r) (simp_all add: clientHandshake_def Let_def cancel_def [symmetric] 1 2 3 4)
  obtain b l s1 where 1: "readLine cancel (hs_socket h) = Some (b, l, s1)" using rets(2) by blast
  obtain r s2 where 2: "parseHttpHeaders cancel s1 = Some (r, s2)" using rets(3) by blast
  obtain meth uri ver where 3: "parseRequestLine l = (meth, uri, ver)" by (cases "parseRequestLine l") auto
  show "\<exists>r. serverHandshake env fd timeoutSecs h = Some r"
  proof (cases r)
    case (Headers v hdrs)
    let ?opts = "parseOptions (h_garbage env) (fst (headers_index hdrs ''sec-websocket-extensions''))"
    obtain w s3 where "writeBytes cancel (server_response env (fst (headers_index hdrs ''sec-websocket-key'')) ?opts) s2 = Some (w, s3)"
      using rets(1) by fastforce
    then show ?thesis
      using err Headers by (cases "server_checks env hdrs") (auto simp: serverHandshake_def Let_def cancel_def [symmetric] 1 2 3 split_beta)
  qed (use err in \<open>auto simp: serverHandshake_def Let_def cancel_def [symmetric] 1 2 3\<close>)
qed

theorem handshakes_return_witness:
  "let env = demo_henv\<lparr>h_clock := (\<lambda>k. int k * 1000000)\<rparr>; h = demo_endpoint 4 [] 0
   in (\<exists>r. clientHandshake env [] [] ''example.com'' ''/'' 80 3 h = Some r) \<and> (\<exists>r. serverHandshake env 4 3 h = Some r)"
proof -
  let ?env = "demo_henv\<lparr>h_clock := (\<lambda>k. int k * 1000000)\<rparr>"
  have "granted_from (makeCancellationRequestWithTimeout 3 (h_flag ?env) (h_start ?env) (h_clock ?env)) 3001"
    "granted_from (makeCancellationRequestWithTimeout 1 (\<lambda>_. False) (h_errStart ?env) (h_errClock ?env)) 2"
    by (simp_all add: granted_from_def makeCancellationRequestWithTimeout_def demo_henv_def)
  then show ?thesis unfolding Let_def by (rule handshakes_return)
qed

end
