(* ===== verification/HttpClientProperties.thy ===== *)
theory HttpClientProperties
  imports HttpClient HttpServer HandshakeSound
begin

section \<open>What the HTTP client reads\<close>

text \<open>
  A body sent with its length or in chunks is read back exactly, and a request of this client is
  answered by this server with the file it asked for. The input of a socket is followed through the
  reads by \<open>ready\<close>: an open socket whose input arrives in any segments but without having to be waited
  for, since \<^const>\<open>readBytes\<close> does not wait.
\<close>

subsection \<open>Input without interruptions\<close>

definition plain :: "socket \<Rightarrow> bool" where
  "plain s \<longleftrightarrow> (\<forall>e. RecvFail e \<notin> set (sys_recvs s))"

definition ready :: "byte list \<Rightarrow> socket \<Rightarrow> byte list \<Rightarrow> bool" where
  "ready w s bs \<longleftrightarrow> wire_out s = w \<and> sockfd s \<noteq> -1 \<and> no_poll_failure s \<and> plain s \<and> arriving (sys_recvs s) = bs"

lemma recv_plain: "socket_recv s n = (ret, bs, s') \<Longrightarrow> plain s \<Longrightarrow> plain s'"
  by (auto simp: socket_recv_def plain_def split: if_splits list.splits recv_os.splits)

lemma readByte_plain: "readByte cancel s = Some (c, s') \<Longrightarrow> plain s \<Longrightarrow> plain s'"
proof -
  assume r: "readByte cancel s = Some (c, s')" and p: "plain s"
  have "plain s \<longrightarrow> plain (snd (c, s'))"
  proof (rule readByte.raw_induct [OF _ r, where P = "\<lambda>cancel s y. plain s \<longrightarrow> plain (snd y)"])
    fix loop :: "(nat \<Rightarrow> bool) \<Rightarrow> socket \<Rightarrow> (char option \<times> socket) option"
    fix cancel :: "nat \<Rightarrow> bool" and s y
    assume rec: "\<And>cancel s y. loop cancel s = Some y \<Longrightarrow> plain s \<longrightarrow> plain (snd y)"
    assume body: "(case ask cancel s of (c, s) \<Rightarrow> if c then Some (None, s)
        else case socket_recv s 1 of (ret, bs, s1) \<Rightarrow>
          if ret = 1 then Some (Some (char_of_byte (hd bs)), s1)
          else if ret < 0 \<and> isWaitNeeded s1 then
            (case isReadyToRead 1 s1 of (r, s2) \<Rightarrow> if r = PollError then Some (None, s2) else loop cancel s2)
          else Some (None, s1)) = Some y"
    obtain ret bs s1 where rcv: "socket_recv (snd (ask cancel s)) 1 = (ret, bs, s1)" by (cases "socket_recv (snd (ask cancel s)) 1")
    obtain r s2 where rdy: "isReadyToRead 1 s1 = (r, s2)" by (cases "isReadyToRead 1 s1")
    have a: "plain s \<Longrightarrow> plain (snd (ask cancel s))" by (simp add: ask_def plain_def)
    have w: "plain s \<Longrightarrow> plain s1 \<and> plain s2"
      using recv_plain [OF rcv] a isReadyToRead_frame(4) [OF rdy] by (simp add: plain_def)
    show "plain s \<longrightarrow> plain (snd y)"
      using body rcv rdy w a rec [of cancel s2 y] by (auto simp: split_beta ask_def split: if_splits)
  qed
  then show ?thesis using p by simp
qed

lemma readLine_plain: "readLine cancel s = Some (b, l, s') \<Longrightarrow> plain s \<Longrightarrow> plain s'"
proof -
  assume "readLine cancel s = Some (b, l, s')" and p: "plain s"
  then have r: "readLine_loop cancel [] s = Some (b, l, s')" by (simp add: readLine_def)
  have "plain s \<longrightarrow> plain (snd (snd (b, l, s')))"
    by (rule readLine_loop.raw_induct [OF _ r, where P = "\<lambda>cancel l s y. plain s \<longrightarrow> plain (snd (snd y))"])
      (auto simp: bind_eq_Some_conv split: if_splits option.splits dest!: readByte_plain)
  then show ?thesis using p by simp
qed

lemma header_line_plain: "header_line cancel l k s = Some (r, s') \<Longrightarrow> plain s \<Longrightarrow> plain s'"
proof -
  assume r: "header_line cancel l k s = Some (r, s')" and p: "plain s"
  have "plain s \<longrightarrow> plain (snd (r, s'))"
    by (rule header_line.raw_induct [OF _ r, where P = "\<lambda>cancel l k s y. plain s \<longrightarrow> plain (snd y)"])
      (auto simp: bind_eq_Some_conv split: if_splits option.splits dest!: readByte_plain)
  then show ?thesis using p by simp
qed

lemma headers_plain: "parseHttpHeaders cancel s = Some (r, s') \<Longrightarrow> plain s \<Longrightarrow> plain s'"
  unfolding parseHttpHeaders_def
  by (drule headers_loop_invariant [where I = "\<lambda>_. plain"]) (auto dest: header_line_plain)

lemma readBytes_plain: "readBytes len cancel s = Some (r, s') \<Longrightarrow> plain s \<Longrightarrow> plain s'"
proof -
  assume "readBytes len cancel s = Some (r, s')" and p: "plain s"
  then have run: "readBytes_loop len cancel [] s = Some (r, s')" by (simp add: readBytes_def)
  have "plain s \<longrightarrow> plain (snd (r, s'))"
  proof (rule readBytes_loop.raw_induct [OF _ run, where P = "\<lambda>len cancel out s y. plain s \<longrightarrow> plain (snd y)"])
    fix loop :: "nat \<Rightarrow> (nat \<Rightarrow> bool) \<Rightarrow> byte list \<Rightarrow> socket \<Rightarrow> (read_result \<times> socket) option"
    fix len and cancel :: "nat \<Rightarrow> bool" and out s y
    assume rec: "\<And>len cancel out s y. loop len cancel out s = Some y \<Longrightarrow> plain s \<longrightarrow> plain (snd y)"
    assume body: "(if length out = len then Some (ReadOk (string_of_bytes out), s)
      else case ask cancel s of (c, s) \<Rightarrow>
        if c then Some (ReadFailed, s)
        else case socket_recv s (min socket_kChunkSize (len - length out)) of (ret, bs, s1) \<Rightarrow>
          if ret \<le> 0 \<and> \<not> isWaitNeeded s1 then Some (ReadFailed, s1)
          else if ret < 0 then Some (ReadFault, s1)
          else let out' = out @ bs;
                   s2 = s1\<lparr>progress_calls := progress_calls s1 @ [(length out', len)]\<rparr>
               in case isReadyToRead 1 s2 of (r, s3) \<Rightarrow>
                 if r = PollError then Some (ReadFailed, s3) else loop len cancel out' s3) = Some y"
    let ?k = "min socket_kChunkSize (len - length out)"
    obtain ret bs s1 where rcv: "socket_recv (snd (ask cancel s)) ?k = (ret, bs, s1)" by (cases "socket_recv (snd (ask cancel s)) ?k")
    let ?s2 = "s1\<lparr>progress_calls := progress_calls s1 @ [(length (out @ bs), len)]\<rparr>"
    obtain r s3 where rdy: "isReadyToRead 1 ?s2 = (r, s3)" by (cases "isReadyToRead 1 ?s2")
    have a: "plain s \<Longrightarrow> plain (snd (ask cancel s))" by (simp add: ask_def plain_def)
    have w: "plain s \<Longrightarrow> plain s1 \<and> plain s3"
      using recv_plain [OF rcv] a isReadyToRead_frame(4) [OF rdy] by (simp add: plain_def)
    show "plain s \<longrightarrow> plain (snd y)"
      using body rcv rdy w a rec [of len cancel "out @ bs" s3 y]
      by (auto simp: split_beta ask_def Let_def simp del: length_append split: if_splits)
  qed
  then show ?thesis using p by simp
qed

subsection \<open>The reads on ready input\<close>

lemma ready_endpoint: "ready w s bs \<Longrightarrow> same_endpoint s s' \<Longrightarrow> plain s' \<Longrightarrow> arriving (sys_recvs s') = bs' \<Longrightarrow> ready w s' bs'"
  by (auto simp: ready_def same_endpoint_def)

lemma ready_line:
  assumes "ready w s (bytes_of (line @ CRLF) @ rest)" "\<And>k. \<not> cancel k" "CR \<notin> set line" "LF \<notin> set line"
  shows "\<exists>s'. readLine cancel s = Some (True, line @ CRLF, s') \<and> ready w s' rest"
  using readLine_crlf [of s cancel line rest] assms readLine_plain ready_endpoint [OF assms(1)] by (fastforce simp: ready_def)

lemma ready_headers:
  assumes "ready w s (bytes_of (lines_of fs @ CRLF) @ rest)" "\<And>k. \<not> cancel k" "list_all field_ok fs"
  shows "\<exists>s'. parseHttpHeaders cancel s = Some (Headers True (headers_of fs), s') \<and> ready w s' rest"
proof -
  obtain s' where s': "parseHttpHeaders cancel s = Some (Headers True (headers_of fs), s')" "same_endpoint s s'" "arriving (sys_recvs s') = rest"
    using headers_loop_fields [of s cancel fs rest "[]"] assms by (auto simp: ready_def parseHttpHeaders_def lines_of_def)
  then show ?thesis using headers_plain [OF s'(1)] ready_endpoint [OF assms(1)] assms(1) by (auto simp: ready_def)
qed

lemma ready_bytes:
  assumes "ready w s (bytes_of content @ rest)" "\<And>k. \<not> cancel k"
  shows "\<exists>s'. readBytes (length content) cancel s = Some (ReadOk content, s') \<and> ready w s' rest"
proof -
  obtain s' where s': "readBytes_loop (length content) cancel [] s = Some (ReadOk (string_of_bytes ([] @ bytes_of content)), s')"
    "same_endpoint s s'" "arriving (sys_recvs s') = rest"
    using readBytes_loop_data [of s cancel "bytes_of content" rest "length content" "[]"] assms by (auto simp: ready_def plain_def)
  have r: "readBytes (length content) cancel s = Some (ReadOk content, s')" using s'(1) by (simp add: readBytes_def)
  show ?thesis using r readBytes_plain [OF r] ready_endpoint [OF assms(1) s'(2) _ s'(3)] assms(1) by (auto simp: ready_def)
qed

subsection \<open>Chunks\<close>

text \<open>The chunked encoding of RFC 7230, as a peer writes it.\<close>

fun hex_string :: "nat \<Rightarrow> string" where
  "hex_string n = (if n < 16 then [hex_digit n] else hex_string (n div 16) @ [hex_digit (n mod 16)])"

declare hex_string.simps [simp del]

definition encode_chunk :: "string \<Rightarrow> string" where
  "encode_chunk c = hex_string (length c) @ CRLF @ c @ CRLF"

definition encode_chunks :: "string list \<Rightarrow> string" where
  "encode_chunks cs = concat (map encode_chunk cs) @ ''0'' @ CRLF @ CRLF"

lemma hex_digit_code: "n < 16 \<Longrightarrow> code (hex_digit n) = (if n < 10 then 48 + n else 55 + n)"
  by (simp add: hex_digit_def)

lemma hex_digit_val: "n < 16 \<Longrightarrow> c_isxdigit (hex_digit n) \<and> xdigit_val (hex_digit n) = n"
  by (auto simp: c_isxdigit_def xdigit_val_def c_isdigit_def hex_digit_code)

lemma hex_string_digits: "list_all c_isxdigit (hex_string n)"
proof (induction n rule: hex_string.induct)
  case (1 n)
  then show ?case by (subst hex_string.simps) (simp add: hex_digit_val)
qed

lemma xdigits_val_hex_string: "xdigits_val (hex_string n) = n"
proof (induction n rule: hex_string.induct)
  case (1 n)
  then show ?case by (subst hex_string.simps) (simp add: xdigits_val_def hex_digit_val)
qed

lemma hex_string_nonempty: "hex_string n \<noteq> []"
  by (subst hex_string.simps) simp

lemma hex_string_first: "\<exists>c r. hex_string n = c # r \<and> c_isxdigit c \<and> (r = [] \<or> c_isxdigit (hd r))"
  using hex_string_digits [of n] hex_string_nonempty [of n] by (cases "hex_string n"; cases "tl (hex_string n)") (auto simp: list_all_iff)

lemma xdigit_not: "c_isxdigit c \<Longrightarrow> \<not> c_isspace c \<and> c \<noteq> CHR ''-'' \<and> c \<noteq> CHR ''+'' \<and> c \<noteq> CHR ''x'' \<and> c \<noteq> CHR ''X'' \<and> c \<noteq> CR \<and> c \<noteq> LF"
  by (auto simp: c_isxdigit_def c_isspace_def c_isdigit_def CR_def LF_def)

lemma chunk_size_hex:
  assumes "n < 2 ^ 64"
  shows "chunk_size True g (hex_string n @ CRLF) = (of_nat n, True)"
proof -
  obtain c r where cr: "hex_string n = c # r" "c_isxdigit c" "r = [] \<or> c_isxdigit (hd r)" using hex_string_first by blast
  have sk: "skip_space (hex_string n @ CRLF) = hex_string n @ CRLF" using cr xdigit_not [of c] by (simp add: skip_space_def)
  have sg: "hex_sign (hex_string n @ CRLF) = (False, hex_string n @ CRLF)" using cr xdigit_not [of c] by (simp add: hex_sign_def)
  have hp: "hex_prefix (hex_string n @ CRLF) = hex_string n @ CRLF"
    using cr xdigit_not [of "hd r"] by (cases r) (auto simp: hex_prefix_def CRLF_def CR_def)
  have crlf: "CRLF \<noteq> []" by (simp add: CRLF_def)
  have x: "\<not> c_isxdigit CR" by (simp add: c_isxdigit_def c_isdigit_def CR_def)
  have tw: "takeWhile c_isxdigit (hex_string n @ CRLF) = hex_string n" "dropWhile c_isxdigit (hex_string n @ CRLF) = CRLF"
    using hex_string_digits [of n] x by (auto simp: list_all_iff CRLF_def takeWhile_append2 dropWhile_append2)
  show ?thesis
    unfolding chunk_size_def Let_def sk sg using hex_string_nonempty [of n] assms
    by (simp add: hp tw xdigits_val_hex_string crlf del: dropWhile_eq_Nil_conv)
qed

lemma hex_string_0: "hex_string 0 = ''0''"
  by code_simp

lemma hex_line: "CR \<notin> set (hex_string n)" "LF \<notin> set (hex_string n)"
  using hex_string_digits [of n] xdigit_not by (auto simp: list_all_iff)

text \<open>One chunk of non-zero size, and the last one.\<close>

lemma chunk_loop_step:
  assumes "ready w s (bytes_of (encode_chunk c) @ rest)" "\<And>k. \<not> cancel k" "c \<noteq> []"
    and "length payload + length c < 2 ^ 64" "int (length payload + length c) \<le> he_memory env"
  shows "\<exists>s' lg'. ready w s' rest \<and>
    chunk_loop env args cancel True n payload lg s = chunk_loop env args cancel True (n + 1) (payload @ c) lg' s'"
proof -
  let ?line = "hex_string (length c)"
  have "bytes_of (encode_chunk c) @ rest = bytes_of (?line @ CRLF) @ (bytes_of c @ (bytes_of ([] @ CRLF) @ rest))"
    by (simp add: encode_chunk_def)
  then obtain s1 where s1: "readLine cancel s = Some (True, ?line @ CRLF, s1)" "ready w s1 (bytes_of c @ (bytes_of ([] @ CRLF) @ rest))"
    using ready_line [where line = ?line and rest = "bytes_of c @ (bytes_of ([] @ CRLF) @ rest)" and s = s and cancel = cancel] assms(1,2) hex_line by metis
  obtain s2 where s2: "readBytes (length c) cancel s1 = Some (ReadOk c, s2)" "ready w s2 (bytes_of ([] @ CRLF) @ rest)"
    using ready_bytes [where cancel = cancel, OF s1(2) assms(2)] by blast
  obtain s3 where s3: "readLine cancel s2 = Some (True, [] @ CRLF, s3)" "ready w s3 rest"
    using ready_line [where cancel = cancel, OF s2(2) assms(2)] by auto
  have len: "length c < 2 ^ 64" using assms(4) by simp
  have sz: "chunk_size True (he_garbage env n) (?line @ CRLF) = (of_nat (length c), True)" by (rule chunk_size_hex [OF len])
  have u: "unat (of_nat (length c) :: u64) = length c" using len by (simp add: unat_of_nat)
  have nz: "(of_nat (length c) :: u64) \<noteq> 0" using u assms(3) by (metis length_0_conv unat_0)
  have m: "\<not> he_memory env < int ((length payload + length c) mod 18446744073709551616)" using assms(4,5) by simp
  have "chunk_loop env args cancel True n payload lg s = chunk_loop env args cancel True (n + 1) (payload @ c)
      (verbose_log args (''Reading '' @ string_of_nat (length c) @ '' bytes'' @ [LF]) lg) s3"
    using assms(5) nz by (subst chunk_loop.simps) (simp add: s1(1) sz u s2(1) s3(1) m Let_def del: append_assoc)
  then show ?thesis using s3(2) by blast
qed

lemma chunk_loop_last:
  assumes "ready w s (bytes_of (''0'' @ CRLF @ CRLF) @ rest)" "\<And>k. \<not> cancel k" "length payload < 2 ^ 64" "int (length payload) \<le> he_memory env"
  shows "\<exists>s' lg'. ready w s' rest \<and> chunk_loop env args cancel True n payload lg s = Some (Body payload, lg', s')"
proof -
  let ?line = "hex_string 0"
  have "bytes_of (''0'' @ CRLF @ CRLF) @ rest = bytes_of (?line @ CRLF) @ (bytes_of [] @ (bytes_of ([] @ CRLF) @ rest))"
    by (simp add: hex_string_0 bytes_of_Nil bytes_of_def)
  then obtain s1 where s1: "readLine cancel s = Some (True, ?line @ CRLF, s1)" "ready w s1 (bytes_of [] @ (bytes_of ([] @ CRLF) @ rest))"
    using ready_line [where line = ?line and rest = "bytes_of [] @ (bytes_of ([] @ CRLF) @ rest)" and s = s and cancel = cancel] assms(1,2) hex_line by metis
  obtain s2 where s2: "readBytes 0 cancel s1 = Some (ReadOk [], s2)" "ready w s2 (bytes_of ([] @ CRLF) @ rest)"
    using ready_bytes [where cancel = cancel, OF s1(2) assms(2)] by auto
  obtain s3 where s3: "readLine cancel s2 = Some (True, [] @ CRLF, s3)" "ready w s3 rest"
    using ready_line [where cancel = cancel, OF s2(2) assms(2)] by auto
  have sz: "chunk_size True (he_garbage env n) (?line @ CRLF) = (0, True)" using chunk_size_hex [of 0] by simp
  have m: "\<not> he_memory env < int (length payload mod 18446744073709551616)" using assms(3,4) by simp
  have "chunk_loop env args cancel True n payload lg s =
      Some (Body payload, verbose_log args (''Reading '' @ string_of_nat 0 @ '' bytes'' @ [LF]) lg, s3)"
    using assms(4) by (subst chunk_loop.simps) (simp add: s1(1) sz s2(1) s3(1) m Let_def del: append_assoc)
  then show ?thesis using s3(2) by blast
qed

lemma chunk_loop_prefix:
  assumes "ready w s (bytes_of (concat (map encode_chunk cs)) @ rest)" "\<And>k. \<not> cancel k" "[] \<notin> set cs"
    and "length payload + length (concat cs) < 2 ^ 64" "int (length payload + length (concat cs)) \<le> he_memory env"
  shows "\<exists>s' lg' n'. ready w s' rest \<and>
    chunk_loop env args cancel True n payload lg s = chunk_loop env args cancel True n' (payload @ concat cs) lg' s'"
  using assms(1,3-)
proof (induction cs arbitrary: s n payload lg)
  case Nil
  then show ?case by (auto simp: bytes_of_Nil)
next
  case (Cons c cs)
  have r: "ready w s (bytes_of (encode_chunk c) @ (bytes_of (concat (map encode_chunk cs)) @ rest))" using Cons.prems(1) by simp
  have b: "c \<noteq> []" "length payload + length c < 2 ^ 64" "int (length payload + length c) \<le> he_memory env" using Cons.prems by auto
  obtain s' lg' where s': "ready w s' (bytes_of (concat (map encode_chunk cs)) @ rest)"
    "chunk_loop env args cancel True n payload lg s = chunk_loop env args cancel True (n + 1) (payload @ c) lg' s'"
    using chunk_loop_step [where cancel = cancel, OF r assms(2) b, of args n lg] by blast
  obtain s'' lg'' n'' where "ready w s'' rest"
    "chunk_loop env args cancel True (n + 1) (payload @ c) lg' s' = chunk_loop env args cancel True n'' ((payload @ c) @ concat cs) lg'' s''"
    using Cons.IH [OF s'(1), of "payload @ c" "n + 1" lg'] Cons.prems(2-) by (auto simp: add.assoc)
  then show ?case using s'(2) by auto
qed

lemma chunk_loop_chunks:
  assumes "ready w s (bytes_of (encode_chunks cs) @ rest)" "\<And>k. \<not> cancel k" "[] \<notin> set cs"
    and "length payload + length (concat cs) < 2 ^ 64" "int (length payload + length (concat cs)) \<le> he_memory env"
  shows "\<exists>s' lg'. ready w s' rest \<and> chunk_loop env args cancel True n payload lg s = Some (Body (payload @ concat cs), lg', s')"
proof -
  have r: "ready w s (bytes_of (concat (map encode_chunk cs)) @ (bytes_of (''0'' @ CRLF @ CRLF) @ rest))"
    using assms(1) unfolding encode_chunks_def bytes_of_append append_assoc .
  obtain s1 lg1 n1 where s1: "ready w s1 (bytes_of (''0'' @ CRLF @ CRLF) @ rest)"
    "chunk_loop env args cancel True n payload lg s = chunk_loop env args cancel True n1 (payload @ concat cs) lg1 s1"
    using chunk_loop_prefix [where cancel = cancel, OF r assms(2-5)] by blast
  show ?thesis
    unfolding s1(2) by (rule chunk_loop_last [OF s1(1) assms(2)]) (use assms(4,5) in simp_all)
qed

text \<open>A line that begins with no digit is read as size 0.\<close>

lemma chunk_size_text:
  assumes "\<not> c_isspace c" "\<not> c_isxdigit c" "c \<noteq> CHR ''-''" "c \<noteq> CHR ''+''"
  shows "chunk_size True g ((c # line) @ CRLF) = (0, False)"
proof -
  have sk: "skip_space ((c # line) @ CRLF) = c # line @ CRLF" using assms(1) by (simp add: skip_space_def)
  have hs: "hex_sign (c # line @ CRLF) = (False, c # line @ CRLF)" using assms(3,4) by (simp add: hex_sign_def)
  have "c \<noteq> CHR ''0''" using assms(2) by (auto simp: c_isxdigit_def c_isdigit_def)
  then have hp: "hex_prefix (c # line @ CRLF) = c # line @ CRLF" by (simp add: hex_prefix_def numeral_2_eq_2)
  show ?thesis unfolding chunk_size_def Let_def sk hs using hp assms(2) by simp
qed

lemma chunk_loop_malformed:
  assumes "ready w s (bytes_of ((c # line) @ CRLF @ CRLF) @ rest)" "\<And>k. \<not> cancel k" "length payload < 2 ^ 64" "int (length payload) \<le> he_memory env"
    and "\<not> c_isspace c" "\<not> c_isxdigit c" "c \<noteq> CHR ''-''" "c \<noteq> CHR ''+''" "CR \<notin> set (c # line)" "LF \<notin> set (c # line)"
  shows "\<exists>s' lg'. ready w s' rest \<and> chunk_loop env args cancel True n payload lg s = Some (Body payload, lg', s')"
proof -
  define szline where "szline = c # line"
  have r0: "ready w s (bytes_of (szline @ CRLF) @ (bytes_of [] @ (bytes_of ([] @ CRLF) @ rest)))"
    using assms(1) by (simp add: szline_def bytes_of_def)
  have t: "CR \<notin> set szline" "LF \<notin> set szline" using assms(9,10) by (simp_all add: szline_def)
  obtain s1 where s1: "readLine cancel s = Some (True, szline @ CRLF, s1)" "ready w s1 (bytes_of [] @ (bytes_of ([] @ CRLF) @ rest))"
    using ready_line [where cancel = cancel, OF r0 assms(2) t] by blast
  obtain s2 where s2: "readBytes 0 cancel s1 = Some (ReadOk [], s2)" "ready w s2 (bytes_of ([] @ CRLF) @ rest)"
    using ready_bytes [where cancel = cancel, OF s1(2) assms(2)] by auto
  obtain s3 where s3: "readLine cancel s2 = Some (True, [] @ CRLF, s3)" "ready w s3 rest"
    using ready_line [where cancel = cancel, OF s2(2) assms(2)] by auto
  have sz: "chunk_size True (he_garbage env n) (szline @ CRLF) = (0, False)" unfolding szline_def by (rule chunk_size_text [OF assms(5-8)])
  have m: "\<not> he_memory env < int (length payload mod 18446744073709551616)" using assms(3,4) by simp
  have "chunk_loop env args cancel True n payload lg s =
      Some (Body payload, verbose_log args (''Reading '' @ string_of_nat 0 @ '' bytes'' @ [LF]) lg, s3)"
    using assms(4) by (subst chunk_loop.simps) (simp add: s1(1) sz s2(1) s3(1) m Let_def)
  then show ?thesis using s3(2) by blast
qed

subsection \<open>Responses\<close>

text \<open>A response as a peer writes it, and the two ways to delimit its body.\<close>

definition response_text :: "nat \<Rightarrow> string \<Rightarrow> (string \<times> string) list \<Rightarrow> string \<Rightarrow> string" where
  "response_text n desc fs body = ''HTTP/1.1 '' @ string_of_nat n @ '' '' @ desc @ CRLF @ lines_of fs @ CRLF @ body"

definition framed :: "int \<Rightarrow> WebSocketHttpHeaders \<Rightarrow> string \<Rightarrow> string \<Rightarrow> bool" where
  "framed memory hs body payload \<longleftrightarrow>
     int (length payload) \<le> memory \<and> int (length payload) \<le> long_max \<and>
     (headers_find hs ''Content-Length'' = Some (string_of_nat (length payload)) \<and> body = payload \<or>
      headers_find hs ''Content-Length'' = None \<and> headers_find hs ''Transfer-Encoding'' = Some ''chunked'' \<and>
      (\<exists>cs. body = encode_chunks cs \<and> [] \<notin> set cs \<and> payload = concat cs))"

lemma scan_status_line:
  assumes "n < 2 ^ 31" "NUL \<notin> set desc"
  shows "scan_status (''HTTP/1.1 '' @ string_of_nat n @ '' '' @ desc @ CRLF) = Some (int n)"
proof -
  let ?r = "string_of_nat n @ '' '' @ desc @ CRLF"
  have nul: "NUL \<notin> set (string_of_nat n)" using header_text_digits [of n] by (auto simp: header_text_ok_def)
  then have nul1: "NUL \<notin> set (''HTTP/1.1 '' @ ?r)" "NUL \<notin> set ?r" using assms(2) by (auto simp: CRLF_def NUL_def CR_def LF_def)
  have dg: "c_isdigit (hd (string_of_nat n))" by (simp add: hd_string_of_nat)
  have sp: "skip_space (drop 8 (''HTTP/1.1 '' @ ?r)) = ?r" "skip_space ?r = ?r"
    using skip_space_digits [of ?r] dg by (simp_all add: skip_space_def c_isspace_def)
  have pi: "prefix_int ?r = int n" by (rule prefix_int_string_of_nat) (simp add: c_isdigit_def)
  have at: "atoi ?r = int n"
    using assms(1) unfolding atoi_def c_str_id [OF nul1(2)] sp(2) pi
    by (simp add: Let_def long_max_def long_min_def signed_of_nat signed_take_bit_int_eq_self)
  have "snd (signed_prefix ?r) \<noteq> []"
    using dg string_of_nat_nonempty [of n] by (cases "string_of_nat n") (auto simp: signed_prefix_def c_isdigit_def)
  then show ?thesis using at sp(1) unfolding scan_status_def c_str_id [OF nul1(1)] by (simp add: Let_def)
qed

lemma receive_response:
  assumes "ready w s (bytes_of (response_text n desc fs body) @ rest)" "\<And>k. \<not> cancel k"
    and "n < 2 ^ 31" "header_text_ok desc" "list_all field_ok fs"
  shows "\<exists>s' lg'. ready w s' (bytes_of body @ rest) \<and>
    http_receive env args cancel verb redirects up lg s =
    http_finish env args cancel verb redirects (int n) (headers_of fs) up lg' s'"
proof -
  define line where "line = ''HTTP/1.1 '' @ string_of_nat n @ '' '' @ desc"
  have dig: "CR \<notin> set (string_of_nat n)" "LF \<notin> set (string_of_nat n)"
    using header_text_digits [of n] by (auto simp: header_text_ok_def)
  have ln: "CR \<notin> set line" "LF \<notin> set line" "NUL \<notin> set desc"
    using assms(4) dig by (auto simp: line_def header_text_ok_def CR_def LF_def)
  have r0: "ready w s (bytes_of (line @ CRLF) @ (bytes_of (lines_of fs @ CRLF) @ (bytes_of body @ rest)))"
    using assms(1) by (simp add: line_def response_text_def bytes_of_def)
  obtain s1 where s1: "readLine cancel s = Some (True, line @ CRLF, s1)" "ready w s1 (bytes_of (lines_of fs @ CRLF) @ (bytes_of body @ rest))"
    using ready_line [where cancel = cancel, OF r0 assms(2) ln(1,2)] by blast
  obtain s2 where s2: "parseHttpHeaders cancel s1 = Some (Headers True (headers_of fs), s2)" "ready w s2 (bytes_of body @ rest)"
    using ready_headers [where cancel = cancel, OF s1(2) assms(2,5)] by blast
  have sc: "scan_status (line @ CRLF) = Some (int n)" using scan_status_line [OF assms(3) ln(3)] by (simp add: line_def)
  have "http_receive env args cancel verb redirects up lg s =
      http_finish env args cancel verb redirects (int n) (headers_of fs) up (verbose_log args (''Status line '' @ line @ CRLF) lg) s2"
    unfolding http_receive_def s1(1) using sc s2(1) by (simp add: Let_def)
  then show ?thesis using s2(2) by blast
qed

lemma extract_long_string_of_nat: "int n \<le> long_max \<Longrightarrow> extract_long init (string_of_nat n) = int n"
proof -
  assume n: "int n \<le> long_max"
  have "skip_space (string_of_nat n) = string_of_nat n" by (rule skip_space_digits) (simp_all add: hd_string_of_nat)
  moreover have "prefix_int (string_of_nat n) = int n" using prefix_int_string_of_nat [of "[]" n] by simp
  ultimately show ?thesis using n by (simp add: extract_long_def Let_def long_min_def)
qed

lemma read_body_framed:
  assumes "ready w s (bytes_of body @ rest)" "\<And>k. \<not> cancel k" "framed (he_memory env) headers body payload"
  shows "\<exists>s' lg'. ready w s' rest \<and> read_body env args cancel status headers lg s = Some (Body payload, lg', s')"
proof -
  consider (len) "headers_find headers ''Content-Length'' = Some (string_of_nat (length payload))" "body = payload"
    | (chunks) cs where "headers_find headers ''Content-Length'' = None" "headers_find headers ''Transfer-Encoding'' = Some ''chunked''"
      "body = encode_chunks cs" "[] \<notin> set cs" "payload = concat cs"
    using assms(3) by (auto simp: framed_def)
  then show ?thesis
  proof cases
    case len
    obtain s' where s': "readBytes (length payload) cancel s = Some (ReadOk payload, s')" "ready w s' rest"
      using ready_bytes [where cancel = cancel, OF _ assms(2)] assms(1) len(2) by blast
    have "read_content env cancel (string_of_nat (length payload)) s = Some (Body payload, s')"
      using assms(3) s'(1) by (simp add: read_content_def framed_def extract_long_string_of_nat Let_def)
    then show ?thesis using len(1) s'(2) by (auto simp: read_body_def)
  next
    case chunks
    have "length (concat cs) < 2 ^ 64" using assms(3) chunks(5) by (auto simp: framed_def long_max_def)
    then obtain s' lg' where "ready w s' rest" "chunk_loop env args cancel True 0 [] lg s = Some (Body ([] @ concat cs), lg', s')"
      using chunk_loop_chunks [where cancel = cancel, OF _ assms(2) chunks(4), of w s rest "[]" env args 0 lg] assms(1,3) chunks(3,5)
      by (auto simp: framed_def)
    then show ?thesis using chunks by (auto simp: read_body_def)
  qed
qed

text \<open>The request has been set up and the socket connected; the transfer does not time out.\<close>

definition http_connected :: "'z http_env \<Rightarrow> string \<Rightarrow> HttpRequestArgs \<Rightarrow> url \<Rightarrow> socket \<Rightarrow> bool" where
  "http_connected env address args u s \<longleftrightarrow>
     parse_url address = Some u \<and>
     (\<exists>s0 msg. createSocket (at_pipe (he_attempt env)) (protocol u = ''https'') (at_socket (he_attempt env)) = Inr s0 \<and>
        socket_connect (h_net (at_henv (he_attempt env))) (host u) (port u)
          (makeCancellationRequestWithTimeout (args_connectTimeout args) (\<lambda>_. False) (he_connectStart env) (he_connectClock env)) s0
          = Some (True, msg, s)) \<and>
     (\<forall>k. \<not> makeCancellationRequestWithTimeout (args_transferTimeout args) (\<lambda>_. False) (he_transferStart env) (he_transferClock env) k)"

definition sent_text :: "'z http_env \<Rightarrow> string \<Rightarrow> string \<Rightarrow> HttpRequestArgs \<Rightarrow> url \<Rightarrow> string" where
  "sent_text env verb body args u = http_request_text (at_henv (he_attempt env)) verb (host u) (path u) body args"

lemma request_answered:
  assumes "http_connected env address args u s" "accepting (sys_sends s) (length (sent_text env verb body args u))"
    and "ready w s (bytes_of (response_text n desc fs text) @ rest)" "n < 2 ^ 31" "header_text_ok desc" "list_all field_ok fs"
  shows "\<exists>cancel s' lg'. (\<forall>k. \<not> cancel k) \<and> ready (w @ bytes_of (sent_text env verb body args u)) s' (bytes_of text @ rest) \<and>
    request env address verb body args redirects = map_option (\<lambda>(r, lg, s3). (r, lg, Some s3))
      (http_finish env args cancel verb redirects (int n) (headers_of fs) (length (sent_text env verb body args u)) lg' s')"
proof -
  define cancel where "cancel = makeCancellationRequestWithTimeout (args_transferTimeout args) (\<lambda>_. False) (he_transferStart env) (he_transferClock env)"
  define req where "req = sent_text env verb body args u"
  have nc: "\<And>k. \<not> cancel k" using assms(1) by (simp add: http_connected_def cancel_def)
  obtain s0 msg where c: "parse_url address = Some u"
    "createSocket (at_pipe (he_attempt env)) (protocol u = ''https'') (at_socket (he_attempt env)) = Inr s0"
    "socket_connect (h_net (at_henv (he_attempt env))) (host u) (port u)
       (makeCancellationRequestWithTimeout (args_connectTimeout args) (\<lambda>_. False) (he_connectStart env) (he_connectClock env)) s0 = Some (True, msg, s)"
    using assms(1) by (auto simp: http_connected_def)
  have ne: "req \<noteq> []" by (simp add: req_def sent_text_def http_request_text_def)
  obtain s1 where s1: "writeBytes cancel req s = Some (True, s1)" "wire_out s1 = wire_out s @ bytes_of req"
    "sys_recvs s1 = sys_recvs s" "sys_polls s1 = sys_polls s" "sockfd s1 = sockfd s"
    using writeBytes_accepting [of s req cancel] assms(2,3) ne nc by (auto simp: ready_def req_def)
  have r1: "ready (w @ bytes_of req) s1 (bytes_of (response_text n desc fs text) @ rest)"
    using assms(3) s1 by (auto simp: ready_def plain_def no_poll_failure_def)
  let ?lg = "verbose_log args (request_log verb u req) []"
  obtain s' lg' where r: "ready (w @ bytes_of req) s' (bytes_of text @ rest)"
    "http_receive env args cancel verb redirects (length req) ?lg s1 =
      http_finish env args cancel verb redirects (int n) (headers_of fs) (length req) lg' s'"
    using receive_response [where cancel = cancel, OF r1 nc assms(4-6)] by blast
  have "request env address verb body args redirects = map_option (\<lambda>(r, lg, s3). (r, lg, Some s3))
      (http_receive env args cancel verb redirects (length req) ?lg s1)"
    unfolding request_def c(1) option.case using c(2,3) s1(1)
    by (simp add: Let_def cancel_def [symmetric] req_def sent_text_def)
  then show ?thesis using nc r unfolding req_def [symmetric] by (intro exI [of _ cancel] exI [of _ s'] exI [of _ lg']) simp
qed

lemma headers_of_sorted: "headers_sorted (headers_of fs)"
  using headers.inv_assign_all [OF headers.inv_empty, of fs] by (simp add: headers.assign_all_def)

lemma response_read:
  assumes "http_connected env address args u s" "accepting (sys_sends s) (length (sent_text env verb body args u))"
    and "ready w s (bytes_of (response_text n desc fs text) @ rest)" "n < 2 ^ 31" "header_text_ok desc" "list_all field_ok fs"
    and "framed (he_memory env) (headers_of fs) text payload" "headers_find (headers_of fs) ''Content-Encoding'' \<noteq> Some ''gzip''"
    and "verb \<noteq> ''HEAD''" "\<not> http_redirects args (int n)"
  shows "\<exists>r lg s'. request env address verb body args redirects = Some (Responded r, lg, Some s') \<and>
    resp_statusCode r = int n \<and> resp_errorCode r = HttpOk \<and> resp_payload r = payload \<and>
    resp_uploadSize r = length (sent_text env verb body args u) \<and> resp_downloadSize r = length payload \<and>
    (\<forall>name. \<not> same_name ''Content-Encoding'' name \<longrightarrow> headers_find (resp_headers r) name = headers_find (headers_of fs) name) \<and>
    ready (w @ bytes_of (sent_text env verb body args u)) s' rest"
proof -
  let ?req = "sent_text env verb body args u"
  obtain cancel s1 lg1 where nc: "\<And>k. \<not> cancel k" and r1: "ready (w @ bytes_of ?req) s1 (bytes_of text @ rest)"
    and req: "request env address verb body args redirects = map_option (\<lambda>(r, lg, s3). (r, lg, Some s3))
      (http_finish env args cancel verb redirects (int n) (headers_of fs) (length ?req) lg1 s1)"
    using request_answered [OF assms(1-6)] by metis
  obtain s2 lg2 where b: "ready (w @ bytes_of ?req) s2 rest" "read_body env args cancel (int n) (headers_of fs) lg1 s1 = Some (Body payload, lg2, s2)"
    using read_body_framed [where cancel = cancel, OF r1 nc assms(7)] by blast
  have enc: "fst (headers_index (headers_of fs) ''Content-Encoding'') \<noteq> ''gzip''"
    using assms(8) by (auto simp: headers_index_def split: option.splits)
  have fin: "http_finish env args cancel verb redirects (int n) (headers_of fs) (length ?req) lg1 s1 =
      Some (http_reply (int n) HttpOk (snd (headers_index (headers_of fs) ''Content-Encoding'')) payload [] (length ?req) (length payload), lg2, s2)"
    using assms(9,10) b(2) enc by (simp add: http_finish_def http_body_def Let_def split_beta)
  show ?thesis
    unfolding req fin using b(1) find_after_index [OF headers_of_sorted]
    by (simp add: http_reply_def)
qed


text \<open>
  A redirect is never followed: the answer that asks for one makes \<open>request\<close> call itself while it
  holds the client's mutex, which is not recursive, so that the call does not come back.
\<close>

theorem redirect_relocks:
  assumes "http_connected env address args u s" "accepting (sys_sends s) (length (sent_text env verb body args u))"
    and "ready w s (bytes_of (response_text n desc fs text) @ rest)" "header_text_ok desc" "list_all field_ok fs"
    and "301 \<le> n" "n \<le> 308" "args_followRedirects args" "redirects < args_maxRedirects args" "headers_find (headers_of fs) ''Location'' = Some target"
  shows "\<exists>lg so. request env address verb body args redirects = Some (Relocks, lg, so)"
proof -
  have n: "n < 2 ^ 31" using assms(7) by simp
  obtain cancel s1 lg1 where req: "request env address verb body args redirects = map_option (\<lambda>(r, lg, s3). (r, lg, Some s3))
      (http_finish env args cancel verb redirects (int n) (headers_of fs) (length (sent_text env verb body args u)) lg1 s1)"
    using request_answered [OF assms(1-3) n assms(4,5)] by metis
  then show ?thesis using assms(6-10) by (simp add: http_finish_def http_redirects_def)
qed

text \<open>
  A damaged chunk size cuts the body short and is reported as success: a size line that begins
  with no hexadecimal digit is taken for size 0, so the body ends there.
\<close>

theorem damaged_chunk_size_truncates:
  assumes "http_connected env address args u s" "accepting (sys_sends s) (length (sent_text env verb body args u))"
    and "ready w s (bytes_of (response_text n desc fs (concat (map encode_chunk cs) @ (c # line) @ CRLF @ CRLF @ tail)) @ rest)"
    and "n < 2 ^ 31" "header_text_ok desc" "list_all field_ok fs"
    and "headers_find (headers_of fs) ''Content-Length'' = None" "headers_find (headers_of fs) ''Transfer-Encoding'' = Some ''chunked''"
    and "headers_find (headers_of fs) ''Content-Encoding'' = None" "[] \<notin> set cs" "length (concat cs) < 2 ^ 64" "int (length (concat cs)) \<le> he_memory env"
    and "\<not> c_isspace c" "\<not> c_isxdigit c" "c \<noteq> CHR ''-''" "c \<noteq> CHR ''+''" "CR \<notin> set (c # line)" "LF \<notin> set (c # line)"
    and "verb \<noteq> ''HEAD''" "\<not> http_redirects args (int n)"
  shows "\<exists>r lg s'. request env address verb body args redirects = Some (Responded r, lg, Some s') \<and>
    resp_errorCode r = HttpOk \<and> resp_payload r = concat cs"
proof -
  let ?req = "sent_text env verb body args u" and ?rest = "bytes_of tail @ rest"
  obtain cancel s1 lg1 where nc: "\<And>k. \<not> cancel k"
    and r1: "ready (w @ bytes_of ?req) s1 (bytes_of (concat (map encode_chunk cs) @ (c # line) @ CRLF @ CRLF @ tail) @ rest)"
    and req: "request env address verb body args redirects = map_option (\<lambda>(r, lg, s3). (r, lg, Some s3))
      (http_finish env args cancel verb redirects (int n) (headers_of fs) (length ?req) lg1 s1)"
    using request_answered [OF assms(1-6)] by metis
  have r2: "ready (w @ bytes_of ?req) s1 (bytes_of (concat (map encode_chunk cs)) @ (bytes_of ((c # line) @ CRLF @ CRLF) @ ?rest))"
    using r1 unfolding bytes_of_append append_assoc .
  have b: "length [] + length (concat cs) < 2 ^ 64" "int (length [] + length (concat cs)) \<le> he_memory env" using assms(11,12) by simp_all
  obtain s2 lg2 n2 where s2: "ready (w @ bytes_of ?req) s2 (bytes_of ((c # line) @ CRLF @ CRLF) @ ?rest)"
    "chunk_loop env args cancel True 0 [] lg1 s1 = chunk_loop env args cancel True n2 ([] @ concat cs) lg2 s2"
    using chunk_loop_prefix [where cancel = cancel, OF r2 nc assms(10) b] by blast
  obtain s3 lg3 where "chunk_loop env args cancel True n2 (concat cs) lg2 s2 = Some (Body (concat cs), lg3, s3)"
    using chunk_loop_malformed [where cancel = cancel, OF s2(1) nc assms(11-18)] by blast
  then have "read_body env args cancel (int n) (headers_of fs) lg1 s1 = Some (Body (concat cs), lg3, s3)"
    using s2(2) assms(7,8) by (simp add: read_body_def)
  then have "http_finish env args cancel verb redirects (int n) (headers_of fs) (length ?req) lg1 s1 =
      Some (http_reply (int n) HttpOk (snd (headers_index (headers_of fs) ''Content-Encoding'')) (concat cs) [] (length ?req) (length (concat cs)), lg3, s3)"
    using assms(9,19,20) by (simp add: http_finish_def http_body_def Let_def split_beta headers_index_def)
  then show ?thesis unfolding req by (simp add: http_reply_def)
qed

subsection \<open>A connection\<close>

definition demo_args :: HttpRequestArgs where
  "demo_args = \<lparr>args_url = [], args_verb = kGet, args_extraHeaders = [], args_body = [], args_connectTimeout = 3, args_transferTimeout = 3,
     args_followRedirects = True, args_maxRedirects = 5, args_verbose = False, args_compress = False, args_logger = False\<rparr>"

definition demo_http_env :: "string \<Rightarrow> nat \<Rightarrow> string http_env" where
  "demo_http_env input room =
     \<lparr>he_attempt = \<lparr>at_henv = demo_henv, at_pipe = \<lparr>pipe_ret = Some (5, 6), fcntl_read_ok = True, fcntl_write_ok = True, pipe_strerror = []\<rparr>,
        at_socket = (Socket_new (-1) (SelectInterruptPipe_new 8))\<lparr>sys_recvs := [RecvData (bytes_of input)], sys_sends := [SendAccept room],
          sys_polls := [PollReady True False 0]\<rparr>\<rparr>,
      he_connectStart = 0, he_connectClock = (\<lambda>_. 0), he_transferStart = 0, he_transferClock = (\<lambda>_. 0), he_memory = 1000000,
      he_garbage = (\<lambda>_. 0)\<rparr>"

definition demo_url :: url where
  "demo_url = \<lparr>protocol = ''http'', host = ''example.com'', path = ''/a.txt'', query = [], port = 80\<rparr>"

lemma demo_http_connected:
  assumes "input \<noteq> []"
  shows "\<exists>s. http_connected (demo_http_env input room) ''http://example.com/a.txt'' demo_args demo_url s \<and>
    sys_sends s = [SendAccept room] \<and> ready [] s (bytes_of input @ [])"
proof -
  let ?cancel = "makeCancellationRequestWithTimeout (args_connectTimeout demo_args) (\<lambda>_. False) 0 (\<lambda>_. 0)"
  let ?s = "(at_socket (he_attempt (demo_http_env input room)))\<lparr>interrupt := (SelectInterruptPipe_new 8)\<lparr>fildes_read := 5, fildes_write := 6\<rparr>\<rparr>"
  let ?t = "?s\<lparr>cancel_queries := 2, sys_polls := [], poll_timeouts := [10], sockfd := 7\<rparr>"
  have nc: "?cancel k = False" for k by (simp add: makeCancellationRequestWithTimeout_def demo_args_def)
  have u: "parse_url ''http://example.com/a.txt'' = Some demo_url" by code_simp
  have cs: "createSocket (at_pipe (he_attempt (demo_http_env input room))) False (at_socket (he_attempt (demo_http_env input room))) = Inr ?s"
    by (simp add: createSocket_def createSocket_fd_def socket_init_def Socket_make_def pipe_init_def SelectInterruptPipe_new_def
        demo_http_env_def Socket_new_def)
  have b: "bytes_of input \<noteq> []" using assms by (simp add: bytes_of_def)
  have w: "resolve_wait (h_net demo_henv) ?cancel 0 s = Some (True, s)" for s
    by (subst resolve_wait.simps) (simp add: demo_henv_def)
  have cw: "connect_wait (h_net demo_henv) ?cancel 7 (?s\<lparr>cancel_queries := Suc 0\<rparr>) =
      Some (7, ''no error'', ?s\<lparr>cancel_queries := 2, sys_polls := [], poll_timeouts := [10]\<rparr>)"
    by (subst connect_wait.simps) (simp add: ask_def nc poll_fd_def socket_poll_def next_poll_def demo_http_env_def Socket_new_def
        pipe_getFd_def SelectInterruptPipe_new_def)
  have g: "getAddrInfo (h_net demo_henv) host port = ([\<lparr>ai_socket = 7, ai_connect = None\<rparr>], [])" for host port
    by (simp add: getAddrInfo_def demo_henv_def)
  define s where "s = ?s"
  have q: "cancel_queries s = 0" by (simp add: s_def demo_http_env_def Socket_new_def)
  have cw1: "connect_wait (h_net demo_henv) ?cancel 7 (s\<lparr>cancel_queries := Suc 0\<rparr>) =
      Some (7, ''no error'', s\<lparr>cancel_queries := 2, sys_polls := [], poll_timeouts := [10]\<rparr>)" using cw unfolding s_def .
  have "socket_connect (h_net demo_henv) ''example.com'' 80 ?cancel s =
      Some (True, ''no error'', s\<lparr>cancel_queries := 2, sys_polls := [], poll_timeouts := [10], sockfd := 7\<rparr>)"
    using cw1 by (simp add: socket_connect_def pipe_clear_def SocketConnect_connect_def resolve_def resolveCancellable_def w g ask_def nc
        connectToAddress_def q)
  then have "socket_connect (h_net demo_henv) ''example.com'' 80 ?cancel ?s =
      Some (True, ''no error'', ?s\<lparr>cancel_queries := 2, sys_polls := [], poll_timeouts := [10], sockfd := 7\<rparr>)" unfolding s_def .
  then have "http_connected (demo_http_env input room) ''http://example.com/a.txt'' demo_args demo_url
      (?s\<lparr>cancel_queries := 2, sys_polls := [], poll_timeouts := [10], sockfd := 7\<rparr>)"
    using u cs nc unfolding http_connected_def
    by (auto simp: demo_url_def demo_http_env_def makeCancellationRequestWithTimeout_def demo_args_def)
  moreover have "sys_sends ?t = [SendAccept room]" "ready [] ?t (bytes_of input @ [])"
    using b by (simp_all add: demo_http_env_def Socket_new_def ready_def plain_def no_poll_failure_def)
  ultimately show ?thesis by blast
qed

definition demo_room :: "string \<Rightarrow> string \<Rightarrow> nat" where
  "demo_room verb body = Suc (length (http_request_text demo_henv verb (host demo_url) (path demo_url) body demo_args))"

lemma demo_peer:
  assumes "input \<noteq> []"
  shows "\<exists>s. http_connected (demo_http_env input (demo_room verb body)) ''http://example.com/a.txt'' demo_args demo_url s \<and>
    accepting (sys_sends s) (length (sent_text (demo_http_env input (demo_room verb body)) verb body demo_args demo_url)) \<and>
    ready [] s (bytes_of input @ [])"
proof -
  have "length (sent_text (demo_http_env input room) verb body demo_args demo_url) < demo_room verb body" for room
    by (simp add: sent_text_def demo_room_def demo_http_env_def)
  then have "accepting [SendAccept (demo_room verb body)] (length (sent_text (demo_http_env input room) verb body demo_args demo_url))" for room
    by (simp add: demo_room_def less_imp_le)
  then show ?thesis using demo_http_connected [OF assms, of "demo_room verb body"] by metis
qed

lemma response_text_nonempty: "response_text n desc fs t \<noteq> []"
  by (simp add: response_text_def)

lemma demo_fields:
  "list_all field_ok [(''Transfer-Encoding'', ''chunked'')]" "list_all field_ok [(''Location'', ''http://example.com/b'')]"
  "headers_find (headers_of [(''Transfer-Encoding'', ''chunked'')]) ''Transfer-Encoding'' = Some ''chunked''"
  "headers_find (headers_of [(''Transfer-Encoding'', ''chunked'')]) ''Content-Length'' = None"
  "headers_find (headers_of [(''Transfer-Encoding'', ''chunked'')]) ''Content-Encoding'' = None"
  "headers_find (headers_of [(''Location'', ''http://example.com/b'')]) ''Location'' = Some ''http://example.com/b''"
  by (simp_all add: field_ok_def header_text_ok_def char_consts headers_find_def NocaseCompare_def c_tolower_def c_isupper_def)

lemma demo_words: "header_text_ok ''OK''" "kGet \<noteq> ''HEAD''"
  by (simp_all add: header_text_ok_def char_consts kGet_def)


theorem redirect_relocks_witness:
  "\<exists>lg so. request (demo_http_env (response_text 301 ''OK'' [(''Location'', ''http://example.com/b'')] []) (demo_room kGet []))
     ''http://example.com/a.txt'' kGet [] demo_args 0 = Some (Relocks, lg, so)"
proof -
  let ?fs = "[(''Location'', ''http://example.com/b'')]"
  define env where "env = demo_http_env (response_text 301 ''OK'' ?fs []) (demo_room kGet [])"
  obtain s where s: "http_connected env ''http://example.com/a.txt'' demo_args demo_url s"
    "accepting (sys_sends s) (length (sent_text env kGet [] demo_args demo_url))"
    "ready [] s (bytes_of (response_text 301 ''OK'' ?fs []) @ [])"
    using demo_peer [OF response_text_nonempty] unfolding env_def by blast
  have side: "(301 :: nat) \<le> 301" "(301 :: nat) \<le> 308" "args_followRedirects demo_args" "0 < args_maxRedirects demo_args"
    by (simp_all add: demo_args_def)
  show ?thesis
    using redirect_relocks [OF s demo_words(1) demo_fields(2) side demo_fields(6)] unfolding env_def .
qed

theorem damaged_chunk_size_truncates_witness:
  "\<exists>r lg s'. request (demo_http_env (response_text 200 ''OK'' [(''Transfer-Encoding'', ''chunked'')]
       (concat (map encode_chunk [''hel'']) @ (CHR ''x'' # ''2'') @ CRLF @ CRLF @ ''lo'')) (demo_room kGet []))
     ''http://example.com/a.txt'' kGet [] demo_args 0 = Some (Responded r, lg, Some s') \<and>
     resp_errorCode r = HttpOk \<and> resp_payload r = ''hel''"
proof -
  let ?fs = "[(''Transfer-Encoding'', ''chunked'')]" and ?t = "concat (map encode_chunk [''hel'']) @ (CHR ''x'' # ''2'') @ CRLF @ CRLF @ ''lo''"
  define env where "env = demo_http_env (response_text 200 ''OK'' ?fs ?t) (demo_room kGet [])"
  obtain s where s: "http_connected env ''http://example.com/a.txt'' demo_args demo_url s"
    "accepting (sys_sends s) (length (sent_text env kGet [] demo_args demo_url))"
    "ready [] s (bytes_of (response_text 200 ''OK'' ?fs ?t) @ [])"
    using demo_peer [OF response_text_nonempty] unfolding env_def by blast
  have side: "(200 :: nat) < 2 ^ 31" "[] \<notin> set [''hel'']" "length (concat [''hel'']) < 2 ^ 64" "int (length (concat [''hel''])) \<le> he_memory env"
    by (simp_all add: env_def demo_http_env_def)
  have x: "\<not> c_isspace (CHR ''x'')" "\<not> c_isxdigit (CHR ''x'')" "CHR ''x'' \<noteq> CHR ''-''" "CHR ''x'' \<noteq> CHR ''+''"
    "CR \<notin> set (CHR ''x'' # ''2'')" "LF \<notin> set (CHR ''x'' # ''2'')"
    by (simp_all add: c_isspace_def c_isxdigit_def c_isdigit_def CR_def LF_def)
  have r: "\<not> http_redirects demo_args (int 200)" by (simp add: http_redirects_def)
  show ?thesis
    using damaged_chunk_size_truncates [OF s side(1) demo_words(1) demo_fields(1,4,3,5) side(2-4) x demo_words(2) r, of 0]
    unfolding env_def by simp
qed

end
