(* ===== verification/HttpAsync.thy ===== *)
theory HttpAsync
  imports Fifo HttpClientProperties
begin

section \<open>The asynchronous interface of the HTTP client\<close>

text \<open>
  The rest of \<^verbatim>\<open>IXHttpClient.cpp\<close>: the calls for each verb, and the thread that performs queued requests.
  A step of \<open>run\<close> goes from one access of shared state to the next; \<open>Deciding\<close> and \<open>Leaving\<close> hold the
  mutex of the queue, which \<open>performRequest\<close> needs and the destructor does not take. The \<open>k\<close>-th
  request is made in the environment \<open>envs k\<close>. A request that does not return leaves the thread
  \<open>Hung\<close>, one that throws ends the program, \<open>Terminated\<close>. The assertion in \<open>performRequest\<close> is taken as
  compiled out.
\<close>

subsection \<open>Verbs\<close>

definition http_get :: "'z http_env \<Rightarrow> string \<Rightarrow> HttpRequestArgs \<Rightarrow> (http_result \<times> string list \<times> socket option) option" where
  "http_get env address args = request env address kGet [] args 0"

definition http_head :: "'z http_env \<Rightarrow> string \<Rightarrow> HttpRequestArgs \<Rightarrow> (http_result \<times> string list \<times> socket option) option" where
  "http_head env address args = request env address kHead [] args 0"

definition http_del :: "'z http_env \<Rightarrow> string \<Rightarrow> HttpRequestArgs \<Rightarrow> (http_result \<times> string list \<times> socket option) option" where
  "http_del env address args = request env address kDel [] args 0"

definition http_post :: "'z http_env \<Rightarrow> string \<Rightarrow> string \<Rightarrow> HttpRequestArgs \<Rightarrow> (http_result \<times> string list \<times> socket option) option" where
  "http_post env address body args = request env address kPost body args 0"

definition http_post_parameters ::
  "'z http_env \<Rightarrow> string \<Rightarrow> (string \<times> string) list \<Rightarrow> HttpRequestArgs \<Rightarrow> (http_result \<times> string list \<times> socket option) option" where
  "http_post_parameters env address httpParameters args = request env address kPost (serializeHttpParameters httpParameters) args 0"

definition http_put :: "'z http_env \<Rightarrow> string \<Rightarrow> string \<Rightarrow> HttpRequestArgs \<Rightarrow> (http_result \<times> string list \<times> socket option) option" where
  "http_put env address body args = request env address kPut body args 0"

definition http_put_parameters ::
  "'z http_env \<Rightarrow> string \<Rightarrow> (string \<times> string) list \<Rightarrow> HttpRequestArgs \<Rightarrow> (http_result \<times> string list \<times> socket option) option" where
  "http_put_parameters env address httpParameters args = request env address kPut (serializeHttpParameters httpParameters) args 0"

text \<open>\<open>make_shared<HttpRequestArgs>()\<close> sets every number to zero.\<close>

definition createRequest :: "string \<Rightarrow> string \<Rightarrow> HttpRequestArgs" where
  "createRequest address verb =
     \<lparr>args_url = address, args_verb = verb, args_extraHeaders = [], args_body = [], args_connectTimeout = 0, args_transferTimeout = 0,
      args_followRedirects = False, args_maxRedirects = 0, args_verbose = False, args_compress = False, args_logger = False\<rparr>"

subsection \<open>State\<close>

type_synonym http_job = "HttpRequestArgs \<times> nat"

datatype worker_pc =
  NotStarted | AtQueue | Deciding | Waiting | Leaving | Taken http_job | Performing http_job | Answered | Ended | Hung | Terminated

datatype destroy_pc = Alive | Stopping | Notified | Destroyed

record http_client =
  hc_async :: bool
  hc_stop :: bool
  hc_queue :: "http_job list"
  hc_worker :: worker_pc
  hc_notifies :: nat
  hc_destroy :: destroy_pc
  hc_calls :: "(nat \<times> HttpResponse) list"

definition HttpClient_new :: "bool \<Rightarrow> http_client" where
  "HttpClient_new async =
     \<lparr>hc_async = async, hc_stop = False, hc_queue = [], hc_worker = (if async then AtQueue else NotStarted), hc_notifies = 0,
      hc_destroy = Alive, hc_calls = []\<rparr>"

definition enqueue_job :: "http_job \<Rightarrow> http_client \<Rightarrow> http_client" where
  "enqueue_job j c = c\<lparr>hc_queue := hc_queue c @ [j]\<rparr>"

text \<open>The call up to its notification, which is a step of its own.\<close>

definition performRequest :: "HttpRequestArgs \<Rightarrow> nat \<Rightarrow> http_client \<Rightarrow> bool \<times> http_client" where
  "performRequest args onResponseCallback c =
     (if \<not> hc_async c then (False, c)
      else (True, (enqueue_job (args, onResponseCallback) c)\<lparr>hc_notifies := hc_notifies c + 1\<rparr>))"

definition notify_one :: "http_client \<Rightarrow> http_client" where
  "notify_one c = (if hc_worker c = Waiting then c\<lparr>hc_worker := AtQueue\<rparr> else c)"

definition dequeue_job :: "http_client \<Rightarrow> http_job option \<times> http_client" where
  "dequeue_job c = (case hc_queue c of [] \<Rightarrow> (None, c) | j # js \<Rightarrow> (Some j, c\<lparr>hc_queue := js\<rparr>))"

interpretation jobs: fifo_queue enqueue_job dequeue_job hc_queue
  by unfold_locales (auto simp: enqueue_job_def dequeue_job_def)

subsection \<open>The thread\<close>

definition perform :: "(nat \<Rightarrow> 'z http_env) \<Rightarrow> http_job \<Rightarrow> http_client \<Rightarrow> http_client" where
  "perform envs j c =
     (let args = fst j in
      case request (envs (length (hc_calls c))) (args_url args) (args_verb args) (args_body args) args 0 of
        Some (Responded r, _) \<Rightarrow> c\<lparr>hc_calls := hc_calls c @ [(snd j, r)], hc_worker := Answered\<rparr>
      | Some (Relocks, _) \<Rightarrow> c\<lparr>hc_worker := Hung\<rparr>
      | None \<Rightarrow> c\<lparr>hc_worker := Hung\<rparr>
      | _ \<Rightarrow> c\<lparr>hc_worker := Terminated\<rparr>)"

definition worker_step :: "(nat \<Rightarrow> 'z http_env) \<Rightarrow> http_client \<Rightarrow> http_client option" where
  "worker_step envs c =
     (case hc_worker c of
        AtQueue \<Rightarrow> Some (c\<lparr>hc_worker := if \<not> hc_stop c \<and> hc_queue c = [] then Deciding else Leaving\<rparr>)
      | Deciding \<Rightarrow> Some (c\<lparr>hc_worker := Waiting\<rparr>)
      | Leaving \<Rightarrow>
          if hc_stop c then Some (c\<lparr>hc_worker := Ended\<rparr>)
          else (case dequeue_job c of
                  (None, c1) \<Rightarrow> Some (c1\<lparr>hc_worker := Terminated\<rparr>)
                | (Some j, c1) \<Rightarrow> Some (c1\<lparr>hc_worker := Taken j\<rparr>))
      | Taken j \<Rightarrow> Some (c\<lparr>hc_worker := if hc_stop c then Ended else Performing j\<rparr>)
      | Performing j \<Rightarrow> Some (perform envs j c)
      | Answered \<Rightarrow> Some (c\<lparr>hc_worker := if hc_stop c then Ended else AtQueue\<rparr>)
      | _ \<Rightarrow> None)"

definition holds_queueMutex :: "worker_pc \<Rightarrow> bool" where
  "holds_queueMutex pc \<longleftrightarrow> pc = Deciding \<or> pc = Leaving"

text \<open>The steps of all threads, with the requests they submit. A client is not destroyed during a call of one of its methods.\<close>

inductive async_step :: "(nat \<Rightarrow> 'z http_env) \<Rightarrow> http_client \<Rightarrow> http_job list \<Rightarrow> http_client \<Rightarrow> bool" for envs where
  submit: "hc_destroy c = Alive \<Longrightarrow> hc_worker c \<noteq> Terminated \<Longrightarrow> \<not> holds_queueMutex (hc_worker c) \<Longrightarrow>
     performRequest args k c = (True, c') \<Longrightarrow> async_step envs c [(args, k)] c'"
| notify: "hc_worker c \<noteq> Terminated \<Longrightarrow> hc_notifies c > 0 \<Longrightarrow>
     async_step envs c [] (notify_one (c\<lparr>hc_notifies := hc_notifies c - 1\<rparr>))"
| work: "worker_step envs c = Some c' \<Longrightarrow> async_step envs c [] c'"
| destroy_unstarted: "hc_destroy c = Alive \<Longrightarrow> hc_worker c = NotStarted \<Longrightarrow> async_step envs c [] (c\<lparr>hc_destroy := Destroyed\<rparr>)"
| destroy_stop: "hc_destroy c = Alive \<Longrightarrow> hc_worker c \<noteq> NotStarted \<Longrightarrow> hc_worker c \<noteq> Terminated \<Longrightarrow> hc_notifies c = 0 \<Longrightarrow>
     async_step envs c [] (c\<lparr>hc_stop := True, hc_destroy := Stopping\<rparr>)"
| destroy_notify: "hc_destroy c = Stopping \<Longrightarrow> hc_worker c \<noteq> Terminated \<Longrightarrow> async_step envs c [] (notify_one (c\<lparr>hc_destroy := Notified\<rparr>))"
| destroy_join: "hc_destroy c = Notified \<Longrightarrow> hc_worker c = Ended \<Longrightarrow> async_step envs c [] (c\<lparr>hc_destroy := Destroyed\<rparr>)"

inductive_cases async_stepE: "async_step envs c js c'"

text \<open>A condition variable may also wake its waiter for no reason.\<close>

inductive spurious_wakeup :: "http_client \<Rightarrow> http_client \<Rightarrow> bool" where
  "hc_worker c = Waiting \<Longrightarrow> spurious_wakeup c (c\<lparr>hc_worker := AtQueue\<rparr>)"

inductive async_run :: "(nat \<Rightarrow> 'z http_env) \<Rightarrow> http_job list \<Rightarrow> http_client \<Rightarrow> bool" for envs where
  start: "async_run envs [] (HttpClient_new True)"
| step: "async_run envs js c \<Longrightarrow> async_step envs c new c' \<Longrightarrow> async_run envs (js @ new) c'"
| spurious: "async_run envs js c \<Longrightarrow> spurious_wakeup c c' \<Longrightarrow> async_run envs js c'"

subsection \<open>Invariants\<close>

fun in_hand :: "worker_pc \<Rightarrow> http_job list" where
  "in_hand (Taken j) = [j]"
| "in_hand (Performing j) = [j]"
| "in_hand _ = []"

definition answered :: "(nat \<Rightarrow> 'z http_env) \<Rightarrow> http_job list \<Rightarrow> (nat \<times> HttpResponse) list \<Rightarrow> bool" where
  "answered envs js calls \<longleftrightarrow> length calls \<le> length js \<and>
     (\<forall>i < length calls. fst (calls ! i) = snd (js ! i) \<and>
        (\<exists>lg so. request (envs i) (args_url (fst (js ! i))) (args_verb (fst (js ! i))) (args_body (fst (js ! i))) (fst (js ! i)) 0
           = Some (Responded (snd (calls ! i)), lg, so)))"

definition gone :: "worker_pc \<Rightarrow> bool" where
  "gone pc \<longleftrightarrow> pc = Ended \<or> pc = Hung \<or> pc = Terminated"

definition async_inv :: "(nat \<Rightarrow> 'z http_env) \<Rightarrow> http_job list \<Rightarrow> http_client \<Rightarrow> bool" where
  "async_inv envs js c \<longleftrightarrow> hc_async c \<and> hc_worker c \<noteq> NotStarted \<and> answered envs js (hc_calls c) \<and>
     (\<not> gone (hc_worker c) \<longrightarrow> drop (length (hc_calls c)) js = in_hand (hc_worker c) @ hc_queue c) \<and>
     (hc_worker c = Waiting \<longrightarrow> hc_queue c = [] \<or> hc_notifies c > 0) \<and>
     (hc_worker c = Deciding \<longrightarrow> hc_queue c = []) \<and>
     (hc_worker c = Leaving \<longrightarrow> hc_stop c \<or> hc_queue c \<noteq> []) \<and>
     (hc_stop c \<longleftrightarrow> hc_destroy c \<noteq> Alive) \<and> (hc_destroy c = Destroyed \<longrightarrow> hc_worker c = Ended)"

lemma answered_mono: "answered envs js calls \<Longrightarrow> answered envs (js @ new) calls"
  by (auto simp: answered_def nth_append)

lemma answered_one:
  assumes "answered envs js calls" "drop (length calls) js = j # rest"
    and "request (envs (length calls)) (args_url (fst j)) (args_verb (fst j)) (args_body (fst j)) (fst j) 0 = Some (Responded r, lg, so)"
  shows "answered envs js (calls @ [(snd j, r)])"
proof -
  have l: "length calls < length js" using assms(2) by (metis drop_all linorder_not_less list.discI)
  have j: "js ! length calls = j" using assms(2) l by (metis hd_drop_conv_nth list.sel(1))
  show ?thesis using assms(1,3) l j by (auto simp: answered_def nth_append less_Suc_eq)
qed

lemma perform_inv:
  assumes "async_inv envs js c" "hc_worker c = Performing j"
  shows "async_inv envs js (perform envs j c)"
proof -
  have d: "drop (length (hc_calls c)) js = j # hc_queue c" and a: "answered envs js (hc_calls c)"
    using assms by (auto simp: async_inv_def gone_def)
  have "drop (Suc (length (hc_calls c))) js = hc_queue c" using d by (metis drop_Suc list.sel(3) tl_drop)
  then show ?thesis
    using assms answered_one [OF a d]
    by (auto simp: perform_def async_inv_def gone_def Let_def split: option.split http_result.split)
qed

lemma worker_inv:
  assumes "async_inv envs js c" "worker_step envs c = Some c'"
  shows "async_inv envs js c'"
proof (cases "\<exists>j. hc_worker c = Performing j")
  case True
  then show ?thesis using assms perform_inv by (auto simp: worker_step_def)
next
  case False
  then show ?thesis
    using assms by (auto simp: worker_step_def dequeue_job_def async_inv_def gone_def split: worker_pc.splits if_splits list.splits)
qed

lemma submit_inv:
  assumes "async_inv envs js c" "\<not> holds_queueMutex (hc_worker c)" "performRequest args k c = (True, c')"
  shows "async_inv envs (js @ [(args, k)]) c'"
proof -
  have "length (hc_calls c) \<le> length js" using assms(1) by (simp add: async_inv_def answered_def)
  then show ?thesis using assms answered_mono [of envs js "hc_calls c" "[(args, k)]"]
    by (auto simp: async_inv_def performRequest_def enqueue_job_def holds_queueMutex_def split: if_splits)
qed

lemma step_inv: "async_step envs c new c' \<Longrightarrow> async_inv envs js c \<Longrightarrow> async_inv envs (js @ new) c'"
  by (induction rule: async_step.induct)
    (simp_all add: submit_inv worker_inv, auto simp: async_inv_def notify_one_def gone_def)

lemma spurious_inv: "spurious_wakeup c c' \<Longrightarrow> async_inv envs js c \<Longrightarrow> async_inv envs js c'"
  by (induction rule: spurious_wakeup.induct) (simp add: async_inv_def gone_def)

lemma run_inv: "async_run envs js c \<Longrightarrow> async_inv envs js c"
proof (induction rule: async_run.induct)
  case start
  then show ?case by (simp add: async_inv_def HttpClient_new_def answered_def)
next
  case (step js c new c')
  then show ?case using step_inv by blast
next
  case (spurious js c c')
  then show ?case using spurious_inv by blast
qed

text \<open>
  C11. Queued requests are answered in the order of their submission, each once: whatever the threads
  do, the \<open>i\<close>-th response goes to the callback of the \<open>i\<close>-th request submitted and is what \<open>request\<close>
  returned for it, and as long as the thread goes on, the requests not yet answered are the one in
  hand and those in the queue.
\<close>

theorem async_in_order:
  assumes "async_run envs js c"
  shows "(\<forall>i < length (hc_calls c). i < length js \<and> fst (hc_calls c ! i) = snd (js ! i) \<and>
      (\<exists>lg so. request (envs i) (args_url (fst (js ! i))) (args_verb (fst (js ! i))) (args_body (fst (js ! i))) (fst (js ! i)) 0
         = Some (Responded (snd (hc_calls c ! i)), lg, so))) \<and>
    (\<not> gone (hc_worker c) \<longrightarrow> drop (length (hc_calls c)) js = in_hand (hc_worker c) @ hc_queue c)"
  using run_inv [OF assms] by (auto simp: async_inv_def answered_def)

subsection \<open>Progress\<close>

definition job_responds :: "(nat \<Rightarrow> 'z http_env) \<Rightarrow> nat \<Rightarrow> http_job \<Rightarrow> bool" where
  "job_responds envs k j \<longleftrightarrow>
     (\<exists>r lg so. request (envs k) (args_url (fst j)) (args_verb (fst j)) (args_body (fst j)) (fst j) 0 = Some (Responded r, lg, so))"

definition responds :: "(nat \<Rightarrow> 'z http_env) \<Rightarrow> http_job list \<Rightarrow> bool" where
  "responds envs js \<longleftrightarrow> (\<forall>k < length js. job_responds envs k (js ! k))"

lemma responds_append: "responds envs (js @ new) \<Longrightarrow> responds envs js"
  by (simp add: responds_def nth_append) (metis trans_less_add1)

lemma pending_responds:
  assumes "async_inv envs js c" "responds envs js" "\<not> gone (hc_worker c)" "in_hand (hc_worker c) @ hc_queue c = j # q"
  shows "job_responds envs (length (hc_calls c)) j"
proof -
  have d: "drop (length (hc_calls c)) js = j # q" using assms by (simp add: async_inv_def)
  then have "length (hc_calls c) < length js" by (metis drop_all linorder_not_less list.discI)
  moreover have "js ! length (hc_calls c) = j" using d calculation by (metis hd_drop_conv_nth list.sel(1))
  ultimately show ?thesis using assms(2) by (auto simp: responds_def)
qed

fun work_steps :: "(nat \<Rightarrow> 'z http_env) \<Rightarrow> nat \<Rightarrow> http_client \<Rightarrow> http_client" where
  "work_steps envs 0 c = c"
| "work_steps envs (Suc n) c = (case worker_step envs c of None \<Rightarrow> c | Some c' \<Rightarrow> work_steps envs n c')"

lemma work_steps_add: "work_steps envs n (work_steps envs m c) = work_steps envs (m + n) c"
proof (induction m arbitrary: c)
  case (Suc m)
  show ?case
  proof (cases "worker_step envs c")
    case None
    then have "work_steps envs n c = c" by (cases n) simp_all
    then show ?thesis using None by simp
  qed (simp add: Suc)
qed simp

lemma work_run: "async_run envs js c \<Longrightarrow> async_run envs js (work_steps envs n c)"
proof (induction n arbitrary: c)
  case (Suc n)
  then show ?case using async_run.step [OF Suc.prems async_step.work] by (auto split: option.splits)
qed simp

lemma perform_responds:
  assumes "job_responds envs (length (hc_calls c)) j"
  shows "\<exists>r. perform envs j c = c\<lparr>hc_calls := hc_calls c @ [(snd j, r)], hc_worker := Answered\<rparr>"
  using assms by (force simp: job_responds_def perform_def Let_def)

definition goes_on :: "http_client \<Rightarrow> bool" where
  "goes_on c \<longleftrightarrow> hc_worker c \<noteq> Hung \<and> hc_worker c \<noteq> Terminated \<and> (hc_worker c = Ended \<longrightarrow> hc_stop c)"

lemma worker_goes_on:
  assumes "async_inv envs js c" "responds envs js" "worker_step envs c = Some c'"
  shows "goes_on c'"
proof (cases "\<exists>j. hc_worker c = Performing j")
  case True
  then obtain j where j: "hc_worker c = Performing j" "c' = perform envs j c" using assms(3) by (auto simp: worker_step_def)
  then show ?thesis using perform_responds [OF pending_responds [OF assms(1,2)], of j] by (auto simp: goes_on_def gone_def)
next
  case False
  then show ?thesis
    using assms(1,3)
    by (auto simp: worker_step_def dequeue_job_def async_inv_def goes_on_def split: worker_pc.splits if_splits list.splits)
qed

lemma run_goes_on: "async_run envs js c \<Longrightarrow> responds envs js \<Longrightarrow> goes_on c"
proof (induction rule: async_run.induct)
  case (step js c new c')
  note r = responds_append [OF step(4)]
  have "worker_step envs c = Some d \<Longrightarrow> goes_on d" for d
    using worker_goes_on [OF run_inv [OF step(1)] r] .
  with step(2) step(3) [OF r] show ?case
    by (induction rule: async_step.induct) (auto simp: goes_on_def performRequest_def enqueue_job_def notify_one_def split: if_splits)
qed (auto simp: goes_on_def HttpClient_new_def elim: spurious_wakeup.cases)

definition answers_next :: "(nat \<Rightarrow> 'z http_env) \<Rightarrow> nat \<Rightarrow> http_job \<Rightarrow> http_job list \<Rightarrow> http_client \<Rightarrow> bool" where
  "answers_next envs n j q c \<longleftrightarrow>
     (let c' = work_steps envs n c
      in hc_worker c' = Answered \<and> hc_queue c' = q \<and> hc_stop c' = hc_stop c \<and> hc_notifies c' = hc_notifies c \<and>
         map fst (hc_calls c') = map fst (hc_calls c) @ [snd j])"

lemma answers_step:
  assumes "worker_step envs c = Some c1" "answers_next envs n j q c1" "hc_stop c1 = hc_stop c" "hc_notifies c1 = hc_notifies c" "hc_calls c1 = hc_calls c"
  shows "answers_next envs (Suc n) j q c"
  using assms by (simp add: answers_next_def Let_def)

lemma answers_performing:
  "job_responds envs (length (hc_calls c)) j \<Longrightarrow> hc_worker c = Performing j \<Longrightarrow> hc_queue c = q \<Longrightarrow> answers_next envs 1 j q c"
  using perform_responds [of envs c j] by (auto simp: answers_next_def worker_step_def)

lemma answers_taken:
  "job_responds envs (length (hc_calls c)) j \<Longrightarrow> hc_worker c = Taken j \<Longrightarrow> hc_queue c = q \<Longrightarrow> \<not> hc_stop c \<Longrightarrow> answers_next envs (Suc 1) j q c"
  by (rule answers_step [of envs c "c\<lparr>hc_worker := Performing j\<rparr>", OF _ answers_performing]) (simp_all add: worker_step_def)

lemma answers_leaving:
  "job_responds envs (length (hc_calls c)) j \<Longrightarrow> hc_worker c = Leaving \<Longrightarrow> hc_queue c = j # q \<Longrightarrow> \<not> hc_stop c \<Longrightarrow>
   answers_next envs (Suc (Suc 1)) j q c"
  by (rule answers_step [of envs c "c\<lparr>hc_queue := q, hc_worker := Taken j\<rparr>", OF _ answers_taken]) (simp_all add: worker_step_def dequeue_job_def)

lemma answers_at_queue:
  "job_responds envs (length (hc_calls c)) j \<Longrightarrow> hc_worker c = AtQueue \<Longrightarrow> hc_queue c = j # q \<Longrightarrow> \<not> hc_stop c \<Longrightarrow>
   answers_next envs (Suc (Suc (Suc 1))) j q c"
  by (rule answers_step [of envs c "c\<lparr>hc_worker := Leaving\<rparr>", OF _ answers_leaving]) (simp_all add: worker_step_def)

lemma answers_answered:
  "job_responds envs (length (hc_calls c)) j \<Longrightarrow> hc_worker c = Answered \<Longrightarrow> hc_queue c = j # q \<Longrightarrow> \<not> hc_stop c \<Longrightarrow>
   answers_next envs (Suc (Suc (Suc (Suc 1)))) j q c"
  by (rule answers_step [of envs c "c\<lparr>hc_worker := AtQueue\<rparr>", OF _ answers_at_queue]) (simp_all add: worker_step_def)

lemma answers_pending:
  assumes "async_run envs js c" "responds envs js" "\<not> hc_stop c" "hc_notifies c = 0" "in_hand (hc_worker c) @ hc_queue c = j # q"
  shows "\<exists>n. answers_next envs n j q c"
proof -
  have i: "async_inv envs js c" "goes_on c" using run_inv run_goes_on assms(1,2) by blast+
  then have "\<not> gone (hc_worker c)" using assms(3) by (auto simp: goes_on_def gone_def)
  note r = pending_responds [OF i(1) assms(2) this assms(5)]
  show ?thesis
  proof (cases "hc_worker c")
    case AtQueue then show ?thesis using answers_at_queue [OF r] assms(3,5) by fastforce
  next
    case Leaving then show ?thesis using answers_leaving [OF r] assms(3,5) by fastforce
  next
    case (Taken i) then show ?thesis using answers_taken [OF r] assms(3,5) by fastforce
  next
    case (Performing i) then show ?thesis using answers_performing [OF r] assms(5) by fastforce
  next
    case Answered then show ?thesis using answers_answered [OF r] assms(3,5) by fastforce
  qed (use i assms(3-5) in \<open>auto simp: async_inv_def goes_on_def\<close>)
qed

lemma all_answered:
  assumes "async_run envs js c" "responds envs js" "\<not> hc_stop c" "hc_notifies c = 0"
  shows "\<exists>n. map fst (hc_calls (work_steps envs n c)) = map snd js \<and> hc_queue (work_steps envs n c) = []"
  using assms
proof (induction "in_hand (hc_worker c) @ hc_queue c" arbitrary: c)
  case Nil
  have i: "async_inv envs js c" "goes_on c" using run_inv run_goes_on Nil by blast+
  then have "length js \<le> length (hc_calls c)" using Nil by (auto simp: async_inv_def gone_def goes_on_def)
  then have "map fst (hc_calls c) = map snd js" using i(1) by (auto simp: async_inv_def answered_def intro!: nth_equalityI)
  then show ?case using Nil by (intro exI [of _ 0]) simp
next
  case (Cons j q)
  obtain n where n: "answers_next envs n j q c"
    using answers_pending [OF Cons(3-6) Cons(2) [symmetric]] by blast
  let ?c = "work_steps envs n c"
  have "q = in_hand (hc_worker ?c) @ hc_queue ?c" "\<not> hc_stop ?c" "hc_notifies ?c = 0"
    using n Cons(5,6) by (simp_all add: answers_next_def Let_def)
  then obtain m where "map fst (hc_calls (work_steps envs m ?c)) = map snd js \<and> hc_queue (work_steps envs m ?c) = []"
    using Cons(1) [of ?c] work_run [OF Cons(3), of n] Cons(4) by blast
  then show ?case unfolding work_steps_add by blast
qed

text \<open>
  C12. No request is forgotten: whatever has happened before, if the client is not being destroyed, no
  call of \<open>performRequest\<close> is under way and each submitted request gets a response, then the thread by itself
  answers all submitted requests, in order, in finitely many steps. In particular it never sleeps
  while a request waits.
\<close>

theorem async_all_answered:
  assumes "async_run envs js c" "responds envs js" "\<not> hc_stop c" "hc_notifies c = 0"
  shows "\<exists>n. map fst (hc_calls (work_steps envs n c)) = map snd js \<and> hc_queue (work_steps envs n c) = []"
  by (rule all_answered [OF assms])

subsection \<open>Shutting down\<close>

lemma hang_run:
  "\<exists>c. async_run envs [] c \<and> hc_worker c = Waiting \<and> hc_stop c \<and> hc_destroy c = Notified \<and> hc_notifies c = 0 \<and> hc_queue c = []"
proof -
  let ?c0 = "HttpClient_new True"
  let ?c1 = "?c0\<lparr>hc_worker := Deciding\<rparr>"
  let ?c2 = "?c1\<lparr>hc_stop := True, hc_destroy := Stopping\<rparr>"
  let ?c3 = "?c2\<lparr>hc_destroy := Notified\<rparr>"
  let ?c4 = "?c3\<lparr>hc_worker := Waiting\<rparr>"
  have "async_step envs ?c0 [] ?c1" by (rule async_step.work) (simp add: worker_step_def HttpClient_new_def)
  then have "async_run envs [] ?c1" using async_run.step [OF async_run.start] by fastforce
  moreover have "async_step envs ?c1 [] ?c2" by (rule async_step.destroy_stop) (simp_all add: HttpClient_new_def)
  ultimately have "async_run envs [] ?c2" using async_run.step by fastforce
  moreover have "async_step envs ?c2 [] (notify_one ?c3)" by (rule async_step.destroy_notify) (simp_all add: HttpClient_new_def)
  then have "async_step envs ?c2 [] ?c3" by (simp add: notify_one_def)
  ultimately have "async_run envs [] ?c3" using async_run.step by fastforce
  moreover have "async_step envs ?c3 [] ?c4" by (rule async_step.work) (simp add: worker_step_def)
  ultimately have "async_run envs [] ?c4" using async_run.step by fastforce
  then show ?thesis by (intro exI [of _ ?c4]) (simp add: HttpClient_new_def)
qed

lemma blocked:
  assumes "hc_worker c = Waiting" "hc_destroy c = Notified" "hc_notifies c = 0"
  shows "\<not> async_step envs c js c'"
  using assms by (auto elim!: async_stepE simp: worker_step_def)

text \<open>
  Destroying an asynchronous client can hang: the destructor sets the flag and notifies without
  the mutex, and when it does so between the thread's test of the flag and its wait, the
  notification is lost. The thread then waits for ever, the destructor waits for the thread, and
  no step is left but a spurious wake-up of the condition variable.
\<close>

theorem async_destructor_can_hang:
  "\<exists>c. async_run envs [] c \<and> hc_destroy c = Notified \<and> hc_worker c = Waiting \<and> (\<forall>js c'. \<not> async_step envs c js c')"
  using hang_run blocked by blast

subsection \<open>Requests as created\<close>

lemma cancelled_resolve:
  assumes "\<And>k. cancel k"
  shows "\<exists>s'. resolve net True name no cancel s = Some ([], ''cancellation requested'', s')"
  using assms by (subst resolve_def, simp add: resolveCancellable_def, subst resolve_wait.simps) (simp add: ask_def)

text \<open>
  A request made by \<open>createRequest\<close> is never sent as it is: its timeouts are zero seconds, so that
  once the clock has moved on the connection counts as timed out, whatever the network does.
\<close>

theorem created_request_times_out:
  assumes "parse_url address = Some u" "createSocket (at_pipe (he_attempt env)) (protocol u = ''https'') (at_socket (he_attempt env)) = Inr s"
    and "\<And>k. he_connectStart env < he_connectClock env k"
  shows "\<exists>s'. request env address verb body (createRequest address verb) 0 =
    Some (http_reply 0 CannotConnect [] [] (''Cannot connect to url: '' @ address @ '' / error : cancellation requested'') 0 0, [], Some s')"
proof -
  let ?cancel = "makeCancellationRequestWithTimeout 0 (\<lambda>_. False) (he_connectStart env) (he_connectClock env)"
  have c: "?cancel k" for k using assms(3) [of k] by (simp add: makeCancellationRequestWithTimeout_def)
  obtain s' where "resolve (h_net (at_henv (he_attempt env))) True (host u) (port u) ?cancel s = Some ([], ''cancellation requested'', s')"
    using cancelled_resolve [of ?cancel] c by blast
  then show ?thesis
    using assms(1,2) by (simp add: request_def createRequest_def socket_connect_def pipe_clear_def SocketConnect_connect_def Let_def)
qed

theorem created_request_times_out_witness:
  "\<exists>s'. request ((demo_http_env ''x'' 1)\<lparr>he_connectClock := \<lambda>k. int k + 1\<rparr>) ''http://example.com/a.txt'' kGet []
      (createRequest ''http://example.com/a.txt'' kGet) 0 =
    Some (http_reply 0 CannotConnect [] [] (''Cannot connect to url: '' @ ''http://example.com/a.txt'' @ '' / error : cancellation requested'') 0 0, [], Some s')"
proof -
  let ?env = "(demo_http_env ''x'' 1)\<lparr>he_connectClock := \<lambda>k. int k + 1\<rparr>"
  obtain t where "http_connected (demo_http_env ''x'' 1) ''http://example.com/a.txt'' demo_args demo_url t"
    using demo_http_connected [of "''x''" 1] by auto
  then obtain s where s: "parse_url ''http://example.com/a.txt'' = Some demo_url"
    "createSocket (at_pipe (he_attempt ?env)) (protocol demo_url = ''https'') (at_socket (he_attempt ?env)) = Inr s"
    unfolding http_connected_def by auto
  have "he_connectStart ?env < he_connectClock ?env k" for k by (simp add: demo_http_env_def)
  then show ?thesis by (rule created_request_times_out [OF s])
qed

subsection \<open>A run\<close>

definition demo_envs :: "nat \<Rightarrow> string http_env" where
  "demo_envs k = demo_http_env [] 0"

definition demo_job :: http_job where
  "demo_job = (createRequest [] kGet, 7)"

definition demo_submitted :: http_client where
  "demo_submitted = (HttpClient_new True)\<lparr>hc_queue := [demo_job]\<rparr>"

lemma demo_run: "async_run demo_envs [demo_job] demo_submitted"
proof -
  let ?c1 = "(HttpClient_new True)\<lparr>hc_queue := [demo_job], hc_notifies := 1\<rparr>"
  have "async_step demo_envs (HttpClient_new True) [demo_job] ?c1"
    unfolding demo_job_def by (rule async_step.submit) (simp_all add: HttpClient_new_def holds_queueMutex_def performRequest_def enqueue_job_def)
  then have r: "async_run demo_envs [demo_job] ?c1" using async_run.step [OF async_run.start] by fastforce
  have "async_step demo_envs ?c1 [] (notify_one (?c1\<lparr>hc_notifies := hc_notifies ?c1 - 1\<rparr>))"
    by (rule async_step.notify) (simp_all add: HttpClient_new_def)
  moreover have "notify_one (?c1\<lparr>hc_notifies := hc_notifies ?c1 - 1\<rparr>) = demo_submitted"
    by (simp add: notify_one_def demo_submitted_def HttpClient_new_def)
  ultimately show ?thesis using async_run.step [OF r] by fastforce
qed

lemma demo_responds: "responds demo_envs [demo_job]"
proof -
  have "parse_url [] = None" by code_simp
  then show ?thesis by (simp add: responds_def job_responds_def demo_job_def createRequest_def request_def http_reply_def)
qed

theorem async_all_answered_witness:
  "\<exists>n. map fst (hc_calls (work_steps demo_envs n demo_submitted)) = [7] \<and> hc_queue (work_steps demo_envs n demo_submitted) = []"
proof -
  have "\<not> hc_stop demo_submitted" "hc_notifies demo_submitted = 0" by (simp_all add: demo_submitted_def HttpClient_new_def)
  then show ?thesis using async_all_answered [OF demo_run demo_responds] by (simp add: demo_job_def)
qed

theorem async_in_order_witness:
  "\<exists>c :: http_client. length (hc_calls c) = 1 \<and> fst (hc_calls c ! 0) = 7 \<and>
     (\<exists>lg so. request (demo_envs 0) [] kGet [] (createRequest [] kGet) 0 = Some (Responded (snd (hc_calls c ! 0)), lg, so))"
proof -
  have s: "\<not> hc_stop demo_submitted" "hc_notifies demo_submitted = 0" by (simp_all add: demo_submitted_def HttpClient_new_def)
  obtain n where n: "map fst (hc_calls (work_steps demo_envs n demo_submitted)) = map snd [demo_job]"
    using all_answered [OF demo_run demo_responds s] by blast
  have l: "length (hc_calls (work_steps demo_envs n demo_submitted)) = 1" using arg_cong [OF n, of length] by simp
  show ?thesis
    using async_in_order [OF work_run [OF demo_run, of n]] l
    by (intro exI [of _ "work_steps demo_envs n demo_submitted"]) (simp add: demo_job_def createRequest_def)
qed

end
