(* ===== verification/Tools.thy ===== *)
theory Tools
  imports FileTransfer HttpAsync
begin

section \<open>Command line tools\<close>

text \<open>
  What the programs under \<^verbatim>\<open>src/IXWebSocket/ws\<close> do beyond printing: the echo and broadcast servers, the chat,
  connect and ping clients with their commands, the HTTP client with the texts it takes apart, and
  the bridge from Cobra to statsd. Lines of the terminal are a list; printed text is left out.
\<close>

subsection \<open>Taking texts apart\<close>

text \<open>\<open>s.rfind(c)\<close> with the texts before and behind.\<close>

definition split_last :: "char \<Rightarrow> string \<Rightarrow> (string \<times> string) option" where
  "split_last c s =
     map_option (\<lambda>val. (take (length s - length val - 1) s, val)) (after_last c s)"

definition parseHeaders :: "string \<Rightarrow> WebSocketHttpHeaders" where
  "parseHeaders data =
     fold (\<lambda>token headers. case split_last (CHR '':'') token of None \<Rightarrow> headers | Some (key, val) \<Rightarrow> headers_assign key val headers)
       (getlines LF data) []"

fun parameter_set :: "string \<Rightarrow> string \<Rightarrow> (string \<times> string) list \<Rightarrow> (string \<times> string) list" where
  "parameter_set k v [] = [(k, v)]"
| "parameter_set k v ((k1, v1) # m) =
     (if k = k1 then (k, v) # m else if string_less k k1 then (k, v) # (k1, v1) # m else (k1, v1) # parameter_set k v m)"

definition parsePostParameters :: "string \<Rightarrow> (string \<times> string) list" where
  "parsePostParameters data =
     fold (\<lambda>token httpParameters. case split_last (CHR ''='') token of None \<Rightarrow> httpParameters | Some (key, val) \<Rightarrow> parameter_set key val httpParameters)
       (getlines LF data) []"

definition parseFields :: "string \<Rightarrow> string list" where
  "parseFields data = getlines LF data"

fun json_path :: "string list \<Rightarrow> json \<Rightarrow> json cobra_result" where
  "json_path [] val = Done val"
| "json_path (token # tokens) val = cbind (unthrow (json_index val token)) (json_path tokens)"

definition extractAttr :: "(rat \<Rightarrow> string) \<Rightarrow> string \<Rightarrow> json \<Rightarrow> string cobra_result" where
  "extractAttr floatText attr jsonValue =
     cbind (json_path (getlines (CHR ''.'') attr) jsonValue) (\<lambda>val. unthrow (asString floatText val))"

text \<open>The name under which the bridge to statsd counts a message.\<close>

fun statsd_id :: "(rat \<Rightarrow> string) \<Rightarrow> string list \<Rightarrow> json \<Rightarrow> string cobra_result" where
  "statsd_id floatText [] msg = Done []"
| "statsd_id floatText (attr # tokens) msg =
     cbind (extractAttr floatText attr msg) (\<lambda>x. cbind (statsd_id floatText tokens msg) (\<lambda>rest. Done (CHR ''.'' # x @ rest)))"

subsection \<open>Servers\<close>

definition echo_onMessage :: "'z tenv \<Rightarrow> bool \<Rightarrow> WebSocketMessage \<Rightarrow> 'z websocket \<Rightarrow> 'z websocket outcome" where
  "echo_onMessage env greetings msg w =
     (case msg_type msg of
        Open \<Rightarrow> if greetings then map_outcome snd (ws_sendText env ''Welcome !'' None w) else Ret w
      | Message \<Rightarrow> map_outcome snd (ws_send env (msg_str msg) (msg_binary msg) None w)
      | _ \<Rightarrow> Ret w)"

definition broadcast_onMessage :: "'z tenv \<Rightarrow> (nat \<Rightarrow> nat \<Rightarrow> nat) \<Rightarrow> nat \<Rightarrow> WebSocketMessage \<Rightarrow> 'z ws_shared \<Rightarrow> 'z ws_shared outcome" where
  "broadcast_onMessage env amount source msg g =
     (case msg_type msg of
        Message \<Rightarrow> relay_to_all env amount (msg_str msg) (msg_binary msg) source (getClients g) g
      | _ \<Rightarrow> Ret g)"

text \<open>Each server listens, reports why it cannot, or starts.\<close>

definition tool_server :: "(int \<Rightarrow> string) \<Rightarrow> listen_os \<Rightarrow> int \<Rightarrow> string \<Rightarrow> (string + (ws_local, 'z ws_shared) server)" where
  "tool_server strerr os p hostname =
     (case server_listen strerr os (WebSocketServer_new p hostname kDefaultTcpBacklog kDefaultMaxConnections WebSocketServer_kDefaultHandShakeTimeoutSecs) of
        ((ok, err), s) \<Rightarrow> if \<not> ok then Inl err else Inr (server_start s))"

subsection \<open>Chat\<close>

record 'z chat =
  ct_user :: string
  ct_webSocket :: "'z websocket"
  ct_received :: "string list"

record 'z chat_env =
  ct_tenv :: "'z tenv"
  ct_parse :: "string \<Rightarrow> json option"
  ct_dump :: "json \<Rightarrow> string option"

definition WebSocketChat_new :: "string \<Rightarrow> 'z websocket \<Rightarrow> 'z chat" where
  "WebSocketChat_new user w = \<lparr>ct_user = user, ct_webSocket = w, ct_received = []\<rparr>"

definition chat_start :: "string \<Rightarrow> 'z chat \<Rightarrow> 'z chat" where
  "chat_start address c = c\<lparr>ct_webSocket := ws_start (setUrl address (ct_webSocket c))\<rparr>"

definition decodeMessage :: "'z chat_env \<Rightarrow> string \<Rightarrow> (string \<times> string) cobra_result" where
  "decodeMessage env str =
     (case ct_parse env str of
        None \<Rightarrow> Thrown
      | Some j \<Rightarrow> cbind (unthrow (get_string j ''user'')) (\<lambda>msg_user. cbind (unthrow (get_string j ''text'')) (\<lambda>msg_text. Done (msg_user, msg_text))))"

definition encodeMessage :: "'z chat_env \<Rightarrow> string \<Rightarrow> string \<Rightarrow> string cobra_result" where
  "encodeMessage env user text =
     (case ct_dump env (object_of [(''user'', JString user), (''text'', JString text)]) of None \<Rightarrow> Thrown | Some str \<Rightarrow> Done str)"

definition chat_onMessage :: "'z chat_env \<Rightarrow> WebSocketMessage \<Rightarrow> 'z chat \<Rightarrow> 'z chat cobra_result" where
  "chat_onMessage env msg c =
     (case msg_type msg of
        Message \<Rightarrow> cbind (decodeMessage env (msg_str msg)) (\<lambda>(user, text). Done (c\<lparr>ct_received := ct_received c @ [text]\<rparr>))
      | _ \<Rightarrow> Done c)"

fun from_outcome :: "'a outcome \<Rightarrow> 'a cobra_result" where
  "from_outcome (Ret x) = Done x"
| "from_outcome Fault = Undefined"
| "from_outcome Hang = Stuck"

definition chat_sendMessage :: "'z chat_env \<Rightarrow> string \<Rightarrow> 'z chat \<Rightarrow> 'z chat cobra_result" where
  "chat_sendMessage env text c =
     cbind (encodeMessage env (ct_user c) text) (\<lambda>str.
       cbind (from_outcome (ws_sendText (ct_tenv env) str None (ct_webSocket c))) (\<lambda>(info, w). Done (c\<lparr>ct_webSocket := w\<rparr>)))"

fun chat_lines :: "'z chat_env \<Rightarrow> string list \<Rightarrow> 'z chat \<Rightarrow> 'z chat cobra_result" where
  "chat_lines env [] c = Done c"
| "chat_lines env (text # texts) c = cbind (chat_sendMessage env text c) (chat_lines env texts)"

subsection \<open>Ping and connect\<close>

definition ping_pong_line :: "'z tenv \<Rightarrow> string \<Rightarrow> 'z websocket \<Rightarrow> (WebSocketSendInfo \<times> 'z websocket) outcome" where
  "ping_pong_line env text w = (if text = ''/close'' then ws_send env text False None w else ws_ping env text w)"

record 'z connect_tool =
  cn_url :: string
  cn_headers :: WebSocketHttpHeaders
  cn_webSocket :: "'z websocket"
  cn_disablePerMessageDeflate :: bool
  cn_binaryMode :: bool

definition WebSocketConnect_new :: "string \<Rightarrow> string \<Rightarrow> bool \<Rightarrow> bool \<Rightarrow> bool \<Rightarrow> u32 \<Rightarrow> 'z websocket \<Rightarrow> 'z connect_tool" where
  "WebSocketConnect_new address headers disableAutomaticReconnection disableDeflate binaryMode maxWait w =
     \<lparr>cn_url = address, cn_headers = parseHeaders headers,
      cn_webSocket = setMaxWaitBetweenReconnectionRetries maxWait (if disableAutomaticReconnection then setAutomaticReconnection False w else w),
      cn_disablePerMessageDeflate = disableDeflate, cn_binaryMode = binaryMode\<rparr>"

definition connect_start :: "'z connect_tool \<Rightarrow> 'z connect_tool" where
  "connect_start c =
     (let w = setExtraHeaders (cn_headers c) (setUrl (cn_url c) (cn_webSocket c));
          w1 = (if cn_disablePerMessageDeflate c then disablePerMessageDeflate w
                else setPerMessageDeflateOptions (deflateOptions True False False 15 15) w)
      in c\<lparr>cn_webSocket := ws_start w1\<rparr>)"

definition connect_sendMessage :: "'z tenv \<Rightarrow> string \<Rightarrow> 'z connect_tool \<Rightarrow> 'z connect_tool outcome" where
  "connect_sendMessage env text c =
     map_outcome (\<lambda>(info, w). c\<lparr>cn_webSocket := w\<rparr>)
       (if cn_binaryMode c then ws_sendBinary env text None (cn_webSocket c) else ws_sendText env text None (cn_webSocket c))"

datatype connect_command = StopCommand | StartCommand | SendCommand string

definition connect_command :: "string \<Rightarrow> connect_command" where
  "connect_command line = (if line = ''/stop'' then StopCommand else if line = ''/start'' then StartCommand else SendCommand line)"

subsection \<open>The HTTP client\<close>

record http_options =
  ho_headers :: string
  ho_data :: string
  ho_headersOnly :: bool
  ho_connectTimeout :: int
  ho_transferTimeout :: int
  ho_followRedirects :: bool
  ho_maxRedirects :: int
  ho_verbose :: bool
  ho_compress :: bool
  ho_save :: bool
  ho_output :: string

definition http_tool_args :: "http_options \<Rightarrow> HttpRequestArgs" where
  "http_tool_args ho =
     (createRequest [] kGet)\<lparr>args_extraHeaders := parseHeaders (ho_headers ho), args_connectTimeout := ho_connectTimeout ho,
       args_transferTimeout := ho_transferTimeout ho, args_followRedirects := ho_followRedirects ho, args_maxRedirects := ho_maxRedirects ho,
       args_verbose := ho_verbose ho, args_compress := ho_compress ho, args_logger := True\<rparr>"

definition http_tool_request :: "'z http_env \<Rightarrow> string \<Rightarrow> http_options \<Rightarrow> (http_result \<times> string list \<times> socket option) option" where
  "http_tool_request env address ho =
     (if ho_headersOnly ho then http_head env address (http_tool_args ho)
      else if ho_data ho = [] then http_get env address (http_tool_args ho)
      else http_post_parameters env address (parsePostParameters (ho_data ho)) (http_tool_args ho))"

text \<open>What becomes of the response: nothing, a file under the given name or that of the address, or output.\<close>

datatype http_tool_output = NoOutput | SavedAs string string | ShownPayload string | BinaryRefused

definition http_tool_output :: "string \<Rightarrow> http_options \<Rightarrow> HttpResponse \<Rightarrow> http_tool_output" where
  "http_tool_output address ho response =
     (if ho_headersOnly ho \<or> resp_errorCode response \<noteq> HttpOk then NoOutput
      else if ho_save ho \<or> ho_output ho \<noteq> [] then
        SavedAs (if ho_output ho \<noteq> [] then ho_output ho else extractFilename address) (resp_payload response)
      else if fst (headers_index (resp_headers response) ''Content-Type'') \<noteq> ''application/octet-stream'' then ShownPayload (resp_payload response)
      else BinaryRefused)"

subsection \<open>What the texts mean\<close>

lemma after_last_append: "c \<notin> set val \<Longrightarrow> after_last c (key @ c # val) = Some val"
proof -
  assume a: "c \<notin> set val"
  have "takeWhile (\<lambda>x. x \<noteq> c) (rev val @ c # rev key) = rev val @ takeWhile (\<lambda>x. x \<noteq> c) (c # rev key)"
    by (rule takeWhile_append2) (use a in auto)
  then show ?thesis by (simp add: after_last_def)
qed

lemma split_last_append: "c \<notin> set val \<Longrightarrow> split_last c (key @ c # val) = Some (key, val)"
  by (simp add: split_last_def after_last_append)

text \<open>A line is split at its last colon, which is the wrong one when the value has a colon of its own.\<close>

lemma header_split_in_value:
  "CHR '':'' \<notin> set b \<Longrightarrow> LF \<notin> set (key @ a @ b) \<Longrightarrow> parseHeaders (key @ '':'' @ a @ '':'' @ b) = [(key @ '':'' @ a, b)]"
proof -
  assume a: "CHR '':'' \<notin> set b" "LF \<notin> set (key @ a @ b)"
  have "getlines LF (key @ '':'' @ a @ '':'' @ b) = [key @ '':'' @ a @ '':'' @ b]"
    using a by (intro getlines_no_delim) (auto simp: LF_def)
  then show ?thesis using a split_last_append [OF a(1), of "key @ '':'' @ a"] by (simp add: parseHeaders_def)
qed

lemma chat_roundtrip:
  assumes "\<And>j t. ct_dump env j = Some t \<Longrightarrow> ct_parse env t = Some j" "encodeMessage env user text = Done str"
  shows "decodeMessage env str = Done (user, text)"
proof -
  let ?j = "object_of [(''user'', JString user), (''text'', JString text)]"
  have "ct_dump env ?j = Some str" using assms(2) by (auto simp: encodeMessage_def split: option.splits)
  then show ?thesis using assms(1) by (simp add: decodeMessage_def get_string_def object_of_def and_then_def)
qed

end
