(* ===== verification/RedisProperties.thy ===== *)
theory RedisProperties
  imports Redis HttpClientProperties
begin

section \<open>Properties of the Redis client\<close>

text \<open>
  What is published is one well-formed command, whatever the octets of the channel and of the message;
  a subscription hands over the messages it reads, each once and in order.
\<close>

subsection \<open>The protocol of the server\<close>

text \<open>The RESP protocol as Redis reads it: a line up to CR LF, a bulk string, an array of bulk strings.\<close>

fun resp_line :: "string \<Rightarrow> (string \<times> string) option" where
  "resp_line (a # b # r) =
     (if a = CR \<and> b = LF then Some ([], r) else map_option (\<lambda>(l, r1). (a # l, r1)) (resp_line (b # r)))"
| "resp_line _ = None"

definition resp_number :: "char \<Rightarrow> string \<Rightarrow> (nat \<times> string) option" where
  "resp_number mark s =
     Option.bind (resp_line s) (\<lambda>(l, r).
       if l \<noteq> [] \<and> hd l = mark \<and> tl l \<noteq> [] \<and> list_all c_isdigit (tl l) then Some (digits_val (tl l), r) else None)"

definition resp_bulk :: "string \<Rightarrow> (string \<times> string) option" where
  "resp_bulk s =
     Option.bind (resp_number (CHR ''$'') s) (\<lambda>(n, r).
       if length r \<ge> n + 2 \<and> take 2 (drop n r) = CRLF then Some (take n r, drop (n + 2) r) else None)"

primrec resp_bulks :: "nat \<Rightarrow> string \<Rightarrow> (string list \<times> string) option" where
  "resp_bulks 0 s = Some ([], s)"
| "resp_bulks (Suc n) s =
     Option.bind (resp_bulk s) (\<lambda>(x, r). map_option (\<lambda>(xs, r1). (x # xs, r1)) (resp_bulks n r))"

definition resp_array :: "string \<Rightarrow> (string list \<times> string) option" where
  "resp_array s = Option.bind (resp_number (CHR ''*'') s) (\<lambda>(n, r). resp_bulks n r)"

lemma resp_line_crlf: "CR \<notin> set l \<Longrightarrow> resp_line (l @ CRLF @ r) = Some (l, r)"
proof (induction l)
  case (Cons c l)
  then show ?case by (cases l) (auto simp: CRLF_def CR_def LF_def)
qed (simp add: CRLF_def)

lemma digits_no_cr: "CR \<notin> set (string_of_nat n)" "LF \<notin> set (string_of_nat n)"
  using string_of_nat_digits [of n] by (auto simp: c_isdigit_def CR_def LF_def)

lemma resp_number_of_nat: "mark \<noteq> CR \<Longrightarrow> resp_number mark (mark # string_of_nat n @ CRLF @ r) = Some (n, r)"
  using resp_line_crlf [of "mark # string_of_nat n" r] digits_no_cr(1) [of n] string_of_nat_digits [of n]
  by (auto simp: resp_number_def list_all_iff)

text \<open>A bulk string is read back, whatever follows it.\<close>

lemma writeString_read: "resp_bulk (writeString x @ r) = Some (x, r)"
proof -
  have "resp_number (CHR ''$'') (writeString x @ r) = Some (length x, x @ CRLF @ r)"
    using resp_number_of_nat [of "CHR ''$''" "length x" "x @ CRLF @ r"] by (simp add: writeString_def CR_def)
  then show ?thesis by (simp add: resp_bulk_def CRLF_def)
qed

lemma publish_command_read: "resp_array (publish_command channel message @ r) = Some ([''PUBLISH'', channel, message], r)"
proof -
  have "resp_line (''*3'' @ CRLF @ rest) = Some (''*3'', rest)" for rest by (rule resp_line_crlf) (simp add: CR_def)
  then have "resp_number (CHR ''*'') (''*3'' @ CRLF @ rest) = Some (3, rest)" for rest
    by (simp add: resp_number_def c_isdigit_def digits_val_def digit_val_def)
  then show ?thesis by (simp add: resp_array_def publish_command_def writeString_read numeral_3_eq_3)
qed

text \<open>The other two commands are lines: a line end in a channel starts another command.\<close>

lemma subscribe_injects:
  "resp_line (''SUBSCRIBE '' @ (''news'' @ CRLF @ ''FLUSHALL'') @ CRLF) = Some (''SUBSCRIBE news'', ''FLUSHALL'' @ CRLF)"
  using resp_line_crlf [of "''SUBSCRIBE news''" "''FLUSHALL'' @ CRLF"] by (simp add: CR_def)

subsection \<open>Publishing\<close>

lemma ready_wait:
  assumes "ready w s bs" "isReadyToRead t s = (r, s')"
  shows "r \<noteq> PollError \<and> ready w s' bs"
  using assms isReadyToRead_no_failure [OF _ _ assms(2)] isReadyToRead_endpoint [OF assms(2)]
  by (auto simp: ready_def plain_def same_endpoint_def)

lemma redis_command_ready:
  assumes "ready w s bs" "accepting (sys_sends s) (length txt0)" "txt0 \<noteq> []"
  shows "\<exists>r s'. redis_command txt0 s = Done (Some r, s') \<and> r \<noteq> PollError \<and> ready (w @ bytes_of txt0) s' bs"
proof -
  obtain s1 where s1: "writeBytes uncancelled txt0 s = Some (True, s1)" "wire_out s1 = wire_out s @ bytes_of txt0"
    "sys_recvs s1 = sys_recvs s" "sys_polls s1 = sys_polls s" "sockfd s1 = sockfd s"
    using writeBytes_accepting [of s txt0 uncancelled] assms by (auto simp: ready_def)
  then have r1: "ready (w @ bytes_of txt0) s1 bs" using assms(1) by (auto simp: ready_def plain_def no_poll_failure_def)
  obtain r s2 where p: "isReadyToRead (- 1) s1 = (r, s2)" by fastforce
  show ?thesis using s1(1) p ready_wait [OF r1 p] by (simp add: redis_command_def)
qed

lemma redis_line_ready:
  assumes "ready w s (bytes_of (line @ CRLF) @ rest)" "CR \<notin> set line" "LF \<notin> set line"
  shows "\<exists>s'. redis_line s = Done (True, line @ CRLF, s') \<and> ready w s' rest"
  using ready_line [where cancel = uncancelled, OF assms(1) _ assms(2,3)] by (auto simp: redis_line_def)

lemma publish_sent:
  assumes "rc_socket c = Some s" "ready w s (bytes_of (CHR '':'' # number @ CRLF) @ rest)"
    and "accepting (sys_sends s) (length (publish_command channel message))" "CR \<notin> set number" "LF \<notin> set number"
  shows "\<exists>s' sent. redis_publish channel message c = Done (True, [], put_socket s' c) \<and> ready (w @ bytes_of sent) s' rest \<and>
    resp_array sent = Some ([''PUBLISH'', channel, message], [])"
proof -
  have ne: "publish_command channel message \<noteq> []" by (simp add: publish_command_def)
  obtain r s1 where 1: "redis_command (publish_command channel message) s = Done (Some r, s1)" "r \<noteq> PollError"
    "ready (w @ bytes_of (publish_command channel message)) s1 (bytes_of (CHR '':'' # number @ CRLF) @ rest)"
    using redis_command_ready [OF assms(2,3) ne] by blast
  obtain s2 where 2: "redis_line s1 = Done (True, (CHR '':'' # number) @ CRLF, s2)"
    "ready (w @ bytes_of (publish_command channel message)) s2 rest"
    using redis_line_ready [of _ s1 "CHR '':'' # number" rest] 1(3) assms(4,5) by (auto simp: CR_def LF_def)
  have "redis_publish channel message c = Done (True, [], put_socket s2 c)" using assms(1) 1(1,2) 2(1) by (simp add: redis_publish_def)
  then show ?thesis using 2(2) publish_command_read [of channel message "[]"] by auto
qed

text \<open>
  C17. Publishing sends one command: what goes to the server is read there, by the RESP protocol, as
  the three words PUBLISH, the channel and the message, even when they hold line ends, and nothing
  more; the call succeeds when the server answers with a number.
\<close>

theorem redis_publish_roundtrip:
  assumes "rc_socket c = Some s" "ready w s (bytes_of (CHR '':'' # number @ CRLF) @ rest)"
    and "accepting (sys_sends s) (length (publish_command channel message))" "CR \<notin> set number" "LF \<notin> set number"
  shows "\<exists>s' sent. redis_publish channel message c = Done (True, [], put_socket s' c) \<and> ready (w @ bytes_of sent) s' rest \<and>
    resp_array sent = Some ([''PUBLISH'', channel, message], [])"
  by (rule publish_sent [OF assms])

subsection \<open>Polls\<close>

text \<open>The polls still to come are among those there were.\<close>

lemma readByte_polls: "readByte cancel s = Some (c, s') \<Longrightarrow> set (sys_polls s') \<subseteq> set (sys_polls s)"
proof -
  assume r: "readByte cancel s = Some (c, s')"
  have "set (sys_polls (snd (c, s'))) \<subseteq> set (sys_polls s)"
  proof (rule readByte.raw_induct [OF _ r, where P = "\<lambda>cancel s y. set (sys_polls (snd y)) \<subseteq> set (sys_polls s)"])
    fix loop :: "(nat \<Rightarrow> bool) \<Rightarrow> socket \<Rightarrow> (char option \<times> socket) option"
    fix cancel :: "nat \<Rightarrow> bool" and s y
    assume rec: "\<And>cancel s y. loop cancel s = Some y \<Longrightarrow> set (sys_polls (snd y)) \<subseteq> set (sys_polls s)"
    assume body: "(case ask cancel s of (c, s) \<Rightarrow> if c then Some (None, s)
        else case socket_recv s 1 of (ret, bs, s1) \<Rightarrow>
          if ret = 1 then Some (Some (char_of_byte (hd bs)), s1)
          else if ret < 0 \<and> isWaitNeeded s1 then
            (case isReadyToRead 1 s1 of (r, s2) \<Rightarrow> if r = PollError then Some (None, s2) else loop cancel s2)
          else Some (None, s1)) = Some y"
    obtain ret bs s1 where rcv: "socket_recv (snd (ask cancel s)) 1 = (ret, bs, s1)" by (cases "socket_recv (snd (ask cancel s)) 1")
    obtain r s2 where rdy: "isReadyToRead 1 s1 = (r, s2)" by (cases "isReadyToRead 1 s1")
    have w: "sys_polls s1 = sys_polls s" "set (sys_polls s2) \<subseteq> set (sys_polls s)"
      using recv_frame(5) [OF rcv] isReadyToRead_frame(6) [OF rdy] by (auto simp: ask_def)
    show "set (sys_polls (snd y)) \<subseteq> set (sys_polls s)"
      using body rcv rdy w rec [of cancel s2 y] by (auto simp: split_beta ask_def split: if_splits)
  qed
  then show ?thesis by simp
qed

lemma readLine_polls: "readLine cancel s = Some (b, l, s') \<Longrightarrow> set (sys_polls s') \<subseteq> set (sys_polls s)"
proof -
  assume "readLine cancel s = Some (b, l, s')"
  then have r: "readLine_loop cancel [] s = Some (b, l, s')" by (simp add: readLine_def)
  have "set (sys_polls (snd (snd (b, l, s')))) \<subseteq> set (sys_polls s)"
    by (rule readLine_loop.raw_induct [OF _ r, where P = "\<lambda>cancel l s y. set (sys_polls (snd (snd y))) \<subseteq> set (sys_polls s)"])
      (fastforce simp: bind_eq_Some_conv split: if_splits option.splits dest!: readByte_polls)
  then show ?thesis by simp
qed

lemma readBytes_polls: "readBytes len cancel s = Some (r, s') \<Longrightarrow> set (sys_polls s') \<subseteq> set (sys_polls s)"
proof -
  assume "readBytes len cancel s = Some (r, s')"
  then have run: "readBytes_loop len cancel [] s = Some (r, s')" by (simp add: readBytes_def)
  have "set (sys_polls (snd (r, s'))) \<subseteq> set (sys_polls s)"
  proof (rule readBytes_loop.raw_induct [OF _ run, where P = "\<lambda>len cancel out s y. set (sys_polls (snd y)) \<subseteq> set (sys_polls s)"])
    fix loop :: "nat \<Rightarrow> (nat \<Rightarrow> bool) \<Rightarrow> byte list \<Rightarrow> socket \<Rightarrow> (read_result \<times> socket) option"
    fix len and cancel :: "nat \<Rightarrow> bool" and out s y
    assume rec: "\<And>len cancel out s y. loop len cancel out s = Some y \<Longrightarrow> set (sys_polls (snd y)) \<subseteq> set (sys_polls s)"
    assume body: "(if length out = len then Some (ReadOk (string_of_bytes out), s)
      else case ask cancel s of (c, s) \<Rightarrow>
        if c then Some (ReadFailed, s)
        else case socket_recv s (min socket_kChunkSize (len - length out)) of (ret, bs, s1) \<Rightarrow>
          if ret \<le> 0 \<and> \<not> isWaitNeeded s1 then Some (ReadFailed, s1)
          else if ret < 0 then Some (ReadFault, s1)
          else let out' = out @ bs;
                   s2 = s1\<lparr>progress_calls := progress_calls s1 @ [(length out', len)]\<rparr>
               in case isReadyToRead 1 s2 of (r, s3) \<Rightarrow>
                 if r = PollError then Some (ReadFailed, s3) else loop len cancel out' s3) = Some y"
    let ?k = "min socket_kChunkSize (len - length out)"
    obtain ret bs s1 where rcv: "socket_recv (snd (ask cancel s)) ?k = (ret, bs, s1)" by (cases "socket_recv (snd (ask cancel s)) ?k")
    let ?s2 = "s1\<lparr>progress_calls := progress_calls s1 @ [(length (out @ bs), len)]\<rparr>"
    obtain r s3 where rdy: "isReadyToRead 1 ?s2 = (r, s3)" by (cases "isReadyToRead 1 ?s2")
    have w: "sys_polls s1 = sys_polls s" "set (sys_polls s3) \<subseteq> set (sys_polls s)"
      using recv_frame(5) [OF rcv] isReadyToRead_frame(6) [OF rdy] by (auto simp: ask_def)
    show "set (sys_polls (snd y)) \<subseteq> set (sys_polls s)"
      using body rcv rdy w rec [of len cancel "out @ bs" s3 y]
      by (auto simp: split_beta ask_def Let_def simp del: length_append split: if_splits)
  qed
  then show ?thesis by simp
qed

lemma ready_byte:
  assumes "ready w s (b # bs)"
  shows "\<exists>c s'. readByte uncancelled s = Some (Some c, s') \<and> ready w s' bs"
proof -
  obtain s' where s': "readByte uncancelled s = Some (Some (char_of_byte b), s')" "same_endpoint s s'" "arriving (sys_recvs s') = bs"
    using readByte_arriving [of s uncancelled b bs] assms by (auto simp: ready_def)
  then show ?thesis using readByte_plain [OF s'(1)] ready_endpoint [OF assms s'(2) _ s'(3)] assms by (auto simp: ready_def)
qed

lemma redis_polls:
  "redis_line s = Done (b, l, s') \<Longrightarrow> set (sys_polls s') \<subseteq> set (sys_polls s)"
  "redis_bytes n s = Done (r, s') \<Longrightarrow> set (sys_polls s') \<subseteq> set (sys_polls s)"
proof -
  have d: "returning x = Done y \<longleftrightarrow> x = Some y" for x :: "'b option" and y by (cases x) auto
  show "redis_line s = Done (b, l, s') \<Longrightarrow> set (sys_polls s') \<subseteq> set (sys_polls s)"
    by (auto simp: redis_line_def d dest: readLine_polls)
  show "set (sys_polls s') \<subseteq> set (sys_polls s)" if b: "redis_bytes n s = Done (r, s')"
  proof -
    obtain x where x: "readBytes (nat (n mod 2 ^ 64)) uncancelled s = Some x"
      using b by (cases "readBytes (nat (n mod 2 ^ 64)) uncancelled s") (auto simp: redis_bytes_def)
    obtain r1 s1 where xs: "x = (r1, s1)" by (cases x)
    have "s' = s1\<lparr>progress_calls := progress_calls s\<rparr>"
      using b x unfolding xs by (cases r1) (auto simp: redis_bytes_def Let_def)
    then have "sys_polls s' = sys_polls s1" by simp
    then show ?thesis using readBytes_polls [OF x [unfolded xs]] by simp
  qed
qed

subsection \<open>Subscribing\<close>

lemma line_int_number: "int n \<le> int_max \<Longrightarrow> line_int (mark # string_of_nat n @ CRLF) = Done (int n)"
proof -
  assume n: "int n \<le> int_max"
  obtain c r where s: "string_of_nat n = c # r" by (cases "string_of_nat n") auto
  have d: "\<forall>x \<in> set (c # r). c_isdigit x" using string_of_nat_digits [of n] s by simp
  then have c: "c_isdigit c" by simp
  have t: "takeWhile c_isdigit ((c # r) @ CRLF) = c # r"
    using d by (subst takeWhile_append2) (auto simp: CRLF_def CR_def c_isdigit_def)
  have "skip_space ((c # r) @ CRLF) = (c # r) @ CRLF" using c by (intro skip_space_digits) auto
  moreover have "prefix_int ((c # r) @ CRLF) = int n"
    using t c s digits_val_string_of_nat [of n] by (auto simp: prefix_int_def signed_prefix_def c_isdigit_def split: if_splits)
  ultimately show ?thesis using n s by (simp add: line_int_def extract_int_def int_min_def)
qed

definition all_ready :: "socket \<Rightarrow> bool" where
  "all_ready s \<longleftrightarrow> (\<forall>p \<in> set (sys_polls s). \<exists>x e. p = PollReady True x e)"

text \<open>One item of a message.\<close>

lemma redis_item:
  assumes "ready w s (bytes_of (writeString x) @ rest)" "int (length x) \<le> int_max"
  shows "\<exists>s'. ready w s' rest \<and> set (sys_polls s') \<subseteq> set (sys_polls s) \<and>
    redis_items callback (Suc k) i s a =
      cbind (if i = 2 then callback x a else Done a) (\<lambda>a1. redis_items callback k (Suc i) s' a1)"
proof -
  have "ready w s (bytes_of ((CHR ''$'' # string_of_nat (length x)) @ CRLF) @ bytes_of x @ bytes_of CRLF @ rest)"
    using assms(1) by (simp add: writeString_def bytes_of_def)
  then obtain s1 where 1: "redis_line s = Done (True, (CHR ''$'' # string_of_nat (length x)) @ CRLF, s1)" "ready w s1 (bytes_of x @ bytes_of CRLF @ rest)"
    using redis_line_ready [of w s "CHR ''$'' # string_of_nat (length x)"] digits_no_cr [of "length x"]
    by (auto simp: CR_def LF_def simp del: append_Cons)
  obtain s2 where 2: "readBytes (length x) uncancelled s1 = Some (ReadOk x, s2)" "ready w s2 (bytes_of CRLF @ rest)"
    using ready_bytes [where cancel = uncancelled, OF 1(2)] by auto
  let ?s2 = "s2\<lparr>progress_calls := progress_calls s1\<rparr>"
  have i: "line_int ((CHR ''$'' # string_of_nat (length x)) @ CRLF) = Done (int (length x))" using line_int_number [OF assms(2)] by simp
  have "nat (int (length x) mod 2 ^ 64) = length x" using assms(2) by (simp add: int_max_def)
  then have b: "redis_bytes (int (length x)) s1 = Done (Some x, ?s2)" using 2(1) by (simp add: redis_bytes_def Let_def)
  have "ready w ?s2 (byte_of_char CR # byte_of_char LF # rest)"
    using 2(2) by (simp add: ready_def plain_def no_poll_failure_def bytes_of_def CRLF_def)
  then obtain c1 s3 where 3: "readByte uncancelled ?s2 = Some (Some c1, s3)" "ready w s3 (byte_of_char LF # rest)" using ready_byte by blast
  then obtain c2 s4 where 4: "readByte uncancelled s3 = Some (Some c2, s4)" "ready w s4 rest" using ready_byte by blast
  have "set (sys_polls s4) \<subseteq> set (sys_polls s)"
    using redis_polls(1) [OF 1(1)] redis_polls(2) [OF b] readByte_polls [OF 3(1)] readByte_polls [OF 4(1)] by simp
  moreover have "redis_items callback (Suc k) i s a =
      cbind (if i = 2 then callback x a else Done a) (\<lambda>a1. redis_items callback k (Suc i) s4 a1)"
    unfolding redis_items.simps 1(1) cbind.simps prod.case using i b 3(1) 4(1) by simp
  ultimately show ?thesis using 4(2) by blast
qed

text \<open>What the server pushes for a message of a channel.\<close>

definition push_message :: "string \<Rightarrow> string \<Rightarrow> string" where
  "push_message channel message = ''*3'' @ CRLF @ writeString ''message'' @ writeString channel @ writeString message"

definition push_ok :: "string \<Rightarrow> string \<Rightarrow> bool" where
  "push_ok channel message \<longleftrightarrow> int (length channel) \<le> int_max \<and> int (length message) \<le> int_max"

lemma redis_message:
  assumes "ready w s (bytes_of (push_message channel message) @ rest)" "push_ok channel message" "callback message a = Done a'"
    and "isReadyToRead 10 s = (r, s1)" "r \<noteq> Timeout"
  shows "\<exists>s'. redis_round callback False s a = Done (Again, s', a') \<and> ready w s' rest \<and> set (sys_polls s') \<subseteq> set (sys_polls s)"
proof -
  have r1: "r \<noteq> PollError" "ready w s1 (bytes_of (push_message channel message) @ rest)" using ready_wait [OF assms(1,4)] by auto
  have "ready w s1 (bytes_of (''*3'' @ CRLF) @ bytes_of (writeString ''message'') @ bytes_of (writeString channel) @ bytes_of (writeString message) @ rest)"
    using r1(2) by (simp add: push_message_def bytes_of_def)
  then obtain s2 where 2: "redis_line s1 = Done (True, ''*3'' @ CRLF, s2)"
    "ready w s2 (bytes_of (writeString ''message'') @ bytes_of (writeString channel) @ bytes_of (writeString message) @ rest)"
    using redis_line_ready by (fastforce simp: CR_def LF_def)
  have i: "line_int (''*3'' @ CRLF) = Done 3"
    by (simp add: line_int_def extract_int_def skip_space_def c_isspace_def prefix_int_def signed_prefix_def c_isdigit_def digits_val_def
        digit_val_def CRLF_def CR_def int_max_def int_min_def)
  obtain s3 where 3: "ready w s3 (bytes_of (writeString channel) @ bytes_of (writeString message) @ rest)"
    "set (sys_polls s3) \<subseteq> set (sys_polls s2)" "redis_items callback (Suc 2) 0 s2 a = redis_items callback 2 1 s3 a"
    using redis_item [OF 2(2), of callback 2 0 a] by (auto simp: int_max_def)
  obtain s4 where 4: "ready w s4 (bytes_of (writeString message) @ rest)"
    "set (sys_polls s4) \<subseteq> set (sys_polls s3)" "redis_items callback (Suc 1) 1 s3 a = redis_items callback 1 2 s4 a"
    using redis_item [OF 3(1), of callback 1 1 a] assms(2) by (auto simp: push_ok_def numeral_2_eq_2)
  obtain s5 where 5: "ready w s5 rest"
    "set (sys_polls s5) \<subseteq> set (sys_polls s4)" "redis_items callback (Suc 0) 2 s4 a = Done (True, s5, a')"
    using redis_item [OF 4(1), of callback 0 2 a] assms(2,3) by (auto simp: push_ok_def)
  have all: "redis_items callback 3 0 s2 a = Done (True, s5, a')"
    using 3(3) 4(3) 5(3) by (simp only: numeral_3_eq_3 numeral_2_eq_2 One_nat_def)
  have "redis_round callback False s a = Done (Again, s5, a')"
    unfolding redis_round_def assms(4) using r1(1) assms(5) 2(1) i all by simp
  moreover have "set (sys_polls s5) \<subseteq> set (sys_polls s)"
    using isReadyToRead_frame(6) [OF assms(4)] redis_polls(1) [OF 2(1)] 3(2) 4(2) 5(2) by simp
  ultimately show ?thesis using 5(1) by blast
qed

text \<open>The callback run on a list of messages.\<close>

fun hand_over :: "(string \<Rightarrow> 'a \<Rightarrow> 'a cobra_result) \<Rightarrow> string list \<Rightarrow> 'a \<Rightarrow> 'a cobra_result" where
  "hand_over callback [] a = Done a"
| "hand_over callback (m # ms) a = cbind (callback m a) (hand_over callback ms)"

definition pushes :: "string \<Rightarrow> string list \<Rightarrow> byte list" where
  "pushes channel ms = concat (map (\<lambda>m. bytes_of (push_message channel m)) ms)"

lemma timeout_without_polls:
  assumes "sockfd s \<noteq> - 1" "all_ready s" "isReadyToRead t s = (Timeout, s1)"
  shows "sys_polls s = []"
  using assms
  by (auto simp: isReadyToRead_def socket_poll_def next_poll_def all_ready_def Let_def request_result_def
      split: if_splits list.splits poll_os.splits prod.splits)

lemma rounds_in_order:
  assumes "ready w s (pushes channel ms @ rest)" "list_all (push_ok channel) ms" "hand_over callback ms a = Done a'"
    and "n \<le> length ms" "all_ready s"
  shows "\<exists>k s' a1. k \<le> n \<and> redis_rounds callback uncancelled n i s a = Done (Again, s', a1) \<and>
    hand_over callback (take k ms) a = Done a1 \<and> ready w s' (pushes channel (drop k ms) @ rest) \<and> (k = n \<or> sys_polls s' = []) \<and> set (sys_polls s') \<subseteq> set (sys_polls s)"
  using assms
proof (induction n arbitrary: s ms a i)
  case 0
  then show ?case by (intro exI [of _ 0] exI [of _ s] exI [of _ a]) simp
next
  case (Suc n)
  then obtain m ms1 where ms: "ms = m # ms1" by (cases ms) auto
  then obtain a1 where a1: "callback m a = Done a1" "hand_over callback ms1 a1 = Done a'" using Suc.prems(3) by (auto simp: cbind_Done)
  obtain r s1 where p: "isReadyToRead 10 s = (r, s1)" by fastforce
  have w1: "r \<noteq> PollError" "ready w s1 (pushes channel ms @ rest)" using ready_wait [OF Suc.prems(1) p] by auto
  show ?case
  proof (cases "r = Timeout")
    case True
    have nil: "sys_polls s = []" using timeout_without_polls p True Suc.prems(1,5) by (auto simp: ready_def)
    have nil1: "sys_polls s1 = []" using isReadyToRead_frame(6) [OF p] nil by simp
    have idle: "redis_round callback False s2 a = Done (Again, s2', a)" if "isReadyToRead 10 s2 = (Timeout, s2')" for s2 s2'
      using that by (simp add: redis_round_def)
    have "\<exists>k s' a1. k \<le> n \<and> redis_rounds callback uncancelled n (Suc i) s1 a = Done (Again, s', a1) \<and>
        hand_over callback (take k ms) a = Done a1 \<and> ready w s' (pushes channel (drop k ms) @ rest) \<and> (k = n \<or> sys_polls s' = []) \<and> set (sys_polls s') \<subseteq> set (sys_polls s1)"
      using Suc.IH [OF w1(2) Suc.prems(2,3)] Suc.prems(4) nil1 by (auto simp: all_ready_def)
    then obtain k s' b where k: "k \<le> n" "redis_rounds callback uncancelled n (Suc i) s1 a = Done (Again, s', b)"
        "hand_over callback (take k ms) a = Done b" "ready w s' (pushes channel (drop k ms) @ rest)" "sys_polls s' = []"
      using nil1 by auto
    show ?thesis using k idle [of s s1] p True by (intro exI [of _ k] exI [of _ s'] exI [of _ b]) simp
  next
    case False
    have r0: "ready w s (bytes_of (push_message channel m) @ pushes channel ms1 @ rest)" using Suc.prems(1) by (simp add: ms pushes_def)
    obtain s2 where 2: "redis_round callback False s a = Done (Again, s2, a1)" "ready w s2 (pushes channel ms1 @ rest)"
      "set (sys_polls s2) \<subseteq> set (sys_polls s)"
      using redis_message [where callback = callback, OF r0 _ a1(1) p False] Suc.prems(2) ms by auto
    have ar: "all_ready s2" using 2(3) Suc.prems(5) by (auto simp: all_ready_def)
    obtain k s' b where k: "k \<le> n" "redis_rounds callback uncancelled n (Suc i) s2 a1 = Done (Again, s', b)"
      "hand_over callback (take k ms1) a1 = Done b" "ready w s' (pushes channel (drop k ms1) @ rest)" "k = n \<or> sys_polls s' = []" "set (sys_polls s') \<subseteq> set (sys_polls s2)"
      using Suc.IH [OF 2(2) _ a1(2) _ ar, of "Suc i"] Suc.prems(2,4) ms by auto
    show ?thesis
      using k 2(1,3) a1(1) ms by (intro exI [of _ "Suc k"] exI [of _ s'] exI [of _ b]) auto
  qed
qed


subsection \<open>Witnesses\<close>

definition demo_redis :: "send_os list \<Rightarrow> string \<Rightarrow> socket" where
  "demo_redis sends input = (Socket_new 5 (SelectInterruptPipe_new 8))\<lparr>sys_sends := sends, sys_recvs := [RecvData (bytes_of input)],
     sys_polls := replicate 9 (PollReady True False 0)\<rparr>"

lemma demo_redis_ready: "input \<noteq> [] \<Longrightarrow> ready [] (demo_redis sends input) (bytes_of input)"
  by (simp add: demo_redis_def ready_def plain_def no_poll_failure_def Socket_new_def bytes_of_def list_all_iff)

theorem redis_publish_roundtrip_witness:
  "\<exists>s' sent. redis_publish ''news'' (''a'' @ CRLF @ ''b'') (put_socket (demo_redis [SendAccept 100] ('':1'' @ CRLF)) RedisClient_new) =
       Done (True, [], put_socket s' (put_socket (demo_redis [SendAccept 100] ('':1'' @ CRLF)) RedisClient_new)) \<and>
     ready ([] @ bytes_of sent) s' [] \<and> resp_array sent = Some ([''PUBLISH'', ''news'', ''a'' @ CRLF @ ''b''], [])"
proof -
  have r: "ready [] (demo_redis [SendAccept 100] ('':1'' @ CRLF)) (bytes_of (CHR '':'' # ''1'' @ CRLF) @ [])"
    using demo_redis_ready [of "'':1'' @ CRLF"] by simp
  have a: "accepting (sys_sends (demo_redis [SendAccept 100] ('':1'' @ CRLF))) (length (publish_command ''news'' (''a'' @ CRLF @ ''b'')))"
    by (simp add: demo_redis_def publish_command_def writeString_def CRLF_def string_of_nat.simps)
  have c: "rc_socket (put_socket (demo_redis [SendAccept 100] ('':1'' @ CRLF)) RedisClient_new) = Some (demo_redis [SendAccept 100] ('':1'' @ CRLF))"
    by (simp add: put_socket_def)
  show ?thesis using redis_publish_roundtrip [OF c r a] by (simp add: CR_def LF_def)
qed


end
