(* ===== verification/Drivers.thy ===== *)
theory Drivers
  imports Tools RedisProperties HttpServer
begin

section \<open>Drivers\<close>

text \<open>
  Programs that drive a client or a server of the library to its end: the Autobahn test suite
  (\<^verbatim>\<open>ws_autobahn.cpp\<close>), publishing to Redis (\<^verbatim>\<open>ws_redis_publish.cpp\<close>, \<^verbatim>\<open>ws_redis_subscribe.cpp\<close>) and the file server
  (\<^verbatim>\<open>ws_httpd.cpp\<close>). A callback says whether it notifies the main thread, which waits for that. Exit codes are
  results.
\<close>

subsection \<open>Autobahn\<close>

definition AutobahnTestCase_new :: "'z websocket \<Rightarrow> 'z websocket" where
  "AutobahnTestCase_new w = setPerMessageDeflateOptions (deflateOptions True False False 15 15) (setAutomaticReconnection False w)"

definition testcase_onMessage :: "'z tenv \<Rightarrow> WebSocketMessage \<Rightarrow> 'z websocket \<Rightarrow> (bool \<times> 'z websocket) outcome" where
  "testcase_onMessage env msg w =
     (case msg_type msg of
        Close \<Rightarrow> Ret (True, w)
      | Error \<Rightarrow> Ret (True, w)
      | Message \<Rightarrow> map_outcome (\<lambda>(info, w1). (False, w1)) (ws_send env (msg_str msg) (msg_binary msg) None w)
      | _ \<Rightarrow> Ret (False, w))"

definition generateReport_onMessage :: "WebSocketMessage \<Rightarrow> bool \<Rightarrow> bool \<times> bool" where
  "generateReport_onMessage msg success =
     (case msg_type msg of Close \<Rightarrow> (True, success) | Error \<Rightarrow> (False, False) | _ \<Rightarrow> (False, success))"

definition getTestCaseCount_onMessage :: "WebSocketMessage \<Rightarrow> int \<Rightarrow> bool \<times> int" where
  "getTestCaseCount_onMessage msg count =
     (case msg_type msg of
        Close \<Rightarrow> (True, count)
      | Error \<Rightarrow> (True, count)
      | Message \<Rightarrow> (False, extract_int count (msg_str msg))
      | _ \<Rightarrow> (False, count))"

text \<open>What the main thread finds when it is first notified; \<open>None\<close> when it never is.\<close>

fun until_notified :: "(WebSocketMessage \<Rightarrow> 'a \<Rightarrow> bool \<times> 'a) \<Rightarrow> WebSocketMessage list \<Rightarrow> 'a \<Rightarrow> 'a option" where
  "until_notified callback [] x = None"
| "until_notified callback (m # ms) x = (case callback m x of (notified, x1) \<Rightarrow> if notified then Some x1 else until_notified callback ms x1)"

definition generateReport :: "WebSocketMessage list \<Rightarrow> bool option" where
  "generateReport ms = until_notified generateReport_onMessage ms True"

definition getTestCaseCount :: "WebSocketMessage list \<Rightarrow> int option" where
  "getTestCaseCount ms = until_notified getTestCaseCount_onMessage ms (- 1)"

definition testcase_urls :: "string \<Rightarrow> int \<Rightarrow> string list" where
  "testcase_urls address testCasesCount =
     map (\<lambda>i. address @ ''/runCase?case='' @ string_of_nat i @ ''&agent=ixwebsocket'') [1..<nat (testCasesCount + 1)]"

text \<open>The addresses of the cases that are run, and the exit code: the messages of the first and the last
  connection are given.\<close>

definition ws_autobahn_main :: "string \<Rightarrow> WebSocketMessage list \<Rightarrow> WebSocketMessage list \<Rightarrow> (string list \<times> int) option" where
  "ws_autobahn_main address counts reports =
     Option.bind (getTestCaseCount counts) (\<lambda>testCasesCount.
       if testCasesCount = - 1 then Some ([], 1)
       else map_option (\<lambda>success. (testcase_urls address testCasesCount, if success then 0 else 1)) (generateReport reports))"

subsection \<open>Redis\<close>

fun redis_publish_times :: "nat \<Rightarrow> string \<Rightarrow> string \<Rightarrow> redis_client \<Rightarrow> (int \<times> redis_client) cobra_result" where
  "redis_publish_times 0 channel message c = Done (0, c)"
| "redis_publish_times (Suc n) channel message c =
     cbind (redis_publish channel message c) (\<lambda>(ok, errMsg, c1). if \<not> ok then Done (1, c1) else redis_publish_times n channel message c1)"

definition redis_login :: "redis_env \<Rightarrow> string \<Rightarrow> int \<Rightarrow> string \<Rightarrow> (bool \<times> redis_client) cobra_result" where
  "redis_login env hostname portnr password =
     cbind (redis_connect env hostname portnr RedisClient_new) (\<lambda>(ok, c).
       if \<not> ok then Done (False, c)
       else if password = [] then Done (True, c)
       else cbind (redis_auth password c) (\<lambda>(ok1, authResponse, c1). Done (ok1, c1)))"

definition ws_redis_publish_main ::
  "redis_env \<Rightarrow> string \<Rightarrow> int \<Rightarrow> string \<Rightarrow> string \<Rightarrow> string \<Rightarrow> int \<Rightarrow> (int \<times> redis_client) cobra_result" where
  "ws_redis_publish_main env hostname portnr password channel message count =
     cbind (redis_login env hostname portnr password) (\<lambda>(ok, c).
       if \<not> ok then Done (1, c) else redis_publish_times (nat count) channel message c)"

text \<open>After \<open>n\<close> rounds of the subscription: no exit code while it runs; with it, the number of messages.\<close>

definition ws_redis_subscribe_main ::
  "redis_env \<Rightarrow> nat \<Rightarrow> string \<Rightarrow> int \<Rightarrow> string \<Rightarrow> string \<Rightarrow> (int option \<times> int) cobra_result" where
  "ws_redis_subscribe_main env n hostname portnr password channel =
     cbind (redis_login env hostname portnr password) (\<lambda>(ok, c).
       if \<not> ok then Done (Some 1, 0)
       else cbind (redis_subscribe (\<lambda>redisResponse msgCount. Done msgCount) (\<lambda>message msgCount. Done (msgCount + 1)) uncancelled n channel c 0) (\<lambda>(t, c1, msgCount).
         Done (case t of Again \<Rightarrow> None | redis_turn.Ended ok1 \<Rightarrow> Some (if ok1 then 0 else 1), msgCount)))"

subsection \<open>The file server\<close>

definition ws_httpd_run :: "(int \<Rightarrow> string) \<Rightarrow> listen_os \<Rightarrow> int \<Rightarrow> string \<Rightarrow> string + (http_local, http_shared) server" where
  "ws_httpd_run strerr os p hostname =
     (case server_listen strerr os (HttpServer_new p hostname kDefaultTcpBacklog kDefaultMaxConnections) of
        ((ok, err), s) \<Rightarrow> if \<not> ok then Inl err else Inr (server_start s))"

subsection \<open>What the drivers do\<close>

text \<open>Every case from 1 to the number that the server gave is run once, in order.\<close>

lemma autobahn_runs_all:
  assumes "msg_type m = Message" "msg_str m = string_of_nat n" "int n \<le> int_max" "msg_type c = Close" "generateReport reports = Some True"
  shows "ws_autobahn_main address [m, c] reports =
    Some (map (\<lambda>i. address @ ''/runCase?case='' @ string_of_nat i @ ''&agent=ixwebsocket'') [1..<Suc n], 0)"
  using assms extract_int_string_of_nat [of n "[]" "- 1"]
  by (simp add: ws_autobahn_main_def getTestCaseCount_def getTestCaseCount_onMessage_def testcase_urls_def nat_add_distrib)

text \<open>A report whose connection fails is waited for without end: its callback notifies on a close only.\<close>

lemma failed_report_waits: "list_all (\<lambda>m. msg_type m = Error) ms \<Longrightarrow> generateReport ms = None"
proof -
  have "list_all (\<lambda>m. msg_type m = Error) ms \<Longrightarrow> until_notified generateReport_onMessage ms x = None" for x
    by (induction ms arbitrary: x) (simp_all add: generateReport_onMessage_def)
  then show "list_all (\<lambda>m. msg_type m = Error) ms \<Longrightarrow> generateReport ms = None" by (simp add: generateReport_def)
qed

end
