(* ===== verification/Sentry.thy ===== *)
theory Sentry
  imports HttpAsync Cobra Fifo "HOL-Library.Multiset"
begin

section \<open>Reports to Sentry\<close>

text \<open>
  \<^verbatim>\<open>ws/IXSentryClient.cpp\<close> turns a message of a Cobra channel into a report and posts it;
  \<^verbatim>\<open>ws/ws_cobra_to_sentry.cpp\<close> queues the messages for a pool of threads that send them. The classes of the
  regular expressions exclude the text that follows them, so that they are read by scanning; only the file
  name of a stack frame, which may hold colons, is searched for from its longest form. Times and the JSON writer
  are parameters.
\<close>

subsection \<open>The client\<close>

record sentry =
  sy_validDsn :: bool
  sy_url :: string
  sy_publicKey :: string
  sy_secretKey :: string

record sentry_env =
  sy_timestamp :: int
  sy_iso8601 :: string
  sy_write :: "json \<Rightarrow> string"
  sy_floatText :: "rat \<Rightarrow> string"

text \<open>A nonempty text that ends before the character \<open>c\<close>, and what follows that character.\<close>

definition field_until :: "char \<Rightarrow> string \<Rightarrow> (string \<times> string) option" where
  "field_until c s =
     (let f = takeWhile (\<lambda>x. x \<noteq> c) s
      in if f = [] \<or> length f = length s then None else Some (f, drop (Suc (length f)) s))"

definition starts_with :: "string \<Rightarrow> string \<Rightarrow> string option" where
  "starts_with p s = (if take (length p) s = p then Some (drop (length p) s) else None)"

definition dsn_scheme :: "string \<Rightarrow> (string \<times> string) option" where
  "dsn_scheme dsn =
     (case starts_with ''http://'' dsn of
        Some rest \<Rightarrow> Some (''http'', rest)
      | None \<Rightarrow> map_option (Pair ''https'') (starts_with ''https://'' dsn))"

definition dsn_groups :: "string \<Rightarrow> (string \<times> string \<times> string \<times> string \<times> string) option" where
  "dsn_groups dsn =
     Option.bind (dsn_scheme dsn) (\<lambda>(scheme, r1).
       Option.bind (field_until (CHR '':'') r1) (\<lambda>(publicKey, r2).
         Option.bind (field_until (CHR ''@'') r2) (\<lambda>(secretKey, r3).
           Option.bind (field_until (CHR ''/'') r3) (\<lambda>(hostname, project_id).
             if project_id \<noteq> [] \<and> list_all c_isdigit project_id then Some (scheme, publicKey, secretKey, hostname, project_id) else None))))"

definition SentryClient_new :: "string \<Rightarrow> sentry" where
  "SentryClient_new dsn =
     (case dsn_groups dsn of
        None \<Rightarrow> \<lparr>sy_validDsn = False, sy_url = [], sy_publicKey = [], sy_secretKey = []\<rparr>
      | Some (scheme, publicKey, secretKey, hostname, project_id) \<Rightarrow>
          \<lparr>sy_validDsn = True, sy_url = scheme @ ''://'' @ hostname @ ''/api/'' @ project_id @ ''/store/'', sy_publicKey = publicKey,
           sy_secretKey = secretKey\<rparr>)"

definition computeAuthHeader :: "sentry_env \<Rightarrow> sentry \<Rightarrow> string" where
  "computeAuthHeader env c =
     ''Sentry sentry_version=5'' @ '',sentry_client=ws/1.0.0'' @ '',sentry_timestamp='' @ string_of_int (sy_timestamp env)
     @ '',sentry_key='' @ sy_publicKey c @ '',sentry_secret='' @ sy_secretKey c"

text \<open>What follows the file name in a line such as \<^verbatim>\<open>MapScene.lua:2169: in function 'singleCB'\<close>.\<close>

definition lua_rest :: "string \<Rightarrow> (string \<times> string) option" where
  "lua_rest s =
     (let digits = takeWhile c_isdigit s
      in if digits = [] then None
         else Option.bind (starts_with '': in function '' (drop (length digits) s)) (\<lambda>r.
           Option.bind (starts_with [CHR 0x27] r) (\<lambda>q.
             if length q \<ge> 2 \<and> last q = CHR 0x27 \<and> CHR ''/'' \<notin> set (butlast q) then Some (digits, butlast q) else None)))"

definition lua_split :: "string \<Rightarrow> nat \<Rightarrow> (string \<times> string \<times> string) option" where
  "lua_split s i =
     (if s ! i = CHR '':'' \<and> CHR ''/'' \<notin> set (take i s) then map_option (\<lambda>(digits, function). (take i s, digits, function)) (lua_rest (drop (i + 1) s))
      else None)"

definition lua_frame :: "string \<Rightarrow> (string \<times> string \<times> string) option" where
  "lua_frame line =
     (case line of
        [] \<Rightarrow> None
      | c # s \<Rightarrow> if c = CHR 0x09 then (case List.map_filter (lua_split s) (rev [1..<length s]) of [] \<Rightarrow> None | x # _ \<Rightarrow> Some x) else None)"

text \<open>\<open>operator>>\<close> into an unsigned integer of 64 bits keeps the greatest for a number that does not fit.\<close>

definition read_u64 :: "string \<Rightarrow> int" where
  "read_u64 digits = min (prefix_int digits) (2 ^ 64 - 1)"

definition lua_frame_value :: "string \<times> string \<times> string \<Rightarrow> json" where
  "lua_frame_value x =
     (case x of (fileName, linenoStr, function) \<Rightarrow>
        object_of [(''lineno'', JInt (read_u64 linenoStr)), (''filename'', JString fileName), (''function'', JString function)])"

definition parseLuaStackTrace :: "string \<Rightarrow> json" where
  "parseLuaStackTrace stack =
     (let frames = map lua_frame_value (List.map_filter lua_frame (getlines LF stack))
      in if frames = [] then JNull else JArray (rev frames))"

definition parseExceptionName :: "string \<Rightarrow> string" where
  "parseExceptionName stack = takeWhile (\<lambda>c. c \<noteq> LF) stack"

text \<open>\<open>msg[a][b]\<close>.\<close>

definition member2 :: "json \<Rightarrow> string \<Rightarrow> string \<Rightarrow> json cobra_result" where
  "member2 msg a b = cbind (unthrow (json_index msg a)) (\<lambda>v. unthrow (json_index v b))"

definition payload_of :: "sentry_env \<Rightarrow> string \<Rightarrow> json \<Rightarrow> json \<Rightarrow> json \<Rightarrow> json \<Rightarrow> json" where
  "payload_of env stack value game user_id environment =
     object_of [(''platform'', JString ''python''), (''sdk'', object_of [(''name'', JString ''ws''), (''version'', JString ''1.0.0'')]),
       (''timestamp'', JString (sy_iso8601 env)),
       (''exception'', JArray [object_of [(''stacktrace'', object_of [(''frames'', parseLuaStackTrace stack)]), (''value'', value)]]),
       (''tags'', JArray [JArray [JString ''game'', game], JArray [JString ''userid'', user_id], JArray [JString ''environment'', environment]])]"

definition computePayload :: "sentry_env \<Rightarrow> json \<Rightarrow> string cobra_result" where
  "computePayload env msg =
     cbind (unthrow (json_index msg ''id'')) (\<lambda>i.
       cbind (unthrow (asString (sy_floatText env) i)) (\<lambda>mid.
         let isNoisyTypes = (mid = ''game_noisytypes_id'')
         in cbind (member2 msg ''data'' (if isNoisyTypes then ''traceback'' else ''stack'')) (\<lambda>s.
              cbind (unthrow (asString (sy_floatText env) s)) (\<lambda>stack.
                cbind (if isNoisyTypes then Done (JString (parseExceptionName stack)) else member2 msg ''data'' ''message'') (\<lambda>value.
                  cbind (member2 msg ''device'' ''game'') (\<lambda>game.
                    cbind (member2 msg ''device'' ''user_id'') (\<lambda>user_id.
                      cbind (member2 msg ''device'' ''environment'') (\<lambda>environment.
                        Done (sy_write env (payload_of env stack value game user_id environment))))))))))"

definition sentry_args :: "sentry_env \<Rightarrow> sentry \<Rightarrow> bool \<Rightarrow> HttpRequestArgs" where
  "sentry_args env c verbose =
     (createRequest [] kGet)\<lparr>args_extraHeaders := headers_assign ''X-Sentry-Auth'' (computeAuthHeader env c) [], args_connectTimeout := 60,
       args_transferTimeout := 5 * 60, args_followRedirects := True, args_verbose := verbose, args_logger := True\<rparr>"

definition sentry_send ::
  "'z http_env \<Rightarrow> sentry_env \<Rightarrow> json \<Rightarrow> bool \<Rightarrow> sentry \<Rightarrow> ((http_result \<times> string list \<times> socket option) \<times> string) cobra_result" where
  "sentry_send henv env msg verbose c =
     cbind (computePayload env msg) (\<lambda>body.
       case http_post henv (sy_url c) body (sentry_args env c verbose) of None \<Rightarrow> Stuck | Some r \<Rightarrow> Done (r, body))"

subsection \<open>The pool of senders\<close>

text \<open>
  The callback of the subscription decides on a message, queues it and notifies; a sender takes one under the
  lock, or waits; \<open>condition.wait\<close> with a predicate looks again after each wake. The main thread stops the
  program when a message could not be sent. \<open>sp_accepted\<close>, \<open>sp_taken\<close> and \<open>sp_results\<close> record what happened.
\<close>

datatype sender_pc = SenderLooks | SenderWaits | SenderSends json | SenderSent | SenderEnded
datatype callback_pc = CallbackIdle | CallbackPush json | CallbackNotify

record pool =
  sp_queue :: "json list"
  sp_senders :: "nat \<Rightarrow> sender_pc"
  sp_callback :: callback_pc
  sp_sentCount :: u64
  sp_receivedCount :: u64
  sp_errorSending :: bool
  sp_stop :: bool
  sp_accepted :: "json list"
  sp_taken :: "json list"
  sp_results :: "(json \<times> bool) list"

definition pool_start :: pool where
  "pool_start = \<lparr>sp_queue = [], sp_senders = (\<lambda>_. SenderLooks), sp_callback = CallbackIdle, sp_sentCount = 0, sp_receivedCount = 0,
     sp_errorSending = False, sp_stop = False, sp_accepted = [], sp_taken = [], sp_results = []\<rparr>"

definition backlogged :: "pool \<Rightarrow> bool" where
  "backlogged p = (sp_sentCount p \<noteq> 0 \<and> sp_receivedCount p \<noteq> 0 \<and> sp_sentCount p * 2 < sp_receivedCount p)"

definition callback_begin :: "json \<Rightarrow> pool \<Rightarrow> pool" where
  "callback_begin msg p =
     (if backlogged p then p\<lparr>sp_callback := CallbackNotify\<rparr>
      else p\<lparr>sp_receivedCount := sp_receivedCount p + 1, sp_accepted := sp_accepted p @ [msg], sp_callback := CallbackPush msg\<rparr>)"

definition queue_push :: "json \<Rightarrow> pool \<Rightarrow> pool" where
  "queue_push msg p = p\<lparr>sp_queue := sp_queue p @ [msg]\<rparr>"

definition queue_pop :: "pool \<Rightarrow> json option \<times> pool" where
  "queue_pop p = (case sp_queue p of [] \<Rightarrow> (None, p) | msg # q \<Rightarrow> (Some msg, p\<lparr>sp_queue := q\<rparr>))"

definition set_sender :: "nat \<Rightarrow> sender_pc \<Rightarrow> pool \<Rightarrow> pool" where
  "set_sender i pc p = p\<lparr>sp_senders := (sp_senders p)(i := pc)\<rparr>"

definition sender_look :: "nat \<Rightarrow> pool \<Rightarrow> pool" where
  "sender_look i p =
     (if sp_stop p then set_sender i SenderWaits p
      else case queue_pop p of
        (None, p1) \<Rightarrow> set_sender i SenderWaits p1
      | (Some msg, p1) \<Rightarrow> set_sender i (SenderSends msg) (p1\<lparr>sp_taken := sp_taken p1 @ [msg]\<rparr>))"

definition sender_report :: "nat \<Rightarrow> json \<Rightarrow> int \<Rightarrow> pool \<Rightarrow> pool" where
  "sender_report i msg status p =
     set_sender i SenderSent
       ((if status \<noteq> 200 then p\<lparr>sp_errorSending := True\<rparr> else p\<lparr>sp_sentCount := sp_sentCount p + 1\<rparr>)
          \<lparr>sp_results := sp_results p @ [(msg, status = 200)]\<rparr>)"

inductive pool_step :: "nat \<Rightarrow> bool \<Rightarrow> pool \<Rightarrow> pool \<Rightarrow> bool" for jobs strict where
  arrives: "sp_callback p = CallbackIdle \<Longrightarrow> pool_step jobs strict p (callback_begin msg p)"
| pushed: "sp_callback p = CallbackPush msg \<Longrightarrow> pool_step jobs strict p ((queue_push msg p)\<lparr>sp_callback := CallbackNotify\<rparr>)"
| notified: "sp_callback p = CallbackNotify \<Longrightarrow> i < jobs \<Longrightarrow> sp_senders p i = SenderWaits \<Longrightarrow>
    pool_step jobs strict p (set_sender i SenderLooks (p\<lparr>sp_callback := CallbackIdle\<rparr>))"
| unnoticed: "sp_callback p = CallbackNotify \<Longrightarrow> list_all (\<lambda>i. sp_senders p i \<noteq> SenderWaits) [0..<jobs] \<Longrightarrow>
    pool_step jobs strict p (p\<lparr>sp_callback := CallbackIdle\<rparr>)"
| looks: "i < jobs \<Longrightarrow> sp_senders p i = SenderLooks \<Longrightarrow> pool_step jobs strict p (sender_look i p)"
| reports: "i < jobs \<Longrightarrow> sp_senders p i = SenderSends msg \<Longrightarrow> pool_step jobs strict p (sender_report i msg status p)"
| goes_on: "i < jobs \<Longrightarrow> sp_senders p i = SenderSent \<Longrightarrow>
    pool_step jobs strict p (set_sender i (if sp_stop p then SenderEnded else SenderLooks) p)"
| stops: "strict \<Longrightarrow> sp_errorSending p \<Longrightarrow> pool_step jobs strict p (p\<lparr>sp_stop := True\<rparr>)"

interpretation sentry_queue: fifo_queue queue_push queue_pop sp_queue
  by unfold_locales (auto simp: queue_push_def queue_pop_def)

inductive pool_reachable :: "nat \<Rightarrow> bool \<Rightarrow> pool \<Rightarrow> bool" for jobs strict where
  pool_starts: "pool_reachable jobs strict pool_start"
| pool_goes: "pool_reachable jobs strict p \<Longrightarrow> pool_step jobs strict p p' \<Longrightarrow> pool_reachable jobs strict p'"

subsection \<open>Every message has its place\<close>

fun carried :: "sender_pc \<Rightarrow> json multiset" where
  "carried (SenderSends msg) = {#msg#}"
| "carried _ = {#}"

fun to_push :: "callback_pc \<Rightarrow> json list" where
  "to_push (CallbackPush msg) = [msg]"
| "to_push _ = []"

definition on_the_way :: "nat \<Rightarrow> pool \<Rightarrow> json multiset" where
  "on_the_way jobs p = (\<Sum>i<jobs. carried (sp_senders p i))"

definition pool_inv :: "nat \<Rightarrow> pool \<Rightarrow> bool" where
  "pool_inv jobs p \<longleftrightarrow>
     sp_taken p @ sp_queue p @ to_push (sp_callback p) = sp_accepted p \<and>
     mset (sp_taken p) = mset (map fst (sp_results p)) + on_the_way jobs p \<and>
     sp_sentCount p = of_nat (length (filter snd (sp_results p))) \<and> sp_receivedCount p = of_nat (length (sp_accepted p))"

lemma set_sender_fields [simp]:
  "sp_queue (set_sender i pc p) = sp_queue p" "sp_callback (set_sender i pc p) = sp_callback p" "sp_sentCount (set_sender i pc p) = sp_sentCount p"
  "sp_receivedCount (set_sender i pc p) = sp_receivedCount p" "sp_errorSending (set_sender i pc p) = sp_errorSending p"
  "sp_stop (set_sender i pc p) = sp_stop p" "sp_accepted (set_sender i pc p) = sp_accepted p" "sp_taken (set_sender i pc p) = sp_taken p"
  "sp_results (set_sender i pc p) = sp_results p" "sp_senders (set_sender i pc p) = (sp_senders p)(i := pc)"
  by (simp_all add: set_sender_def)

lemma on_the_way_same: "sp_senders p' = sp_senders p \<Longrightarrow> on_the_way jobs p' = on_the_way jobs p"
  by (simp add: on_the_way_def)

lemma on_the_way_set:
  assumes "i < jobs" "sp_senders p' = (sp_senders p)(i := pc)"
  shows "on_the_way jobs p' + carried (sp_senders p i) = on_the_way jobs p + carried pc"
proof -
  have rem: "(\<Sum>j<jobs. carried (sp_senders q j)) = carried (sp_senders q i) + (\<Sum>j\<in>{..<jobs} - {i}. carried (sp_senders q j))" for q
    using assms(1) by (intro sum.remove) auto
  have "(\<Sum>j\<in>{..<jobs} - {i}. carried (sp_senders p' j)) = (\<Sum>j\<in>{..<jobs} - {i}. carried (sp_senders p j))"
    by (intro sum.cong) (auto simp: assms(2))
  then show ?thesis unfolding on_the_way_def rem [of p] rem [of p'] by (simp add: assms(2))
qed

lemma pool_step_inv: "pool_step jobs strict p p' \<Longrightarrow> pool_inv jobs p \<Longrightarrow> pool_inv jobs p'"
proof (induction rule: pool_step.induct)
  case (arrives p msg)
  then show ?case by (auto simp: callback_begin_def pool_inv_def on_the_way_def)
next
  case (pushed p msg)
  then show ?case by (auto simp: queue_push_def pool_inv_def on_the_way_def)
next
  case (notified p i)
  then show ?case using on_the_way_set [of i jobs "set_sender i SenderLooks (p\<lparr>sp_callback := CallbackIdle\<rparr>)" p SenderLooks]
    by (simp add: pool_inv_def)
next
  case (unnoticed p)
  then show ?case by (simp add: pool_inv_def on_the_way_def)
next
  case (looks i p)
  show ?case
  proof (cases "sp_stop p \<or> sp_queue p = []")
    case True
    then have "sender_look i p = set_sender i SenderWaits p" by (auto simp: sender_look_def queue_pop_def)
    then show ?thesis using looks on_the_way_set [of i jobs "set_sender i SenderWaits p" p SenderWaits] by (simp add: pool_inv_def)
  next
    case False
    then obtain msg q where q: "sp_queue p = msg # q" by (cases "sp_queue p") auto
    let ?p = "set_sender i (SenderSends msg) (p\<lparr>sp_queue := q, sp_taken := sp_taken p @ [msg]\<rparr>)"
    have "sender_look i p = ?p" using False q by (simp add: sender_look_def queue_pop_def)
    then show ?thesis using looks q on_the_way_set [of i jobs ?p p "SenderSends msg"] by (simp add: pool_inv_def)
  qed
next
  case (reports i p msg status)
  then show ?case using on_the_way_set [of i jobs "sender_report i msg status p" p SenderSent]
    by (auto simp: pool_inv_def sender_report_def)
next
  case (goes_on i p)
  let ?pc = "if sp_stop p then SenderEnded else SenderLooks"
  show ?case using goes_on on_the_way_set [of i jobs "set_sender i ?pc p" p ?pc] by (simp add: pool_inv_def)
next
  case (stops p)
  then show ?case by (simp add: pool_inv_def on_the_way_def)
qed

text \<open>
  C40. Whatever the callback, the senders and the main thread do: the messages that were accepted are,
  in their order, those that the senders have taken, those in the queue and the one about to be queued; each
  one that was taken has been sent once or is with one sender; and the counters that decide on
  dropping count the messages accepted and those sent with success, modulo \<open>2 ^ 64\<close>.
\<close>

theorem sentry_sends_each_once:
  assumes "pool_reachable jobs strict p"
  shows "sp_taken p @ sp_queue p @ to_push (sp_callback p) = sp_accepted p \<and>
    mset (sp_taken p) = mset (map fst (sp_results p)) + on_the_way jobs p \<and>
    sp_sentCount p = of_nat (length (filter snd (sp_results p))) \<and> sp_receivedCount p = of_nat (length (sp_accepted p))"
proof -
  have "pool_inv jobs p" using assms
  proof induction
    case pool_starts
    then show ?case by (simp add: pool_inv_def pool_start_def on_the_way_def)
  qed (rule pool_step_inv)
  then show ?thesis by (simp add: pool_inv_def)
qed

text \<open>Once the program stops, a sender without a message waits for ever: the predicate of its wait excludes the
  stop. The join of the threads does not return.\<close>

lemma stopped_sender_waits:
  assumes "(pool_step jobs strict)\<^sup>*\<^sup>* p p'" "sp_stop p" "sp_senders p i = SenderLooks \<or> sp_senders p i = SenderWaits"
  shows "sp_stop p' \<and> (sp_senders p' i = SenderLooks \<or> sp_senders p' i = SenderWaits)"
  using assms
proof (induction rule: rtranclp_induct)
  case (step q q')
  then have "sp_stop q" "sp_senders q i = SenderLooks \<or> sp_senders q i = SenderWaits" by auto
  with step.hyps(2) show ?case
    by (induction rule: pool_step.induct) (auto simp: callback_begin_def queue_push_def sender_look_def sender_report_def)
qed simp

definition demo_pool :: pool where
  "demo_pool = sender_look 0 ((queue_push JNull (callback_begin JNull pool_start))\<lparr>sp_callback := CallbackNotify\<rparr>)"

theorem sentry_sends_each_once_witness:
  "sp_taken demo_pool @ sp_queue demo_pool @ to_push (sp_callback demo_pool) = sp_accepted demo_pool \<and> sp_accepted demo_pool = [JNull] \<and>
    mset (sp_taken demo_pool) = mset (map fst (sp_results demo_pool)) + on_the_way 1 demo_pool \<and>
    sp_sentCount demo_pool = of_nat (length (filter snd (sp_results demo_pool))) \<and> sp_receivedCount demo_pool = of_nat (length (sp_accepted demo_pool))"
proof -
  let ?p1 = "callback_begin JNull pool_start" and ?p2 = "(queue_push JNull (callback_begin JNull pool_start))\<lparr>sp_callback := CallbackNotify\<rparr>"
  have s: "sp_callback pool_start = CallbackIdle" "sp_callback ?p1 = CallbackPush JNull" "sp_senders ?p2 0 = SenderLooks"
    by (simp_all add: pool_start_def callback_begin_def backlogged_def queue_push_def)
  have "pool_reachable 1 True ?p1" by (rule pool_goes [OF pool_starts arrives [OF s(1)]])
  then have "pool_reachable 1 True ?p2" by (rule pool_goes) (rule pushed [OF s(2)])
  then have "pool_reachable 1 True demo_pool" unfolding demo_pool_def by (rule pool_goes) (rule looks, simp, rule s(3))
  from sentry_sends_each_once [OF this] show ?thesis
    by (simp add: demo_pool_def sender_look_def queue_pop_def queue_push_def callback_begin_def backlogged_def pool_start_def)
qed

subsection \<open>Reports\<close>

text \<open>A frame whose file is in a directory is passed over.\<close>

lemma frame_with_slash_ignored:
  "CHR '':'' \<notin> set a \<Longrightarrow> lua_frame (CHR 0x09 # a @ CHR ''/'' # b) = None"
proof -
  assume a: "CHR '':'' \<notin> set a"
  let ?s = "a @ CHR ''/'' # b"
  have "lua_split ?s i = None" if "1 \<le> i" "i < length ?s" for i
  proof (cases "i \<le> length a")
    case True
    then have "?s ! i \<noteq> CHR '':''" using a by (cases "i = length a") (auto simp: nth_append in_set_conv_nth)
    then show ?thesis by (simp add: lua_split_def)
  next
    case False
    then have "CHR ''/'' \<in> set (take i ?s)" by (cases "i - length a") (auto simp: take_append)
    then show ?thesis by (simp add: lua_split_def)
  qed
  then have "List.map_filter (lua_split ?s) (rev [1..<length ?s]) = []" by (auto simp: List.map_filter_def)
  then show ?thesis by (simp add: lua_frame_def)
qed

lemma dsn_parsed:
  assumes "CHR '':'' \<notin> set k" "CHR ''@'' \<notin> set x" "CHR ''/'' \<notin> set h" "k \<noteq> []" "x \<noteq> []" "h \<noteq> []" "n \<noteq> []" "list_all c_isdigit n"
  shows "SentryClient_new (''https://'' @ k @ '':'' @ x @ ''@'' @ h @ ''/'' @ n) =
    \<lparr>sy_validDsn = True, sy_url = ''https://'' @ h @ ''/api/'' @ n @ ''/store/'', sy_publicKey = k, sy_secretKey = x\<rparr>"
proof -
  have f: "field_until c (f @ c # r) = Some (f, r)" if "c \<notin> set f" "f \<noteq> []" for c f r
  proof -
    have "takeWhile (\<lambda>x. x \<noteq> c) (f @ c # r) = f" using that(1) by (subst takeWhile_append2) auto
    then show ?thesis using that(2) by (simp add: field_until_def)
  qed
  show ?thesis using assms by (simp add: SentryClient_new_def dsn_groups_def dsn_scheme_def starts_with_def f)
qed

end
