(* ===== verification/CobraProperties.thy ===== *)
theory CobraProperties
  imports Cobra HandshakeProperties
begin

section \<open>Properties of the Cobra connection\<close>

text \<open>
  Sending calls back for a closed connection only; the authentication dialogue and what it
  publishes; the queue of unsent messages; subscriptions.
\<close>

subsection \<open>Calls made by a send\<close>

fun is_close :: "transport_event \<Rightarrow> bool" where
  "is_close (OnClose status reason n remote) = True"
| "is_close _ = False"

definition only_closes :: "'z transport \<Rightarrow> 'z transport \<Rightarrow> bool" where
  "only_closes t t' \<longleftrightarrow> (\<exists>es. events t' = events t @ es \<and> list_all is_close es)"

lemma only_closes_refl [simp]: "events t' = events t \<Longrightarrow> only_closes t t'"
  by (simp add: only_closes_def)

lemma only_closes_trans: "only_closes t t1 \<Longrightarrow> only_closes t1 t2 \<Longrightarrow> only_closes t t2"
  by (auto simp: only_closes_def)

lemma only_closes_from: "only_closes t1 t2 \<Longrightarrow> events t1 = events t \<Longrightarrow> only_closes t t2"
  by (simp add: only_closes_def)

lemma only_closes_setReadyState: "only_closes t (setReadyState env rs t)"
  by (auto simp: only_closes_def setReadyState_def initTimePointsAndGCDAfterConnect_def Let_def split_beta now_def)

lemma only_closes_sendOnSocket: "only_closes t (sendOnSocket env t)"
proof (induction env t rule: sendOnSocket.induct)
  case (1 env t)
  obtain ret s where s: "socket_send (sock t) (txbuf t) = (ret, s)" by fastforce
  let ?t1 = "t\<lparr>sock := s\<rparr>"
  have a: "only_closes t (setReadyState env CLOSED (closeSocket ?t1))"
    using only_closes_from [OF only_closes_setReadyState, of "closeSocket ?t1" t env CLOSED] by (simp add: closeSocket_def)
  show ?case
  proof (cases "txbuf t = [] \<or> ret \<le> 0")
    case True
    then show ?thesis using s a by (subst sendOnSocket.simps) (auto simp: Let_def)
  next
    case False
    then have e: "sendOnSocket env t = sendOnSocket env (?t1\<lparr>txbuf := drop (nat ret) (txbuf ?t1)\<rparr>)"
      using s by (subst sendOnSocket.simps) (simp add: Let_def)
    show ?thesis
      unfolding e by (rule only_closes_from [OF "1.IH"]) (use False s in \<open>auto simp: Let_def\<close>)
  qed
qed

lemma only_closes_sendFragment: "only_closes t (sendFragment env ty f m c t)"
  by (auto simp: sendFragment_def getRandomUnsigned_def appendToSendBuffer_def Let_def intro!: only_closes_from [OF only_closes_sendOnSocket])

lemma only_closes_fragment_loop: "only_closes t (fragment_loop env ty c None steps k rest t)"
proof (induction k arbitrary: rest t)
  case (Suc k)
  show ?case using only_closes_trans [OF only_closes_sendFragment Suc] by (simp add: Let_def)
qed simp

lemma only_closes_wakeUp: "only_closes t t1 \<Longrightarrow> only_closes t (wakeUp req t1)"
  by (simp add: only_closes_def wakeUp_def)

lemma only_closes_sendWire: "only_closes t (sendWire env ty w c None t)"
  by (auto simp: sendWire_def Let_def only_closes_wakeUp only_closes_sendFragment only_closes_fragment_loop)

lemma only_closes_sendPlain: "only_closes t (snd (sendPlain env ty m None t))"
  by (simp add: sendPlain_def only_closes_sendWire)

lemma only_closes_sendData:
  assumes "sendData env ty m c None t = Ret (info, t')"
  shows "only_closes t t'"
proof (cases c)
  case False
  then have "t' = snd (sendPlain env ty m None t)" using assms by (auto simp: sendData_def)
  then show ?thesis using only_closes_sendPlain by blast
next
  case True
  then show ?thesis
    using assms by (auto simp: sendData_def split: if_splits option.splits bool.splits intro!: only_closes_from [OF only_closes_sendWire])
qed

lemma only_closes_sendCloseFrame: "only_closes t (sendCloseFrame env status reason t)"
  by (simp add: sendCloseFrame_def only_closes_sendPlain)

lemma only_closes_close: "only_closes t (close env status reason n remote t)"
proof (cases "readyState t = CLOSING \<or> readyState t = CLOSED")
  case False
  let ?t2 = "t\<lparr>requestInitCancellation := True, closeCode := status, closeReason := reason,
    closeWireSize := if n = 0 then length reason else n, closeRemote := remote, steadyReads := Suc (steadyReads t),
    closingTimePoint := steadyAt env (steadyReads t)\<rparr>"
  have e: "close env status reason n remote t = wakeUp kSendRequest (sendCloseFrame env status reason (setReadyState env CLOSING ?t2))"
    using False by (simp add: close_def Let_def now_def)
  have "events ?t2 = events t" by simp
  then show ?thesis
    unfolding e by (rule only_closes_wakeUp [OF only_closes_from [OF only_closes_trans [OF only_closes_setReadyState only_closes_sendCloseFrame]]])
qed (simp add: close_def Let_def)

lemma calls_of_closes:
  "list_all is_close es \<Longrightarrow> \<exists>ms. concat (map (calls_of b) es) = map OnMessageCallback ms \<and> list_all (\<lambda>m. msg_type m = Close) ms"
proof (induction es)
  case (Cons e es)
  then obtain ms where ms: "concat (map (calls_of b) es) = map OnMessageCallback ms" "list_all (\<lambda>m. msg_type m = Close) ms" by auto
  from Cons.prems obtain st re n rem where e: "e = OnClose st re n rem" by (cases e) auto
  define m where "m = \<lparr>msg_type = Close, msg_str = [], msg_wireSize = n, msg_errorInfo = noError, msg_openInfo = noOpen,
        msg_closeInfo = \<lparr>ci_code = st, ci_reason = re, ci_remote = rem\<rparr>, msg_binary = False\<rparr>"
  have "concat (map (calls_of b) (e # es)) = map OnMessageCallback (m # ms)" using ms e by (simp add: m_def)
  moreover have "list_all (\<lambda>m. msg_type m = Close) (m # ms)" using ms by (simp add: m_def)
  ultimately show ?case by blast
qed auto

text \<open>A send of the WebSocket object calls back for a close only, when no tracker is set.\<close>

lemma send_calls_back_for_close:
  assumes "ws_send env m False None w = Ret (info, w1)" "events (ws_transport w) = []" "\<not> ws_trafficTracker w"
  shows "\<exists>ms. new_calls w w1 = map OnMessageCallback ms \<and> list_all (\<lambda>m. msg_type m = Close) ms"
proof -
  have drained: "\<exists>ms. new_calls w (drain w t) = map OnMessageCallback ms \<and> list_all (\<lambda>m. msg_type m = Close) ms"
    if "only_closes (ws_transport w) t" for t
    using that assms(2) calls_of_closes by (auto simp: only_closes_def new_calls_def drain_def)
  have self: "new_calls w w = []" by (simp add: new_calls_def)
  show ?thesis
  proof (cases "validateUtf8 (bytes_of m) \<and> ws_isConnected w")
    case True
    then obtain t where t: "sendText env m None (ws_transport w) = Ret (info, t)"
      and "w1 = (if ws_trafficTracker (drain w t) then (drain w t)\<lparr>ws_calls := ws_calls (drain w t) @ [OnTraffic (si_wireSize info) False]\<rparr> else drain w t)"
      using assms(1) by (cases "sendText env m None (ws_transport w)") (auto simp: ws_send_def ws_sendText_def sendMessage_def Let_def)
    then have "w1 = drain w t" using assms(3) by (simp add: drain_def)
    then show ?thesis using drained only_closes_sendData t unfolding sendText_def by blast
  next
    case False
    then have "w1 = w \<or> w1 = drain w (close env kInvalidFramePayloadData kInvalidFramePayloadDataMessage 0 False (ws_transport w))"
      using assms(1) by (auto simp: ws_send_def ws_sendText_def sendMessage_def ws_close_def split: if_splits)
    then show ?thesis using drained [OF only_closes_close] self by fastforce
  qed
qed

subsection \<open>What a send leaves alone\<close>

lemma call_out_frame [simp]:
  "cb_messageQueue (cobra_call_out x c) = cb_messageQueue c" "cb_id (cobra_call_out x c) = cb_id c" "cb_cbs (cobra_call_out x c) = cb_cbs c"
  "cb_webSocket (cobra_call_out x c) = cb_webSocket c" "cb_authenticated (cobra_call_out x c) = cb_authenticated c"
  "cb_publishMode (cobra_call_out x c) = cb_publishMode c" "cb_roleName (cobra_call_out x c) = cb_roleName c"
  "cb_roleSecret (cobra_call_out x c) = cb_roleSecret c" "cb_body (cobra_call_out x c) = cb_body c" "cb_pdu (cobra_call_out x c) = cb_pdu c"
  by (simp_all add: cobra_call_out_def)

text \<open>The members that callbacks and sends do not touch.\<close>

definition cobra_keeps :: "'z cobra \<Rightarrow> 'z cobra \<Rightarrow> bool" where
  "cobra_keeps c c' \<longleftrightarrow> cb_messageQueue c' = cb_messageQueue c \<and> cb_id c' = cb_id c \<and> cb_cbs c' = cb_cbs c \<and>
     cb_publishMode c' = cb_publishMode c \<and> cb_roleName c' = cb_roleName c \<and> cb_roleSecret c' = cb_roleSecret c \<and>
     cb_body c' = cb_body c \<and> cb_pdu c' = cb_pdu c \<and> (cb_authenticated c' \<longrightarrow> cb_authenticated c)"

lemma cobra_keeps_trans: "cobra_keeps c c1 \<Longrightarrow> cobra_keeps c1 c2 \<Longrightarrow> cobra_keeps c c2"
  by (auto simp: cobra_keeps_def)

lemma keeps_callbacks:
  "cobra_keeps c (invokeTrafficTrackerCallback n b c)" "cobra_keeps c (invokePublishTrackerCallback b1 b2 c)"
  "cobra_keeps c (invokeEventCallback ty msg hs sub n64 c)" "cobra_keeps c (cobra_closed m c)"
  by (auto simp: cobra_keeps_def invokeTrafficTrackerCallback_def invokePublishTrackerCallback_def invokeEventCallback_def cobra_closed_def)

lemma cobra_keeps_refl: "cobra_keeps c c"
  by (simp add: cobra_keeps_def)

lemma keeps_during_send: "cobra_keeps c (cobra_during_send x c)"
proof (cases x)
  case (OnMessageCallback m)
  then show ?thesis
    using cobra_keeps_trans [OF keeps_callbacks(1) [of c "msg_wireSize m" True] keeps_callbacks(4)] by (simp add: cobra_keeps_refl)
qed (simp add: cobra_keeps_refl)

lemma keeps_fold: "cobra_keeps c (fold cobra_during_send xs c)"
proof (induction xs arbitrary: c)
  case (Cons x xs)
  show ?case using cobra_keeps_trans [OF keeps_during_send Cons.IH] by simp
qed (simp add: cobra_keeps_refl)

lemma cobra_send_keeps:
  assumes "cobra_send env m c = Done (info, c')"
  shows "cobra_keeps c c'"
proof -
  obtain w where c': "c' = fold cobra_during_send (new_calls (cb_webSocket c) w) (c\<lparr>cb_webSocket := w\<rparr>)"
    using assms by (auto simp: cobra_send_def split: outcome.splits)
  have "cobra_keeps c (c\<lparr>cb_webSocket := w\<rparr>)" by (simp add: cobra_keeps_def)
  then show ?thesis unfolding c' using keeps_fold by (rule cobra_keeps_trans)
qed

lemma publishMessage_keeps: "publishMessage env m c = Done (ok, c') \<Longrightarrow> cobra_keeps c c'"
  by (auto simp: publishMessage_def cbind_Done intro: cobra_keeps_trans [OF cobra_send_keeps keeps_callbacks(1)])

subsection \<open>Sends that succeed\<close>

text \<open>The WebSocket object takes these texts one after the other and calls nobody back.\<close>

fun sends_ok :: "'z tenv \<Rightarrow> string list \<Rightarrow> 'z websocket \<Rightarrow> 'z websocket option" where
  "sends_ok env [] w = Some w"
| "sends_ok env (m # ms) w =
     (case ws_send env m False None w of
        Ret (info, w1) \<Rightarrow> if si_success info \<and> ws_calls w1 = ws_calls w then sends_ok env ms w1 else None
      | _ \<Rightarrow> None)"

lemma cobra_send_ok:
  assumes "sends_ok (ce_tenv env) (m # ms) (cb_webSocket c) = Some w"
  shows "\<exists>info w1. si_success info \<and> cobra_send env m c = Done (info, c\<lparr>cb_webSocket := w1\<rparr>) \<and> sends_ok (ce_tenv env) ms w1 = Some w"
proof -
  obtain info w1 where w1: "ws_send (ce_tenv env) m False None (cb_webSocket c) = Ret (info, w1)" "si_success info"
    "ws_calls w1 = ws_calls (cb_webSocket c)" "sends_ok (ce_tenv env) ms w1 = Some w"
    using assms by (auto split: outcome.splits if_splits)
  then show ?thesis by (intro exI [of _ info] exI [of _ w1]) (simp add: cobra_send_def new_calls_def)
qed

lemma tracker_calls: "\<exists>calls. invokeTrafficTrackerCallback n b c = c\<lparr>cb_calls := calls\<rparr>"
proof (cases "cb_trafficTracker c")
  case False
  then show ?thesis by (intro exI [of _ "cb_calls c"]) (simp add: invokeTrafficTrackerCallback_def)
qed (auto simp: invokeTrafficTrackerCallback_def cobra_call_out_def)

lemma event_calls: "\<exists>calls. invokeEventCallback ty msg hs sub n c = c\<lparr>cb_calls := calls\<rparr>"
proof (cases "cb_eventCallback c")
  case False
  then show ?thesis by (intro exI [of _ "cb_calls c"]) (simp add: invokeEventCallback_def)
qed (auto simp: invokeEventCallback_def cobra_call_out_def)

lemma publishMessage_ok:
  assumes "sends_ok (ce_tenv env) (m # ms) (cb_webSocket c) = Some w"
  shows "\<exists>w1 calls. publishMessage env m c = Done (True, c\<lparr>cb_webSocket := w1, cb_calls := calls\<rparr>) \<and> sends_ok (ce_tenv env) ms w1 = Some w"
proof -
  obtain info w1 where w1: "si_success info" "cobra_send env m c = Done (info, c\<lparr>cb_webSocket := w1\<rparr>)" "sends_ok (ce_tenv env) ms w1 = Some w"
    using cobra_send_ok [OF assms] by blast
  obtain calls where "invokeTrafficTrackerCallback (si_wireSize info) False (c\<lparr>cb_webSocket := w1\<rparr>) = c\<lparr>cb_webSocket := w1, cb_calls := calls\<rparr>"
    using tracker_calls [of "si_wireSize info" False "c\<lparr>cb_webSocket := w1\<rparr>"] by auto
  then show ?thesis using w1 by (intro exI [of _ w1] exI [of _ calls]) (simp add: publishMessage_def)
qed

lemma flush_loop_ok:
  "sends_ok (ce_tenv env) (rev q) (cb_webSocket c) = Some w \<Longrightarrow>
   \<exists>calls. flush_loop env q c = Done (True, c\<lparr>cb_webSocket := w, cb_messageQueue := [], cb_calls := calls\<rparr>)"
proof (induction q arbitrary: c rule: rev_induct)
  case Nil
  then have "cb_webSocket c = w" by simp
  then show ?case by (subst flush_loop.simps) (auto intro: exI [of _ "cb_calls c"])
next
  case (snoc m q)
  have "sends_ok (ce_tenv env) (m # rev q) (cb_webSocket c) = Some w" using snoc.prems by simp
  from publishMessage_ok [OF this] obtain w1 calls1 where p: "publishMessage env m c = Done (True, c\<lparr>cb_webSocket := w1, cb_calls := calls1\<rparr>)"
    "sends_ok (ce_tenv env) (rev q) w1 = Some w" by blast
  let ?c1 = "c\<lparr>cb_webSocket := w1, cb_calls := calls1\<rparr>"
  have "sends_ok (ce_tenv env) (rev q) (cb_webSocket ?c1) = Some w" using p(2) by simp
  from snoc.IH [OF this] obtain calls where "flush_loop env q ?c1 = Done (True, ?c1\<lparr>cb_webSocket := w, cb_messageQueue := [], cb_calls := calls\<rparr>)"
    by blast
  then show ?case using p(1) by (subst flush_loop.simps) auto
qed

lemma numbered_send_ok:
  assumes "sends_ok (ce_tenv env) (m # ms) (cb_webSocket c) = Some w"
  shows "\<exists>info w1 calls. si_success info \<and> sends_ok (ce_tenv env) ms w1 = Some w \<and>
    cobra_send env m (invokeTrafficTrackerCallback (length m) False (c\<lparr>cb_id := cb_id c + 1\<rparr>)) =
      Done (info, c\<lparr>cb_webSocket := w1, cb_id := cb_id c + 1, cb_calls := calls\<rparr>)"
proof -
  obtain calls where k: "invokeTrafficTrackerCallback (length m) False (c\<lparr>cb_id := cb_id c + 1\<rparr>) = c\<lparr>cb_id := cb_id c + 1, cb_calls := calls\<rparr>"
    using tracker_calls [of "length m" False "c\<lparr>cb_id := cb_id c + 1\<rparr>"] by auto
  have "sends_ok (ce_tenv env) (m # ms) (cb_webSocket (c\<lparr>cb_id := cb_id c + 1, cb_calls := calls\<rparr>)) = Some w" using assms by simp
  from cobra_send_ok [OF this] obtain info w1 where "si_success info" "sends_ok (ce_tenv env) ms w1 = Some w"
    "cobra_send env m (c\<lparr>cb_id := cb_id c + 1, cb_calls := calls\<rparr>) = Done (info, c\<lparr>cb_id := cb_id c + 1, cb_calls := calls, cb_webSocket := w1\<rparr>)"
    by auto
  then show ?thesis unfolding k by (intro exI [of _ info] exI [of _ w1] exI [of _ calls]) simp
qed

lemma handshake_ok:
  assumes "sends_ok (ce_tenv env) (ce_write env (handshake_pdu (cb_roleName c) (JInt (uint (cb_id c)))) # ms) (cb_webSocket c) = Some w"
  shows "\<exists>w1 calls. sendHandshakeMessage env c = Done (True, c\<lparr>cb_webSocket := w1, cb_id := cb_id c + 1, cb_calls := calls\<rparr>) \<and>
    sends_ok (ce_tenv env) ms w1 = Some w"
proof -
  obtain info w1 calls where "si_success info" "sends_ok (ce_tenv env) ms w1 = Some w"
    "cobra_send env (ce_write env (handshake_pdu (cb_roleName c) (JInt (uint (cb_id c)))))
       (invokeTrafficTrackerCallback (length (ce_write env (handshake_pdu (cb_roleName c) (JInt (uint (cb_id c)))))) False (c\<lparr>cb_id := cb_id c + 1\<rparr>)) =
       Done (info, c\<lparr>cb_webSocket := w1, cb_id := cb_id c + 1, cb_calls := calls\<rparr>)"
    using numbered_send_ok [OF assms] by blast
  then show ?thesis by (intro exI [of _ w1] exI [of _ calls]) (simp add: sendHandshakeMessage_def take_id_def Let_def)
qed

lemma auth_ok:
  assumes "hmac (ce_hmacMd5 env) nonce (cb_roleSecret c) = Some digest"
    and "sends_ok (ce_tenv env) (ce_write env (auth_pdu digest (JInt (uint (cb_id c)))) # ms) (cb_webSocket c) = Some w"
  shows "\<exists>w1 calls. sendAuthMessage env nonce c = Done (True, c\<lparr>cb_webSocket := w1, cb_id := cb_id c + 1, cb_calls := calls\<rparr>) \<and>
    sends_ok (ce_tenv env) ms w1 = Some w"
proof -
  obtain info w1 calls where "si_success info" "sends_ok (ce_tenv env) ms w1 = Some w"
    "cobra_send env (ce_write env (auth_pdu digest (JInt (uint (cb_id c)))))
       (invokeTrafficTrackerCallback (length (ce_write env (auth_pdu digest (JInt (uint (cb_id c)))))) False (c\<lparr>cb_id := cb_id c + 1\<rparr>)) =
       Done (info, c\<lparr>cb_webSocket := w1, cb_id := cb_id c + 1, cb_calls := calls\<rparr>)"
    using numbered_send_ok [OF assms(2)] by blast
  then show ?thesis using assms(1) by (intro exI [of _ w1] exI [of _ calls]) (simp add: sendAuthMessage_def take_id_def Let_def)
qed

subsection \<open>Authentication\<close>

definition nonce_pdu :: "json \<Rightarrow> string \<Rightarrow> bool" where
  "nonce_pdu j nonce \<longleftrightarrow> (\<exists>p b d. j = JObject p \<and> map_of p ''action'' = Some (JString ''auth/handshake/ok'') \<and>
     map_of p ''body'' = Some (JObject b) \<and> map_of b ''data'' = Some (JObject d) \<and> map_of d ''nonce'' = Some (JString nonce))"

definition authenticated_pdu :: "json \<Rightarrow> bool" where
  "authenticated_pdu j \<longleftrightarrow> (\<exists>p. j = JObject p \<and> map_of p ''action'' = Some (JString ''auth/authenticate/ok''))"

lemma with_member_object: "map_of p k = Some v \<Longrightarrow> with_member k (JObject p) missing f = f v"
  by (simp add: with_member_def)

lemma nonce_handled:
  assumes "nonce_pdu j nonce" "ce_parse env str = Some j" "sendAuthMessage env nonce c = Done (True, c')"
  shows "cobra_text env str c = Done c'"
  using assms by (auto simp: nonce_pdu_def cobra_text_def with_member_object cobra_action_def handleHandshakeResponse_def or_error_def)

lemma authenticated_handled:
  assumes "authenticated_pdu j" "ce_parse env str = Some j"
    and "cobra_flushQueue env (invokeEventCallback EventAuthenticated [] [] [] (- 1) (c\<lparr>cb_authenticated := True\<rparr>)) = Done (ok, c')"
  shows "cobra_text env str c = Done c'"
  using assms by (auto simp: authenticated_pdu_def cobra_text_def with_member_object cobra_action_def)

lemma open_dialogue:
  assumes "msg_type m = Open"
    and "sends_ok (ce_tenv env) (ce_write env (handshake_pdu (cb_roleName c) (JInt (uint (cb_id c)))) # ms) (cb_webSocket c) = Some w"
  shows "\<exists>w1 calls. cobra_onMessage env m c = Done (c\<lparr>cb_webSocket := w1, cb_id := cb_id c + 1, cb_calls := calls\<rparr>) \<and> sends_ok (ce_tenv env) ms w1 = Some w"
proof -
  obtain k1 where k1: "invokeTrafficTrackerCallback (msg_wireSize m) True c = c\<lparr>cb_calls := k1\<rparr>" using tracker_calls by blast
  obtain k2 where k2: "invokeEventCallback EventOpen [] (oi_headers (msg_openInfo m)) [] (- 1) (c\<lparr>cb_calls := k1\<rparr>) = c\<lparr>cb_calls := k2\<rparr>"
    using event_calls [of EventOpen "[]" "oi_headers (msg_openInfo m)" "[]" "- 1" "c\<lparr>cb_calls := k1\<rparr>"] by auto
  obtain w1 calls where "sendHandshakeMessage env (c\<lparr>cb_calls := k2\<rparr>) = Done (True, c\<lparr>cb_webSocket := w1, cb_id := cb_id c + 1, cb_calls := calls\<rparr>)"
      "sends_ok (ce_tenv env) ms w1 = Some w"
    using handshake_ok [of env "c\<lparr>cb_calls := k2\<rparr>" ms w] assms(2) by auto
  then show ?thesis using assms(1) k1 k2 by (intro exI [of _ w1] exI [of _ calls]) (simp add: cobra_onMessage_def)
qed

lemma nonce_dialogue:
  assumes "msg_type m = Message" "ce_parse env (msg_str m) = Some j" "nonce_pdu j nonce" "hmac (ce_hmacMd5 env) nonce (cb_roleSecret c) = Some digest"
    and "sends_ok (ce_tenv env) (ce_write env (auth_pdu digest (JInt (uint (cb_id c)))) # ms) (cb_webSocket c) = Some w"
  shows "\<exists>w1 calls. cobra_onMessage env m c = Done (c\<lparr>cb_webSocket := w1, cb_id := cb_id c + 1, cb_calls := calls\<rparr>) \<and> sends_ok (ce_tenv env) ms w1 = Some w"
proof -
  obtain k1 where k1: "invokeTrafficTrackerCallback (msg_wireSize m) True c = c\<lparr>cb_calls := k1\<rparr>" using tracker_calls by blast
  obtain w1 calls where "sendAuthMessage env nonce (c\<lparr>cb_calls := k1\<rparr>) = Done (True, c\<lparr>cb_webSocket := w1, cb_id := cb_id c + 1, cb_calls := calls\<rparr>)"
      "sends_ok (ce_tenv env) ms w1 = Some w"
    using auth_ok [of env nonce "c\<lparr>cb_calls := k1\<rparr>" digest ms w] assms(4,5) by auto
  then show ?thesis
    using assms(1) k1 nonce_handled [OF assms(3,2)] by (intro exI [of _ w1] exI [of _ calls]) (simp add: cobra_onMessage_def)
qed

lemma authenticated_dialogue:
  assumes "msg_type m = Message" "ce_parse env (msg_str m) = Some j" "authenticated_pdu j"
    and "sends_ok (ce_tenv env) (rev (cb_messageQueue c)) (cb_webSocket c) = Some w"
  shows "\<exists>calls. cobra_onMessage env m c = Done (c\<lparr>cb_webSocket := w, cb_authenticated := True, cb_messageQueue := [], cb_calls := calls\<rparr>)"
proof -
  obtain k1 where k1: "invokeTrafficTrackerCallback (msg_wireSize m) True c = c\<lparr>cb_calls := k1\<rparr>" using tracker_calls by blast
  let ?c = "c\<lparr>cb_calls := k1, cb_authenticated := True\<rparr>"
  obtain k2 where k2: "invokeEventCallback EventAuthenticated [] [] [] (- 1) ?c = ?c\<lparr>cb_calls := k2\<rparr>" using event_calls by blast
  obtain k3 where "flush_loop env (cb_messageQueue c) (?c\<lparr>cb_calls := k2\<rparr>) =
      Done (True, ?c\<lparr>cb_webSocket := w, cb_messageQueue := [], cb_calls := k3\<rparr>)"
    using flush_loop_ok [of env "cb_messageQueue c" "?c\<lparr>cb_calls := k2\<rparr>" w] assms(4) by auto
  then have "cobra_flushQueue env (invokeEventCallback EventAuthenticated [] [] [] (- 1) ?c) =
      Done (True, ?c\<lparr>cb_webSocket := w, cb_messageQueue := [], cb_calls := k3\<rparr>)" unfolding cobra_flushQueue_def k2 by simp
  from authenticated_handled [OF assms(3,2), of "c\<lparr>cb_calls := k1\<rparr>", OF this [simplified]]
  show ?thesis using assms(1) k1 by (intro exI [of _ k3]) (simp add: cobra_onMessage_def)
qed

lemma dialogue:
  assumes "msg_type om = Open"
    and "msg_type hm = Message" "ce_parse env (msg_str hm) = Some j" "nonce_pdu j nonce"
    and "msg_type am = Message" "ce_parse env (msg_str am) = Some k" "authenticated_pdu k"
    and "hmac (ce_hmacMd5 env) nonce (cb_roleSecret c) = Some digest"
    and "sends_ok (ce_tenv env) (ce_write env (handshake_pdu (cb_roleName c) (JInt (uint (cb_id c)))) #
      ce_write env (auth_pdu digest (JInt (uint (cb_id c + 1)))) # rev (cb_messageQueue c)) (cb_webSocket c) = Some w"
  shows "\<exists>calls. cobra_handle env [om, hm, am] c =
    Done (c\<lparr>cb_webSocket := w, cb_id := cb_id c + 2, cb_authenticated := True, cb_messageQueue := [], cb_calls := calls\<rparr>)"
proof -
  obtain w1 k1 where 1: "cobra_onMessage env om c = Done (c\<lparr>cb_webSocket := w1, cb_id := cb_id c + 1, cb_calls := k1\<rparr>)"
    "sends_ok (ce_tenv env) (ce_write env (auth_pdu digest (JInt (uint (cb_id c + 1)))) # rev (cb_messageQueue c)) w1 = Some w"
    using open_dialogue [OF assms(1,9)] by blast
  let ?c1 = "c\<lparr>cb_webSocket := w1, cb_id := cb_id c + 1, cb_calls := k1\<rparr>"
  obtain w2 k2 where 2: "cobra_onMessage env hm ?c1 = Done (c\<lparr>cb_webSocket := w2, cb_id := cb_id c + 2, cb_calls := k2\<rparr>)"
    "sends_ok (ce_tenv env) (rev (cb_messageQueue c)) w2 = Some w"
    using nonce_dialogue [of hm env j nonce ?c1 digest "rev (cb_messageQueue c)" w] assms(2-4,8) 1(2) by (auto simp: add.assoc)
  let ?c2 = "c\<lparr>cb_webSocket := w2, cb_id := cb_id c + 2, cb_calls := k2\<rparr>"
  obtain k3 where 3: "cobra_onMessage env am ?c2 = Done (?c2\<lparr>cb_webSocket := w, cb_authenticated := True, cb_messageQueue := [], cb_calls := k3\<rparr>)"
    using authenticated_dialogue [of am env k ?c2 w] assms(5-7) 2(2) by auto
  show ?thesis using 1(1) 2(1) 3 by (intro exI [of _ k3]) simp
qed

subsection \<open>Publishing\<close>

definition publish_pdu :: "json \<Rightarrow> json \<Rightarrow> json \<Rightarrow> json" where
  "publish_pdu channels msg n =
     object_of [(''action'', JString ''rtm/publish''), (''body'', object_of [(''channels'', channels), (''message'', msg)]), (''id'', n)]"

text \<open>The two objects that \<open>publish\<close> reuses hold what it last put there.\<close>

definition reusable :: "'z cobra \<Rightarrow> bool" where
  "reusable c \<longleftrightarrow> (cb_body c = JNull \<or> (\<exists>x y. cb_body c = object_of [(''channels'', x), (''message'', y)])) \<and>
     (cb_pdu c = object_of [(''action'', JString ''rtm/publish'')] \<or>
      (\<exists>b n. cb_pdu c = object_of [(''action'', JString ''rtm/publish''), (''body'', b), (''id'', n)]))"

lemma new_reusable: "reusable (CobraConnection_new traffic publishes t)"
  by (simp add: reusable_def CobraConnection_new_def)

lemma publish_objects:
  assumes "reusable c"
  shows "and_then (json_set ''channels'' channels (cb_body c)) (json_set ''message'' msg) = Inr (object_of [(''channels'', channels), (''message'', msg)])"
    and "and_then (json_set ''body'' body (cb_pdu c)) (json_set ''id'' n) =
      Inr (object_of [(''action'', JString ''rtm/publish''), (''body'', body), (''id'', n)])"
  using assms by (auto simp: reusable_def object_of_def and_then_def)

lemma publish_tracker: "\<exists>calls. invokePublishTrackerCallback b1 b2 c = c\<lparr>cb_calls := calls\<rparr>"
proof (cases "cb_publishTracker c")
  case False
  then show ?thesis by (intro exI [of _ "cb_calls c"]) (simp add: invokePublishTrackerCallback_def)
qed (auto simp: invokePublishTrackerCallback_def cobra_call_out_def)

abbreviation publish_text :: "'z cobra_env \<Rightarrow> json \<Rightarrow> json \<Rightarrow> 'z cobra \<Rightarrow> string" where
  "publish_text env channels msg c \<equiv> ce_write env (publish_pdu channels msg (JInt (uint (cb_id c))))"

lemma publish_steps:
  assumes "reusable c"
  shows "\<exists>calls body pdu. let c1 = c\<lparr>cb_calls := calls, cb_id := cb_id c + 1, cb_body := body, cb_pdu := pdu\<rparr> in
    reusable c1 \<and> publish env channels msg c =
      (if cb_publishMode c = PublishBatch \<or> \<not> cb_authenticated c then Done (cb_id c, enqueue (publish_text env channels msg c) c1)
       else cbind (publishMessage env (publish_text env channels msg c) c1)
         (\<lambda>(ok, c2). Done (cb_id c, if ok then c2 else enqueue (publish_text env channels msg c) c2)))"
proof -
  define body where "body = object_of [(''channels'', channels), (''message'', msg)]"
  define pdu where "pdu = publish_pdu channels msg (JInt (uint (cb_id c)))"
  obtain k where k: "invokePublishTrackerCallback True False c = c\<lparr>cb_calls := k\<rparr>" using publish_tracker by blast
  have r: "reusable (c\<lparr>cb_calls := k\<rparr>)" using assms(1) by (simp add: reusable_def)
  have o: "and_then (json_set ''channels'' channels (cb_body c)) (json_set ''message'' msg) = Inr body"
    "and_then (json_set ''body'' body (cb_pdu c)) (json_set ''id'' (JInt (uint (cb_id c)))) = Inr pdu"
    using publish_objects [OF r] by (simp_all add: body_def pdu_def publish_pdu_def)
  have "reusable (c\<lparr>cb_calls := k, cb_id := cb_id c + 1, cb_body := body, cb_pdu := pdu\<rparr>)"
    by (auto simp: reusable_def body_def pdu_def publish_pdu_def)
  then show ?thesis
    by (intro exI [of _ k] exI [of _ body] exI [of _ pdu]) (simp add: publish_def k o take_id_def Let_def pdu_def)
qed

lemma publish_queues:
  assumes "reusable c" "\<not> cb_authenticated c \<or> cb_publishMode c = PublishBatch" "length (cb_messageQueue c) \<le> kQueueMaxSize"
  shows "\<exists>c'. publish env channels msg c = Done (cb_id c, c') \<and> reusable c' \<and> cb_id c' = cb_id c + 1 \<and> cb_webSocket c' = cb_webSocket c \<and>
    cb_authenticated c' = cb_authenticated c \<and> cb_publishMode c' = cb_publishMode c \<and>
    cb_roleName c' = cb_roleName c \<and> cb_roleSecret c' = cb_roleSecret c \<and>
    cb_messageQueue c' = take kQueueMaxSize (publish_text env channels msg c # cb_messageQueue c)"
proof -
  obtain k body pdu c1 where c1: "c1 = c\<lparr>cb_calls := k, cb_id := cb_id c + 1, cb_body := body, cb_pdu := pdu\<rparr>" "reusable c1"
    "publish env channels msg c = Done (cb_id c, enqueue (publish_text env channels msg c) c1)"
    using publish_steps [OF assms(1), of env channels msg] assms(2) unfolding Let_def by auto
  have q: "cb_messageQueue (enqueue m c1) = take kQueueMaxSize (m # cb_messageQueue c)" for m
    using assms(3) by (auto simp: c1(1) enqueue_def Let_def kQueueMaxSize_def butlast_conv_take)
  have "reusable (enqueue m c1)" for m using c1(2) by (simp add: reusable_def enqueue_def Let_def)
  then show ?thesis using c1(3) q by (intro exI conjI) (assumption | simp add: c1(1) enqueue_def Let_def)+
qed

fun publish_all :: "'z cobra_env \<Rightarrow> (json \<times> json) list \<Rightarrow> 'z cobra \<Rightarrow> (u64 list \<times> 'z cobra) cobra_result" where
  "publish_all env [] c = Done ([], c)"
| "publish_all env ((channels, msg) # ps) c =
     cbind (publish env channels msg c) (\<lambda>(n, c1). cbind (publish_all env ps c1) (\<lambda>(ns, c2). Done (n # ns, c2)))"

fun publish_texts :: "'z cobra_env \<Rightarrow> u64 \<Rightarrow> (json \<times> json) list \<Rightarrow> string list" where
  "publish_texts env n [] = []"
| "publish_texts env n ((channels, msg) # ps) = ce_write env (publish_pdu channels msg (JInt (uint n))) # publish_texts env (n + 1) ps"

lemma take_take_append: "take n (xs @ take n ys) = take n (xs @ ys)"
  by (simp add: min_def)

lemma publish_all_queues:
  assumes "reusable c" "\<not> cb_authenticated c \<or> cb_publishMode c = PublishBatch" "length (cb_messageQueue c) \<le> kQueueMaxSize"
  shows "\<exists>c'. publish_all env ps c = Done (map (\<lambda>i. cb_id c + of_nat i) [0..<length ps], c') \<and> reusable c' \<and>
    cb_id c' = cb_id c + of_nat (length ps) \<and> cb_webSocket c' = cb_webSocket c \<and> cb_authenticated c' = cb_authenticated c \<and>
    cb_publishMode c' = cb_publishMode c \<and> cb_roleName c' = cb_roleName c \<and> cb_roleSecret c' = cb_roleSecret c \<and>
    cb_messageQueue c' = take kQueueMaxSize (rev (publish_texts env (cb_id c) ps) @ cb_messageQueue c)"
  using assms
proof (induction ps arbitrary: c)
  case Nil
  then show ?case by simp
next
  case (Cons p ps)
  obtain ch m where p: "p = (ch, m)" by fastforce
  obtain c1 where c1: "publish env ch m c = Done (cb_id c, c1)" "reusable c1" "cb_id c1 = cb_id c + 1" "cb_webSocket c1 = cb_webSocket c"
    "cb_authenticated c1 = cb_authenticated c" "cb_publishMode c1 = cb_publishMode c" "cb_roleName c1 = cb_roleName c" "cb_roleSecret c1 = cb_roleSecret c"
    "cb_messageQueue c1 = take kQueueMaxSize (publish_text env ch m c # cb_messageQueue c)"
    using publish_queues [OF Cons.prems, of env ch m] by blast
  have pre: "\<not> cb_authenticated c1 \<or> cb_publishMode c1 = PublishBatch" "length (cb_messageQueue c1) \<le> kQueueMaxSize"
    using Cons.prems(2) c1 by simp_all
  have ids: "map (\<lambda>i. cb_id c + of_nat i) [0..<length (p # ps)] = cb_id c # map (\<lambda>i. cb_id c1 + of_nat i) [0..<length ps]"
    by (simp add: c1(3) upt_conv_Cons map_Suc_upt [symmetric] add_ac del: upt_Suc)
  have q: "take kQueueMaxSize (rev (publish_texts env (cb_id c1) ps) @ cb_messageQueue c1) =
      take kQueueMaxSize (rev (publish_texts env (cb_id c) (p # ps)) @ cb_messageQueue c)"
    unfolding c1(9) take_take_append by (simp add: p c1(3))
  show ?case
    using Cons.IH [OF c1(2) pre] c1(1,3-8) unfolding ids q [symmetric] by (auto simp: p add.assoc)
qed

lemma length_publish_texts [simp]: "length (publish_texts env n ps) = length ps"
  by (induction env n ps rule: publish_texts.induct) simp_all

text \<open>
  C15. Messages published before the connection is authenticated are not lost: they are kept, with
  consecutive numbers and nothing sent; when the connection opens and the server answers, the client
  sends the handshake, the authentication with the keyed digest of the nonce, and then exactly these
  messages in the order of publication, and its queue is empty.
\<close>

theorem cobra_delivers_early_messages:
  assumes "reusable c" "\<not> cb_authenticated c" "cb_messageQueue c = []" "length ps \<le> kQueueMaxSize"
    and "msg_type om = Open"
    and "msg_type hm = Message" "ce_parse env (msg_str hm) = Some j" "nonce_pdu j nonce"
    and "msg_type am = Message" "ce_parse env (msg_str am) = Some k" "authenticated_pdu k"
    and "hmac (ce_hmacMd5 env) nonce (cb_roleSecret c) = Some digest"
    and "sends_ok (ce_tenv env)
      (ce_write env (handshake_pdu (cb_roleName c) (JInt (uint (cb_id c + of_nat (length ps))))) #
       ce_write env (auth_pdu digest (JInt (uint (cb_id c + of_nat (length ps) + 1)))) # publish_texts env (cb_id c) ps) (cb_webSocket c) = Some w"
  shows "\<exists>c1 c2. publish_all env ps c = Done (map (\<lambda>i. cb_id c + of_nat i) [0..<length ps], c1) \<and> cb_webSocket c1 = cb_webSocket c \<and>
    cobra_handle env [om, hm, am] c1 = Done c2 \<and> cb_webSocket c2 = w \<and> cb_authenticated c2 \<and> cb_messageQueue c2 = []"
proof -
  obtain c1 where c1: "publish_all env ps c = Done (map (\<lambda>i. cb_id c + of_nat i) [0..<length ps], c1)"
    "cb_id c1 = cb_id c + of_nat (length ps)" "cb_webSocket c1 = cb_webSocket c" "cb_roleName c1 = cb_roleName c" "cb_roleSecret c1 = cb_roleSecret c"
    "cb_messageQueue c1 = take kQueueMaxSize (rev (publish_texts env (cb_id c) ps) @ cb_messageQueue c)"
    using publish_all_queues [of c env ps] assms(1-3) by auto
  then have q: "rev (cb_messageQueue c1) = publish_texts env (cb_id c) ps" using assms(3,4) by simp
  have "hmac (ce_hmacMd5 env) nonce (cb_roleSecret c1) = Some digest" using assms(12) c1(5) by simp
  from dialogue [OF assms(5-11) this, of w] obtain calls where "cobra_handle env [om, hm, am] c1 =
      Done (c1\<lparr>cb_webSocket := w, cb_id := cb_id c1 + 2, cb_authenticated := True, cb_messageQueue := [], cb_calls := calls\<rparr>)"
    using assms(13) unfolding q c1(2-4) by blast
  then show ?thesis using c1(1,3) by auto
qed

subsection \<open>A failed flush\<close>

lemma send_unconnected:
  assumes "validateUtf8 (bytes_of m)" "\<not> cobra_isConnected c"
  shows "cobra_send env m c = Done (send_failed, c)"
  using assms by (simp add: cobra_send_def ws_send_def ws_sendText_def sendMessage_def cobra_isConnected_def new_calls_def)

text \<open>
  A flush that cannot send duplicates a message and breaks the limit of the queue: the oldest
  message is appended without having been taken off, a full queue grows past \<open>kQueueMaxSize\<close>, and from
  then on no later message makes room, since only a queue of exactly that size drops one.
\<close>

theorem failed_flush_breaks_limit:
  assumes "cb_messageQueue c = q @ [m]" "length q + 1 = kQueueMaxSize" "validateUtf8 (bytes_of m)" "\<not> cobra_isConnected c"
  shows "\<exists>c'. cobra_flushQueue env c = Done (False, c') \<and> cb_messageQueue c' = q @ [m, m] \<and>
    length (cb_messageQueue (fold enqueue ms c')) = kQueueMaxSize + 1 + length ms"
proof -
  obtain calls where k: "invokeTrafficTrackerCallback 0 False c = c\<lparr>cb_calls := calls\<rparr>" using tracker_calls by blast
  have "publishMessage env m c = Done (False, c\<lparr>cb_calls := calls\<rparr>)"
    using k by (simp add: publishMessage_def send_unconnected [OF assms(3,4)] send_failed_def)
  then have f: "cobra_flushQueue env c = Done (False, c\<lparr>cb_calls := calls, cb_messageQueue := q @ [m, m]\<rparr>)"
    using assms(1) unfolding cobra_flushQueue_def by (subst flush_loop.simps) simp
  have grow: "kQueueMaxSize < length (cb_messageQueue d) \<Longrightarrow> length (cb_messageQueue (fold enqueue xs d)) = length (cb_messageQueue d) + length xs"
    for xs and d :: "'a cobra"
    by (induction xs arbitrary: d) (auto simp: enqueue_def Let_def)
  show ?thesis
    using f grow [of "c\<lparr>cb_calls := calls, cb_messageQueue := q @ [m, m]\<rparr>" ms] assms(2)
    by (intro exI [of _ "c\<lparr>cb_calls := calls, cb_messageQueue := q @ [m, m]\<rparr>"]) simp
qed

subsection \<open>Subscriptions\<close>

lemma deliver_all_calls: "deliver_all (Some f) ms c = Done (c\<lparr>cb_calls := cb_calls c @ map (SubscriptionCallback f) ms\<rparr>)"
  by (induction ms arbitrary: c) (auto simp: cobra_call_out_def)

lemma subscription_calls:
  assumes "map_of p ''body'' = Some (JObject b)" "map_of b ''subscription_id'' = Some (JString channel)" "map_of b ''messages'' = Some (JArray ms)"
    and "cb_cbs c channel = Some (Some f)"
  shows "handleSubscriptionData env (JObject p) c = Done (True, c\<lparr>cb_calls := cb_calls c @ map (SubscriptionCallback f) ms\<rparr>)"
  using assms by (simp add: handleSubscriptionData_def with_member_object deliver_all_calls)

text \<open>
  Data of a channel goes to the callback subscribed to it, every message of the batch once and in
  order, and to nobody once the channel has been unsubscribed, or if it never was subscribed.
\<close>

theorem subscription_delivered:
  assumes "map_of p ''body'' = Some (JObject b)" "map_of b ''subscription_id'' = Some (JString channel)" "map_of b ''messages'' = Some (JArray ms)"
    and "subscribe env channel flt (Some f) c = Done c1" "unsubscribe env channel c1 = Done c2"
  shows "handleSubscriptionData env (JObject p) c1 = Done (True, c1\<lparr>cb_calls := cb_calls c1 @ map (SubscriptionCallback f) ms\<rparr>) \<and>
    handleSubscriptionData env (JObject p) c2 = Done (False, c2)"
proof -
  have 1: "cb_cbs c1 channel = Some (Some f)" using assms(4) by (auto simp: subscribe_def take_id_def cbind_Done Let_def)
  let ?d = "c1\<lparr>cb_cbs := (cb_cbs c1)(channel := None)\<rparr>"
  obtain info txt1 where "cobra_send env txt1 (?d\<lparr>cb_id := cb_id ?d + 1\<rparr>) = Done (info, c2)"
    using assms(5) 1 by (auto simp: unsubscribe_def take_id_def cbind_Done Let_def)
  then have 2: "cb_cbs c2 channel = None" using cobra_send_keeps by (fastforce simp: cobra_keeps_def)
  show ?thesis using subscription_calls [OF assms(1-3) 1] assms(1,2) 2 by (simp add: handleSubscriptionData_def with_member_object)
qed

text \<open>JSON text whose value is neither an object nor null raises an exception in the thread of the
  WebSocket object, where nothing catches it.\<close>

lemma non_object_throws:
  assumes "ce_parse env (msg_str m) = Some j" "\<not> isObject j" "j \<noteq> JNull" "msg_type m = Message"
  shows "cobra_onMessage env m c = Thrown"
  using assms by (cases j) (simp_all add: cobra_onMessage_def cobra_text_def with_member_def Let_def)

text \<open>A message published while older ones wait in the queue overtakes them.\<close>

lemma publish_overtakes:
  assumes "reusable c" "cb_authenticated c" "cb_publishMode c = PublishImmediate"
    and "sends_ok (ce_tenv env) [publish_text env channels msg c] (cb_webSocket c) = Some w"
  shows "\<exists>c'. publish env channels msg c = Done (cb_id c, c') \<and> cb_webSocket c' = w \<and> cb_messageQueue c' = cb_messageQueue c"
proof -
  obtain k body pdu c1 where c1: "c1 = c\<lparr>cb_calls := k, cb_id := cb_id c + 1, cb_body := body, cb_pdu := pdu\<rparr>"
    "publish env channels msg c = cbind (publishMessage env (publish_text env channels msg c) c1)
       (\<lambda>(ok, c2). Done (cb_id c, if ok then c2 else enqueue (publish_text env channels msg c) c2))"
    using publish_steps [OF assms(1), of env channels msg] assms(2,3) unfolding Let_def by auto
  have "sends_ok (ce_tenv env) [publish_text env channels msg c] (cb_webSocket c1) = Some w" using assms(4) by (simp add: c1(1))
  from publishMessage_ok [OF this] obtain calls where
    "publishMessage env (publish_text env channels msg c) c1 = Done (True, c1\<lparr>cb_webSocket := w, cb_calls := calls\<rparr>)" by auto
  then show ?thesis using c1(2) by (simp add: c1(1))
qed

subsection \<open>A connection\<close>

text \<open>Sends on an open connection whose socket takes nothing for the moment stay in the send buffer.\<close>

definition buffering :: "'z websocket \<Rightarrow> bool" where
  "buffering w \<longleftrightarrow> (let t = ws_transport w in readyState t = OPEN \<and> \<not> enablePerMessageDeflate t \<and> sys_sends (sock t) = [] \<and> sockfd (sock t) \<noteq> -1 \<and>
     events t = [] \<and> \<not> ws_trafficTracker w)"

lemma buffering_send:
  assumes "buffering w" "validateUtf8 (bytes_of m)" "length m < kChunkSize"
  shows "\<exists>info w1. ws_send env m False None w = Ret (info, w1) \<and> si_success info \<and> ws_calls w1 = ws_calls w \<and> buffering w1"
proof -
  define t where "t = sendWire env TEXT_FRAME m False None (ws_transport w)"
  have t: "readyState t = OPEN" "\<not> enablePerMessageDeflate t" "sys_sends (sock t) = []" "sockfd (sock t) \<noteq> -1" "events t = []"
    using assms(1,3)
    by (auto simp: t_def buffering_def Let_def sendWire_def sendFragment_def getRandomUnsigned_def appendToSendBuffer_def sendOnSocket_blocked
        wakeUp_def wakeUpFromPoll_def split_beta)
  have "ws_send env m False None w =
      Ret (\<lparr>si_success = True, si_compressionError = False, si_payloadSize = length m, si_wireSize = length m\<rparr>, drain w t)"
    using assms by (simp add: ws_send_def ws_sendText_def sendMessage_def ws_isConnected_def buffering_def Let_def sendText_def sendData_def
        sendPlain_def can_send_def t_def [symmetric] drain_def)
  then show ?thesis using assms(1) t by (simp add: drain_def buffering_def Let_def)
qed

lemma buffering_sends:
  "buffering w \<Longrightarrow> list_all (\<lambda>m. validateUtf8 (bytes_of m) \<and> length m < kChunkSize) ms \<Longrightarrow> \<exists>w'. sends_ok env ms w = Some w'"
proof (induction ms arbitrary: w)
  case (Cons m ms)
  then obtain info w1 where "ws_send env m False None w = Ret (info, w1)" "si_success info" "ws_calls w1 = ws_calls w" "buffering w1"
    using buffering_send [of w m env] by auto
  then show ?case using Cons.IH [of w1] Cons.prems by simp
qed simp

definition demo_cobra_env :: "string cobra_env" where
  "demo_cobra_env =
     \<lparr>ce_tenv = demo_env, ce_atts = (\<lambda>_. \<lparr>at_henv = demo_henv,
        at_pipe = \<lparr>pipe_ret = Some (5, 6), fcntl_read_ok = True, fcntl_write_ok = True, pipe_strerror = []\<rparr>, at_socket = demo_socket\<rparr>), ce_unfit = (\<lambda>_. 0),
      ce_parse = (\<lambda>s. if s = ''n'' then Some (object_of [(''action'', JString ''auth/handshake/ok''),
          (''body'', object_of [(''data'', object_of [(''nonce'', JString ''MTI0'')])])])
        else if s = ''a'' then Some (object_of [(''action'', JString ''auth/authenticate/ok'')]) else None),
      ce_write = (\<lambda>_. ''{}''), ce_styled = (\<lambda>_. ''{}''), ce_floatText = (\<lambda>_. ''0.5''), ce_doubleText = (\<lambda>_. ''0''),
      ce_hmacMd5 = (\<lambda>_ _. replicate 16 0)\<rparr>"

definition demo_cobra :: "string cobra" where
  "demo_cobra = CobraConnection_new True True demo_client"

definition demo_cobra_message :: "WebSocketMessageType \<Rightarrow> string \<Rightarrow> WebSocketMessage" where
  "demo_cobra_message ty str = \<lparr>msg_type = ty, msg_str = str, msg_wireSize = length str, msg_errorInfo = noError, msg_openInfo = noOpen,
     msg_closeInfo = noClose, msg_binary = False\<rparr>"

lemma demo_cobra_sends: "list_all (\<lambda>m. m = ''{}'') ms \<Longrightarrow> \<exists>w. sends_ok demo_env ms (cb_webSocket demo_cobra) = Some w"
proof -
  assume "list_all (\<lambda>m. m = ''{}'') ms"
  moreover have "validateUtf8 (bytes_of ''{}'')" by (rule validateUtf8_ascii) (auto simp: bytes_of_def byte_of_char_def)
  ultimately have "list_all (\<lambda>m. validateUtf8 (bytes_of m) \<and> length m < kChunkSize) ms" by (auto simp: list_all_iff kChunkSize_def)
  moreover have "buffering (cb_webSocket demo_cobra)"
    by (simp add: buffering_def demo_cobra_def CobraConnection_new_def WebSocket_new_def demo_defs Let_def)
  ultimately show ?thesis using buffering_sends by blast
qed

lemma publish_texts_demo: "list_all (\<lambda>m. m = ''{}'') (publish_texts demo_cobra_env n ps)"
  by (induction demo_cobra_env n ps rule: publish_texts.induct) (simp_all add: demo_cobra_env_def)

lemma demo_cobra_digest: "\<exists>digest. hmac (ce_hmacMd5 demo_cobra_env) nonce key = Some digest"
  by (simp add: hmac_def demo_cobra_env_def base64_encode_def)

lemma demo_cobra_pdus:
  "ce_parse demo_cobra_env ''n'' = Some (object_of [(''action'', JString ''auth/handshake/ok''),
     (''body'', object_of [(''data'', object_of [(''nonce'', JString ''MTI0'')])])])"
  "ce_parse demo_cobra_env ''a'' = Some (object_of [(''action'', JString ''auth/authenticate/ok'')])"
  "nonce_pdu (object_of [(''action'', JString ''auth/handshake/ok''), (''body'', object_of [(''data'', object_of [(''nonce'', JString ''MTI0'')])])]) ''MTI0''"
  "authenticated_pdu (object_of [(''action'', JString ''auth/authenticate/ok'')])"
  by (simp_all add: demo_cobra_env_def object_of_def nonce_pdu_def authenticated_pdu_def)

theorem cobra_delivers_early_messages_witness:
  "\<exists>c1 c2. publish_all demo_cobra_env [(JNull, JString ''x''), (JNull, JString ''y'')] demo_cobra = Done ([0, 1], c1) \<and>
     cobra_handle demo_cobra_env [demo_cobra_message Open [], demo_cobra_message Message ''n'', demo_cobra_message Message ''a''] c1 = Done c2 \<and>
     cb_authenticated c2 \<and> cb_messageQueue c2 = []"
proof -
  let ?ps = "[(JNull, JString ''x''), (JNull, JString ''y'')]" and ?env = demo_cobra_env
  have c: "reusable demo_cobra" "\<not> cb_authenticated demo_cobra" "cb_messageQueue demo_cobra = []" "length ?ps \<le> kQueueMaxSize"
    by (simp_all add: demo_cobra_def new_reusable, simp_all add: CobraConnection_new_def kQueueMaxSize_def)
  have m: "msg_type (demo_cobra_message ty str) = ty" "msg_str (demo_cobra_message ty str) = str" for ty str
    by (simp_all add: demo_cobra_message_def)
  obtain digest where d: "hmac (ce_hmacMd5 ?env) ''MTI0'' (cb_roleSecret demo_cobra) = Some digest" using demo_cobra_digest by blast
  have "list_all (\<lambda>m. m = ''{}'') (ce_write ?env j1 # ce_write ?env j2 # publish_texts ?env (cb_id demo_cobra) ?ps)" for j1 j2
    using publish_texts_demo by (simp add: demo_cobra_env_def)
  then obtain w where "sends_ok demo_env
      (ce_write ?env (handshake_pdu (cb_roleName demo_cobra) (JInt (uint (cb_id demo_cobra + of_nat (length ?ps))))) #
       ce_write ?env (auth_pdu digest (JInt (uint (cb_id demo_cobra + of_nat (length ?ps) + 1)))) # publish_texts ?env (cb_id demo_cobra) ?ps)
      (cb_webSocket demo_cobra) = Some w" using demo_cobra_sends by meson
  then have w: "sends_ok (ce_tenv ?env)
      (ce_write ?env (handshake_pdu (cb_roleName demo_cobra) (JInt (uint (cb_id demo_cobra + of_nat (length ?ps))))) #
       ce_write ?env (auth_pdu digest (JInt (uint (cb_id demo_cobra + of_nat (length ?ps) + 1)))) # publish_texts ?env (cb_id demo_cobra) ?ps)
      (cb_webSocket demo_cobra) = Some w" by (simp add: demo_cobra_env_def)
  have ids: "map (\<lambda>i. cb_id demo_cobra + of_nat i) [0..<length ?ps] = [0, 1]"
    by (simp add: demo_cobra_def CobraConnection_new_def upt_rec)
  have p: "ce_parse ?env (msg_str (demo_cobra_message Message ''n'')) = ce_parse ?env ''n''"
    "ce_parse ?env (msg_str (demo_cobra_message Message ''a'')) = ce_parse ?env ''a''" by (simp_all add: m)
  show ?thesis
    using cobra_delivers_early_messages [OF c m(1) m(1) p(1) [unfolded demo_cobra_pdus(1)] demo_cobra_pdus(3) m(1)
        p(2) [unfolded demo_cobra_pdus(2)] demo_cobra_pdus(4) d w]
    unfolding ids by blast
qed

theorem failed_flush_breaks_limit_witness:
  "\<exists>c'. cobra_flushQueue demo_cobra_env (demo_cobra\<lparr>cb_messageQueue := replicate 255 ''y'' @ [''x''],
       cb_webSocket := WebSocket_new (demo_client\<lparr>readyState := CLOSED\<rparr>)\<rparr>) = Done (False, c') \<and>
     length (cb_messageQueue (fold enqueue [''z''] c')) = 258"
proof -
  let ?c = "demo_cobra\<lparr>cb_messageQueue := replicate 255 ''y'' @ [''x''], cb_webSocket := WebSocket_new (demo_client\<lparr>readyState := CLOSED\<rparr>)\<rparr>"
  have "cb_messageQueue ?c = replicate 255 ''y'' @ [''x'']" "length (replicate 255 ''y'') + 1 = kQueueMaxSize" "\<not> cobra_isConnected ?c"
    by (simp_all add: kQueueMaxSize_def cobra_isConnected_def ws_isConnected_def WebSocket_new_def)
  moreover have "validateUtf8 (bytes_of ''x'')" by (rule validateUtf8_ascii) (auto simp: bytes_of_def byte_of_char_def)
  ultimately show ?thesis
    using failed_flush_breaks_limit [of ?c "replicate 255 ''y''" "''x''" demo_cobra_env "[''z'']"] by (auto simp: kQueueMaxSize_def)
qed

theorem subscription_delivered_witness:
  "\<exists>c1 c2. subscribe demo_cobra_env ''news'' [] (Some 7) demo_cobra = Done c1 \<and> unsubscribe demo_cobra_env ''news'' c1 = Done c2 \<and>
     handleSubscriptionData demo_cobra_env
       (JObject [(''body'', JObject [(''subscription_id'', JString ''news''), (''messages'', JArray [JInt 1, JInt 2])])]) c1
     = Done (True, c1\<lparr>cb_calls := cb_calls c1 @ [SubscriptionCallback 7 (JInt 1), SubscriptionCallback 7 (JInt 2)]\<rparr>)"
proof -
  obtain w where w: "sends_ok (ce_tenv demo_cobra_env) [''{}'', ''{}''] (cb_webSocket demo_cobra) = Some w"
    using demo_cobra_sends [of "[''{}'', ''{}'']"] by (auto simp: demo_cobra_env_def)
  have st: "ce_styled demo_cobra_env j = ''{}''" for j by (simp add: demo_cobra_env_def)
  let ?c0 = "demo_cobra\<lparr>cb_id := cb_id demo_cobra + 1\<rparr>"
  obtain i1 w1 where s1: "cobra_send demo_cobra_env ''{}'' ?c0 = Done (i1, ?c0\<lparr>cb_webSocket := w1\<rparr>)" "sends_ok (ce_tenv demo_cobra_env) [''{}''] w1 = Some w"
    using cobra_send_ok [of demo_cobra_env "''{}''" "[''{}'']" ?c0 w] w by auto
  define c1 where "c1 = ?c0\<lparr>cb_webSocket := w1, cb_cbs := (cb_cbs demo_cobra)(''news'' \<mapsto> Some 7)\<rparr>"
  have sub: "subscribe demo_cobra_env ''news'' [] (Some 7) demo_cobra = Done c1"
    using s1(1) by (simp add: subscribe_def take_id_def st c1_def)
  let ?d = "c1\<lparr>cb_cbs := (cb_cbs c1)(''news'' := None), cb_id := cb_id c1 + 1\<rparr>"
  obtain i2 w2 where "cobra_send demo_cobra_env ''{}'' ?d = Done (i2, ?d\<lparr>cb_webSocket := w2\<rparr>)"
    using cobra_send_ok [of demo_cobra_env "''{}''" "[]" ?d w] s1(2) by (auto simp: c1_def)
  then have unsub: "unsubscribe demo_cobra_env ''news'' c1 = Done (?d\<lparr>cb_webSocket := w2\<rparr>)"
    by (simp add: unsubscribe_def take_id_def st) (simp add: c1_def)
  have m: "map_of [(''body'', JObject [(''subscription_id'', JString ''news''), (''messages'', JArray [JInt 1, JInt 2])])] ''body'' =
      Some (JObject [(''subscription_id'', JString ''news''), (''messages'', JArray [JInt 1, JInt 2])])"
    "map_of [(''subscription_id'', JString ''news''), (''messages'', JArray [JInt 1, JInt 2])] ''subscription_id'' = Some (JString ''news'')"
    "map_of [(''subscription_id'', JString ''news''), (''messages'', JArray [JInt 1, JInt 2])] ''messages'' = Some (JArray [JInt 1, JInt 2])" by simp_all
  show ?thesis using subscription_delivered [OF m sub unsub] sub unsub by auto
qed

end
