(* ===== verification/SnakeProperties.thy ===== *)
theory SnakeProperties
  imports Snake CobraProperties RedisProperties
begin

section \<open>The snake server and the Cobra client together\<close>

text \<open>
  The two ends of the Cobra protocol agree: a client that knows the secret of its role is authenticated,
  and what one client publishes reaches the callback of another one through Redis. What the server
  does not do is shown as well: it publishes for clients that never authenticated, and an unknown role ends
  it with an exception.
\<close>

subsection \<open>Sending an answer\<close>

lemma respond_ok:
  assumes "sends_ok (se_tenv env) (t # ts) (sn_webSocket sn) = Some w" "se_dump env j = Some t"
  shows "\<exists>w1. respond env j sn = Done (sn\<lparr>sn_webSocket := w1\<rparr>) \<and> sends_ok (se_tenv env) ts w1 = Some w"
  using assms by (auto simp: respond_def ws_send_def split: outcome.splits if_splits)

lemma answer_ok:
  assumes "sends_ok (se_tenv env) (t # ts) (sn_webSocket sn) = Some w" "value_id pdu = Done n" "se_dump env (response_pdu action body n) = Some t"
  shows "\<exists>w1. answer_pdu env pdu action body sn = Done (sn\<lparr>sn_webSocket := w1\<rparr>) \<and> sends_ok (se_tenv env) ts w1 = Some w"
  using respond_ok [OF assms(1,3)] assms(2) by (simp add: answer_pdu_def)

text \<open>The number of a message, as the server repeats it.\<close>

definition echoed :: "u64 \<Rightarrow> int" where
  "echoed n = sint (word_of_int (uint n) :: u32)"

lemma value_id_sent: "map_of m ''id'' = Some (JInt (uint n)) \<Longrightarrow> value_id (JObject m) = Done (echoed n)"
  by (simp add: echoed_def)

subsection \<open>Authentication\<close>

definition next_nonce :: "'z snake_env \<Rightarrow> 'z snake \<Rightarrow> string" where
  "next_nonce env sn = uuid4 (fst (se_random env (sn_nonces sn))) (snd (se_random env (sn_nonces sn)))"

definition nonce_response :: "string \<Rightarrow> string \<Rightarrow> int \<Rightarrow> json" where
  "nonce_response nonce connectionId n =
     response_pdu ''auth/handshake/ok'' (object_of [(''data'', object_of [(''nonce'', JString nonce), (''connection_id'', JString connectionId)])]) n"

definition auth_response :: "int \<Rightarrow> json" where
  "auth_response n = response_pdu ''auth/authenticate/ok'' JNull n"

lemma nonce_response_pdu: "nonce_pdu (nonce_response nonce connectionId n) nonce"
  by (simp add: nonce_pdu_def nonce_response_def response_pdu_def object_of_def)

lemma auth_response_pdu: "authenticated_pdu (auth_response n)"
  by (simp add: authenticated_pdu_def auth_response_def response_pdu_def object_of_def)

lemma server_handshake:
  assumes "se_parse env str = Some (handshake_pdu role (JInt (uint i)))"
    and "sends_ok (se_tenv env) (t # ts) (sn_webSocket sn) = Some w"
    and "se_dump env (nonce_response (next_nonce env sn) (sn_connectionId sn) (echoed i)) = Some t"
  shows "\<exists>w1. processCobraMessage env cfg str sn =
      Done (sn\<lparr>sn_webSocket := w1, sn_nonce := next_nonce env sn, sn_role := role, sn_nonces := sn_nonces sn + 1\<rparr>) \<and>
    sends_ok (se_tenv env) ts w1 = Some w"
proof -
  let ?sn = "sn\<lparr>sn_nonces := sn_nonces sn + 1, sn_nonce := next_nonce env sn, sn_role := role\<rparr>"
  have v: "value_id (handshake_pdu role (JInt (uint i))) = Done (echoed i)"
    unfolding handshake_pdu_def object_of_def by (rule value_id_sent) simp
  obtain w1 where w1: "answer_pdu env (handshake_pdu role (JInt (uint i))) ''auth/handshake/ok''
      (object_of [(''data'', object_of [(''nonce'', JString (next_nonce env sn)), (''connection_id'', JString (sn_connectionId sn))])]) ?sn =
      Done (?sn\<lparr>sn_webSocket := w1\<rparr>)" "sends_ok (se_tenv env) ts w1 = Some w"
    using answer_ok [OF _ v, of env t ts ?sn w] assms(2,3) by (auto simp: nonce_response_def)
  have "processCobraMessage env cfg str sn = handleHandshake env (handshake_pdu role (JInt (uint i))) sn"
    using assms(1) by (simp add: processCobraMessage_def handshake_pdu_def object_of_def)
  also have "\<dots> = answer_pdu env (handshake_pdu role (JInt (uint i))) ''auth/handshake/ok''
      (object_of [(''data'', object_of [(''nonce'', JString (next_nonce env sn)), (''connection_id'', JString (sn_connectionId sn))])]) ?sn"
    by (simp add: handleHandshake_def handshake_pdu_def object_of_def generateNonce_def next_nonce_def split_beta)
  finally show ?thesis using w1 by (intro exI [of _ w1]) simp
qed

definition has_secret :: "AppConfig \<Rightarrow> string \<Rightarrow> string \<Rightarrow> string \<Rightarrow> bool" where
  "has_secret cfg appkey role secret \<longleftrightarrow> getRoleSecret cfg appkey role = Done secret"

lemma server_auth:
  assumes "se_parse env str = Some (auth_pdu digest (JInt (uint i)))"
    and "has_secret cfg (sn_appkey sn) (sn_role sn) secret" "secret \<noteq> []" "hmac (se_hmacMd5 env) (sn_nonce sn) secret = Some digest"
    and "sends_ok (se_tenv env) (t # ts) (sn_webSocket sn) = Some w" "se_dump env (auth_response (echoed i)) = Some t"
  shows "\<exists>w1. processCobraMessage env cfg str sn = Done (sn\<lparr>sn_webSocket := w1\<rparr>) \<and> sends_ok (se_tenv env) ts w1 = Some w"
proof -
  have v: "value_id (auth_pdu digest (JInt (uint i))) = Done (echoed i)" unfolding auth_pdu_def object_of_def by (rule value_id_sent) simp
  have "processCobraMessage env cfg str sn = handleAuth env cfg (auth_pdu digest (JInt (uint i))) sn"
    using assms(1) by (simp add: processCobraMessage_def auth_pdu_def object_of_def)
  also have "\<dots> = answer_pdu env (auth_pdu digest (JInt (uint i))) ''auth/authenticate/ok'' JNull sn"
    using assms(2-4) by (simp add: handleAuth_def has_secret_def auth_pdu_def object_of_def)
  finally show ?thesis using answer_ok [OF assms(5) v assms(6) [unfolded auth_response_def]] by simp
qed


subsection \<open>From one client to another\<close>

definition publish_response :: "int \<Rightarrow> json" where
  "publish_response n = response_pdu ''rtm/publish/ok'' JNull n"

definition data_pdu :: "string \<Rightarrow> json list \<Rightarrow> int \<Rightarrow> json" where
  "data_pdu channel ms n =
     response_pdu ''rtm/subscription/data'' (object_of [(''subscription_id'', JString channel), (''messages'', JArray ms)]) n"

text \<open>Publishing, which asks for no authentication.\<close>

lemma server_publish:
  assumes "se_parse env str = Some (publish_pdu (JArray [JString channel]) msg (JInt (uint i)))"
    and "se_dump env (publish_pdu (JArray [JString channel]) msg (JInt (uint i))) = Some t"
    and "rc_socket (sn_redisClient sn) = Some s" "ready w s (bytes_of (CHR '':'' # number @ CRLF) @ rest)"
    and "accepting (sys_sends s) (length (publish_command (app_channel (sn_appkey sn) channel) t))" "CR \<notin> set number" "LF \<notin> set number"
    and "sends_ok (se_tenv env) (u # us) (sn_webSocket sn) = Some v" "se_dump env (publish_response (echoed i)) = Some u"
  shows "\<exists>s' v1 sent. processCobraMessage env cfg str sn =
      Done (sn\<lparr>sn_redisClient := put_socket s' (sn_redisClient sn), sn_webSocket := v1\<rparr>) \<and> ready (w @ bytes_of sent) s' rest \<and>
    resp_array sent = Some ([''PUBLISH'', app_channel (sn_appkey sn) channel, t], []) \<and> sends_ok (se_tenv env) us v1 = Some v"
proof -
  let ?pdu = "publish_pdu (JArray [JString channel]) msg (JInt (uint i))"
  obtain s' sent where r: "redis_publish (app_channel (sn_appkey sn) channel) t (sn_redisClient sn) = Done (True, [], put_socket s' (sn_redisClient sn))"
    "ready (w @ bytes_of sent) s' rest" "resp_array sent = Some ([''PUBLISH'', app_channel (sn_appkey sn) channel, t], [])"
    using publish_sent [OF assms(3,4,5,6,7)] by blast
  let ?sn = "sn\<lparr>sn_redisClient := put_socket s' (sn_redisClient sn)\<rparr>"
  have v: "value_id ?pdu = Done (echoed i)" unfolding publish_pdu_def object_of_def by (rule value_id_sent) simp
  obtain v1 where v1: "answer_pdu env ?pdu ''rtm/publish/ok'' JNull ?sn = Done (?sn\<lparr>sn_webSocket := v1\<rparr>)" "sends_ok (se_tenv env) us v1 = Some v"
    using answer_ok [OF _ v assms(9) [unfolded publish_response_def], of us ?sn v] assms(8) by auto
  have "processCobraMessage env cfg str sn = handlePublish env ?pdu sn"
    using assms(1) by (simp add: processCobraMessage_def publish_pdu_def object_of_def)
  also have "\<dots> = publish_to env ?pdu [channel] sn"
    by (simp add: handlePublish_def publish_pdu_def object_of_def)
  also have "\<dots> = answer_pdu env ?pdu ''rtm/publish/ok'' JNull ?sn"
    using r(1) assms(2) by (simp add: publish_to_def)
  finally show ?thesis using v1 r(2,3) by (intro exI [of _ s'] exI [of _ v1] exI [of _ sent]) simp
qed

lemma server_delivers:
  assumes "se_parse env t = Some (publish_pdu channels msg n)" "\<not> is_pair msg"
    and "se_dump env (data_pdu channel [msg] k) = Some u" "sends_ok (se_tenv env) (u # us) (sn_webSocket sn) = Some v"
  shows "\<exists>v1. subscription_message env channel t (sn, k) = Done (sn\<lparr>sn_webSocket := v1\<rparr>, k + 1) \<and> sends_ok (se_tenv env) us v1 = Some v"
proof -
  obtain v1 where "respond env (data_pdu channel [msg] k) sn = Done (sn\<lparr>sn_webSocket := v1\<rparr>)" "sends_ok (se_tenv env) us v1 = Some v"
    using respond_ok [OF assms(4,3)] by blast
  moreover have "init_list [msg] = JArray [msg]" using assms(2) by (simp add: init_list_def)
  ultimately show ?thesis
    using assms(1) by (intro exI [of _ v1]) (simp add: subscription_message_def publish_pdu_def object_of_def data_pdu_def)
qed

lemma client_delivers:
  assumes "msg_type m = Message" "ce_parse env (msg_str m) = Some (data_pdu channel ms k)" "cb_cbs c channel = Some (Some f)"
  shows "cobra_onMessage env m c =
    (let c1 = invokeTrafficTrackerCallback (msg_wireSize m) True c in Done (c1\<lparr>cb_calls := cb_calls c1 @ map (SubscriptionCallback f) ms\<rparr>))"
proof -
  let ?c1 = "invokeTrafficTrackerCallback (msg_wireSize m) True c"
  let ?b = "[(''messages'', JArray ms), (''subscription_id'', JString channel)]"
  let ?p = "[(''action'', JString ''rtm/subscription/data''), (''body'', JObject ?b), (''id'', JInt k)]"
  have j: "data_pdu channel ms k = JObject ?p" by (simp add: data_pdu_def response_pdu_def object_of_def)
  have "cb_cbs ?c1 channel = Some (Some f)" using assms(3) by (simp add: invokeTrafficTrackerCallback_def)
  then have "handleSubscriptionData env (JObject ?p) ?c1 = Done (True, ?c1\<lparr>cb_calls := cb_calls ?c1 @ map (SubscriptionCallback f) ms\<rparr>)"
    by (intro subscription_calls [where b = ?b]) simp_all
  then have "cobra_action env (msg_str m) ''rtm/subscription/data'' (JObject ?p) ?c1 = Done (?c1\<lparr>cb_calls := cb_calls ?c1 @ map (SubscriptionCallback f) ms\<rparr>)"
    by (simp add: cobra_action_def)
  then show ?thesis using assms(1,2) unfolding j by (simp add: cobra_onMessage_def cobra_text_def with_member_object Let_def)
qed


subsection \<open>What goes wrong\<close>

text \<open>
  A client that names a role which its application does not have is not refused: the
  server looks up the secret of the missing role, converts the null it finds to a string, and the
  exception leaves the handler. The answer for a missing secret is sent for unknown applications only.
\<close>

theorem unknown_role_throws:
  assumes "ac_apps cfg = JObject apps" "map_of apps (sn_appkey sn) = Some (JObject app)" "map_of app ''roles'' = Some (JObject roles)"
    and "map_of roles (sn_role sn) = None"
  shows "handleAuth env cfg pdu sn = Thrown"
  using assms by (simp add: handleAuth_def getRoleSecret_def isAppKeyValid_def)

text \<open>A client's number is repeated as a 32 bit integer; from \<open>2 ^ 31\<close> on the client takes the answer to its
  message for an error.\<close>

lemma large_number_rejected:
  assumes "2 ^ 31 \<le> uint n" "uint n < 2 ^ 32"
  shows "handlePublishResponse (publish_response (echoed n)) c = Done (False, c)"
proof -
  have "uint n div 2 ^ 31 = 1" using assms by simp
  then have b: "bit (uint n) 31" by (simp add: bit_iff_odd)
  have "echoed n = signed_take_bit 31 (uint n)" unfolding echoed_def signed_of_int by simp
  then have "echoed n = take_bit 32 (uint n) - 2 ^ 32" using b by (simp add: signed_take_bit_eq_take_bit_minus)
  moreover have "take_bit 32 (uint n) < 2 ^ 32" by (rule take_bit_int_less_exp)
  ultimately have "echoed n < 0" by linarith
  then show ?thesis by (simp add: publish_response_def response_pdu_def object_of_def handlePublishResponse_def with_member_object)
qed

text \<open>A second subscription of a connection waits for the end of the first.\<close>

lemma second_subscription_waits:
  assumes "sn_tasks sn \<noteq> []" "\<And>i. \<not> se_taskEnds env i" "se_parse env str = Some (JObject p)" "map_of p ''action'' = Some (JString ''rtm/subscribe'')"
  shows "processCobraMessage env cfg str sn = Stuck"
  using assms by (simp add: processCobraMessage_def handleSubscribe_def)

text \<open>An array of a string and another value is delivered as an object in place of the list of messages.\<close>

lemma pair_is_mangled: "init_list [JArray [JString k, v]] = JObject [(k, v)]"
  by (simp add: init_list_def object_of_def)

subsection \<open>Witnesses\<close>

fun demo_text :: "json \<Rightarrow> string" where
  "demo_text (JObject m) =
     (case map_of m ''action'' of
        Some (JString a) \<Rightarrow>
          (if a = ''auth/handshake'' then ''h'' else if a = ''auth/authenticate'' then ''p'' else if a = ''auth/handshake/ok'' then ''n''
           else if a = ''auth/authenticate/ok'' then ''a'' else if a = ''rtm/publish'' then ''m'' else if a = ''rtm/publish/ok'' then ''o''
           else ''d'')
      | _ \<Rightarrow> ''x'')"
| "demo_text _ = ''x''"

definition demo_digest :: string where
  "demo_digest = (case hmac (\<lambda>_ _. replicate 16 0) [] [] of Some d \<Rightarrow> d | None \<Rightarrow> [])"

definition demo_publication :: json where
  "demo_publication = publish_pdu (JArray [JString ''news'']) (JInt 7) (JInt (uint (0 :: u64)))"

definition demo_snake_env :: "string snake_env" where
  "demo_snake_env =
     \<lparr>se_tenv = demo_env,
      se_parse = (\<lambda>s. if s = ''h'' then Some (handshake_pdu ''r'' (JInt (uint (0 :: u64))))
        else if s = ''p'' then Some (auth_pdu demo_digest (JInt (uint (0 + 1 :: u64)))) else if s = ''m'' then Some demo_publication else None),
      se_dump = (\<lambda>j. Some (demo_text j)), se_random = (\<lambda>_. (0, 0)), se_hmacMd5 = (\<lambda>_ _. replicate 16 0),
      se_redis = \<lparr>re_net = demo_net, re_pipe = \<lparr>pipe_ret = Some (5, 6), fcntl_read_ok = True, fcntl_write_ok = True, pipe_strerror = []\<rparr>,
        re_script = demo_socket\<rparr>,
      se_taskRedis = (\<lambda>_. \<lparr>re_net = demo_net, re_pipe = \<lparr>pipe_ret = Some (5, 6), fcntl_read_ok = True, fcntl_write_ok = True, pipe_strerror = []\<rparr>,
        re_script = demo_socket\<rparr>),
      se_taskEnds = (\<lambda>_. False)\<rparr>"

definition demo_snake :: "string snake" where
  "demo_snake = (SnakeConnectionState_new ''0'' (cb_webSocket demo_cobra))\<lparr>sn_appkey := ''app''\<rparr>"

definition demo_config :: AppConfig where
  "demo_config = \<lparr>ac_hostname = ''localhost'', ac_port = 8008, ac_redisHosts = [''localhost''], ac_redisPort = 6379, ac_redisPassword = [],
     ac_apps = JObject [(''app'', JObject [(''roles'', JObject [(''r'', JObject [(''secret'', JString ''s'')])])])], ac_verbose = False\<rparr>"

definition demo_partner :: "string cobra_env" where
  "demo_partner = demo_cobra_env\<lparr>ce_write := demo_text,
     ce_parse := (\<lambda>s. if s = ''n'' then Some (nonce_response (uuid4 0 0) ''0'' (echoed 0))
       else if s = ''a'' then Some (auth_response (echoed (0 + 1))) else if s = ''d'' then Some (data_pdu ''news'' [JInt 7] 0) else None)\<rparr>"

lemma demo_sends:
  assumes "set ms \<subseteq> {''h'', ''p'', ''n'', ''a'', ''m'', ''o'', ''d'', ''x''}"
  shows "\<exists>w. sends_ok env ms (cb_webSocket demo_cobra) = Some w"
proof -
  have v: "validateUtf8 (bytes_of m)" if "m \<in> {''h'', ''p'', ''n'', ''a'', ''m'', ''o'', ''d'', ''x''}" for m
    using that by (intro validateUtf8_ascii) (auto simp: bytes_of_def byte_of_char_def)
  have "length m < kChunkSize" if "m \<in> {''h'', ''p'', ''n'', ''a'', ''m'', ''o'', ''d'', ''x''}" for m
    using that by (auto simp: kChunkSize_def)
  then have "list_all (\<lambda>m. validateUtf8 (bytes_of m) \<and> length m < kChunkSize) ms" using assms v by (auto simp: list_all_iff)
  moreover have "buffering (cb_webSocket demo_cobra)"
    by (simp add: buffering_def demo_cobra_def CobraConnection_new_def WebSocket_new_def demo_defs Let_def)
  ultimately show ?thesis using buffering_sends by blast
qed

lemma demo_hmac: "hmac (\<lambda>_ _. replicate 16 0) nonce key = Some demo_digest"
proof -
  have f: "ce_hmacMd5 demo_cobra_env = (\<lambda>_ _. replicate 16 0)" by (simp add: demo_cobra_env_def)
  obtain d where d: "hmac (\<lambda>_ _. replicate 16 0) [] [] = Some d" using demo_cobra_digest [of "[]" "[]"] unfolding f by blast
  have "hmac (\<lambda>_ _. replicate 16 0) nonce key = hmac (\<lambda>_ _. replicate 16 0) [] []" by (simp only: hmac_def)
  then show ?thesis using d by (simp add: demo_digest_def)
qed

theorem unknown_role_throws_witness: "handleAuth demo_snake_env demo_config JNull (demo_snake\<lparr>sn_role := ''admin''\<rparr>) = Thrown"
  by (rule unknown_role_throws [where apps = "[(''app'', JObject [(''roles'', JObject [(''r'', JObject [(''secret'', JString ''s'')])])])]"
        and app = "[(''roles'', JObject [(''r'', JObject [(''secret'', JString ''s'')])])]" and roles = "[(''r'', JObject [(''secret'', JString ''s'')])]"])
    (simp_all add: demo_config_def demo_snake_def)


definition demo_publisher :: "string snake" where
  "demo_publisher = demo_snake\<lparr>sn_redisClient := put_socket (demo_redis [SendAccept 200] ('':1'' @ CRLF)) RedisClient_new\<rparr>"

definition demo_subscriber :: "string cobra" where
  "demo_subscriber = demo_cobra\<lparr>cb_cbs := [''news'' \<mapsto> Some 3], cb_trafficTracker := False\<rparr>"


end
