(* ===== verification/FileTransferProperties.thy ===== *)
theory FileTransferProperties
  imports FileTransfer SnakeProperties
begin

section \<open>Properties of the file transfer\<close>

text \<open>
  A file that arrives is written as it was sent, one with a changed octet is not written; but no reply of
  the receiver gets out, since a map in MessagePack does not begin like text, and the sender waits for ever.
  The relay gives a message to every client but its source.
\<close>

subsection \<open>Replies\<close>

lemma invalid_first: "\<not> validateUtf8 (0x83 # bs)"
proof -
  have "utf8_delta 0 131 = Suc 0" by (simp add: utf8_delta_def utf8_class_def)
  then show ?thesis by (simp add: validateUtf8_run utf8_run_reject)
qed

lemma opt_append_simps [simp]: "opt_append None y = None" "opt_append x None = None" "opt_append (Some a) (Some b) = Some (a @ b)"
  by (auto simp: opt_append_def split: option.splits)

lemma foldl_opt_None [simp]: "foldl opt_append None xs = None"
  by (induction xs) simp_all

lemma foldl_opt_append: "foldl opt_append (Some a) xs = Some b \<Longrightarrow> \<exists>c. b = a @ c"
proof (induction xs arbitrary: a)
  case (Cons x xs)
  show ?case
  proof (cases x)
    case None
    then show ?thesis using Cons.prems by simp
  next
    case (Some y)
    then have "foldl opt_append (Some (a @ y)) xs = Some b" using Cons.prems by simp
    then show ?thesis using Cons.IH by fastforce
  qed
qed simp

lemma reply_not_text:
  assumes "mp_dump (mp_object [x, y, z]) = Some str"
  shows "\<not> validateUtf8 (bytes_of str)"
proof -
  let ?m = "map (\<lambda>(k, v). (MpString k, v)) [x, y, z]"
  obtain bs where bs: "mp_bytes (MpObject ?m) = Some bs" "str = string_of_bytes bs" using assms by (auto simp: mp_dump_def mp_object_def)
  have h: "dump_header (length ?m) = Some [0x83]" by (simp add: dump_header_def mp_length_def)
  have "foldl opt_append (Some [0x83]) (map (\<lambda>(k, v). opt_append (mp_bytes k) (mp_bytes v)) ?m) = Some bs"
    using bs(1) unfolding mp_bytes.simps(6) h .
  from foldl_opt_append [OF this] obtain c where "bs = 0x83 # c" by auto
  then show ?thesis using invalid_first by (simp add: bs(2))
qed

lemma receiver_send_closes:
  assumes "receiver_send env (mp_object [x, y, z]) rv = Done rv'"
  shows "rv' = rv\<lparr>rv_webSocket := ws_close (fe_tenv env) kInvalidFramePayloadData kInvalidFramePayloadDataMessage (rv_webSocket rv)\<rparr>"
  using assms reply_not_text by (auto simp: receiver_send_def ws_send_def ws_sendText_def split: option.splits)

text \<open>
  C39. The receiver never answers: whatever message it gets, when it has dealt with it its connection
  has been closed for invalid payload data. Every answer, an acknowledgement or an error, is a map in
  MessagePack, sent as a text message, and the first octet of a map is not UTF-8.
\<close>

theorem receiver_never_answers:
  assumes "handleMessage env str rv = Done rv'"
  shows "rv_webSocket rv' = ws_close (fe_tenv env) kInvalidFramePayloadData kInvalidFramePayloadDataMessage (rv_webSocket rv)"
  using assms receiver_send_closes [of env] by (fastforce simp: handleMessage_def receiver_handleError_def Let_def split: option.splits if_splits)

subsection \<open>The file\<close>

lemma string_of_uint_inject: "string_of_int (uint x) = string_of_int (uint y) \<longleftrightarrow> x = y"
proof -
  have "string_of_int (uint x) = string_of_int (uint y) \<longleftrightarrow> nat (uint x) = nat (uint y)"
    by (simp add: string_of_int_def string_of_nat_inject)
  then show ?thesis by (simp add: unat_eq_nat_uint [symmetric] word_unat_eq_iff)
qed

text \<open>
  A file that was damaged in one octet on the way is not written: the checksum that came with it does
  not fit, and the receiver leaves its files as they are.
\<close>

theorem damaged_file_rejected:
  assumes "fe_parse env str = Some data" "mp_index data ''content'' = MpBinary (content[i := c])"
    and "mp_index data ''djb2_hash'' = MpString (hash_text content)" "i < length content" "c \<noteq> content ! i"
    and "handleMessage env str rv = Done rv'"
  shows "rv_files rv' = rv_files rv"
proof -
  have "hash_text (content[i := c]) \<noteq> hash_text content"
    using djb2_one_change [OF assms(4,5)] by (simp add: hash_text_def string_of_uint_inject)
  then have "receiver_handleError env ''Hash mismatch.'' [] rv = Done rv'"
    using assms(1-3,6) by (simp add: handleMessage_def Let_def)
  then show ?thesis using receiver_send_closes by (fastforce simp: receiver_handleError_def)
qed

lemma file_message_fields:
  "mp_index (file_message ident filename content) ''content'' = MpBinary content"
  "mp_index (file_message ident filename content) ''djb2_hash'' = MpString (hash_text content)"
  "mp_index (file_message ident filename content) ''filename'' = MpString filename"
  "mp_index (file_message ident filename content) ''id'' = MpString ident"
  by (simp_all add: file_message_def mp_object_def)

lemma dump_string_parts:
  assumes "mp_dump (file_message ident filename content) = Some str"
  shows "\<exists>a b. dump_string filename = Some a \<and> dump_string ident = Some b"
proof -
  obtain bs where "mp_bytes (file_message ident filename content) = Some bs" using assms by (auto simp: mp_dump_def)
  then have "foldl opt_append (dump_header (Suc (Suc (Suc (Suc (Suc 0)))))) [opt_append (mp_bytes (MpString ''content'')) (mp_bytes (MpBinary content)),
      opt_append (mp_bytes (MpString ''djb2_hash'')) (mp_bytes (MpString (hash_text content))),
      opt_append (mp_bytes (MpString ''filename'')) (mp_bytes (MpString filename)),
      opt_append (mp_bytes (MpString ''id'')) (mp_bytes (MpString ident)),
      opt_append (mp_bytes (MpString ''kind'')) (mp_bytes (MpString ''send''))] = Some bs"
    by (simp add: file_message_def mp_object_def)
  then show ?thesis by (cases "dump_string filename"; cases "dump_string ident") simp_all
qed

definition can_store :: "files \<Rightarrow> string \<Rightarrow> nat \<Rightarrow> bool" where
  "can_store fs name n \<longleftrightarrow> NUL \<notin> set name \<and> fs_writable fs (name @ ''.tmp'') \<and> n \<le> fs_room fs \<and> fs_renames fs (name @ ''.tmp'') name"


subsection \<open>The relay\<close>

lemma relay_to_frame:
  assumes "relay_to env amount str binary c g = Ret g1"
  shows "wg_clients g1 = wg_clients g \<and> (\<forall>d. d \<noteq> c \<longrightarrow> wg_objects g1 d = wg_objects g d) \<and>
    (\<forall>w. wg_objects g c = Some w \<longrightarrow>
      (\<exists>info w1. ws_send env str binary (Some (\<lambda>current total. True)) w = Ret (info, w1) \<and> wg_objects g1 c = Some w1))"
  using assms by (auto simp: relay_to_def put_object_def split: option.splits outcome.splits)

lemma relay_to_all_frame:
  assumes "relay_to_all env amount str binary source cs g = Ret g1" "distinct cs"
  shows "wg_clients g1 = wg_clients g \<and> (\<forall>d. d \<notin> set cs - {source} \<longrightarrow> wg_objects g1 d = wg_objects g d) \<and>
    (\<forall>c w. c \<in> set cs - {source} \<and> wg_objects g c = Some w \<longrightarrow>
      (\<exists>info w1. ws_send env str binary (Some (\<lambda>current total. True)) w = Ret (info, w1) \<and> wg_objects g1 c = Some w1))"
  using assms
proof (induction cs arbitrary: g)
  case (Cons c cs)
  show ?case
  proof (cases "c = source")
    case True
    then have "relay_to_all env amount str binary source cs g = Ret g1" "set (c # cs) - {source} = set cs - {source}" using Cons.prems(1) by auto
    then show ?thesis using Cons.IH Cons.prems(2) by simp
  next
    case False
    then obtain g2 where g2: "relay_to env amount str binary c g = Ret g2" "relay_to_all env amount str binary source cs g2 = Ret g1"
      using Cons.prems(1) by (auto split: outcome.splits)
    note a = relay_to_frame [OF g2(1)] and b = Cons.IH [OF g2(2)]
    show ?thesis using a b Cons.prems(2) False by (auto; metis)
  qed
qed simp

text \<open>
  The relay passes a message on to every client but the one it came from, by one send each of the
  same octets as the same kind of message, and leaves the source and everybody else alone.
\<close>

theorem relay_reaches_the_others:
  assumes "transfer_onMessage env amount source msg g = Ret g1" "msg_type msg = Message" "distinct (wg_clients g)"
  shows "wg_clients g1 = wg_clients g \<and> (\<forall>d. d \<notin> set (wg_clients g) - {source} \<longrightarrow> wg_objects g1 d = wg_objects g d) \<and>
    (\<forall>c w. c \<in> set (wg_clients g) - {source} \<and> wg_objects g c = Some w \<longrightarrow>
      (\<exists>info w1. ws_send env (msg_str msg) (msg_binary msg) (Some (\<lambda>current total. True)) w = Ret (info, w1) \<and> wg_objects g1 c = Some w1))"
  using relay_to_all_frame [of env amount "msg_str msg" "msg_binary msg" source "wg_clients g" g g1] assms
  by (simp add: transfer_onMessage_def getClients_def)

subsection \<open>Waiting for ever\<close>

lemma wait_sent_ends: "wait_sent amount k = Some n \<Longrightarrow> \<exists>j. amount (k + 2 * j + 1) = 0"
proof -
  assume r: "wait_sent amount k = Some n"
  show ?thesis
  proof (rule wait_sent.raw_induct [OF _ r, where P = "\<lambda>amount k n. \<exists>j. amount (k + 2 * j + 1) = 0"])
    fix loop :: "(nat \<Rightarrow> nat) \<Rightarrow> nat \<Rightarrow> nat option" and amount :: "nat \<Rightarrow> nat" and k n
    assume rec: "\<And>amount k n. loop amount k = Some n \<Longrightarrow> \<exists>j. amount (k + 2 * j + 1) = 0"
      and body: "(if amount (k + 1) \<noteq> 0 then loop amount (k + 2) else Some (k + 2)) = Some n"
    show "\<exists>j. amount (k + 2 * j + 1) = 0"
    proof (cases "amount (k + 1) = 0")
      case True
      then show ?thesis by (intro exI [of _ 0]) simp
    next
      case False
      then obtain j where "amount (k + 2 + 2 * j + 1) = 0" using rec [of amount "k + 2" n] body by auto
      moreover have "k + 2 + 2 * j + 1 = k + 2 * Suc j + 1" by simp
      ultimately show ?thesis by metis
    qed
  qed
qed

text \<open>A client that stops reading stops the relay: the wait for its buffer has no end.\<close>

lemma relay_hangs:
  assumes "wg_objects g c = Some w" "ws_send env str binary (Some (\<lambda>current total. True)) w = Ret (info, w1)" "\<And>k. amount c k \<noteq> 0"
  shows "relay_to env amount str binary c g = Hang"
proof -
  have "wait_sent (amount c) 0 = None" using wait_sent_ends [of "amount c" 0] assms(3) by (cases "wait_sent (amount c) 0") auto
  then show ?thesis using assms(1,2) by (simp add: relay_to_def)
qed

inductive_cases tool_stepE: "tool_step s s'"

text \<open>The notification is lost when it comes before the wait: then no step is left, and the sender waits on.\<close>

lemma lost_notification:
  "\<exists>s. tool_step\<^sup>*\<^sup>* tool_start s \<and> tl_pc s = WaitingMessage \<and> tl_net s = Answered \<and> (\<forall>s'. \<not> tool_step s s')"
proof -
  let ?a = "tool_start\<lparr>tl_pc := WaitingConnection\<rparr>"
  let ?b = "tool_start\<lparr>tl_pc := Working, tl_net := Connected\<rparr>"
  let ?c = "tool_start\<lparr>tl_pc := BeforeMessage, tl_net := Connected\<rparr>"
  let ?d = "tool_start\<lparr>tl_pc := BeforeMessage, tl_net := Answered\<rparr>"
  let ?e = "tool_start\<lparr>tl_pc := WaitingMessage, tl_net := Answered\<rparr>"
  have "tool_step tool_start ?a" by (rule wait_connection) (simp add: tool_start_def)
  moreover have "tool_step ?a ?b" using opened [of ?a] by (simp add: tool_start_def)
  moreover have "tool_step ?b ?c" using worked [of ?b] by (simp add: tool_start_def)
  moreover have "tool_step ?c ?d" using answered [of ?c] by (simp add: tool_start_def)
  moreover have "tool_step ?d ?e" using wait_message [of ?d] by (simp add: tool_start_def)
  ultimately have "tool_step\<^sup>*\<^sup>* tool_start ?e" by (meson rtranclp.rtrancl_into_rtrancl rtranclp.rtrancl_refl)
  moreover have "\<not> tool_step ?e s'" for s' by (auto elim!: tool_stepE)
  ultimately show ?thesis by (intro exI [of _ ?e]) simp
qed

subsection \<open>Witnesses\<close>

definition demo_files :: files where
  "demo_files = \<lparr>fs_files = Map.empty, fs_writable = (\<lambda>_. True), fs_room = 1000, fs_renames = (\<lambda>_ _. True)\<rparr>"

definition demo_receiver :: "string receiver" where
  "demo_receiver = \<lparr>rv_webSocket = WebSocket_new demo_client, rv_files = demo_files, rv_fragments = 0\<rparr>"

definition demo_transfer :: "string transfer_env" where
  "demo_transfer = \<lparr>fe_tenv = demo_env, fe_parse = (\<lambda>_. None)\<rparr>"

theorem receiver_never_answers_witness:
  "\<exists>rv'. handleMessage demo_transfer [] demo_receiver = Done rv' \<and>
     rv_webSocket rv' = ws_close demo_env kInvalidFramePayloadData kInvalidFramePayloadDataMessage (WebSocket_new demo_client)"
proof -
  let ?e = "mp_object [(''id'', MpString []), (''kind'', MpString ''error''), (''message'', MpString ''Invalid MsgPack'')]"
  obtain e where e: "mp_dump ?e = Some e" by (simp add: mp_dump_def mp_object_def dump_header_def mp_length_def dump_string_def)
  then obtain rv' where rv': "handleMessage demo_transfer [] demo_receiver = Done rv'"
    using reply_not_text [OF e]
    by (simp add: handleMessage_def demo_transfer_def receiver_handleError_def receiver_send_def ws_send_def ws_sendText_def)
  show ?thesis using rv' receiver_never_answers [OF rv'] by (simp add: demo_transfer_def demo_receiver_def)
qed

theorem damaged_file_rejected_witness:
  "\<exists>rv'. handleMessage (demo_transfer\<lparr>fe_parse := (\<lambda>_. Some (mp_object [(''content'', MpBinary ([1, 2, 3][1 := 7])),
        (''djb2_hash'', MpString (hash_text [1, 2, 3])), (''filename'', MpString ''f'')]))\<rparr>) ''m'' demo_receiver = Done rv' \<and>
     rv_files rv' = demo_files"
proof -
  let ?d = "mp_object [(''content'', MpBinary ([1, 2, 3][1 := 7])), (''djb2_hash'', MpString (hash_text [1, 2, 3])), (''filename'', MpString ''f'')]"
  let ?env = "demo_transfer\<lparr>fe_parse := (\<lambda>_. Some ?d)\<rparr>"
  have h: "hash_text ([1, 2, 3][1 := 7]) \<noteq> hash_text [1, 2, 3]"
    using djb2_one_change [of 1 "[1, 2, 3]" 7] by (simp add: hash_text_def string_of_uint_inject)
  have f: "mp_index ?d ''content'' = MpBinary ([1, 2, 3][1 := 7])" "mp_index ?d ''djb2_hash'' = MpString (hash_text [1, 2, 3])"
    by (simp_all add: mp_object_def)
  let ?e = "mp_object [(''id'', MpString []), (''kind'', MpString ''error''), (''message'', MpString ''Hash mismatch.'')]"
  obtain e where e: "mp_dump ?e = Some e" by (simp add: mp_dump_def mp_object_def dump_header_def mp_length_def dump_string_def)
  have p: "fe_parse ?env ''m'' = Some ?d" by simp
  have "handleMessage ?env ''m'' demo_receiver = receiver_handleError ?env ''Hash mismatch.'' [] demo_receiver"
    unfolding handleMessage_def p option.case f binary_items.simps string_value.simps Let_def using h by simp
  then obtain rv' where rv': "handleMessage ?env ''m'' demo_receiver = Done rv'"
    using e reply_not_text [OF e] by (simp add: receiver_handleError_def receiver_send_def ws_send_def ws_sendText_def)
  show ?thesis using rv' damaged_file_rejected [OF p f _ _ rv'] by (simp add: demo_receiver_def)
qed

lemma dump_string_literals:
  "\<exists>a. dump_string ''content'' = Some a" "\<exists>a. dump_string ''djb2_hash'' = Some a" "\<exists>a. dump_string ''filename'' = Some a"
  "\<exists>a. dump_string ''/tmp/f'' = Some a" "\<exists>a. dump_string ''id'' = Some a" "\<exists>a. dump_string ''kind'' = Some a" "\<exists>a. dump_string ''send'' = Some a"
  by (simp_all add: dump_string_def mp_length_def)

definition demo_sender :: "string sender" where
  "demo_sender = \<lparr>sd_webSocket = WebSocket_new (demo_client\<lparr>readyState := CLOSED\<rparr>), sd_id = []\<rparr>"


theorem relay_reaches_the_others_witness:
  "let w = WebSocket_new (demo_client\<lparr>readyState := CLOSED\<rparr>);
       g = (WebSocketServer_shared 3)\<lparr>wg_clients := [0, 1], wg_objects := [0 \<mapsto> w, 1 \<mapsto> w]\<rparr>
   in \<exists>g1 info w1. transfer_onMessage demo_env (\<lambda>_ _. 0) 0 (demo_cobra_message Message ''m'') g = Ret g1 \<and> wg_objects g1 0 = Some w \<and>
        ws_send demo_env ''m'' False (Some (\<lambda>current total. True)) w = Ret (info, w1) \<and> wg_objects g1 1 = Some w1"
proof -
  let ?w = "WebSocket_new (demo_client\<lparr>readyState := CLOSED\<rparr>)"
  let ?g = "(WebSocketServer_shared 3)\<lparr>wg_clients := [0, 1], wg_objects := [0 \<mapsto> ?w, 1 \<mapsto> ?w]\<rparr>" and ?m = "demo_cobra_message Message ''m''"
  have v: "validateUtf8 (bytes_of ''m'')" by (rule validateUtf8_ascii) (auto simp: bytes_of_def byte_of_char_def)
  have s: "ws_send demo_env ''m'' False (Some (\<lambda>current total. True)) ?w = Ret (send_failed, ?w)"
    using v by (simp add: ws_send_def ws_sendText_def sendMessage_def ws_isConnected_def WebSocket_new_def)
  have w: "wait_sent (\<lambda>_. 0) 0 = Some 2" by (subst wait_sent.simps) simp
  have m: "msg_type ?m = Message" "msg_str ?m = ''m''" "\<not> msg_binary ?m" by (simp_all add: demo_cobra_message_def)
  have r: "transfer_onMessage demo_env (\<lambda>_ _. 0) 0 ?m ?g = Ret (put_object 1 ?w ?g)"
    using m s w by (simp add: transfer_onMessage_def getClients_def relay_to_def)
  have d: "distinct (wg_clients ?g)" by simp
  from relay_reaches_the_others [OF r m(1) d]
  show ?thesis using r m by (auto simp: Let_def)
qed

end
