(* ===== verification/CobraPublisher.thy ===== *)
theory CobraPublisher
  imports CobraProperties Fifo
begin

section \<open>The metrics publisher\<close>

text \<open>
  \<^verbatim>\<open>ixcobra/IXCobraMetricsThreadedPublisher.cpp\<close> and \<^verbatim>\<open>ixcobra/IXCobraMetricsPublisher.cpp\<close>: metrics are filtered by a blacklist and by rates,
  numbered per identifier, and queued for a thread that publishes them over a Cobra connection. A
  turn of the thread is one item of the queue. The clocks are parameters, read by number; times are
  nanoseconds. Rates are kept as a list of pairs: the order of the hash table does not matter.
\<close>

subsection \<open>The threaded publisher\<close>

datatype MetricsMessageKind = MetricsMessage | MetricsSuspend | MetricsResume

record 'z threaded_publisher =
  tp_cobra_connection :: "'z cobra"
  tp_channel :: string
  tp_queue :: "(MetricsMessageKind \<times> json) list"
  tp_channels :: "json list"
  tp_started :: bool

text \<open>The callback of the constructor only writes to the log.\<close>

definition CobraMetricsThreadedPublisher_new :: "'z cobra \<Rightarrow> 'z threaded_publisher" where
  "CobraMetricsThreadedPublisher_new c =
     \<lparr>tp_cobra_connection = setEventCallback True c, tp_channel = [], tp_queue = [], tp_channels = [JString [], JString []], tp_started = False\<rparr>"

text \<open>\<open>start\<close>, with what the thread does before its loop.\<close>

definition tp_start :: "'z threaded_publisher \<Rightarrow> 'z threaded_publisher" where
  "tp_start p = (if tp_started p then p else p\<lparr>tp_started := True, tp_cobra_connection := snd (cobra_connect (tp_cobra_connection p))\<rparr>)"

definition tp_configure :: "string \<Rightarrow> string \<Rightarrow> string \<Rightarrow> string \<Rightarrow> string \<Rightarrow> bool \<Rightarrow> 'z threaded_publisher \<Rightarrow> 'z threaded_publisher" where
  "tp_configure appkey endpoint channel rolename rolesecret deflate p =
     p\<lparr>tp_channel := channel, tp_cobra_connection :=
         cobra_configure appkey endpoint rolename rolesecret (deflateOptions deflate False False 15 15) (tp_cobra_connection p)\<rparr>"

definition pushMessage :: "MetricsMessageKind \<times> json \<Rightarrow> 'z threaded_publisher \<Rightarrow> 'z threaded_publisher" where
  "pushMessage item p = p\<lparr>tp_queue := tp_queue p @ [item]\<rparr>"

definition tp_push :: "json \<Rightarrow> 'z threaded_publisher \<Rightarrow> 'z threaded_publisher" where
  "tp_push msg p = pushMessage (MetricsMessage, msg) p"

definition tp_suspend :: "'z threaded_publisher \<Rightarrow> 'z threaded_publisher" where
  "tp_suspend p = pushMessage (MetricsSuspend, JNull) p"

definition tp_resume :: "'z threaded_publisher \<Rightarrow> 'z threaded_publisher" where
  "tp_resume p = pushMessage (MetricsResume, JNull) p"

definition tp_setPublishMode :: "CobraConnectionPublishMode \<Rightarrow> 'z threaded_publisher \<Rightarrow> 'z threaded_publisher" where
  "tp_setPublishMode mode p = p\<lparr>tp_cobra_connection := setPublishMode mode (tp_cobra_connection p)\<rparr>"

definition tp_flushQueue :: "'z cobra_env \<Rightarrow> 'z threaded_publisher \<Rightarrow> (bool \<times> 'z threaded_publisher) cobra_result" where
  "tp_flushQueue env p = cbind (cobra_flushQueue env (tp_cobra_connection p)) (\<lambda>(ok, c). Done (ok, p\<lparr>tp_cobra_connection := c\<rparr>))"

definition tp_take :: "'z threaded_publisher \<Rightarrow> (MetricsMessageKind \<times> json) option \<times> 'z threaded_publisher" where
  "tp_take p = (case tp_queue p of [] \<Rightarrow> (None, p) | x # xs \<Rightarrow> (Some x, p\<lparr>tp_queue := xs\<rparr>))"

interpretation metrics: fifo_queue pushMessage tp_take tp_queue
  by unfold_locales (auto simp: pushMessage_def tp_take_def)

definition tp_publish :: "'z cobra_env \<Rightarrow> json \<Rightarrow> 'z threaded_publisher \<Rightarrow> 'z threaded_publisher cobra_result" where
  "tp_publish env msg p =
     (let channels0 = (tp_channels p)[0 := JString (tp_channel p)]
      in cbind (with_member ''id'' msg (Done channels0) (\<lambda>v. Done (channels0[1 := v]))) (\<lambda>channels.
           cbind (publish env (JArray channels) msg (tp_cobra_connection p)) (\<lambda>(n, c).
             Done (p\<lparr>tp_channels := channels, tp_cobra_connection := c\<rparr>))))"

text \<open>A turn of the loop of \<open>run\<close>; the thread waits while the queue is empty.\<close>

definition tp_round :: "'z cobra_env \<Rightarrow> 'z threaded_publisher \<Rightarrow> 'z threaded_publisher cobra_result" where
  "tp_round env p =
     (case tp_take p of
        (None, p1) \<Rightarrow> Done p1
      | (Some (MetricsSuspend, msg), p1) \<Rightarrow> cbind (cobra_suspend env (tp_cobra_connection p1)) (\<lambda>c. Done (p1\<lparr>tp_cobra_connection := c\<rparr>))
      | (Some (MetricsResume, msg), p1) \<Rightarrow> Done (p1\<lparr>tp_cobra_connection := cobra_resume (tp_cobra_connection p1)\<rparr>)
      | (Some (MetricsMessage, msg), p1) \<Rightarrow> tp_publish env msg p1)"

text \<open>The destructor: the thread disconnects when it sees that it is to stop.\<close>

definition CobraMetricsThreadedPublisher_delete :: "'z cobra_env \<Rightarrow> 'z threaded_publisher \<Rightarrow> 'z threaded_publisher cobra_result" where
  "CobraMetricsThreadedPublisher_delete env p =
     (if \<not> tp_started p then Done p
      else cbind (cobra_disconnect env (tp_cobra_connection p)) (\<lambda>c. Done (p\<lparr>tp_cobra_connection := c, tp_started := False\<rparr>)))"

fun tp_rounds :: "'z cobra_env \<Rightarrow> nat \<Rightarrow> 'z threaded_publisher \<Rightarrow> 'z threaded_publisher cobra_result" where
  "tp_rounds env 0 p = Done p"
| "tp_rounds env (Suc n) p = cbind (tp_round env p) (tp_rounds env n)"

subsection \<open>Sorting and searching\<close>

fun insert_string :: "string \<Rightarrow> string list \<Rightarrow> string list" where
  "insert_string x [] = [x]"
| "insert_string x (y # ys) = (if string_less y x then y # insert_string x ys else x # y # ys)"

definition sort_strings :: "string list \<Rightarrow> string list" where
  "sort_strings xs = foldr insert_string xs []"

text \<open>\<open>std::lower_bound\<close> and \<open>std::binary_search\<close>.\<close>

function lower_bound :: "string list \<Rightarrow> string \<Rightarrow> nat \<Rightarrow> nat \<Rightarrow> nat" where
  "lower_bound xs v first len =
     (if len = 0 then first
      else let half = len div 2; middle = first + half
           in if string_less (xs ! middle) v then lower_bound xs v (middle + 1) (len - half - 1) else lower_bound xs v first half)"
  by auto
termination by (relation "measure (\<lambda>(xs, v, first, len). len)") auto

declare lower_bound.simps [simp del]

definition binary_search :: "string list \<Rightarrow> string \<Rightarrow> bool" where
  "binary_search xs v = (let i = lower_bound xs v 0 (length xs) in i \<noteq> length xs \<and> \<not> string_less v (xs ! i))"

subsection \<open>The publisher\<close>

record 'z metrics_publisher =
  mp_threaded :: "'z threaded_publisher"
  mp_enabled :: bool
  mp_session :: string
  mp_device :: json
  mp_blacklist :: "string list"
  mp_rate_control :: "(string \<times> int) list"
  mp_last_update :: "string \<rightharpoonup> int"
  mp_counters :: "string \<rightharpoonup> int"
  mp_steadyReads :: nat
  mp_epochReads :: nat

record metrics_clock =
  mc_steady :: "nat \<Rightarrow> int"
  mc_epochMs :: "nat \<Rightarrow> u64"

definition kVersion :: int where "kVersion = 1"

definition kSetRateControlId :: string where "kSetRateControlId = ''sms_set_rate_control_id''"

definition kSetBlacklistId :: string where "kSetBlacklistId = ''sms_set_blacklist_id''"

definition CobraMetricsPublisher_new :: "'z threaded_publisher \<Rightarrow> 'z metrics_publisher" where
  "CobraMetricsPublisher_new p =
     \<lparr>mp_threaded = p, mp_enabled = True, mp_session = [], mp_device = JNull, mp_blacklist = [], mp_rate_control = [],
      mp_last_update = Map.empty, mp_counters = Map.empty, mp_steadyReads = 0, mp_epochReads = 0\<rparr>"

definition mp_configure :: "string \<Rightarrow> string \<Rightarrow> string \<Rightarrow> string \<Rightarrow> string \<Rightarrow> bool \<Rightarrow> 'z metrics_publisher \<Rightarrow> 'z metrics_publisher" where
  "mp_configure appkey endpoint channel rolename rolesecret deflate m =
     m\<lparr>mp_threaded := tp_configure appkey endpoint channel rolename rolesecret deflate (tp_start (mp_threaded m))\<rparr>"

text \<open>The user may change the object it gets a reference to.\<close>

definition getGenericAttributes :: "(json \<Rightarrow> json) \<Rightarrow> 'z metrics_publisher \<Rightarrow> 'z metrics_publisher" where
  "getGenericAttributes change m = m\<lparr>mp_device := change (mp_device m)\<rparr>"

definition setGenericAttributes :: "string \<Rightarrow> json \<Rightarrow> 'z metrics_publisher \<Rightarrow> 'z metrics_publisher cobra_result" where
  "setGenericAttributes attrName val m = cbind (unthrow (json_set attrName val (mp_device m))) (\<lambda>d. Done (m\<lparr>mp_device := d\<rparr>))"

definition mp_enable :: "bool \<Rightarrow> 'z metrics_publisher \<Rightarrow> 'z metrics_publisher" where
  "mp_enable enabled m = m\<lparr>mp_enabled := enabled\<rparr>"

definition setSession :: "string \<Rightarrow> 'z metrics_publisher \<Rightarrow> 'z metrics_publisher" where
  "setSession session m = m\<lparr>mp_session := session\<rparr>"

definition isMetricBlacklisted :: "'z metrics_publisher \<Rightarrow> string \<Rightarrow> bool" where
  "isMetricBlacklisted m mid = binary_search (mp_blacklist m) mid"

definition isAboveMaxUpdateRate :: "metrics_clock \<Rightarrow> string \<Rightarrow> 'z metrics_publisher \<Rightarrow> bool \<times> 'z metrics_publisher" where
  "isAboveMaxUpdateRate clk mid m =
     (case map_of (mp_rate_control m) mid of
        None \<Rightarrow> (False, m)
      | Some secs \<Rightarrow>
          (case mp_last_update m mid of
             None \<Rightarrow> (False, m)
           | Some t \<Rightarrow> (mc_steady clk (mp_steadyReads m) - t < secs * 1000000000, m\<lparr>mp_steadyReads := mp_steadyReads m + 1\<rparr>)))"

definition setLastUpdate :: "metrics_clock \<Rightarrow> string \<Rightarrow> 'z metrics_publisher \<Rightarrow> 'z metrics_publisher" where
  "setLastUpdate clk mid m =
     m\<lparr>mp_last_update := (mp_last_update m)(mid \<mapsto> mc_steady clk (mp_steadyReads m)), mp_steadyReads := mp_steadyReads m + 1\<rparr>"

definition getMillisecondsSinceEpoch :: "metrics_clock \<Rightarrow> 'z metrics_publisher \<Rightarrow> u64 \<times> 'z metrics_publisher" where
  "getMillisecondsSinceEpoch clk m = (mc_epochMs clk (mp_epochReads m), m\<lparr>mp_epochReads := mp_epochReads m + 1\<rparr>)"

definition shouldPush :: "metrics_clock \<Rightarrow> string \<Rightarrow> 'z metrics_publisher \<Rightarrow> bool \<times> 'z metrics_publisher" where
  "shouldPush clk mid m =
     (if \<not> mp_enabled m then (False, m)
      else if isMetricBlacklisted m mid then (False, m)
      else case isAboveMaxUpdateRate clk mid m of (tooOften, m1) \<Rightarrow> (\<not> tooOften, m1))"

definition metrics_message :: "string \<Rightarrow> json \<Rightarrow> string \<Rightarrow> u64 \<Rightarrow> json \<Rightarrow> int \<Rightarrow> json" where
  "metrics_message mid data session ms device ctr =
     object_of [(''id'', JString mid), (''data'', data), (''session'', JString session), (''version'', JInt kVersion),
       (''timestamp'', JInt (uint ms)), (''device'', device), (''per_id_counter'', JInt ctr)]"

text \<open>From \<open>setLastUpdate\<close> on; incrementing the largest \<open>int\<close> is undefined.\<close>

definition push_now :: "metrics_clock \<Rightarrow> string \<Rightarrow> json \<Rightarrow> 'z metrics_publisher \<Rightarrow> 'z metrics_publisher cobra_result" where
  "push_now clk mid data m =
     (case getMillisecondsSinceEpoch clk (setLastUpdate clk mid m) of (ms, m1) \<Rightarrow>
        let ctr = (case mp_counters m1 mid of None \<Rightarrow> 0 | Some n \<Rightarrow> n);
            msg = metrics_message mid data (mp_session m1) ms (mp_device m1) ctr
        in if ctr \<ge> 2 ^ 31 - 1 then Undefined
           else Done (m1\<lparr>mp_counters := (mp_counters m1)(mid \<mapsto> ctr + 1), mp_threaded := tp_push msg (mp_threaded m1)\<rparr>))"

definition mp_push :: "metrics_clock \<Rightarrow> string \<Rightarrow> json \<Rightarrow> bool \<Rightarrow> 'z metrics_publisher \<Rightarrow> 'z metrics_publisher cobra_result" where
  "mp_push clk mid data shouldPushTest m =
     (if shouldPushTest then (case shouldPush clk mid m of (ok, m1) \<Rightarrow> if \<not> ok then Done m1 else push_now clk mid data m1)
      else push_now clk mid data m)"

definition mp_push_text ::
  "(string \<Rightarrow> json option) \<Rightarrow> metrics_clock \<Rightarrow> string \<Rightarrow> string \<Rightarrow> bool \<Rightarrow> 'z metrics_publisher \<Rightarrow> 'z metrics_publisher cobra_result" where
  "mp_push_text parse clk mid data shouldPushTest m =
     (if \<not> mp_enabled m then Done m
      else case parse data of None \<Rightarrow> Done m | Some j \<Rightarrow> mp_push clk mid j shouldPushTest m)"

definition mp_push_pairs :: "metrics_clock \<Rightarrow> string \<Rightarrow> (string \<times> string) list \<Rightarrow> 'z metrics_publisher \<Rightarrow> 'z metrics_publisher cobra_result" where
  "mp_push_pairs clk mid data m =
     (if \<not> mp_enabled m then Done m
      else mp_push clk mid (if data = [] then JNull else object_of (map (\<lambda>(k, v). (k, JString v)) data)) True m)"

definition setBlacklist :: "metrics_clock \<Rightarrow> string list \<Rightarrow> 'z metrics_publisher \<Rightarrow> 'z metrics_publisher cobra_result" where
  "setBlacklist clk blacklist m =
     mp_push clk kSetBlacklistId (object_of [(''blacklist'', if blacklist = [] then JNull else JArray (map JString blacklist))]) True
       (m\<lparr>mp_blacklist := sort_strings blacklist\<rparr>)"

fun rate_set :: "string \<Rightarrow> int \<Rightarrow> (string \<times> int) list \<Rightarrow> (string \<times> int) list" where
  "rate_set k v [] = [(k, v)]"
| "rate_set k v ((k1, v1) # m) = (if k = k1 then (k, v) # m else (k1, v1) # rate_set k v m)"

definition setRateControl :: "metrics_clock \<Rightarrow> (string \<times> int) list \<Rightarrow> 'z metrics_publisher \<Rightarrow> 'z metrics_publisher cobra_result" where
  "setRateControl clk rate_control m =
     (let rates = fold (\<lambda>(k, v). rate_set k v) (filter (\<lambda>(k, v). v \<ge> 0) rate_control) (mp_rate_control m)
      in mp_push clk kSetRateControlId
           (object_of [(''rate_control'', if rates = [] then JNull else object_of (map (\<lambda>(k, v). (k, JInt v)) rates))]) True
           (m\<lparr>mp_rate_control := rates\<rparr>))"

definition mp_setPublishMode :: "CobraConnectionPublishMode \<Rightarrow> 'z metrics_publisher \<Rightarrow> 'z metrics_publisher" where
  "mp_setPublishMode mode m = m\<lparr>mp_threaded := tp_setPublishMode mode (mp_threaded m)\<rparr>"

definition mp_flushQueue :: "'z cobra_env \<Rightarrow> 'z metrics_publisher \<Rightarrow> (bool \<times> 'z metrics_publisher) cobra_result" where
  "mp_flushQueue env m = cbind (tp_flushQueue env (mp_threaded m)) (\<lambda>(ok, p). Done (ok, m\<lparr>mp_threaded := p\<rparr>))"

definition mp_suspend :: "'z metrics_publisher \<Rightarrow> 'z metrics_publisher" where
  "mp_suspend m = m\<lparr>mp_threaded := tp_suspend (mp_threaded m)\<rparr>"

definition mp_resume :: "'z metrics_publisher \<Rightarrow> 'z metrics_publisher" where
  "mp_resume m = m\<lparr>mp_threaded := tp_resume (mp_threaded m)\<rparr>"

definition mp_isConnected :: "'z metrics_publisher \<Rightarrow> bool" where
  "mp_isConnected m = cobra_isConnected (tp_cobra_connection (mp_threaded m))"

definition mp_isAuthenticated :: "'z metrics_publisher \<Rightarrow> bool" where
  "mp_isAuthenticated m = isAuthenticated (tp_cobra_connection (mp_threaded m))"

subsection \<open>The blacklist\<close>

lemma string_less_irrefl: "\<not> string_less s s"
  by (induction s) auto

lemma string_less_trans: "string_less s t \<Longrightarrow> string_less t u \<Longrightarrow> string_less s u"
proof (induction s t arbitrary: u rule: string_less.induct)
  case (2 b t)
  then show ?case by (cases u) auto
next
  case (3 a s b t)
  then show ?case by (cases u) auto
qed simp

lemma string_less_total: "s \<noteq> t \<Longrightarrow> string_less s t \<or> string_less t s"
proof (induction s t rule: string_less.induct)
  case (1 s)
  then show ?case by (cases s) auto
next
  case (3 a s b t)
  then show ?case using of_char_eq_iff [of a b, where ?'a = nat] by auto
qed simp

definition ascending :: "string list \<Rightarrow> bool" where
  "ascending xs \<longleftrightarrow> sorted_wrt (\<lambda>x y. \<not> string_less y x) xs"

lemma set_insert_string [simp]: "set (insert_string x xs) = insert x (set xs)"
  by (induction xs) auto

lemma ascending_insert: "ascending xs \<Longrightarrow> ascending (insert_string x xs)"
proof (induction xs)
  case (Cons y ys)
  then show ?case
    using string_less_trans string_less_total by (auto simp: ascending_def dest: string_less_irrefl [THEN notE]) (metis string_less_trans string_less_total)+
qed (simp add: ascending_def)

lemma sort_strings: "ascending (sort_strings xs)" "set (sort_strings xs) = set xs"
  by (induction xs) (auto simp: sort_strings_def ascending_insert, simp add: ascending_def)

lemma lower_bound_splits:
  assumes "ascending xs" "first + len \<le> length xs" "\<forall>j < first. string_less (xs ! j) v" "\<forall>j. first + len \<le> j \<and> j < length xs \<longrightarrow> \<not> string_less (xs ! j) v"
  shows "lower_bound xs v first len \<le> length xs \<and> (\<forall>j < lower_bound xs v first len. string_less (xs ! j) v) \<and>
    (\<forall>j. lower_bound xs v first len \<le> j \<and> j < length xs \<longrightarrow> \<not> string_less (xs ! j) v)"
  using assms
proof (induction xs v first len rule: lower_bound.induct)
  case (1 xs v first len)
  have mono: "\<not> string_less (xs ! j) (xs ! i)" if "i \<le> j" "j < length xs" for i j
    using "1.prems"(1) that string_less_irrefl by (cases "i = j") (auto simp: ascending_def sorted_wrt_iff_nth_less)
  let ?half = "len div 2"
  show ?case
  proof (cases "len = 0")
    case True
    then show ?thesis using "1.prems" by (subst (1 2 3) lower_bound.simps) auto
  next
    case nz: False
    then have mid: "first + ?half < length xs" "?half < len" using "1.prems"(2) by auto
    show ?thesis
    proof (cases "string_less (xs ! (first + ?half)) v")
      case True
      have below: "string_less (xs ! j) v" if "j < first + ?half + 1" for j
        using mono [of j "first + ?half"] mid(1) that True string_less_total string_less_trans by (metis Suc_eq_plus1 less_Suc_eq_le)
      have len: "first + ?half + 1 + (len - ?half - 1) = first + len" using mid(2) by simp
      show ?thesis
        using "1.IH"(1) [OF nz refl refl True "1.prems"(1)] "1.prems"(2,4) below nz True unfolding len
        by (subst (1 2 3) lower_bound.simps) (simp add: Let_def)
    next
      case False
      have above: "\<not> string_less (xs ! j) v" if "first + ?half \<le> j" "j < length xs" for j
        using mono [OF that] False string_less_total string_less_trans by metis
      show ?thesis
        using "1.IH"(2) [OF nz refl refl False "1.prems"(1) _ "1.prems"(3)] above mid nz False
        by (subst (1 2 3) lower_bound.simps) (simp add: Let_def)
    qed
  qed
qed

lemma binary_search_mem:
  assumes "ascending xs"
  shows "binary_search xs v \<longleftrightarrow> v \<in> set xs"
proof -
  let ?i = "lower_bound xs v 0 (length xs)"
  have "?i \<le> length xs \<and> (\<forall>j < ?i. string_less (xs ! j) v) \<and> (\<forall>j. ?i \<le> j \<and> j < length xs \<longrightarrow> \<not> string_less (xs ! j) v)"
    by (rule lower_bound_splits [OF assms]) auto
  then have i: "?i \<le> length xs" "\<And>j. j < ?i \<Longrightarrow> string_less (xs ! j) v" "\<And>j. ?i \<le> j \<Longrightarrow> j < length xs \<Longrightarrow> \<not> string_less (xs ! j) v"
    by blast+
  show ?thesis
  proof
    assume b: "binary_search xs v"
    then have "?i < length xs" using i(1) by (auto simp: binary_search_def Let_def)
    moreover have "xs ! ?i = v" using b i(3) [of ?i] calculation string_less_total by (auto simp: binary_search_def Let_def)
    ultimately show "v \<in> set xs" by (metis nth_mem)
  next
    assume "v \<in> set xs"
    then obtain j where j: "j < length xs" "xs ! j = v" by (auto simp: in_set_conv_nth)
    have le: "?i \<le> j" using i(2) [of j] j string_less_irrefl by (metis not_less)
    then have "\<not> string_less v (xs ! ?i)"
      using assms j string_less_irrefl by (cases "?i = j") (auto simp: ascending_def sorted_wrt_iff_nth_less)
    then show "binary_search xs v" using le j by (auto simp: binary_search_def Let_def)
  qed
qed

lemma push_keeps:
  "mp_push clk mid data test m = Done m' \<Longrightarrow> mp_blacklist m' = mp_blacklist m"
  by (auto simp: mp_push_def push_now_def shouldPush_def isAboveMaxUpdateRate_def setLastUpdate_def getMillisecondsSinceEpoch_def Let_def
      split: if_splits option.splits prod.splits)

text \<open>
  The blacklist holds back exactly the metrics named in it, whatever the order and repetitions of
  the list: the binary search in the sorted copy is membership in the list that was given.
\<close>

theorem blacklist_exact:
  "setBlacklist clk blacklist m = Done m' \<Longrightarrow> isMetricBlacklisted m' mid \<longleftrightarrow> mid \<in> set blacklist"
  using push_keeps binary_search_mem [OF sort_strings(1)] by (fastforce simp: setBlacklist_def isMetricBlacklisted_def sort_strings(2))

theorem blacklist_exact_witness:
  "\<exists>m'. setBlacklist \<lparr>mc_steady = int, mc_epochMs = (\<lambda>_. 0)\<rparr> [''b'', ''a'', ''b'']
       (CobraMetricsPublisher_new (CobraMetricsThreadedPublisher_new demo_cobra)) = Done m' \<and> isMetricBlacklisted m' ''a''"
proof -
  let ?clk = "\<lparr>mc_steady = int, mc_epochMs = (\<lambda>_. 0)\<rparr>" and ?m = "CobraMetricsPublisher_new (CobraMetricsThreadedPublisher_new demo_cobra)"
  have "\<not> binary_search (sort_strings [''b'', ''a'', ''b'']) kSetBlacklistId"
    using binary_search_mem [OF sort_strings(1)] by (simp add: sort_strings(2) kSetBlacklistId_def)
  then obtain m' where m': "setBlacklist ?clk [''b'', ''a'', ''b''] ?m = Done m'"
    by (simp add: setBlacklist_def mp_push_def shouldPush_def isMetricBlacklisted_def isAboveMaxUpdateRate_def push_now_def
        getMillisecondsSinceEpoch_def setLastUpdate_def CobraMetricsPublisher_new_def Let_def)
  then show ?thesis using blacklist_exact [OF m', of "''a''"] by simp
qed

subsection \<open>Numbers\<close>

fun push_all :: "metrics_clock \<Rightarrow> (string \<times> json \<times> bool) list \<Rightarrow> 'z metrics_publisher \<Rightarrow> 'z metrics_publisher cobra_result" where
  "push_all clk [] m = Done m"
| "push_all clk ((mid, data, test) # ps) m = cbind (mp_push clk mid data test m) (push_all clk ps)"

definition has_id :: "string \<Rightarrow> MetricsMessageKind \<times> json \<Rightarrow> bool" where
  "has_id mid item \<longleftrightarrow> json_index (snd item) ''id'' = Inr (JString mid)"

definition number_of :: "MetricsMessageKind \<times> json \<Rightarrow> sample_exn + json" where
  "number_of item = json_index (snd item) ''per_id_counter''"

abbreviation waiting :: "'z metrics_publisher \<Rightarrow> string \<Rightarrow> (MetricsMessageKind \<times> json) list" where
  "waiting m mid \<equiv> filter (has_id mid) (tp_queue (mp_threaded m))"

definition next_number :: "'z metrics_publisher \<Rightarrow> string \<Rightarrow> int" where
  "next_number m mid = (case mp_counters m mid of None \<Rightarrow> 0 | Some n \<Rightarrow> n)"

definition numbered_metrics :: "'z metrics_publisher \<Rightarrow> bool" where
  "numbered_metrics m \<longleftrightarrow> (\<forall>mid. map number_of (waiting m mid) = map (\<lambda>i. Inr (JInt (int i))) [0..<length (waiting m mid)] \<and>
     next_number m mid = int (length (waiting m mid)))"

lemma metrics_message_fields:
  "has_id mid' (k, metrics_message mid data session ms device n) \<longleftrightarrow> mid' = mid"
  "number_of (k, metrics_message mid data session ms device n) = Inr (JInt n)"
  by (auto simp: has_id_def number_of_def metrics_message_def object_of_def)

lemma push_now_numbered:
  assumes "numbered_metrics m" "push_now clk mid data m = Done m'"
  shows "numbered_metrics m'"
proof -
  obtain ms where m': "mp_counters m' = (mp_counters m)(mid \<mapsto> next_number m mid + 1)"
      "tp_queue (mp_threaded m') = tp_queue (mp_threaded m) @
         [(MetricsMessage, metrics_message mid data (mp_session m) ms (mp_device m) (next_number m mid))]"
    using assms(2)
    by (auto simp: push_now_def getMillisecondsSinceEpoch_def setLastUpdate_def tp_push_def pushMessage_def next_number_def Let_def split: if_splits)
  have n: "next_number m' x = (if x = mid then next_number m mid + 1 else next_number m x)" for x by (simp add: next_number_def m'(1))
  show ?thesis
    using assms(1) by (simp add: numbered_metrics_def n m'(2) metrics_message_fields)
qed

lemma shouldPush_frame: "shouldPush clk mid m = (ok, m1) \<Longrightarrow> mp_counters m1 = mp_counters m \<and> mp_threaded m1 = mp_threaded m"
  by (auto simp: shouldPush_def isAboveMaxUpdateRate_def split: if_splits option.splits)

lemma push_numbered:
  assumes "numbered_metrics m" "mp_push clk mid data test m = Done m'"
  shows "numbered_metrics m'"
proof -
  obtain ok m1 where s: "shouldPush clk mid m = (ok, m1)" by fastforce
  have "numbered_metrics m1" using assms(1) shouldPush_frame [OF s] by (simp add: numbered_metrics_def next_number_def)
  then show ?thesis using assms s push_now_numbered by (auto simp: mp_push_def split: if_splits)
qed

lemma push_all_numbered: "push_all clk ps m = Done m' \<Longrightarrow> numbered_metrics m \<Longrightarrow> numbered_metrics m'"
  by (induction clk ps m rule: push_all.induct) (auto simp: cbind_Done push_numbered)

text \<open>
  The metrics of an identifier are numbered 0, 1, 2 and so on without gaps: however pushes of
  different metrics mix, and whichever of them the blacklist and the rates hold back, the queued
  messages of each identifier carry consecutive numbers from zero in the order of the queue.
\<close>

theorem metrics_numbered:
  assumes "push_all clk ps (CobraMetricsPublisher_new p) = Done m" "tp_queue p = []"
  shows "map number_of (waiting m mid) = map (\<lambda>i. Inr (JInt (int i))) [0..<length (waiting m mid)]"
proof -
  have "numbered_metrics (CobraMetricsPublisher_new p)"
    using assms(2) by (simp add: numbered_metrics_def next_number_def CobraMetricsPublisher_new_def)
  from push_all_numbered [OF assms(1) this] show ?thesis by (simp add: numbered_metrics_def)
qed

theorem metrics_numbered_witness:
  "\<exists>m. push_all \<lparr>mc_steady = int, mc_epochMs = (\<lambda>_. 0)\<rparr> [(''a'', JNull, False), (''b'', JNull, False), (''a'', JNull, False)]
       (CobraMetricsPublisher_new (CobraMetricsThreadedPublisher_new demo_cobra)) = Done m \<and>
     map number_of (waiting m ''a'') = [Inr (JInt 0), Inr (JInt 1)]"
proof -
  let ?clk = "\<lparr>mc_steady = int, mc_epochMs = (\<lambda>_. 0)\<rparr>" and ?p = "CobraMetricsThreadedPublisher_new demo_cobra"
  obtain m where m: "push_all ?clk [(''a'', JNull, False), (''b'', JNull, False), (''a'', JNull, False)] (CobraMetricsPublisher_new ?p) = Done m"
    and l: "length (waiting m ''a'') = 2"
    by (simp add: mp_push_def push_now_def getMillisecondsSinceEpoch_def setLastUpdate_def CobraMetricsPublisher_new_def Let_def
        CobraMetricsThreadedPublisher_new_def tp_push_def pushMessage_def metrics_message_fields)
  have "tp_queue ?p = []" by (simp add: CobraMetricsThreadedPublisher_new_def)
  from metrics_numbered [OF m this, of "''a''"] show ?thesis using m l by (auto simp: numeral_2_eq_2)
qed

subsection \<open>Order of publication\<close>

text \<open>The channels a message is published to: the configured one and the one named by its identifier.\<close>

definition to_channels :: "string \<Rightarrow> json \<Rightarrow> json" where
  "to_channels channel msg = JArray [JString channel, (case json_index msg ''id'' of Inr v \<Rightarrow> v | Inl e \<Rightarrow> JNull)]"

definition named :: "json \<Rightarrow> bool" where
  "named msg \<longleftrightarrow> (\<exists>kvs v. msg = JObject kvs \<and> map_of kvs ''id'' = Some v)"

lemma round_publishes:
  assumes "tp_queue p = (MetricsMessage, msg) # rest" "named msg" "length (tp_channels p) = 2"
    and "publish env (to_channels (tp_channel p) msg) msg (tp_cobra_connection p) = Done (n, c)"
  shows "\<exists>chs. length chs = 2 \<and> tp_round env p = Done (p\<lparr>tp_queue := rest, tp_channels := chs, tp_cobra_connection := c\<rparr>)"
proof -
  obtain kvs v where v: "msg = JObject kvs" "map_of kvs ''id'' = Some v" using assms(2) by (auto simp: named_def)
  obtain a b where "tp_channels p = [a, b]" using assms(3) by (auto simp: numeral_2_eq_2 length_Suc_conv)
  then have "((tp_channels p)[0 := JString (tp_channel p)])[1 := v] = [JString (tp_channel p), v]" by simp
  then show ?thesis
    using assms(1,4) v
    by (intro exI [of _ "[JString (tp_channel p), v]"]) (simp add: tp_round_def tp_take_def tp_publish_def with_member_object to_channels_def Let_def)
qed

text \<open>
  What is pushed is published in order: before the connection is authenticated, as many turns of
  the thread as there are messages leave the publisher's queue empty and put the messages, each
  addressed to the configured channel and to the channel of its identifier, into the queue of the
  connection in the order in which they were pushed, the newest of them if there are too many.
\<close>

theorem metrics_published_in_order:
  assumes "list_all named msgs" "tp_queue p = map (Pair MetricsMessage) msgs" "length (tp_channels p) = 2"
    and "reusable (tp_cobra_connection p)" "\<not> cb_authenticated (tp_cobra_connection p)" "length (cb_messageQueue (tp_cobra_connection p)) \<le> kQueueMaxSize"
  shows "\<exists>p'. tp_rounds env (length msgs) p = Done p' \<and> tp_queue p' = [] \<and>
    cb_messageQueue (tp_cobra_connection p') = take kQueueMaxSize
      (rev (publish_texts env (cb_id (tp_cobra_connection p)) (map (\<lambda>msg. (to_channels (tp_channel p) msg, msg)) msgs)) @
       cb_messageQueue (tp_cobra_connection p))"
  using assms
proof (induction msgs arbitrary: p)
  case (Cons msg msgs)
  let ?c = "tp_cobra_connection p"
  obtain c1 where c1: "publish env (to_channels (tp_channel p) msg) msg ?c = Done (cb_id ?c, c1)" "reusable c1" "cb_id c1 = cb_id ?c + 1"
    "cb_authenticated c1 = cb_authenticated ?c"
    "cb_messageQueue c1 = take kQueueMaxSize (publish_text env (to_channels (tp_channel p) msg) msg ?c # cb_messageQueue ?c)"
    using publish_queues [of ?c env "to_channels (tp_channel p) msg" msg] Cons.prems(4-6) by blast
  have item: "tp_queue p = (MetricsMessage, msg) # map (Pair MetricsMessage) msgs" "named msg" using Cons.prems(1,2) by simp_all
  obtain chs where r: "length chs = 2" "tp_round env p = Done (p\<lparr>tp_queue := map (Pair MetricsMessage) msgs, tp_channels := chs, tp_cobra_connection := c1\<rparr>)"
    using round_publishes [OF item Cons.prems(3) c1(1)] by blast
  let ?p1 = "p\<lparr>tp_queue := map (Pair MetricsMessage) msgs, tp_channels := chs, tp_cobra_connection := c1\<rparr>"
  have pre: "list_all named msgs" "\<not> cb_authenticated c1" "length (cb_messageQueue c1) \<le> kQueueMaxSize" using Cons.prems(1,5) c1(4,5) by simp_all
  obtain p' where "tp_rounds env (length msgs) ?p1 = Done p'" "tp_queue p' = []"
    "cb_messageQueue (tp_cobra_connection p') = take kQueueMaxSize
      (rev (publish_texts env (cb_id ?c + 1) (map (\<lambda>msg. (to_channels (tp_channel p) msg, msg)) msgs)) @ cb_messageQueue c1)"
    using Cons.IH [of ?p1] pre r(1) c1(2,3) by auto
  then show ?case using r(2) unfolding c1(5) take_take_append by (intro exI [of _ p']) simp
qed simp

theorem metrics_published_in_order_witness:
  "\<exists>p'. tp_rounds demo_cobra_env 1 ((CobraMetricsThreadedPublisher_new demo_cobra)\<lparr>tp_queue := [(MetricsMessage, JObject [(''id'', JString ''a'')])]\<rparr>) = Done p' \<and>
     tp_queue p' = [] \<and> cb_messageQueue (tp_cobra_connection p') = [''{}'']"
proof -
  let ?msgs = "[JObject [(''id'', JString ''a'')]]"
  let ?p = "(CobraMetricsThreadedPublisher_new demo_cobra)\<lparr>tp_queue := [(MetricsMessage, JObject [(''id'', JString ''a'')])]\<rparr>"
  have p: "list_all named ?msgs" "tp_queue ?p = map (Pair MetricsMessage) ?msgs" "length (tp_channels ?p) = 2"
    "reusable (tp_cobra_connection ?p)" "\<not> cb_authenticated (tp_cobra_connection ?p)" "cb_messageQueue (tp_cobra_connection ?p) = []"
    by (simp_all add: named_def CobraMetricsThreadedPublisher_new_def reusable_def setEventCallback_def demo_cobra_def CobraConnection_new_def)
  then have "length (cb_messageQueue (tp_cobra_connection ?p)) \<le> kQueueMaxSize" by simp
  from metrics_published_in_order [OF p(1-5) this, of demo_cobra_env] show ?thesis
    unfolding p(6) by (simp add: demo_cobra_env_def kQueueMaxSize_def)
qed

end
