(* ===== verification/HttpExchange.thy ===== *)
theory HttpExchange
  imports HttpClientProperties
begin

section \<open>HTTP client and HTTP server together\<close>

text \<open>
  What the client of \<^verbatim>\<open>IXHttpClient.cpp\<close> writes is read by the server of \<^verbatim>\<open>IXHttpServer.cpp\<close>, whose default
  callback answers with a file, and the client reads the answer. The server copies the headers of
  the request into its response; for a request with a body these include the length of that body.
\<close>

subsection \<open>The header fields involved\<close>

lemma http_names:
  "\<not> CaseInsensitiveLess ''Accept'' ''Accept'' \<and> CaseInsensitiveLess ''Accept'' ''Accept-Ranges'' \<and>
   CaseInsensitiveLess ''Accept'' ''Content-Encoding'' \<and> CaseInsensitiveLess ''Accept'' ''Content-Length'' \<and>
   CaseInsensitiveLess ''Accept'' ''Content-Type'' \<and> CaseInsensitiveLess ''Accept'' ''Host'' \<and>
   CaseInsensitiveLess ''Accept'' ''Transfer-Encoding'' \<and> CaseInsensitiveLess ''Accept'' ''User-Agent'' \<and>
   \<not> CaseInsensitiveLess ''Accept-Ranges'' ''Accept'' \<and> \<not> CaseInsensitiveLess ''Accept-Ranges'' ''Accept-Ranges'' \<and>
   CaseInsensitiveLess ''Accept-Ranges'' ''Content-Encoding'' \<and> CaseInsensitiveLess ''Accept-Ranges'' ''Content-Length'' \<and>
   CaseInsensitiveLess ''Accept-Ranges'' ''Content-Type'' \<and> CaseInsensitiveLess ''Accept-Ranges'' ''Host'' \<and>
   CaseInsensitiveLess ''Accept-Ranges'' ''Transfer-Encoding'' \<and> CaseInsensitiveLess ''Accept-Ranges'' ''User-Agent'' \<and>
   \<not> CaseInsensitiveLess ''Content-Encoding'' ''Accept'' \<and> \<not> CaseInsensitiveLess ''Content-Encoding'' ''Accept-Ranges'' \<and>
   \<not> CaseInsensitiveLess ''Content-Encoding'' ''Content-Encoding'' \<and> CaseInsensitiveLess ''Content-Encoding'' ''Content-Length'' \<and>
   CaseInsensitiveLess ''Content-Encoding'' ''Content-Type'' \<and> CaseInsensitiveLess ''Content-Encoding'' ''Host'' \<and>
   CaseInsensitiveLess ''Content-Encoding'' ''Transfer-Encoding'' \<and> CaseInsensitiveLess ''Content-Encoding'' ''User-Agent'' \<and>
   \<not> CaseInsensitiveLess ''Content-Length'' ''Accept'' \<and> \<not> CaseInsensitiveLess ''Content-Length'' ''Accept-Ranges'' \<and>
   \<not> CaseInsensitiveLess ''Content-Length'' ''Content-Encoding'' \<and> \<not> CaseInsensitiveLess ''Content-Length'' ''Content-Length'' \<and>
   CaseInsensitiveLess ''Content-Length'' ''Content-Type'' \<and> CaseInsensitiveLess ''Content-Length'' ''Host'' \<and>
   CaseInsensitiveLess ''Content-Length'' ''Transfer-Encoding'' \<and> CaseInsensitiveLess ''Content-Length'' ''User-Agent'' \<and>
   \<not> CaseInsensitiveLess ''Content-Type'' ''Accept'' \<and> \<not> CaseInsensitiveLess ''Content-Type'' ''Accept-Ranges'' \<and>
   \<not> CaseInsensitiveLess ''Content-Type'' ''Content-Encoding'' \<and> \<not> CaseInsensitiveLess ''Content-Type'' ''Content-Length'' \<and>
   \<not> CaseInsensitiveLess ''Content-Type'' ''Content-Type'' \<and> CaseInsensitiveLess ''Content-Type'' ''Host'' \<and>
   CaseInsensitiveLess ''Content-Type'' ''Transfer-Encoding'' \<and> CaseInsensitiveLess ''Content-Type'' ''User-Agent'' \<and>
   \<not> CaseInsensitiveLess ''Host'' ''Accept'' \<and> \<not> CaseInsensitiveLess ''Host'' ''Accept-Ranges'' \<and>
   \<not> CaseInsensitiveLess ''Host'' ''Content-Encoding'' \<and> \<not> CaseInsensitiveLess ''Host'' ''Content-Length'' \<and>
   \<not> CaseInsensitiveLess ''Host'' ''Content-Type'' \<and> \<not> CaseInsensitiveLess ''Host'' ''Host'' \<and>
   CaseInsensitiveLess ''Host'' ''Transfer-Encoding'' \<and> CaseInsensitiveLess ''Host'' ''User-Agent'' \<and>
   \<not> CaseInsensitiveLess ''Transfer-Encoding'' ''Accept'' \<and> \<not> CaseInsensitiveLess ''Transfer-Encoding'' ''Accept-Ranges'' \<and>
   \<not> CaseInsensitiveLess ''Transfer-Encoding'' ''Content-Encoding'' \<and> \<not> CaseInsensitiveLess ''Transfer-Encoding'' ''Content-Length'' \<and>
   \<not> CaseInsensitiveLess ''Transfer-Encoding'' ''Content-Type'' \<and> \<not> CaseInsensitiveLess ''Transfer-Encoding'' ''Host'' \<and>
   \<not> CaseInsensitiveLess ''Transfer-Encoding'' ''Transfer-Encoding'' \<and> CaseInsensitiveLess ''Transfer-Encoding'' ''User-Agent'' \<and>
   \<not> CaseInsensitiveLess ''User-Agent'' ''Accept'' \<and> \<not> CaseInsensitiveLess ''User-Agent'' ''Accept-Ranges'' \<and>
   \<not> CaseInsensitiveLess ''User-Agent'' ''Content-Encoding'' \<and> \<not> CaseInsensitiveLess ''User-Agent'' ''Content-Length'' \<and>
   \<not> CaseInsensitiveLess ''User-Agent'' ''Content-Type'' \<and> \<not> CaseInsensitiveLess ''User-Agent'' ''Host'' \<and>
   \<not> CaseInsensitiveLess ''User-Agent'' ''Transfer-Encoding'' \<and> \<not> CaseInsensitiveLess ''User-Agent'' ''User-Agent''"
  by (simp add: NocaseCompare_def c_tolower_def c_isupper_def)

lemmas header_eval = headers_assign.simps headers_find_def headers_index_def http_names

definition get_fields :: "'z http_env \<Rightarrow> url \<Rightarrow> (string \<times> string) list" where
  "get_fields env u = [(''Host'', host u), (''Accept'', ''*/*''), (''User-Agent'', userAgent (at_henv (he_attempt env)))]"

definition post_fields :: "'z http_env \<Rightarrow> url \<Rightarrow> string \<Rightarrow> (string \<times> string) list" where
  "post_fields env u body = get_fields env u @
     [(''Content-Length'', string_of_nat (length body)), (''Content-Type'', ''application/x-www-form-urlencoded'')]"

definition request_text :: "string \<Rightarrow> string \<Rightarrow> (string \<times> string) list \<Rightarrow> string" where
  "request_text verb pathName fs = verb @ '' '' @ pathName @ '' HTTP/1.1'' @ CRLF @ lines_of fs @ CRLF"

lemma get_text:
  "args_extraHeaders args = [] \<Longrightarrow> \<not> args_compress args \<Longrightarrow>
   sent_text env kGet body args u = request_text kGet (path u) (get_fields env u)"
  by (simp add: sent_text_def http_request_text_def request_text_def get_fields_def lines_of_def field_line_def kGet_def kPost_def kPut_def)

lemma post_text:
  "args_extraHeaders args = [] \<Longrightarrow> \<not> args_compress args \<Longrightarrow>
   sent_text env kPost body args u = request_text kPost (path u) (post_fields env u body) @ body"
  by (simp add: sent_text_def http_request_text_def request_text_def post_fields_def get_fields_def lines_of_def field_line_def kPost_def
      headers_find_def del: CaseInsensitiveLess.simps)

text \<open>The headers of the response: those of the request and one of the server's.\<close>

lemma get_headers:
  "headers_of (get_fields env u) = [(''Accept'', ''*/*''), (''Host'', host u), (''User-Agent'', userAgent (at_henv (he_attempt env)))]"
  "fold (\<lambda>(k, v). headers_assign k v) (snd (headers_index (headers_of (get_fields env u)) ''User-Agent'')) (headers_assign ''Accept-Ranges'' ''none'' []) =
     [(''Accept'', ''*/*''), (''Accept-Ranges'', ''none''), (''Host'', host u), (''User-Agent'', userAgent (at_henv (he_attempt env)))]"
  by (simp_all add: get_fields_def header_eval del: CaseInsensitiveLess.simps)

lemma post_headers:
  "headers_of (post_fields env u body) =
     [(''Accept'', ''*/*''), (''Content-Length'', string_of_nat (length body)), (''Content-Type'', ''application/x-www-form-urlencoded''),
      (''Host'', host u), (''User-Agent'', userAgent (at_henv (he_attempt env)))]"
  "fold (\<lambda>(k, v). headers_assign k v) (snd (headers_index (headers_of (post_fields env u body)) ''User-Agent'')) (headers_assign ''Accept-Ranges'' ''none'' []) =
     [(''Accept'', ''*/*''), (''Accept-Ranges'', ''none''), (''Content-Length'', string_of_nat (length body)),
      (''Content-Type'', ''application/x-www-form-urlencoded''), (''Host'', host u), (''User-Agent'', userAgent (at_henv (he_attempt env)))]"
  by (simp_all add: post_fields_def get_fields_def header_eval del: CaseInsensitiveLess.simps)

subsection \<open>The server's side\<close>

definition server_waits :: "int \<Rightarrow> (nat \<Rightarrow> int) \<Rightarrow> bool" where
  "server_waits start clock \<longleftrightarrow> (\<forall>k. \<not> makeCancellationRequestWithTimeout 5 (\<lambda>_. False) start clock k)"

lemma server_reads_request:
  assumes "ready w t (bytes_of (request_text verb pathName fs) @ rest)" "server_waits start clock"
    and "token_ok verb" "token_ok pathName" "list_all field_ok fs"
  shows "\<exists>t1. parseRequest start clock t =
    Some (Request \<lparr>req_uri = pathName, req_method = verb, req_version = ''HTTP/1.1'', req_headers = headers_of fs\<rparr>, t1) \<and> ready w t1 rest"
proof -
  define cancel where "cancel = makeCancellationRequestWithTimeout 5 (\<lambda>_. False) start clock"
  define line where "line = verb @ '' '' @ pathName @ '' '' @ ''HTTP/1.1''"
  have nc: "\<And>k. \<not> cancel k" using assms(2) by (simp add: server_waits_def cancel_def)
  have ln: "CR \<notin> set line" "LF \<notin> set line" using assms(3,4) by (auto simp: line_def token_ok_def CR_def LF_def)
  have r0: "ready w t (bytes_of (line @ CRLF) @ (bytes_of (lines_of fs @ CRLF) @ rest))"
    using assms(1) by (simp add: request_text_def line_def bytes_of_def)
  obtain t1 where t1: "readLine cancel t = Some (True, line @ CRLF, t1)" "ready w t1 (bytes_of (lines_of fs @ CRLF) @ rest)"
    using ready_line [where cancel = cancel, OF r0 nc ln] by blast
  obtain t2 where t2: "parseHttpHeaders cancel t1 = Some (Headers True (headers_of fs), t2)" "ready w t2 rest"
    using ready_headers [where cancel = cancel, OF t1(2) nc assms(5)] by blast
  have v: "token_ok ''HTTP/1.1''" by (simp add: token_ok_def CR_def LF_def)
  have pl: "parseRequestLine (line @ CRLF) = (verb, pathName, ''HTTP/1.1'')"
    using parseRequestLine_roundtrip [OF assms(3,4) v] by (simp add: line_def)
  show ?thesis
    using t1(1) t2 pl by (simp add: parseRequest_def cancel_def [symmetric] Let_def)
qed

lemma response_is_text:
  "response_start r @ response_headers r @ resp_payload r =
   response_text (nat (resp_statusCode r)) (resp_description r)
     ((''Content-Length'', string_of_nat (length (resp_payload r))) # resp_headers r) (resp_payload r)"
  if "0 \<le> resp_statusCode r"
  using that by (simp add: response_start_def response_headers_def response_text_def lines_of_def field_line_def string_of_int_def case_prod_unfold)

lemma fields_ok:
  assumes "text_fits (host u)" "text_fits (userAgent (at_henv (he_attempt env)))" "int (length body) \<le> long_max"
  shows "list_all field_ok (post_fields env u body)" "list_all field_ok (get_fields env u)"
proof -
  have b: "length body < 10 ^ Suc 18" using assms(3) by (auto simp: long_max_def)
  then have l: "length (string_of_nat (length body)) \<le> 19" using length_string_of_nat [of "length body" 18] by simp
  have t: "header_text_ok ''application/x-www-form-urlencoded''" "header_text_ok ''*/*''" "header_text_ok ''Host''" "header_text_ok ''Accept''"
    "header_text_ok ''User-Agent''" "header_text_ok ''Content-Length''" "header_text_ok ''Content-Type''"
    by (simp_all add: header_text_ok_def char_consts)
  show "list_all field_ok (post_fields env u body)" "list_all field_ok (get_fields env u)"
    using assms t l header_text_digits [of "length body"]
    by (auto simp: post_fields_def get_fields_def field_ok_def text_fits_def)
qed

lemma callback_serves:
  assumes "fs (''.'' @ req_uri r) = Some (int (length content), content)" "int (length content) \<le> memory" "req_uri r \<noteq> []" "req_uri r \<noteq> ''/''"
  shows "\<exists>lg. default_callback fs memory r cs =
    Response (http_response 200 ''OK''
      (fold (\<lambda>(k, v). headers_assign k v) (snd (headers_index (req_headers r) ''User-Agent'')) (headers_assign ''Accept-Ranges'' ''none'' [])) content) lg"
  using assms by (simp add: default_callback_def readAsString_def load_def split_beta del: headers_assign.simps)

lemma sent_response:
  assumes "sendResponse r t1 = Some (True, t2)" "wire_out t1 = w"
  shows "wire_out t2 = w @ bytes_of (response_start r @ response_headers r @ resp_payload r)"
  using sendResponse_writes [OF assms(1)] assms(2) by auto

subsection \<open>The client's side\<close>

abbreviation answer_fields :: "'z http_env \<Rightarrow> url \<Rightarrow> (string \<times> string) list \<Rightarrow> (string \<times> string) list" where
  "answer_fields env u extra \<equiv> [(''Accept'', ''*/*''), (''Accept-Ranges'', ''none'')] @ extra @
     [(''Host'', host u), (''User-Agent'', userAgent (at_henv (he_attempt env)))]"

lemma get_answer_fields:
  fixes content :: string
  assumes "text_fits (host u)" "text_fits (userAgent (at_henv (he_attempt env)))" "int (length content) \<le> long_max"
    and fs: "fs = (''Content-Length'', string_of_nat (length content)) # answer_fields env u []"
  shows "list_all field_ok fs" "headers_find (headers_of fs) ''Content-Length'' = Some (string_of_nat (length content))"
    "headers_find (headers_of fs) ''Content-Encoding'' = None"
proof -
  have "header_text_ok ''none''" "header_text_ok ''Accept-Ranges''" by (simp_all add: header_text_ok_def char_consts)
  then show "list_all field_ok fs"
    using fields_ok [OF assms(1-3)] by (simp add: fs post_fields_def get_fields_def field_ok_def)
  show "headers_find (headers_of fs) ''Content-Length'' = Some (string_of_nat (length content))"
    "headers_find (headers_of fs) ''Content-Encoding'' = None"
    by (simp_all add: fs header_eval del: CaseInsensitiveLess.simps)
qed

lemma post_answer_fields:
  fixes content body :: string
  assumes "text_fits (host u)" "text_fits (userAgent (at_henv (he_attempt env)))" "int (length content) \<le> long_max" "int (length body) \<le> long_max"
    and fs: "fs = (''Content-Length'', string_of_nat (length content)) #
      answer_fields env u [(''Content-Length'', string_of_nat (length body)), (''Content-Type'', ''application/x-www-form-urlencoded'')]"
  shows "list_all field_ok fs" "headers_find (headers_of fs) ''Content-Length'' = Some (string_of_nat (length body))"
    "headers_find (headers_of fs) ''Content-Encoding'' = None"
proof -
  have "header_text_ok ''none''" "header_text_ok ''Accept-Ranges''" by (simp_all add: header_text_ok_def char_consts)
  then show "list_all field_ok fs"
    using fields_ok [OF assms(1-3)] fields_ok [OF assms(1,2,4)] by (simp add: fs post_fields_def get_fields_def field_ok_def)
  show "headers_find (headers_of fs) ''Content-Length'' = Some (string_of_nat (length body))"
    "headers_find (headers_of fs) ''Content-Encoding'' = None"
    by (simp_all add: fs header_eval del: CaseInsensitiveLess.simps)
qed


text \<open>
  The answer to a posted request is cut to the length of what was posted: the server copies the
  request's content length into its response behind the right one, and the client takes the last. A
  client that posts fewer bytes than the file has reads only that many, and reports success.
\<close>

theorem http_post_cut_short:
  assumes "args_extraHeaders args = []" "\<not> args_compress args" "token_ok (path u)" "path u \<noteq> ''/''"
    and "text_fits (host u)" "text_fits (userAgent (at_henv (he_attempt env)))"
    and "fs (''.'' @ path u) = Some (int (length content), content)" "int (length content) \<le> min memory (min (he_memory env) long_max)"
    and "length body \<le> length content"
    and "ready wt t (bytes_of (sent_text env kPost body args u))" "server_waits start clock"
  shows "\<exists>r t1 a lg. parseRequest start clock t = Some (Request r, t1) \<and> default_callback fs memory r cs = Response a lg \<and>
    a = http_response 200 ''OK''
      (answer_fields env u [(''Content-Length'', string_of_nat (length body)), (''Content-Type'', ''application/x-www-form-urlencoded'')]) content \<and>
    (\<forall>s w rest. http_connected env address args u s \<and> accepting (sys_sends s) (length (sent_text env kPost body args u)) \<and>
       ready w s (bytes_of (response_start a @ response_headers a @ resp_payload a) @ rest) \<longrightarrow>
       (\<exists>q lg s'. request env address kPost body args 0 = Some (Responded q, lg, Some s') \<and>
          resp_errorCode q = HttpOk \<and> resp_payload q = take (length body) content))"
proof -
  define r where "r = \<lparr>req_uri = path u, req_method = kPost, req_version = ''HTTP/1.1'', req_headers = headers_of (post_fields env u body)\<rparr>"
  let ?extra = "[(''Content-Length'', string_of_nat (length body)), (''Content-Type'', ''application/x-www-form-urlencoded'')]"
  define a where "a = http_response 200 ''OK'' (answer_fields env u ?extra) content"
  define fields where "fields = (''Content-Length'', string_of_nat (length content)) # answer_fields env u ?extra"
  have tok: "token_ok kPost" by (simp add: token_ok_def kPost_def CR_def LF_def)
  have rd: "ready wt t (bytes_of (request_text kPost (path u) (post_fields env u body)) @ bytes_of body)"
    using assms(10) unfolding post_text [OF assms(1,2)] bytes_of_append .
  have mem: "int (length content) \<le> memory" "int (length content) \<le> he_memory env" "int (length content) \<le> long_max"
    "int (length body) \<le> long_max" using assms(8,9) by simp_all
  note fok = fields_ok(1) [OF assms(5,6) mem(4)]
  obtain t1 where t1: "parseRequest start clock t = Some (Request r, t1)"
    using server_reads_request [OF rd assms(11) tok assms(3) fok] unfolding r_def by blast
  have uri: "req_uri r = path u" "path u \<noteq> []" using assms(3) by (auto simp: r_def token_ok_def)
  obtain lg where cb: "default_callback fs memory r cs = Response a lg"
    using callback_serves [where r = r and fs = fs and content = content and memory = memory and cs = cs] uri assms(4,7) mem(1)
    unfolding a_def by (auto simp: r_def post_headers(2) simp del: headers_assign.simps)
  have cut: "content = take (length body) content @ drop (length body) content" by simp
  have txt1: "response_start a @ response_headers a @ resp_payload a =
      response_text 200 ''OK'' fields (take (length body) content) @ drop (length body) content"
    by (subst response_is_text) (simp_all add: a_def http_response_def fields_def response_text_def)
  note af = post_answer_fields [OF assms(5,6) mem(3,4) fields_def]
  have fr: "framed (he_memory env) (headers_of fields) (take (length body) content) (take (length body) content)"
    using af(2) mem assms(9) by (simp add: framed_def min_def)
  have side: "(200 :: nat) < 2 ^ 31" "header_text_ok ''OK''" "headers_find (headers_of fields) ''Content-Encoding'' \<noteq> Some ''gzip''"
    "kPost \<noteq> ''HEAD''" "\<not> http_redirects args (int 200)"
    using af(3) by (simp_all add: kPost_def http_redirects_def header_text_ok_def char_consts)
  have "\<exists>q lg s'. request env address kPost body args 0 = Some (Responded q, lg, Some s') \<and>
      resp_errorCode q = HttpOk \<and> resp_payload q = take (length body) content"
    if c: "http_connected env address args u s" "accepting (sys_sends s) (length (sent_text env kPost body args u))"
      "ready w s (bytes_of (response_start a @ response_headers a @ resp_payload a) @ rest)" for s w rest
    using response_read [OF c(1,2) c(3) [unfolded txt1 bytes_of_append append_assoc] side(1,2) af(1) fr side(3-5), of 0] by (metis of_nat_numeral)
  then show ?thesis
    using t1 cb a_def by (intro exI [of _ r] exI [of _ t1] exI [of _ a] exI [of _ lg]) blast
qed

subsection \<open>An exchange\<close>

definition demo_server_socket :: "string \<Rightarrow> socket" where
  "demo_server_socket input = (Socket_new 9 (SelectInterruptPipe_new 8))\<lparr>sys_recvs := [RecvData (bytes_of input)], sys_sends := [SendAccept 1000]\<rparr>"

definition demo_extra :: "string \<Rightarrow> string \<Rightarrow> (string \<times> string) list" where
  "demo_extra verb body = (if verb = kPost then
     [(''Content-Length'', string_of_nat (length body)), (''Content-Type'', ''application/x-www-form-urlencoded'')] else [])"

definition demo_answer :: "string \<Rightarrow> string \<Rightarrow> HttpResponse" where
  "demo_answer verb body = http_response 200 ''OK'' (answer_fields (demo_http_env [] 0) demo_url (demo_extra verb body)) ''hello''"

definition demo_exchange_env :: "string \<Rightarrow> string \<Rightarrow> string http_env" where
  "demo_exchange_env verb body =
     demo_http_env (response_start (demo_answer verb body) @ response_headers (demo_answer verb body) @ resp_payload (demo_answer verb body))
       (demo_room verb body)"

definition demo_files :: "string \<Rightarrow> (int \<times> string) option" where
  "demo_files name = (if name = ''./a.txt'' then Some (5, ''hello'') else None)"

lemma demo_server_ready: "input \<noteq> [] \<Longrightarrow> ready [] (demo_server_socket input) (bytes_of input)"
  by (auto simp: ready_def plain_def no_poll_failure_def demo_server_socket_def Socket_new_def bytes_of_def)

lemma demo_exchange_conditions:
  "args_extraHeaders demo_args = []" "\<not> args_compress demo_args" "token_ok (path demo_url)" "path demo_url \<noteq> ''/''" "text_fits (host demo_url)"
  "demo_files (''.'' @ path demo_url) = Some (int (length ''hello''), ''hello'')"
  "int (length ''hello'') \<le> min 100 (min (he_memory (demo_exchange_env verb body)) long_max)"
  "server_waits 0 (\<lambda>_. 0)"
  by (simp_all add: demo_args_def demo_url_def token_ok_def CR_def LF_def text_fits_def header_text_ok_def char_consts demo_files_def
      demo_exchange_env_def demo_http_env_def long_max_def server_waits_def makeCancellationRequestWithTimeout_def)

lemma demo_agent:
  "userAgent (at_henv (he_attempt (demo_exchange_env verb body))) = userAgent demo_henv"
  "userAgent (at_henv (he_attempt (demo_http_env [] 0))) = userAgent demo_henv"
  by (simp_all add: demo_exchange_env_def demo_http_env_def)

lemma demo_agent_fits: "text_fits (userAgent (at_henv (he_attempt (demo_exchange_env verb body))))"
  unfolding demo_agent by code_simp

lemma demo_exchange_peer:
  "\<exists>s. http_connected (demo_exchange_env verb body) ''http://example.com/a.txt'' demo_args demo_url s \<and>
    accepting (sys_sends s) (length (sent_text (demo_exchange_env verb body) verb body demo_args demo_url)) \<and>
    ready [] s (bytes_of (response_start (demo_answer verb body) @ response_headers (demo_answer verb body) @ resp_payload (demo_answer verb body)) @ [])"
  unfolding demo_exchange_env_def by (rule demo_peer) (simp add: demo_answer_def http_response_def)

lemma demo_request_ready:
  "ready [] (demo_server_socket (sent_text (demo_exchange_env verb body) verb body demo_args demo_url))
     (bytes_of (sent_text (demo_exchange_env verb body) verb body demo_args demo_url))"
  by (rule demo_server_ready) (simp add: sent_text_def http_request_text_def Let_def)


theorem http_post_cut_short_witness:
  "\<exists>q lg s'. request (demo_exchange_env kPost ''ab'') ''http://example.com/a.txt'' kPost ''ab'' demo_args 0 = Some (Responded q, lg, Some s') \<and>
     resp_errorCode q = HttpOk \<and> resp_payload q = ''he''"
proof -
  have a: "http_response 200 ''OK'' (answer_fields (demo_exchange_env kPost ''ab'') demo_url
      [(''Content-Length'', string_of_nat (length ''ab'')), (''Content-Type'', ''application/x-www-form-urlencoded'')]) ''hello'' = demo_answer kPost ''ab''"
    by (simp add: demo_answer_def demo_extra_def demo_agent)
  obtain s where s: "http_connected (demo_exchange_env kPost ''ab'') ''http://example.com/a.txt'' demo_args demo_url s"
    "accepting (sys_sends s) (length (sent_text (demo_exchange_env kPost ''ab'') kPost ''ab'' demo_args demo_url))"
    "ready [] s (bytes_of (response_start (demo_answer kPost ''ab'') @ response_headers (demo_answer kPost ''ab'') @
       resp_payload (demo_answer kPost ''ab'')) @ [])"
    using demo_exchange_peer by blast
  have len: "length ''ab'' \<le> length ''hello''" and cut: "take (length ''ab'') ''hello'' = ''he''" by simp_all
  show ?thesis
    using http_post_cut_short [where fs = demo_files and address = "''http://example.com/a.txt''" and cs = "fst (ConnectionState_new 0)",
        OF demo_exchange_conditions(1-5) demo_agent_fits demo_exchange_conditions(6,7) len demo_request_ready demo_exchange_conditions(8)] s
    unfolding a cut by blast
qed

end
