(* ===== verification/HttpParameters.thy ===== *)
theory HttpParameters
  imports HttpClientProperties
begin

section \<open>Parameters of a posted request\<close>

text \<open>
  The parameters that \<^verbatim>\<open>IXHttpClient.cpp\<close> encodes for a form, read back by the rules for
  \<^verbatim>\<open>application/x-www-form-urlencoded\<close>: pairs are separated by ampersands, name and value by the first
  equals sign, and \<^verbatim>\<open>%XY\<close> is the octet with that hexadecimal value.
\<close>

fun percent_decode :: "string \<Rightarrow> string" where
  "percent_decode [] = []"
| "percent_decode [c] = [c]"
| "percent_decode [c, d] = [c, d]"
| "percent_decode (c # a # b # cs) =
     (if c = CHR ''%'' \<and> c_isxdigit a \<and> c_isxdigit b then char_of (16 * xdigit_val a + xdigit_val b) # percent_decode cs
      else c # percent_decode (a # b # cs))"

fun split_at :: "char \<Rightarrow> string \<Rightarrow> string list" where
  "split_at sep [] = [[]]"
| "split_at sep (c # cs) =
     (if c = sep then [] # split_at sep cs
      else case split_at sep cs of f # fs \<Rightarrow> (c # f) # fs | [] \<Rightarrow> [[c]])"

definition decode_pair :: "string \<Rightarrow> string \<times> string" where
  "decode_pair f = (let k = takeWhile (\<lambda>c. c \<noteq> CHR ''='') f in (percent_decode k, percent_decode (drop (Suc (length k)) f)))"

definition decode_parameters :: "string \<Rightarrow> (string \<times> string) list" where
  "decode_parameters s = map decode_pair (split_at (CHR ''&'') s)"

definition encode_char :: "char \<Rightarrow> string" where
  "encode_char c = (if url_safe c then [c] else [CHR ''%'', hex_digit (code c div 16), hex_digit (code c mod 16)])"

lemma urlEncode_simps: "urlEncode [] = []" "urlEncode (c # cs) = encode_char c @ urlEncode cs"
  by (simp_all add: urlEncode_def encode_char_def)

lemma percent_decode_plain: "c \<noteq> CHR ''%'' \<Longrightarrow> percent_decode (c # cs) = c # percent_decode cs"
  by (cases cs rule: percent_decode.cases) simp_all

lemma code_below: "code c div 16 < 16"
proof -
  have "code c < 256" by simp
  then show ?thesis by linarith
qed

lemma percent_decode_char: "percent_decode (encode_char c @ cs) = c # percent_decode cs"
proof (cases "url_safe c")
  case True
  then have "c \<noteq> CHR ''%''" by (auto simp: url_safe_def c_isalnum_def c_isalpha_def c_isupper_def c_islower_def c_isdigit_def)
  then show ?thesis using True percent_decode_plain by (simp add: encode_char_def)
next
  case False
  have "16 * (code c div 16) + code c mod 16 = code c" by simp
  then show ?thesis
    using False hex_digit_val [of "code c div 16"] hex_digit_val [of "code c mod 16"] code_below [of c] by (simp add: encode_char_def)
qed

lemma percent_decode_urlEncode: "percent_decode (urlEncode v) = v"
  by (induction v) (simp_all add: urlEncode_simps percent_decode_char)

lemma encode_char_safe: "x \<in> set (encode_char c) \<Longrightarrow> x \<noteq> CHR ''&'' \<and> x \<noteq> CHR ''=''"
proof -
  have h: "n < 16 \<Longrightarrow> hex_digit n \<noteq> CHR ''&'' \<and> hex_digit n \<noteq> CHR ''=''" for n
    using hex_digit_val [of n] by (auto simp: c_isxdigit_def c_isdigit_def)
  show "x \<in> set (encode_char c) \<Longrightarrow> x \<noteq> CHR ''&'' \<and> x \<noteq> CHR ''=''"
    using h [of "code c div 16"] h [of "code c mod 16"] code_below [of c]
    by (auto simp: encode_char_def url_safe_def c_isalnum_def c_isalpha_def c_isupper_def c_islower_def c_isdigit_def split: if_splits)
qed

lemma urlEncode_safe: "CHR ''&'' \<notin> set (urlEncode v)" "CHR ''='' \<notin> set (urlEncode v)"
  by (induction v) (auto simp: urlEncode_simps dest: encode_char_safe)

lemma split_at_plain: "sep \<notin> set f \<Longrightarrow> split_at sep f = [f]"
  by (induction f) auto

lemma split_at_append: "sep \<notin> set f \<Longrightarrow> split_at sep (f @ sep # s) = f # split_at sep s"
  by (induction f) auto

definition encode_pair :: "string \<times> string \<Rightarrow> string" where
  "encode_pair p = urlEncode (fst p) @ ''='' @ urlEncode (snd p)"

lemma decode_encode_pair: "decode_pair (encode_pair p) = p"
proof -
  have "takeWhile (\<lambda>c. c \<noteq> CHR ''='') (encode_pair p) = urlEncode (fst p)"
    using urlEncode_safe(2) [of "fst p"] by (auto simp: encode_pair_def takeWhile_tail takeWhile_append2 intro!: takeWhile_append2)
  then show ?thesis by (simp add: decode_pair_def Let_def percent_decode_urlEncode) (simp add: encode_pair_def percent_decode_urlEncode)
qed

lemma encode_pair_safe: "CHR ''&'' \<notin> set (encode_pair p)"
  using urlEncode_safe by (simp add: encode_pair_def)

lemma split_serialized:
  "ps \<noteq> [] \<Longrightarrow> count = i + length ps \<Longrightarrow> split_at (CHR ''&'') (serialize_from count i ps) = map encode_pair ps"
proof (induction ps arbitrary: i)
  case (Cons p ps)
  obtain k v where p: "p = (k, v)" by fastforce
  show ?case
  proof (cases "ps = []")
    case True
    then show ?thesis using Cons.prems p split_at_plain [OF encode_pair_safe, of p] by (simp add: encode_pair_def)
  next
    case False
    then have "i < count - 1" using Cons.prems by (cases ps) simp_all
    then have "serialize_from count i (p # ps) = encode_pair p @ CHR ''&'' # serialize_from count (i + 1) ps"
      using p by (simp add: encode_pair_def)
    then show ?thesis using Cons.IH [OF False, of "i + 1"] Cons.prems split_at_append [OF encode_pair_safe, of p] by simp
  qed
qed simp

text \<open>
  Parameters survive the encoding: whatever octets the names and values of a request's parameters
  contain, reading the serialised form by the rules of the media type gives exactly these
  parameters, in order.
\<close>

theorem parameters_roundtrip:
  "httpParameters \<noteq> [] \<Longrightarrow> decode_parameters (serializeHttpParameters httpParameters) = httpParameters"
  using split_serialized [of httpParameters "length httpParameters" 0]
  by (simp add: decode_parameters_def serializeHttpParameters_def decode_encode_pair comp_def)

theorem parameters_roundtrip_witness:
  "decode_parameters (serializeHttpParameters [(''a&b'', ''1=2''), (''c'', ''%'')]) = [(''a&b'', ''1=2''), (''c'', ''%'')]"
  by (rule parameters_roundtrip) simp

end
