(* ===== verification/MessageQueue.thy ===== *)
theory MessageQueue
  imports Fifo WebSocket
begin

section \<open>The message queue\<close>

text \<open>
  \<^verbatim>\<open>IXWebSocketMessageQueue.cpp\<close>: the queue installs itself as the message callback of one WebSocket object
  and hands the messages on when the user's thread polls. \<open>mq_callbacks\<close> says what the callback of each
  WebSocket object is: the queue's, the empty one that the queue leaves behind, or another of the
  user's. A null pointer is \<^const>\<open>None\<close>.
\<close>

datatype on_message = QueueCallback | DummyCallback | OtherCallback

record message_queue =
  mq_callbacks :: "nat \<Rightarrow> on_message"
  mq_websocket :: "nat option"
  mq_userCallback :: bool
  mq_messages :: "WebSocketMessage list"

definition bindWebsocket :: "nat option \<Rightarrow> message_queue \<Rightarrow> message_queue" where
  "bindWebsocket websocket q =
     (if mq_websocket q = websocket then q
      else let q1 = (case mq_websocket q of
                 None \<Rightarrow> q
               | Some old \<Rightarrow> q\<lparr>mq_callbacks := (mq_callbacks q)(old := DummyCallback)\<rparr>);
               q2 = q1\<lparr>mq_websocket := websocket\<rparr>
           in (case websocket of
                 None \<Rightarrow> q2
               | Some new \<Rightarrow> q2\<lparr>mq_callbacks := (mq_callbacks q2)(new := QueueCallback)\<rparr>))"

definition WebSocketMessageQueue_new :: "(nat \<Rightarrow> on_message) \<Rightarrow> nat option \<Rightarrow> message_queue" where
  "WebSocketMessageQueue_new callbacks websocket =
     bindWebsocket websocket \<lparr>mq_callbacks = callbacks, mq_websocket = None, mq_userCallback = False, mq_messages = []\<rparr>"

definition WebSocketMessageQueue_delete :: "message_queue \<Rightarrow> message_queue" where
  "WebSocketMessageQueue_delete q = bindWebsocket None q"

definition mq_setOnMessageCallback :: "bool \<Rightarrow> message_queue \<Rightarrow> message_queue" where
  "mq_setOnMessageCallback callback q = q\<lparr>mq_userCallback := callback\<rparr>"

text \<open>The queue's callback, and the call of the callback of WebSocket object \<open>ws\<close>.\<close>

definition mq_enqueue :: "WebSocketMessage \<Rightarrow> message_queue \<Rightarrow> message_queue" where
  "mq_enqueue msg q = q\<lparr>mq_messages := mq_messages q @ [msg]\<rparr>"

definition mq_deliver :: "nat \<Rightarrow> WebSocketMessage \<Rightarrow> message_queue \<Rightarrow> message_queue" where
  "mq_deliver ws msg q = (if mq_callbacks q ws = QueueCallback then mq_enqueue msg q else q)"

definition popMessage :: "message_queue \<Rightarrow> WebSocketMessage option \<times> message_queue" where
  "popMessage q = (case mq_messages q of [] \<Rightarrow> (None, q) | m # ms \<Rightarrow> (Some m, q\<lparr>mq_messages := ms\<rparr>))"

text \<open>The calls of the user's callback and the queue afterwards, when nothing arrives meanwhile.\<close>

function poll_messages :: "int \<Rightarrow> message_queue \<Rightarrow> WebSocketMessage list \<times> message_queue" where
  "poll_messages count q =
     (if count > 0 then
        (case popMessage q of
           (None, q1) \<Rightarrow> ([], q1)
         | (Some m, q1) \<Rightarrow> (case poll_messages (count - 1) q1 of (ms, q2) \<Rightarrow> (m # ms, q2)))
      else ([], q))"
  by auto
termination by (relation "measure (\<lambda>(count, q). nat count)") auto

declare poll_messages.simps [simp del]

definition mq_poll :: "int \<Rightarrow> message_queue \<Rightarrow> WebSocketMessage list \<times> message_queue" where
  "mq_poll count q = (if \<not> mq_userCallback q then ([], q) else poll_messages count q)"

interpretation mq: fifo_queue mq_enqueue popMessage mq_messages
  by unfold_locales (auto simp: mq_enqueue_def popMessage_def)

lemma poll_messages_take:
  "fst (poll_messages count q) = take (nat count) (mq_messages q) \<and>
   mq_messages (snd (poll_messages count q)) = drop (nat count) (mq_messages q)"
proof (induction count q rule: poll_messages.induct)
  case (1 count q)
  show ?case
  proof (cases "count > 0 \<and> mq_messages q \<noteq> []")
    case True
    then obtain m ms where q: "mq_messages q = m # ms" and c: "count > 0" by (cases "mq_messages q") auto
    then have p: "popMessage q = (Some m, q\<lparr>mq_messages := ms\<rparr>)" by (simp add: popMessage_def)
    have n: "nat count = Suc (nat (count - 1))" using c by simp
    show ?thesis using "1.IH" [OF c p [symmetric] refl] c p q n by (subst (1 2) poll_messages.simps) (simp add: split_beta)
  next
    case False
    then show ?thesis by (subst (1 2) poll_messages.simps) (auto simp: popMessage_def split: list.splits)
  qed
qed

subsection \<open>Histories\<close>

text \<open>What the threads do to the queue, one after the other: WebSocket object \<open>ws\<close> calls its
  callback, the user binds the queue, and \<open>poll\<close> takes a message for the user's callback. The first and
  the last hold the mutex of the messages; the exchange of the callbacks is taken as atomic.\<close>

datatype mq_op = Deliver nat WebSocketMessage | Bind "nat option" | Pop

fun mq_run :: "mq_op list \<Rightarrow> message_queue \<Rightarrow> WebSocketMessage list \<times> message_queue" where
  "mq_run [] q = ([], q)"
| "mq_run (Deliver ws m # ops) q = mq_run ops (mq_deliver ws m q)"
| "mq_run (Bind ws # ops) q = mq_run ops (bindWebsocket ws q)"
| "mq_run (Pop # ops) q =
     (case popMessage q of (r, q1) \<Rightarrow> case mq_run ops q1 of (out, q2) \<Rightarrow> ((case r of None \<Rightarrow> [] | Some m \<Rightarrow> [m]) @ out, q2))"

text \<open>The messages of the WebSocket object that is bound when they come.\<close>

fun bound_messages :: "nat option \<Rightarrow> mq_op list \<Rightarrow> WebSocketMessage list" where
  "bound_messages b [] = []"
| "bound_messages b (Deliver ws m # ops) = (if b = Some ws then m # bound_messages b ops else bound_messages b ops)"
| "bound_messages b (Bind ws # ops) = bound_messages ws ops"
| "bound_messages b (Pop # ops) = bound_messages b ops"

definition bound_alone :: "message_queue \<Rightarrow> bool" where
  "bound_alone q \<longleftrightarrow> (\<forall>ws. mq_callbacks q ws = QueueCallback \<longleftrightarrow> mq_websocket q = Some ws)"

lemma bind_bound: "bound_alone q \<Longrightarrow> bound_alone (bindWebsocket ws q)"
  by (auto simp: bound_alone_def bindWebsocket_def Let_def split: option.splits if_splits)

lemma bind_frame [simp]: "mq_websocket (bindWebsocket ws q) = ws" "mq_messages (bindWebsocket ws q) = mq_messages q"
  by (auto simp: bindWebsocket_def Let_def split: option.splits)

lemma pop_frame: "popMessage q = (r, q1) \<Longrightarrow> mq_websocket q1 = mq_websocket q \<and> mq_callbacks q1 = mq_callbacks q"
  by (auto simp: popMessage_def split: list.splits)

lemma deliver_bound:
  "bound_alone q \<Longrightarrow> bound_alone (mq_deliver ws m q)"
  "bound_alone q \<Longrightarrow> mq_messages (mq_deliver ws m q) = mq_messages q @ (if mq_websocket q = Some ws then [m] else [])"
  "mq_websocket (mq_deliver ws m q) = mq_websocket q"
  by (auto simp: bound_alone_def mq_deliver_def mq_enqueue_def)

lemma mq_run_history:
  "mq_run ops q = (out, q') \<Longrightarrow> bound_alone q \<Longrightarrow> bound_alone q' \<and> out @ mq_messages q' = mq_messages q @ bound_messages (mq_websocket q) ops"
proof (induction ops q arbitrary: out rule: mq_run.induct)
  case (4 ops q)
  obtain r q1 where p: "popMessage q = (r, q1)" by fastforce
  obtain out1 q2 where o: "mq_run ops q1 = (out1, q2)" by fastforce
  have q2: "q2 = q'" using 4(2) p o by simp
  have "bound_alone q1" using 4(3) pop_frame [OF p] by (simp add: bound_alone_def)
  then show ?case using 4(1) [OF p [symmetric] o [unfolded q2]] 4(2) p o mq.get_option [OF p] pop_frame [OF p] by auto
qed (auto simp: deliver_bound bind_bound)

lemma new_bound: "QueueCallback \<notin> range callbacks \<Longrightarrow> bound_alone (WebSocketMessageQueue_new callbacks ws)"
proof -
  assume "QueueCallback \<notin> range callbacks"
  then have "bound_alone \<lparr>mq_callbacks = callbacks, mq_websocket = None, mq_userCallback = False, mq_messages = []\<rparr>"
    by (auto simp: bound_alone_def) (metis rangeI)
  then show ?thesis unfolding WebSocketMessageQueue_new_def by (rule bind_bound)
qed


definition demo_message :: "string \<Rightarrow> WebSocketMessage" where
  "demo_message txt = \<lparr>msg_type = Message, msg_str = txt, msg_wireSize = length txt, msg_errorInfo = noError, msg_openInfo = noOpen,
     msg_closeInfo = noClose, msg_binary = False\<rparr>"


text \<open>
  A poll hands over the oldest messages, at most the given number, in order, and keeps the rest;
  without a user callback it keeps them all.
\<close>

theorem poll_takes_oldest:
  "mq_poll count q = (out, q') \<Longrightarrow>
   (if mq_userCallback q then out = take (nat count) (mq_messages q) \<and> mq_messages q' = drop (nat count) (mq_messages q)
    else out = [] \<and> q' = q)"
  using poll_messages_take [of count q] by (auto simp: mq_poll_def)

end
