(* ===== verification/SampleServerProperties.thy ===== *)
theory SampleServerProperties
  imports SampleServer HandshakeProperties
begin

section \<open>Properties of the sample server\<close>

text \<open>
  Every message gets the answer its content calls for, the answer goes to its sender only, and a
  well-formed request is answered with its own numbers and grades.
\<close>

subsection \<open>Matches have a minimal length\<close>

fun min_len :: "re \<Rightarrow> nat" where
  "min_len (REChar c) = 1"
| "min_len REDigit = 1"
| "min_len RESpace = 1"
| "min_len REEmpty = 0"
| "min_len (RESeq a b) = min_len a + min_len b"
| "min_len (REAlt a b) = min (min_len a) (min_len b)"
| "min_len (REStar a) = 0"

declare rests.simps(7) [simp del]

lemma rests_min_len: "t \<in> set (rests r s) \<Longrightarrow> length t + min_len r \<le> length s"
proof (induction r s arbitrary: t rule: rests.induct)
  case (5 a b s)
  obtain u where u: "u \<in> set (rests a s)" "t \<in> set (rests b u)" using 5(3) by auto
  show ?case using 5(1) [OF u(1)] 5(2) [OF u] by simp
next
  case (6 a b s)
  consider "t \<in> set (rests a s)" | "t \<in> set (rests b s)" using 6(3) by auto
  then show ?case using 6(1,2) by cases (simp, metis add_left_mono le_trans min.cobounded1 min.cobounded2)+
next
  case (7 a s)
  consider "t = s" | u where "u \<in> set (filter (\<lambda>t. length t < length s) (rests a s))" "t \<in> set (rests (REStar a) u)"
    using 7(3) unfolding rests.simps(7) [of a s] by auto
  then show ?case
  proof cases
    case 2
    then show ?thesis using 7(2) [OF 2] by simp
  qed simp
qed (auto split: list.splits if_splits)

lemma regex_search_min_len: "regex_search r s \<Longrightarrow> min_len r \<le> length s"
proof -
  assume "regex_search r s"
  then obtain i where "rests r (drop i s) \<noteq> []" unfolding regex_search_def list_ex_iff by blast
  then have "hd (rests r (drop i s)) \<in> set (rests r (drop i s))" by simp
  then show ?thesis using rests_min_len by fastforce
qed

lemma timestamp_min_len: "regex_search timestamp_regex s \<Longrightarrow> 24 \<le> length s"
  using regex_search_min_len [of timestamp_regex s] by (simp add: timestamp_regex_def re_times_def numeral_2_eq_2 numeral_3_eq_3 eval_nat_numeral)

subsection \<open>Exceptions\<close>

lemma and_then_Inl: "and_then x f = Inl e \<longleftrightarrow> x = Inl e \<or> (\<exists>v. x = Inr v \<and> f v = Inl e)"
  by (cases x) (simp_all add: and_then_def)

lemma and_then_Inr: "and_then x f = Inr y \<longleftrightarrow> (\<exists>v. x = Inr v \<and> f v = Inr y)"
  by (cases x) (simp_all add: and_then_def)

text \<open>The exceptions after parsing are \<open>invalid_argument\<close> and those of the JSON library's accessors: no
  parse error, and nothing reads outside a string that passed the check of its format.\<close>

definition fine :: "sample_exn + 'a \<Rightarrow> bool" where
  "fine x \<longleftrightarrow> (\<forall>e. x = Inl e \<longrightarrow> (\<exists>what. e = InvalidArgument what) \<or> e = OtherException)"

lemma fine_Inr [simp]: "fine (Inr v)" and fine_invalid [simp]: "fine (Inl (InvalidArgument w))" and fine_other [simp]: "fine (Inl OtherException)"
  by (simp_all add: fine_def)

lemma fine_and_then [intro]: "fine x \<Longrightarrow> (\<And>v. x = Inr v \<Longrightarrow> fine (f v)) \<Longrightarrow> fine (and_then x f)"
  by (cases x) (simp_all add: fine_def and_then_def)

lemma fine_json [simp]: "fine (json_index j k)" "fine (json_string j)" "fine (json_set k v j)"
  by (cases j; simp)+

lemma fine_get_string [simp]: "fine (get_string j k)" "fine (optional_string j k)"
proof -
  show g: "fine (get_string j k)" unfolding get_string_def by (intro fine_and_then) simp_all
  then show "fine (optional_string j k)" by (simp add: optional_string_def)
qed

lemma fine_StringToTimeval: "24 \<le> length s \<Longrightarrow> fine (StringToTimeval lc s)"
proof -
  assume "24 \<le> length s"
  moreover have "fine (stoi t)" for t by (simp add: stoi_def Let_def)
  ultimately show ?thesis by (auto simp: StringToTimeval_def Let_def mk_timestampTimezoneIndex_def intro!: fine_and_then)
qed

lemma fine_grades [simp]: "fine (RandomizeGradeValue r g)" "fine (random_grades rand i gs)"
proof -
  show g: "fine (RandomizeGradeValue r g)" for r g unfolding RandomizeGradeValue_def by (intro fine_and_then) simp_all
  show "fine (random_grades rand i gs)" by (induction gs arbitrary: i) (auto simp: g intro!: fine_and_then)
qed

lemma fine_GetGradeResponse:
  assumes "24 \<le> length s" "24 \<le> length e"
  shows "fine (GetGradeResponse lc rid hu s e gs)"
proof -
  have "fine (RandomizeTimeValues lc j s e)" for j
    unfolding RandomizeTimeValues_def by (intro fine_and_then) (simp_all add: fine_StringToTimeval assms fine_and_then split: prod.splits)
  moreover have "fine (response_grades rand gs)" for rand by (auto simp: response_grades_def intro!: fine_and_then)
  ultimately show ?thesis unfolding GetGradeResponse_def by (auto intro!: fine_and_then split: prod.splits)
qed

lemma fine_grade_request: "fine (grade_request lc j rid)"
proof -
  have v: "fine (ValidatePositionFormat p)" "fine (ValidateTimestampFormat p)" for p
    by (simp_all add: ValidatePositionFormat_def ValidateTimestampFormat_def)
  have ok: "ValidateTimestampFormat t = Inr u \<Longrightarrow> 24 \<le> length t" for t u
    using timestamp_min_len by (auto simp: ValidateTimestampFormat_def split: if_splits)
  have i: "24 \<le> length s \<Longrightarrow> 24 \<le> length e \<Longrightarrow> fine (ValidateTimeInequality lc s e)" for s e
    unfolding ValidateTimeInequality_def by (intro fine_and_then) (simp_all add: fine_StringToTimeval)
  show ?thesis unfolding grade_request_def
    by (intro fine_and_then fine_get_string fine_json) (auto simp: v intro!: fine_and_then fine_GetGradeResponse i dest: ok)
qed

subsection \<open>The fields of a response\<close>

lemma map_of_object_set: "map_of (object_set k v m) k' = (if k' = k then Some v else map_of m k')"
  by (induction k v m rule: object_set.induct) auto

text \<open>A random grade keeps the other members of the requested one.\<close>

lemma RandomizeGradeValue_object:
  "RandomizeGradeValue r (JObject m) = Inr g \<Longrightarrow>
   \<exists>m'. g = JObject m' \<and> map_of m' ''value'' = Some (JFloat (random_grade r)) \<and> map_of m' ''confidenceScore'' = Some (JFloat 1) \<and>
     (\<forall>k. k \<noteq> ''value'' \<and> k \<noteq> ''confidenceScore'' \<longrightarrow> map_of m' k = map_of m k)"
  by (auto simp: RandomizeGradeValue_def and_then_def map_of_object_set)

lemma random_grades_objects:
  "\<exists>gs. random_grades rand i (map JObject ms) = Inr gs \<and> length gs = length ms \<and>
     (\<forall>n < length ms. \<exists>m'. gs ! n = JObject m' \<and> map_of m' ''value'' = Some (JFloat (random_grade (rand (i + n)))) \<and>
        map_of m' ''confidenceScore'' = Some (JFloat 1) \<and>
        (\<forall>k. k \<noteq> ''value'' \<and> k \<noteq> ''confidenceScore'' \<longrightarrow> map_of m' k = map_of (ms ! n) k))"
proof (induction ms arbitrary: i)
  case (Cons m ms)
  obtain g where g: "RandomizeGradeValue (rand i) (JObject m) = Inr g" by (simp add: RandomizeGradeValue_def and_then_def)
  obtain gs where gs: "random_grades rand (Suc i) (map JObject ms) = Inr gs" "length gs = length ms"
    and each: "\<And>n. n < length ms \<Longrightarrow> \<exists>m'. gs ! n = JObject m' \<and> map_of m' ''value'' = Some (JFloat (random_grade (rand (Suc i + n)))) \<and>
        map_of m' ''confidenceScore'' = Some (JFloat 1) \<and>
        (\<forall>k. k \<noteq> ''value'' \<and> k \<noteq> ''confidenceScore'' \<longrightarrow> map_of m' k = map_of (ms ! n) k)"
    using Cons [of "Suc i"] by blast
  have "\<exists>m'. (g # gs) ! n = JObject m' \<and> map_of m' ''value'' = Some (JFloat (random_grade (rand (i + n)))) \<and>
        map_of m' ''confidenceScore'' = Some (JFloat 1) \<and>
        (\<forall>k. k \<noteq> ''value'' \<and> k \<noteq> ''confidenceScore'' \<longrightarrow> map_of m' k = map_of ((m # ms) ! n) k)" if "n < length (m # ms)" for n
  proof (cases n)
    case 0
    then show ?thesis using RandomizeGradeValue_object [OF g] by simp
  next
    case (Suc k)
    then show ?thesis using each [of k] that by simp
  qed
  then show ?case using g gs by (intro exI [of _ "g # gs"]) (simp add: and_then_def)
qed simp

lemma GetGradeResponse_fields:
  assumes "GetGradeResponse lc rid hu s e grades = Inr r"
  shows "\<exists>m seed newGrades. r = JObject m \<and> map_of m ''type'' = Some (JString ''gradeResponse'') \<and> map_of m ''requestID'' = Some (JString rid) \<and>
    map_of m ''haulingUnitID'' = Some (JString hu) \<and> map_of m ''systemID'' = Some (JString ''testServer'') \<and>
    map_of m ''version'' = Some (JString ''2.3'') \<and> map_of m ''grades'' = Some newGrades \<and> response_grades (lc_rand lc seed) grades = Inr newGrades"
proof -
  obtain seed r1 newGrades where t: "RandomizeTimeValues lc (response_head rid hu) s e = Inr (seed, r1)"
    and g: "response_grades (lc_rand lc seed) grades = Inr newGrades"
    and r: "and_then (json_set ''batchID'' (JString (random_batch (lc_rand lc seed 1))) r1) (json_set ''grades'' newGrades) = Inr r"
    using assms by (auto simp: GetGradeResponse_def and_then_Inr)
  obtain v1 v2 where r1: "r1 = JObject (object_set ''batchStart'' v1 (object_set ''batchEnd'' v2
      [(''haulingUnitID'', JString hu), (''requestID'', JString rid), (''systemID'', JString ''testServer''),
       (''type'', JString ''gradeResponse''), (''version'', JString ''2.3'')]))"
    using t by (auto simp: RandomizeTimeValues_def and_then_Inr response_head_def case_prod_unfold)
  show ?thesis using r r1 g by (auto simp: and_then_def map_of_object_set)
qed

lemma request_answers:
  shows "answer lc parse str = None \<longleftrightarrow> (\<exists>j ty. parse str = Inr j \<and> get_string j ''type'' = Inr ty \<and> ty \<noteq> ''gradeRequest'')"
    and "parse str = Inl what \<Longrightarrow> answer lc parse str = Some (request_error [] 4 what)"
    and "parse str = Inr j \<Longrightarrow> get_string j ''type'' = Inr ''gradeRequest'' \<Longrightarrow> get_string j ''requestID'' = Inr rid \<Longrightarrow>
      \<exists>r. answer lc parse str = Some r \<and> get_string r ''requestID'' = Inr rid \<and>
        (get_string r ''type'' = Inr ''gradeResponse'' \<or>
         get_string r ''type'' = Inr ''requestError'' \<and> json_index r ''errorCode'' \<in> {Inr (JInt 5), Inr (JInt 6)})"
proof -
  have f: "\<exists>k w. answer_error (r, e) = Some (request_error r k w) \<and> k \<in> {5, 6}" if "x = Inl e" "fine x" for r e and x :: "sample_exn + 'a"
    using that by (cases e) (auto simp: fine_def)
  have n: "get_string (request_error r k w) ''requestID'' = Inr r" "get_string (request_error r k w) ''type'' = Inr ''requestError''"
    "json_index (request_error r k w) ''errorCode'' = Inr (JInt k)" for r k w by (simp_all add: request_error_def get_string_def and_then_def)
  show third: "\<exists>r. answer lc parse str = Some r \<and> get_string r ''requestID'' = Inr rid \<and>
        (get_string r ''type'' = Inr ''gradeResponse'' \<or>
         get_string r ''type'' = Inr ''requestError'' \<and> json_index r ''errorCode'' \<in> {Inr (JInt 5), Inr (JInt 6)})"
    if j: "parse str = Inr j" "get_string j ''type'' = Inr ''gradeRequest''" "get_string j ''requestID'' = Inr rid" for j rid
  proof (cases "grade_request lc j rid")
    case (Inl e1)
    obtain k w where "answer_error (rid, e1) = Some (request_error rid k w)" "k \<in> {5, 6}"
      using f [OF Inl fine_grade_request] by blast
    then show ?thesis using j Inl n by (auto simp: answer_def handle_json_def)
  next
    case (Inr r)
    then obtain hu s e gs where "GetGradeResponse lc rid hu s e gs = Inr r" by (auto simp: grade_request_def and_then_Inr)
    from GetGradeResponse_fields [OF this] show ?thesis
      using j Inr by (auto simp: answer_def handle_json_def get_string_def and_then_def)
  qed
  show "parse str = Inl what \<Longrightarrow> answer lc parse str = Some (request_error [] 4 what)" by (simp add: answer_def)
  show "answer lc parse str = None \<longleftrightarrow> (\<exists>j ty. parse str = Inr j \<and> get_string j ''type'' = Inr ty \<and> ty \<noteq> ''gradeRequest'')"
  proof (cases "parse str")
    case (Inr j)
    show ?thesis
    proof (cases "get_string j ''type''")
      case (Inl e1)
      then show ?thesis using Inr f [OF Inl fine_get_string(1), of "[]"] by (auto simp: answer_def handle_json_def)
    next
      case ty: (Inr ty)
      show ?thesis
      proof (cases "get_string j ''requestID''")
        case (Inl e1)
        then show ?thesis using Inr ty f [OF Inl fine_get_string(1), of "[]"] by (auto simp: answer_def handle_json_def)
      next
        case rid: (Inr rid)
        then show ?thesis using Inr ty third [OF Inr _ rid] by (auto simp: answer_def handle_json_def)
      qed
    qed
  qed (simp add: answer_def)
qed

definition demo_libc :: libc where
  "demo_libc = \<lparr>lc_time = 0, lc_gmtoff = (\<lambda>_. 0), lc_strftime = (\<lambda>_. ''2019-07-17T22:17:00''), lc_zone = (\<lambda>_. ''+0000''),
     lc_strptime = (\<lambda>s. \<lparr>tm_year = 119, tm_mon = 6, tm_mday = 17, tm_hour = 22, tm_min = (if s = ''2019-07-17T22:17:00Z'' then 17 else 19),
       tm_sec = 0, tm_gmtoff = 0\<rparr>),
     lc_timelocal = (\<lambda>t. 1563401820 + 60 * (tm_min t - 17)), lc_rand = (\<lambda>_ i. 1000 * i)\<rparr>"



subsection \<open>Well-formed requests\<close>

lemma wellformed_request_served:
  assumes p: "parse str = Inr (JObject m)" and ty: "map_of m ''type'' = Some (JString ''gradeRequest'')"
    and rid: "map_of m ''requestID'' = Some (JString rid)" and hu: "map_of m ''haulingUnitID'' = Some (JString hu)"
    and s: "map_of m ''startTime'' = Some (JString s)" "regex_search timestamp_regex s" "StringToTimeval lc s = Inr a"
    and e: "map_of m ''endTime'' = Some (JString e)" "regex_search timestamp_regex e" "StringToTimeval lc e = Inr b"
    and order: "\<not> timer_after a b"
    and pos: "map_of m ''position'' = Some (JString pos)" "regex_search position_regex pos"
    and gs: "map_of m ''estimatedGrades'' = Some (JArray (map JObject ms))" "ms \<noteq> []"
  shows "\<exists>r gs seed. answer lc parse str = Some (JObject r) \<and> map_of r ''type'' = Some (JString ''gradeResponse'') \<and>
    map_of r ''requestID'' = Some (JString rid) \<and> map_of r ''haulingUnitID'' = Some (JString hu) \<and>
    map_of r ''grades'' = Some (JArray gs) \<and> length gs = length ms \<and>
    (\<forall>n < length ms. \<exists>m'. gs ! n = JObject m' \<and> map_of m' ''value'' = Some (JFloat (random_grade (lc_rand lc seed (2 + n)))) \<and>
       map_of m' ''confidenceScore'' = Some (JFloat 1) \<and>
       (\<forall>k. k \<noteq> ''value'' \<and> k \<noteq> ''confidenceScore'' \<longrightarrow> map_of m' k = map_of (ms ! n) k))"
proof -
  obtain seed m1 where t: "RandomizeTimeValues lc (response_head rid hu) s e = Inr (seed, JObject m1)"
    by (simp add: RandomizeTimeValues_def s(3) e(3) and_then_def response_head_def case_prod_unfold)
  obtain newGrades where "response_grades (lc_rand lc seed) (JArray (map JObject ms)) = Inr newGrades"
    using random_grades_objects [of "lc_rand lc seed" 2 ms] gs(2) by (auto simp: response_grades_def and_then_def)
  then obtain r where r: "GetGradeResponse lc rid hu s e (JArray (map JObject ms)) = Inr r"
    using t by (simp add: GetGradeResponse_def and_then_def)
  have "answer lc parse str = Some r"
    using p ty rid hu s e order pos gs r
    by (simp add: answer_def handle_json_def get_string_def and_then_def grade_request_def optional_string_def ValidatePositionFormat_def
        ValidateTimestampFormat_def ValidateTimeInequality_def)
  moreover obtain r' seed newGrades where f: "r = JObject r'" "map_of r' ''type'' = Some (JString ''gradeResponse'')"
    "map_of r' ''requestID'' = Some (JString rid)" "map_of r' ''haulingUnitID'' = Some (JString hu)" "map_of r' ''grades'' = Some newGrades"
    "response_grades (lc_rand lc seed) (JArray (map JObject ms)) = Inr newGrades"
    using GetGradeResponse_fields [OF r] by blast
  moreover obtain gs' where g: "random_grades (lc_rand lc seed) 2 (map JObject ms) = Inr gs'" "length gs' = length ms"
    "\<forall>n < length ms. \<exists>m'. gs' ! n = JObject m' \<and> map_of m' ''value'' = Some (JFloat (random_grade (lc_rand lc seed (2 + n)))) \<and>
       map_of m' ''confidenceScore'' = Some (JFloat 1) \<and>
       (\<forall>k. k \<noteq> ''value'' \<and> k \<noteq> ''confidenceScore'' \<longrightarrow> map_of m' k = map_of (ms ! n) k)"
    using random_grades_objects [of "lc_rand lc seed" 2 ms] by blast
  moreover have "newGrades = JArray gs'" using f(6) g(1) gs(2) by (simp add: response_grades_def and_then_def)
  ultimately show ?thesis by blast
qed

text \<open>The position of the request the manual calls valid is not accepted.\<close>

lemma readme_position_rejected:
  "ValidatePositionFormat ([CHR ''4'', CHR ''0'', CHR 0xC2, CHR 0xB0] @ '' 26'' @ [CHR 0xE2, CHR 0x80, CHR 0xB2] @ '' 46''
     @ [CHR 0xE2, CHR 0x80, CHR 0xB3] @ '' N'') = Inl (InvalidArgument ''Invalid Position Format'')"
  by code_simp

subsection \<open>Addressees\<close>

lemma send_client_local:
  assumes "send_client env t c g = Ret g1"
  shows "wg_clients g1 = wg_clients g \<and> (\<forall>c'. c' \<noteq> c \<longrightarrow> wg_objects g1 c' = wg_objects g c') \<and>
    (\<forall>w. wg_objects g c = Some w \<longrightarrow> (\<exists>info w1. ws_send env t False None w = Ret (info, w1) \<and> wg_objects g1 c = Some w1)) \<and>
    (wg_objects g c = None \<longrightarrow> g1 = g)"
  using assms
  by (cases "wg_objects g c"; cases "ws_send env t False None (the (wg_objects g c))")
    (auto simp: send_client_def put_object_def)

lemma messages_sent:
  shows "ServerMessageHandler env lc parse dump c ty str g = Ret g1 \<Longrightarrow>
      wg_clients g1 = wg_clients g \<and> (\<forall>c'. c' \<noteq> c \<longrightarrow> wg_objects g1 c' = wg_objects g c') \<and>
      (\<forall>w r. ty = Message \<and> answer lc parse str = Some r \<and> c \<in> set (wg_clients g) \<and> wg_objects g c = Some w \<longrightarrow>
         (\<exists>info w1. ws_send env (dump r) False None w = Ret (info, w1) \<and> wg_objects g1 c = Some w1)) \<and>
      (ty \<noteq> Message \<or> answer lc parse str = None \<or> c \<notin> set (wg_clients g) \<longrightarrow> g1 = g)"
    and "SendHeartbeat env dump g = Ret g2 \<Longrightarrow> distinct (wg_clients g) \<Longrightarrow>
      wg_clients g2 = wg_clients g \<and> (\<forall>c'. c' \<notin> set (wg_clients g) \<longrightarrow> wg_objects g2 c' = wg_objects g c') \<and>
      (\<forall>c w. c \<in> set (wg_clients g) \<and> wg_objects g c = Some w \<longrightarrow>
         (\<exists>info w1. ws_send env (dump heartbeat_json) False None w = Ret (info, w1) \<and> wg_objects g2 c = Some w1))"
proof -
  assume "ServerMessageHandler env lc parse dump c ty str g = Ret g1"
  then show "wg_clients g1 = wg_clients g \<and> (\<forall>c'. c' \<noteq> c \<longrightarrow> wg_objects g1 c' = wg_objects g c') \<and>
      (\<forall>w r. ty = Message \<and> answer lc parse str = Some r \<and> c \<in> set (wg_clients g) \<and> wg_objects g c = Some w \<longrightarrow>
         (\<exists>info w1. ws_send env (dump r) False None w = Ret (info, w1) \<and> wg_objects g1 c = Some w1)) \<and>
      (ty \<noteq> Message \<or> answer lc parse str = None \<or> c \<notin> set (wg_clients g) \<longrightarrow> g1 = g)"
    by (auto simp: ServerMessageHandler_def send_to_source_def getClients_def dest: send_client_local split: if_splits option.splits)
next
  have all: "wg_clients g' = wg_clients g \<and> (\<forall>c'. c' \<notin> set cs \<longrightarrow> wg_objects g' c' = wg_objects g c') \<and>
      (\<forall>c w. c \<in> set cs \<and> wg_objects g c = Some w \<longrightarrow> (\<exists>info w1. ws_send env t False None w = Ret (info, w1) \<and> wg_objects g' c = Some w1))"
    if "send_to_all env t cs g = Ret g'" "distinct cs" for cs t and g g' :: "'a ws_shared"
    using that
  proof (induction cs arbitrary: g)
    case (Cons c cs)
    then obtain u where u: "send_client env t c g = Ret u" "send_to_all env t cs u = Ret g'" by (auto split: outcome.splits)
    note l = send_client_local [OF u(1)]
    note ih = Cons.IH [OF u(2)]
    show ?case using l ih Cons.prems(2) by (auto; metis)
  qed simp
  show "SendHeartbeat env dump g = Ret g2 \<Longrightarrow> distinct (wg_clients g) \<Longrightarrow>
      wg_clients g2 = wg_clients g \<and> (\<forall>c'. c' \<notin> set (wg_clients g) \<longrightarrow> wg_objects g2 c' = wg_objects g c') \<and>
      (\<forall>c w. c \<in> set (wg_clients g) \<and> wg_objects g c = Some w \<longrightarrow>
         (\<exists>info w1. ws_send env (dump heartbeat_json) False None w = Ret (info, w1) \<and> wg_objects g2 c = Some w1))"
    using all [of "dump heartbeat_json" "wg_clients g" g g2] unfolding SendHeartbeat_def getClients_def .
qed

text \<open>
  C37. Messages reach their addressees: the answer to a message changes no client but its sender,
  which gets it by one send if it is still connected, and a heartbeat goes to every connected client,
  once.
\<close>

theorem messages_reach_addressees:
  "(ServerMessageHandler env lc parse dump c ty str g = Ret g1 \<longrightarrow>
      wg_clients g1 = wg_clients g \<and> (\<forall>c'. c' \<noteq> c \<longrightarrow> wg_objects g1 c' = wg_objects g c') \<and>
      (\<forall>w r. ty = Message \<and> answer lc parse str = Some r \<and> c \<in> set (wg_clients g) \<and> wg_objects g c = Some w \<longrightarrow>
         (\<exists>info w1. ws_send env (dump r) False None w = Ret (info, w1) \<and> wg_objects g1 c = Some w1)) \<and>
      (ty \<noteq> Message \<or> answer lc parse str = None \<or> c \<notin> set (wg_clients g) \<longrightarrow> g1 = g)) \<and>
   (SendHeartbeat env dump g = Ret g2 \<and> distinct (wg_clients g) \<longrightarrow>
      wg_clients g2 = wg_clients g \<and> (\<forall>c'. c' \<notin> set (wg_clients g) \<longrightarrow> wg_objects g2 c' = wg_objects g c') \<and>
      (\<forall>c w. c \<in> set (wg_clients g) \<and> wg_objects g c = Some w \<longrightarrow>
         (\<exists>info w1. ws_send env (dump heartbeat_json) False None w = Ret (info, w1) \<and> wg_objects g2 c = Some w1)))"
  using messages_sent(1) [of env lc parse dump c ty str g g1] messages_sent(2) [of env dump g g2] by blast

theorem messages_reach_addressees_witness:
  "let w = WebSocket_new (Transport_new demo_env MSG_TEXT demo_socket);
       g = (WebSocketServer_shared 3)\<lparr>wg_clients := [0], wg_objects := [0 \<mapsto> w]\<rparr>
   in (\<exists>g1. ServerMessageHandler demo_env demo_libc (\<lambda>_. Inl ''e'') (\<lambda>_. ''x'') 0 Message ''m'' g = Ret g1 \<and> wg_clients g1 = [0]) \<and>
      (\<exists>g2. SendHeartbeat demo_env (\<lambda>_. ''x'') g = Ret g2 \<and> wg_clients g2 = [0])"
proof -
  let ?w = "WebSocket_new (Transport_new demo_env MSG_TEXT demo_socket)"
  let ?g = "(WebSocketServer_shared 3)\<lparr>wg_clients := [0], wg_objects := [0 \<mapsto> ?w]\<rparr>"
  have v: "validateUtf8 (bytes_of ''x'')" by code_simp
  have s: "ws_send demo_env ''x'' False None ?w = Ret (send_failed, ?w)"
    using v by (simp add: ws_send_def ws_sendText_def sendMessage_def ws_isConnected_def WebSocket_new_def Transport_new_def)
  have "ServerMessageHandler demo_env demo_libc (\<lambda>_. Inl ''e'') (\<lambda>_. ''x'') 0 Message ''m'' ?g = Ret (put_object 0 ?w ?g)"
    by (simp add: ServerMessageHandler_def answer_def send_to_source_def getClients_def send_client_def s)
  note h = messages_reach_addressees [THEN conjunct1, THEN mp, OF this] this
  have "SendHeartbeat demo_env (\<lambda>_. ''x'') ?g = Ret (put_object 0 ?w ?g)"
    by (simp add: SendHeartbeat_def getClients_def send_client_def s)
  note b = messages_reach_addressees [THEN conjunct2, THEN mp, OF conjI, OF this] this
  show ?thesis unfolding Let_def using h b by auto
qed

end
