(* ===== verification/SampleClient.thy ===== *)
theory SampleClient
  imports SampleServerProperties
begin

section \<open>The sample client\<close>

text \<open>
  \<^verbatim>\<open>MtlWebSocket.cpp\<close>, \<^verbatim>\<open>MtlApi.cpp\<close> and \<^verbatim>\<open>main.cpp\<close> of \<^verbatim>\<open>mtl-sample-api-client\<close>. The WebSocket's thread puts received
  messages into a queue, a second thread takes them out, one every five seconds, and appends them to
  a file. The two threads share the queue without a lock; the model takes a push and a pop as atomic.
  \<open>dump4\<close> is the printer with indentation.
\<close>

subsection \<open>State\<close>

record 'z mtl_client =
  mc_ws :: "'z websocket"
  mc_url :: string
  mc_queue :: "json list"
  mc_file :: "string list"
  mc_shutdown :: bool
  mc_ended :: bool
  mc_crashed :: bool

definition MtlApi_new :: "'z transport \<Rightarrow> string \<Rightarrow> 'z mtl_client" where
  "MtlApi_new t address =
     \<lparr>mc_ws = WebSocket_new t, mc_url = address, mc_queue = [], mc_file = [], mc_shutdown = False, mc_ended = False, mc_crashed = False\<rparr>"

definition mtl_start :: "'z mtl_client \<Rightarrow> 'z mtl_client" where
  "mtl_start c = c\<lparr>mc_ws := ws_start (setUrl (mc_url c) (mc_ws c))\<rparr>"

definition mtl_send :: "'z tenv \<Rightarrow> string \<Rightarrow> 'z mtl_client \<Rightarrow> 'z mtl_client outcome" where
  "mtl_send env jsonStr c = map_outcome (\<lambda>(info, w). c\<lparr>mc_ws := w\<rparr>) (ws_send env jsonStr False None (mc_ws c))"

definition sendGradeRequest :: "'z tenv \<Rightarrow> (json \<Rightarrow> string) \<Rightarrow> json \<Rightarrow> 'z mtl_client \<Rightarrow> 'z mtl_client outcome" where
  "sendGradeRequest env dump gradeRequest c = mtl_send env (dump gradeRequest) c"

definition mtl_Shutdown :: "'z mtl_client \<Rightarrow> 'z mtl_client" where
  "mtl_Shutdown c = c\<lparr>mc_shutdown := True\<rparr>"

definition mtl_stop ::
  "'z tenv \<Rightarrow> (nat \<Rightarrow> 'z attempt) \<Rightarrow> (nat \<Rightarrow> u32) \<Rightarrow> 'z mtl_client \<Rightarrow> (run_end \<times> 'z mtl_client) option" where
  "mtl_stop env atts unfit c =
     map_option (\<lambda>(e, w). (e, c\<lparr>mc_ws := w\<rparr>)) (ws_stop env atts unfit kNormalClosureCode kNormalClosureMessage (mc_ws c))"

text \<open>The effect of a message on the queue; the other messages are only printed.\<close>

definition messageHandler :: "(string \<Rightarrow> string + json) \<Rightarrow> WebSocketMessage \<Rightarrow> 'z mtl_client \<Rightarrow> 'z mtl_client" where
  "messageHandler parse msg c =
     (if msg_type msg = Message
      then (case parse (msg_str msg) of Inl what \<Rightarrow> c | Inr j \<Rightarrow> c\<lparr>mc_queue := mc_queue c @ [j]\<rparr>)
      else c)"

text \<open>Indexing a value with \<open>operator[]\<close> leaves the key in it.\<close>

fun json_touch :: "string \<Rightarrow> json \<Rightarrow> sample_exn + json" where
  "json_touch k (JObject m) = Inr (if map_of m k = None then JObject (object_set k JNull m) else JObject m)"
| "json_touch k JNull = Inr (JObject [(k, JNull)])"
| "json_touch k _ = Inl OtherException"

text \<open>One round of \<open>Receive_\<close>; an exception ends the process.\<close>

definition Receive_round :: "(json \<Rightarrow> string) \<Rightarrow> 'z mtl_client \<Rightarrow> 'z mtl_client" where
  "Receive_round dump4 c =
     (if mc_shutdown c then c\<lparr>mc_ended := True\<rparr>
      else case mc_queue c of
        [] \<Rightarrow> c
      | j # rest \<Rightarrow>
          case json_touch ''type'' j of
            Inl e \<Rightarrow> c\<lparr>mc_crashed := True\<rparr>
          | Inr j1 \<Rightarrow> c\<lparr>mc_file := mc_file c @ [dump4 j1], mc_queue := rest\<rparr>)"

inductive client_run :: "(string \<Rightarrow> string + json) \<Rightarrow> (json \<Rightarrow> string) \<Rightarrow> 'z mtl_client \<Rightarrow> WebSocketMessage list \<Rightarrow> 'z mtl_client \<Rightarrow> bool"
  for parse dump4 c0 where
  created: "client_run parse dump4 c0 [] c0"
| arrives: "client_run parse dump4 c0 ms c \<Longrightarrow> \<not> mc_crashed c \<Longrightarrow> client_run parse dump4 c0 (ms @ [m]) (messageHandler parse m c)"
| round: "client_run parse dump4 c0 ms c \<Longrightarrow> \<not> mc_crashed c \<Longrightarrow> \<not> mc_ended c \<Longrightarrow> client_run parse dump4 c0 ms (Receive_round dump4 c)"
| shut: "client_run parse dump4 c0 ms c \<Longrightarrow> client_run parse dump4 c0 ms (mtl_Shutdown c)"

subsection \<open>The request of the main program\<close>

datatype client_option = CHelp | CIp string | CPort string | CRequest | CStart string | CEnd string | CId string | CUnit string
  | CInterval string | COther

record client_config =
  cc_ip :: string
  cc_port :: string
  cc_request :: bool
  cc_start :: string
  cc_end :: string
  cc_id :: string
  cc_unit :: string
  cc_interval :: int

definition client_default :: client_config where
  "client_default = \<lparr>cc_ip = ''127.0.0.1'', cc_port = ''80'', cc_request = False, cc_start = ''2019-07-17T22:17:00.000Z'',
     cc_end = ''2019-07-17T22:19:00.000Z'', cc_id = ''1'', cc_unit = ''truck1'', cc_interval = 5\<rparr>"

fun client_options :: "client_option list \<Rightarrow> client_config \<Rightarrow> client_config option" where
  "client_options [] cfg = Some cfg"
| "client_options (CHelp # os) cfg = None"
| "client_options (CIp a # os) cfg = client_options os (cfg\<lparr>cc_ip := a\<rparr>)"
| "client_options (CPort a # os) cfg = client_options os (cfg\<lparr>cc_port := a\<rparr>)"
| "client_options (CRequest # os) cfg = client_options os (cfg\<lparr>cc_request := True\<rparr>)"
| "client_options (CStart a # os) cfg = client_options os (cfg\<lparr>cc_start := a\<rparr>)"
| "client_options (CEnd a # os) cfg = client_options os (cfg\<lparr>cc_end := a\<rparr>)"
| "client_options (CId a # os) cfg = client_options os (cfg\<lparr>cc_id := a\<rparr>)"
| "client_options (CUnit a # os) cfg = client_options os (cfg\<lparr>cc_unit := a\<rparr>)"
| "client_options (CInterval a # os) cfg = client_options os (cfg\<lparr>cc_interval := atoi a\<rparr>)"
| "client_options (COther # os) cfg = client_options os cfg"

definition client_url :: "client_config \<Rightarrow> string" where
  "client_url cfg = ''ws://'' @ cc_ip cfg @ '':'' @ cc_port cfg"

text \<open>The grades of the request; the literals stand for the doubles next to them.\<close>

definition sample_grades :: "(string \<times> json) list list" where
  "sample_grades = [[(''element'', JString ''Fe''), (''value'', JFloat (123 / 100))], [(''element'', JString ''Cu''), (''value'', JFloat (65 / 100))]]"

definition gradeRequest :: "client_config \<Rightarrow> json" where
  "gradeRequest cfg =
     JObject [(''endTime'', JString (cc_end cfg)), (''estimatedGrades'', JArray (map JObject sample_grades)),
              (''haulingUnitID'', JString (cc_unit cfg)), (''position'', JString ''5577.12,-444,10.5''), (''requestID'', JString (cc_id cfg)),
              (''startTime'', JString (cc_start cfg)), (''type'', JString ''gradeRequest''), (''version'', JString ''2.3'')]"

text \<open>One round of the loop of \<open>main\<close>.\<close>

definition client_round :: "'z tenv \<Rightarrow> (json \<Rightarrow> string) \<Rightarrow> client_config \<Rightarrow> 'z mtl_client \<Rightarrow> 'z mtl_client outcome" where
  "client_round env dump cfg c = (if cc_request cfg then sendGradeRequest env dump (gradeRequest cfg) c else Ret c)"

subsection \<open>Received messages\<close>

definition received :: "(string \<Rightarrow> string + json) \<Rightarrow> WebSocketMessage list \<Rightarrow> json list" where
  "received parse ms =
     concat (map (\<lambda>m. if msg_type m = Message then (case parse (msg_str m) of Inl what \<Rightarrow> [] | Inr j \<Rightarrow> [j]) else []) ms)"

definition written :: "(json \<Rightarrow> string) \<Rightarrow> json \<Rightarrow> string" where
  "written dump4 j = (case json_touch ''type'' j of Inl e \<Rightarrow> [] | Inr j1 \<Rightarrow> dump4 j1)"

text \<open>
  The client writes what it receives, in order and nothing twice: however the two threads
  interleave, the lines of the file, followed by those of the messages still in the queue, are those
  of the JSON messages that arrived; a message without a type gets a null type in the file.
\<close>

theorem output_in_order:
  assumes "client_run parse dump4 (MtlApi_new t address) ms c"
  shows "mc_file c @ map (written dump4) (mc_queue c) = map (written dump4) (received parse ms)"
  using assms
proof (induction rule: client_run.induct)
  case created
  then show ?case by (simp add: MtlApi_new_def received_def)
next
  case (arrives ms c m)
  have "received parse (ms @ [m]) = received parse ms @ (if msg_type m = Message then (case parse (msg_str m) of Inl what \<Rightarrow> [] | Inr j \<Rightarrow> [j]) else [])"
    by (simp add: received_def)
  then show ?case using arrives.IH by (auto simp: messageHandler_def append.assoc [symmetric] simp del: append.assoc append_assoc split: sum.splits)
next
  case (round ms c)
  then show ?case by (auto simp: Receive_round_def written_def split: list.splits sum.splits)
next
  case (shut ms c)
  then show ?case by (simp add: mtl_Shutdown_def)
qed

theorem output_in_order_witness:
  "let m = \<lparr>msg_type = Message, msg_str = ''{}'', msg_wireSize = 2, msg_errorInfo = noError, msg_openInfo = noOpen, msg_closeInfo = noClose,
         msg_binary = False\<rparr>;
       c = Receive_round (\<lambda>j. ''line'') (messageHandler (\<lambda>s. Inr (JObject [])) m (MtlApi_new demo_client ''ws://localhost''))
   in client_run (\<lambda>s. Inr (JObject [])) (\<lambda>j. ''line'') (MtlApi_new demo_client ''ws://localhost'') [m] c \<and> mc_file c = [''line'']"
proof -
  define m :: WebSocketMessage where "m = \<lparr>msg_type = Message, msg_str = ''{}'', msg_wireSize = 2, msg_errorInfo = noError, msg_openInfo = noOpen,
      msg_closeInfo = noClose, msg_binary = False\<rparr>"
  let ?init = "MtlApi_new demo_client ''ws://localhost''"
  let ?parse = "\<lambda>s. Inr (JObject [])"
  let ?mid = "messageHandler ?parse m ?init"
  let ?last = "Receive_round (\<lambda>j. ''line'') ?mid"
  have 1: "client_run ?parse (\<lambda>j. ''line'') ?init ([] @ [m]) ?mid"
    by (rule arrives [OF created]) (simp add: MtlApi_new_def)
  have f: "mc_crashed ?mid = False" "mc_ended ?mid = False" "mc_shutdown ?mid = False" "mc_queue ?mid = [JObject []]" "mc_file ?mid = []"
    by (simp_all add: messageHandler_def m_def MtlApi_new_def)
  have 2: "client_run ?parse (\<lambda>j. ''line'') ?init [m] ?last" using round [OF 1] f by simp
  have q: "mc_queue ?last = []" using f by (simp add: Receive_round_def)
  have "mc_file ?last = [''line'']" using output_in_order [OF 2] q by (simp add: received_def m_def written_def)
  then show ?thesis using 2 unfolding Let_def m_def [symmetric] by blast
qed

subsection \<open>Client and server\<close>

lemma sample_position: "regex_search position_regex ''5577.12,-444,10.5''"
  by code_simp

text \<open>
  The sample client's request is served by the sample server: for every configuration with
  well-formed times in order, and a JSON library that reads back what it printed, the server answers
  with a response that carries the client's request number and unit and one grade for iron and one
  for copper, each with a confidence of 1 and a random value.
\<close>

theorem sample_client_is_served:
  assumes "parse (dump (gradeRequest cfg)) = Inr (gradeRequest cfg)"
    and "regex_search timestamp_regex (cc_start cfg)" "regex_search timestamp_regex (cc_end cfg)"
    and "StringToTimeval lc (cc_start cfg) = Inr a" "StringToTimeval lc (cc_end cfg) = Inr b" "\<not> timer_after a b"
  shows "\<exists>r fe cu. answer lc parse (dump (gradeRequest cfg)) = Some (JObject r) \<and> map_of r ''type'' = Some (JString ''gradeResponse'') \<and>
    map_of r ''requestID'' = Some (JString (cc_id cfg)) \<and> map_of r ''haulingUnitID'' = Some (JString (cc_unit cfg)) \<and>
    map_of r ''grades'' = Some (JArray [JObject fe, JObject cu]) \<and>
    map_of fe ''element'' = Some (JString ''Fe'') \<and> map_of cu ''element'' = Some (JString ''Cu'') \<and>
    map_of fe ''confidenceScore'' = Some (JFloat 1) \<and> map_of cu ''confidenceScore'' = Some (JFloat 1)"
proof -
  have p: "parse (dump (gradeRequest cfg)) = Inr (JObject
      [(''endTime'', JString (cc_end cfg)), (''estimatedGrades'', JArray (map JObject sample_grades)),
       (''haulingUnitID'', JString (cc_unit cfg)), (''position'', JString ''5577.12,-444,10.5''), (''requestID'', JString (cc_id cfg)),
       (''startTime'', JString (cc_start cfg)), (''type'', JString ''gradeRequest''), (''version'', JString ''2.3'')])"
    using assms(1) by (simp add: gradeRequest_def)
  obtain r gs seed where r: "answer lc parse (dump (gradeRequest cfg)) = Some (JObject r)" "map_of r ''type'' = Some (JString ''gradeResponse'')"
    "map_of r ''requestID'' = Some (JString (cc_id cfg))" "map_of r ''haulingUnitID'' = Some (JString (cc_unit cfg))"
    "map_of r ''grades'' = Some (JArray gs)" "length gs = length sample_grades"
    and each: "\<forall>n < length sample_grades. \<exists>m'. gs ! n = JObject m' \<and> map_of m' ''value'' = Some (JFloat (random_grade (lc_rand lc seed (2 + n)))) \<and>
       map_of m' ''confidenceScore'' = Some (JFloat 1) \<and>
       (\<forall>k. k \<noteq> ''value'' \<and> k \<noteq> ''confidenceScore'' \<longrightarrow> map_of m' k = map_of (sample_grades ! n) k)"
    using wellformed_request_served [where parse = parse and str = "dump (gradeRequest cfg)", OF p _ _ _ _ assms(2,4) _ assms(3,5,6) _ sample_position, of "cc_id cfg" "cc_unit cfg" sample_grades]
    by (auto simp: sample_grades_def)
  have l: "length gs = 2" using r(6) by (simp add: sample_grades_def)
  have gs: "gs = [gs ! 0, gs ! 1]" by (rule nth_equalityI) (auto simp: l less_Suc_eq numeral_2_eq_2)
  have sg: "length sample_grades = 2" "map_of (sample_grades ! 0) ''element'' = Some (JString ''Fe'')"
    "map_of (sample_grades ! 1) ''element'' = Some (JString ''Cu'')"
    by (simp_all add: sample_grades_def)
  have grade: "\<exists>m'. gs ! n = JObject m' \<and> map_of m' ''confidenceScore'' = Some (JFloat 1) \<and>
      map_of m' ''element'' = map_of (sample_grades ! n) ''element''" if n: "n < 2" for n
  proof -
    obtain m' where "gs ! n = JObject m'" "map_of m' ''confidenceScore'' = Some (JFloat 1)"
      and k: "\<And>k. k \<noteq> ''value'' \<Longrightarrow> k \<noteq> ''confidenceScore'' \<Longrightarrow> map_of m' k = map_of (sample_grades ! n) k"
      using each [rule_format, of n] n sg(1) by auto
    moreover have "map_of m' ''element'' = map_of (sample_grades ! n) ''element''" by (rule k) simp_all
    ultimately show ?thesis by blast
  qed
  obtain fe where fe: "gs ! 0 = JObject fe" "map_of fe ''confidenceScore'' = Some (JFloat 1)" "map_of fe ''element'' = Some (JString ''Fe'')"
    using grade [of 0] sg(2) by fastforce
  obtain cu where cu: "gs ! 1 = JObject cu" "map_of cu ''confidenceScore'' = Some (JFloat 1)" "map_of cu ''element'' = Some (JString ''Cu'')"
    using grade [of 1] sg(3) by fastforce
  have "map_of r ''grades'' = Some (JArray [JObject fe, JObject cu])" using r(5) gs fe(1) cu(1) by metis
  then show ?thesis using r(1-4) fe(2,3) cu(2,3) by blast
qed

theorem sample_client_is_served_witness:
  "\<exists>r. answer demo_libc (\<lambda>_. Inr (gradeRequest client_default)) ''x'' = Some (JObject r) \<and> map_of r ''requestID'' = Some (JString ''1'')"
proof -
  have t: "regex_search timestamp_regex (cc_start client_default)" "regex_search timestamp_regex (cc_end client_default)"
    by code_simp+
  have s: "StringToTimeval demo_libc (cc_start client_default) = Inr \<lparr>tv_sec = 1563401820, tv_usec = 0\<rparr>"
    "StringToTimeval demo_libc (cc_end client_default) = Inr \<lparr>tv_sec = 1563401940, tv_usec = 0\<rparr>" by code_simp+
  have o: "\<not> timer_after \<lparr>tv_sec = 1563401820, tv_usec = 0\<rparr> \<lparr>tv_sec = 1563401940, tv_usec = 0\<rparr>" by (simp add: timer_after_def)
  show ?thesis
    using sample_client_is_served [of "\<lambda>_. Inr (gradeRequest client_default)" "\<lambda>_. ''x''" client_default demo_libc, OF _ t s o]
    by (auto simp: client_default_def)
qed

end
