(* ===== verification/WebSocketServerProperties.thy ===== *)
theory WebSocketServerProperties
  imports WebSocketServer HandshakeProperties
begin

section \<open>Properties of the WebSocket server\<close>

text \<open>
  What the interleaving of the server's threads guarantees: the set of clients is exact, and \<open>stop\<close>
  leaves no thread and no descriptor of a handled connection. And what it does not: the limit on
  connections, the closing of every client by \<open>stop\<close>, and the ownership of descriptors.
\<close>

subsection \<open>The set of clients\<close>

definition is_client :: "ws_local \<Rightarrow> bool" where
  "is_client l \<longleftrightarrow> l = WsInserted \<or> (\<exists>b. l = WsServing b) \<or> l = WsErase"

definition has_object :: "ws_local \<Rightarrow> bool" where
  "has_object l \<longleftrightarrow> l \<noteq> WsStart \<and> l \<noteq> WsDone"

definition clients_exact :: "(ws_local, 'z ws_shared) server \<Rightarrow> bool" where
  "clients_exact s \<longleftrightarrow> distinct (wg_clients (sv_shared s)) \<and>
     set (wg_clients (sv_shared s)) = th_conn ` {t \<in> set (sv_threads s). is_client (th_local t)} \<and>
     (\<forall>t \<in> set (sv_threads s). has_object (th_local t) \<longrightarrow> wg_objects (sv_shared s) (th_conn t) \<noteq> None) \<and>
     ''Cannot delete client'' \<notin> set (sv_log s)"

text \<open>What a step of a handler does to the clients, the objects and the log.\<close>

lemmas handler_splits = option.splits prod.splits handshake_result.splits run_end.splits if_splits

lemma handler_members:
  assumes "handleConnection W t g = Went t' g' fds lg"
  shows "wg_clients g' = (if th_local t = WsStart then wg_clients g @ [th_conn t]
           else if th_local t = WsErase then remove1 (th_conn t) (wg_clients g) else wg_clients g) \<and>
    (is_client (th_local t') \<longleftrightarrow> th_local t = WsStart \<or> is_client (th_local t) \<and> th_local t \<noteq> WsErase)"
  using assms by (cases "th_local t") (auto simp: handler_defs is_client_def split: handler_splits)

lemma handler_objects:
  assumes "handleConnection W t g = Went t' g' fds lg" "has_object (th_local t) \<longrightarrow> wg_objects g (th_conn t) \<noteq> None"
  shows "(has_object (th_local t') \<longrightarrow> wg_objects g' (th_conn t) \<noteq> None) \<and> (c \<noteq> th_conn t \<longrightarrow> wg_objects g' c = wg_objects g c)"
  using assms by (cases "th_local t") (auto simp: handler_defs has_object_def split: handler_splits)

lemma handler_log:
  assumes "handleConnection W t g = Went t' g' fds lg" "th_local t = WsErase \<longrightarrow> th_conn t \<in> set (wg_clients g)"
  shows "''Cannot delete client'' \<notin> set lg"
  using assms by (cases "th_local t") (auto simp: handler_defs split: handler_splits)

lemma update_members:
  assumes "i < length ts" "distinct (map th_conn ts)" "th_conn t = th_conn (ts ! i)"
  shows "th_conn ` {u \<in> set (ts[i := t]). P (th_local u)} =
    th_conn ` {u \<in> set ts. P (th_local u)} - {th_conn t} \<union> (if P (th_local t) then {th_conn t} else {})"
proof -
  have other: "th_conn u \<noteq> th_conn t" if "u \<in> set ts" "u \<noteq> ts ! i" for u
    using that assms by (metis distinct_map inj_onD nth_mem)
  have in_upd: "u \<in> set (ts[i := t]) \<longleftrightarrow> u = t \<or> u \<in> set ts \<and> u \<noteq> ts ! i" for u
  proof -
    have "distinct ts" using assms(2) by (simp add: distinct_map)
    then show ?thesis using assms(1) by (auto simp: set_update_distinct)
  qed
  show ?thesis using other assms(1,3) unfolding in_upd by (auto simp: image_iff split: if_splits) metis+
qed

lemma clients_accept:
  assumes "accept_step (WebSocketServer W) strerr s s'" "clients_exact s"
  shows "clients_exact s'"
  using assms
proof (induction rule: accept_step.induct)
  case (admitted s fd c)
  then show ?case
    by (auto simp: clients_exact_def logError_def admit_def ConnectionState_new_def)
next
  case (launched s fd c cs)
  then show ?case by (auto simp: clients_exact_def launch_def is_client_def has_object_def)
qed (auto simp: clients_exact_def logError_def)

lemma clients_subset:
  "clients_exact s \<Longrightarrow> set ts \<subseteq> set (sv_threads s) \<Longrightarrow>
   {t \<in> set ts. is_client (th_local t)} = {t \<in> set (sv_threads s). is_client (th_local t)} \<Longrightarrow> clients_exact (s\<lparr>sv_threads := ts\<rparr>)"
  by (auto simp: clients_exact_def)

lemma clients_gc:
  assumes "gc_step (WebSocketServer W) s s'" "clients_exact s"
  shows "clients_exact s'"
  using assms
proof (induction rule: gc_step.induct)
  case (scanning s i s')
  show ?case using scanning(2)
  proof (cases rule: scan_cases)
    case 3
    let ?ts = "take i (sv_threads s) @ drop (i + 1) (sv_threads s)"
    have sub: "set ?ts \<subseteq> set (sv_threads s)" by (auto dest: in_set_takeD in_set_dropD)
    have "t \<in> set ?ts" if "t \<in> set (sv_threads s)" "is_client (th_local t)" for t
    proof (rule ccontr)
      assume "t \<notin> set ?ts"
      then have "t = sv_threads s ! i" using wss.removed_thread [OF 3(2) that(1)] by blast
      then show False using that(2) 3(3) by (simp add: is_client_def)
    qed
    then have "{t \<in> set ?ts. is_client (th_local t)} = {t \<in> set (sv_threads s). is_client (th_local t)}" using sub by blast
    then show ?thesis using clients_subset [OF scanning(3) sub] unfolding 3(1) by blast
  qed (use scanning in \<open>auto simp: clients_exact_def\<close>)
qed (auto simp: clients_exact_def)

lemma clients_owner:
  assumes "owner_step (WebSocketServer W) s s'" "clients_exact s" "server_inv s"
  shows "clients_exact s'"
  using assms
proof (induction rule: owner_step.induct)
  case (close_client s g fds)
  then show ?case
    by (auto simp: clients_exact_def stop_next_def Let_def put_object_def split: list.splits option.splits)
next
  case (stop_return s g fds)
  then have "sv_threads s = []" by (simp add: server_inv_def)
  then show ?case using stop_return by (auto simp: clients_exact_def stop_end_def)
qed (auto simp: clients_exact_def server_start_def stopAcceptingConnections_def stop_begin_def Let_def)

lemma clients_handler:
  assumes "handler_step (WebSocketServer W) s s'" "clients_exact s" "distinct (map th_conn (sv_threads s))"
  shows "clients_exact s'"
  using assms
proof (induction rule: handler_step.induct)
  case (went i s t g fds lg)
  let ?t = "sv_threads s ! i"
  have h: "handleConnection W ?t (sv_shared s) = Went t g fds lg" using went(2) by simp
  have id: "th_conn t = th_conn ?t" using wss.step_identity [OF went(2)] by simp
  have mem: "?t \<in> set (sv_threads s)" using went(1) by simp
  note cl = went(3) [unfolded clients_exact_def]
  have client: "th_conn ?t \<in> set (wg_clients (sv_shared s)) \<longleftrightarrow> is_client (th_local ?t)"
  proof -
    have "u = ?t" if "u \<in> set (sv_threads s)" "th_conn u = th_conn ?t" for u
      using that went(4) mem by (metis distinct_map inj_onD)
    then show ?thesis using cl mem by (auto simp: image_iff)
  qed
  note m = handler_members [OF h]
  have o: "has_object (th_local ?t) \<longrightarrow> wg_objects (sv_shared s) (th_conn ?t) \<noteq> None" using cl mem by blast
  have "distinct (wg_clients g)" using m cl client by (auto simp: is_client_def)
  moreover have "set (wg_clients g) = th_conn ` {u \<in> set ((sv_threads s)[i := t]). is_client (th_local u)}"
    unfolding update_members [OF went(1,4) id] using m cl client by (auto simp: is_client_def id)
  moreover have "\<forall>u \<in> set ((sv_threads s)[i := t]). has_object (th_local u) \<longrightarrow> wg_objects g (th_conn u) \<noteq> None"
  proof
    fix u assume u: "u \<in> set ((sv_threads s)[i := t])"
    show "has_object (th_local u) \<longrightarrow> wg_objects g (th_conn u) \<noteq> None"
    proof (cases "th_conn u = th_conn ?t")
      case True
      have "distinct (map th_conn ((sv_threads s)[i := t]))" using wss.went_conns [OF went(1,2)] went(4) by simp
      moreover have "t \<in> set ((sv_threads s)[i := t])" using went(1) by (rule set_update_memI)
      ultimately have "u = t" using u True id by (metis distinct_map inj_onD)
      then show ?thesis using handler_objects [OF h o] id by simp
    next
      case False
      then have "u \<in> set (sv_threads s)" using u id set_update_subset_insert [of "sv_threads s" i t] by auto
      then show ?thesis using handler_objects [OF h o] False cl by auto
    qed
  qed
  moreover have "''Cannot delete client'' \<notin> set lg" using handler_log [OF h] client by (simp add: is_client_def)
  ultimately show ?case using cl by (simp add: clients_exact_def)
qed (simp add: clients_exact_def)

lemma clients_reachable:
  assumes "server_reachable (WebSocketServer W) strerr (WebSocketServer_new p h b m secs) s"
  shows "clients_exact s"
  using assms unfolding WebSocketServer_new_def
proof (induction rule: server_reachable.induct)
  case (listening os)
  then show ?case by (simp add: clients_exact_def WebSocketServer_shared_def)
next
  case (stepped s s')
  have "server_inv s" by (rule server_inv_reachable [OF stepped(1)])
  moreover have "distinct (map th_conn (sv_threads s))"
    using wss.numbered_reachable [OF stepped(1)] by (simp add: wss.numbered_def)
  ultimately show ?case
    using stepped clients_accept clients_gc clients_owner clients_handler unfolding server_step_def by blast
qed

text \<open>
  C5. The set of clients is exact: in every state the server's threads can reach, whatever peers and
  system do, the clients are the connections whose handler has entered itself and not yet removed
  itself, each once; removing never fails; and every handler past its start finds its object.
\<close>

theorem clients_are_the_served_connections:
  assumes "server_reachable (WebSocketServer W) strerr (WebSocketServer_new p h b m secs) s"
  shows "distinct (getClients (sv_shared s)) \<and>
    set (getClients (sv_shared s)) =
      th_conn ` {t \<in> set (sv_threads s). th_local t \<in> {WsInserted, WsServing True, WsServing False, WsErase}} \<and>
    ''Cannot delete client'' \<notin> set (sv_log s) \<and>
    (\<forall>t \<in> set (sv_threads s). th_local t \<notin> {WsStart, WsDone} \<longrightarrow> wg_objects (sv_shared s) (th_conn t) \<noteq> None)"
proof -
  have "is_client l \<longleftrightarrow> l \<in> {WsInserted, WsServing True, WsServing False, WsErase}" for l
    by (cases l) (auto simp: is_client_def)
  then show ?thesis using clients_reachable [OF assms] by (simp add: clients_exact_def getClients_def has_object_def)
qed

text \<open>
  C35. When \<open>stop\<close> returns, nothing is left running: the accepting and the collecting thread have been
  joined, every connection thread has finished and been joined, the set of clients is empty, and the
  only descriptors still open are those of connections that were accepted while the stop was
  requested and dropped without a handler.
\<close>

theorem stop_leaves_nothing:
  assumes "server_reachable (WebSocketServer W) strerr (WebSocketServer_new p h b m secs) s" "sv_stopper s = StopFinish"
  shows "sv_threads s = [] \<and> sv_accept s = AcceptNone \<and> sv_gc s = GcNone \<and> getClients (sv_shared s) = [] \<and>
    (\<forall>fd c. sv_fds s fd = Some (Connection c) \<longrightarrow> c \<in> set (sv_dropped s))"
  using wss.stopped_clean [OF assms(1) [unfolded WebSocketServer_new_def] assms(2)] clients_reachable [OF assms(1)]
  by (simp add: clients_exact_def getClients_def)

text \<open>
  C36. And \<open>stop\<close> does return once the handlers have: from every state in which it waits for the
  collector and all connection threads are finished, the collector joins them and ends, and \<open>stop\<close>
  comes to its end.
\<close>

theorem stop_returns:
  assumes "server_reachable (WebSocketServer W) strerr (WebSocketServer_new p h b m secs) s" "sv_stopper s = StopJoinGc"
    and "\<not> sv_aborted s" "\<forall>t \<in> set (sv_threads s). th_local t = WsDone"
  shows "\<exists>s'. (server_step (WebSocketServer W) strerr)\<^sup>*\<^sup>* s s' \<and> sv_stopper s' = StopIdle \<and> sv_threads s' = []"
  using wss.stop_completes [OF assms(1) [unfolded WebSocketServer_new_def] assms(2,3)] assms(4) by simp

subsection \<open>Runs\<close>

text \<open>The states in which the server accepts and nobody stops it, and the runs from them.\<close>

definition idle :: "('l, 'g) server \<Rightarrow> bool" where
  "idle s \<longleftrightarrow> sv_accept s = AcceptTop \<and> \<not> sv_stop s \<and> sv_gc s = GcTop \<and> sv_stopper s = StopIdle \<and> \<not> sv_aborted s \<and> finite (dom (sv_fds s))"

lemma close_fds_nil [simp]: "close_fds [] s = s"
proof -
  have "sv_fds s |` UNIV = sv_fds s" by (simp add: restrict_map_def)
  then show ?thesis by (simp add: close_fds_def)
qed

lemma reach_accept:
  "server_reachable C strerr s0 s \<Longrightarrow> accept_step C strerr s s' \<Longrightarrow> \<not> sv_aborted s \<Longrightarrow> server_reachable C strerr s0 s'"
  by (blast intro: stepped [unfolded server_step_def])

lemma reach_owner:
  "server_reachable C strerr s0 s \<Longrightarrow> owner_step C s s' \<Longrightarrow> \<not> sv_aborted s \<Longrightarrow> server_reachable C strerr s0 s'"
  by (blast intro: stepped [unfolded server_step_def])

lemma reach_handler:
  "server_reachable C strerr s0 s \<Longrightarrow> i < length (sv_threads s) \<Longrightarrow> sc_step C (sv_threads s ! i) (sv_shared s) = Went t g fds lg \<Longrightarrow>
   \<not> sv_aborted s \<Longrightarrow>
   server_reachable C strerr s0 (close_fds fds (s\<lparr>sv_threads := (sv_threads s)[i := t], sv_shared := g, sv_log := sv_log s @ lg\<rparr>))"
  by (blast intro: stepped [unfolded server_step_def] went)

lemma started:
  fixes C :: "('l, 'g) server_class"
  assumes "os = \<lparr>os_socket = Inr fd, os_setsockopt = None, os_bind = None, os_listen = None\<rparr>"
  shows "\<exists>s. server_reachable C strerr (SocketServer_new p h b m g) s \<and> idle s \<and> sv_threads s = [] \<and> sv_shared s = g \<and>
    sv_maxConnections s = m \<and> sv_accepted s = 0 \<and> sv_fds s = [fd \<mapsto> Listener]"
proof -
  let ?s = "snd (server_listen strerr os (SocketServer_new p h b m g)) :: ('l, 'g) server"
  have "server_reachable C strerr (SocketServer_new p h b m g) (server_start ?s)"
    by (rule reach_owner [OF listening start]) simp_all
  moreover have "sv_fds ?s = [fd \<mapsto> Listener]" by (simp add: assms server_listen_def SocketServer_new_def)
  ultimately show ?thesis by (intro exI [of _ "server_start ?s"]) (simp add: server_start_def idle_def Let_def)
qed

lemma accepts_one:
  assumes r: "server_reachable C strerr s0 s" and i: "idle s" and fd: "fd \<ge> 0" "sv_fds s fd = None"
    and room: "sc_count C (sv_shared s) < sv_maxConnections s"
  shows "\<exists>cs s'. server_reachable C strerr s0 s' \<and> idle s' \<and> sv_shared s' = sv_shared s \<and> sv_maxConnections s' = sv_maxConnections s \<and>
    sv_accepted s' = sv_accepted s + 1 \<and> sv_fds s' = (sv_fds s)(fd \<mapsto> Connection (sv_accepted s)) \<and>
    sv_threads s' = sv_threads s @ [\<lparr>th_fd = fd, th_conn = sv_accepted s, th_state = cs, th_local = sc_local C\<rparr>]"
proof -
  let ?c = "sv_accepted s"
  obtain cs gid where cs: "ConnectionState_new (sv_globalId s) = (cs, gid)" by fastforce
  let ?s2 = "s\<lparr>sv_accept := Accepted fd ?c, sv_accepted := ?c + 1, sv_fds := (sv_fds s)(fd \<mapsto> Connection ?c)\<rparr>"
  let ?s3 = "?s2\<lparr>sv_globalId := gid, sv_accept := Counted fd ?c cs\<rparr>"
  have 1: "server_reachable C strerr s0 (s\<lparr>sv_accept := AcceptPoll\<rparr>)"
    using reach_accept [OF r go_on] i by (simp add: idle_def)
  have 2: "server_reachable C strerr s0 ?s2"
    using reach_accept [OF 1 accepted [of "s\<lparr>sv_accept := AcceptPoll\<rparr>" fd]] i fd by (simp add: idle_def)
  have "admit C fd ?c ?s2 = ?s3" using room cs by (simp add: admit_def)
  then have 3: "server_reachable C strerr s0 ?s3"
    using reach_accept [OF 2 admitted [of ?s2 fd ?c]] i by (simp add: idle_def)
  have 4: "server_reachable C strerr s0 (?s3\<lparr>sv_accept := AcceptPush fd ?c cs\<rparr>)"
    using reach_accept [OF 3 kept [of ?s3 fd ?c cs]] i by (simp add: idle_def)
  have 5: "server_reachable C strerr s0 (launch C fd ?c cs (?s3\<lparr>sv_accept := AcceptPush fd ?c cs\<rparr>))"
    using reach_accept [OF 4 launched [of "?s3\<lparr>sv_accept := AcceptPush fd ?c cs\<rparr>" fd ?c cs]] i by (simp add: idle_def)
  then show ?thesis using i
    by (intro exI [of _ cs] exI [of _ "launch C fd ?c cs (?s3\<lparr>sv_accept := AcceptPush fd ?c cs\<rparr>)"]) (simp add: launch_def idle_def)
qed

lemma fresh_fd: "finite A \<Longrightarrow> \<exists>fd :: int. fd \<ge> 0 \<and> fd \<notin> A"
proof -
  assume "finite A"
  moreover have "infinite (range int)" by (simp add: finite_image_iff)
  ultimately show ?thesis by (metis finite_subset imageE of_nat_0_le_iff subsetI)
qed

subsection \<open>The limit on connections\<close>

text \<open>Connections that are accepted before their handlers have run.\<close>

lemma waiting_connections:
  assumes "0 < m"
  shows "\<exists>s. server_reachable (WebSocketServer W) strerr (WebSocketServer_new p h b m secs) s \<and> idle s \<and> length (sv_threads s) = n \<and>
    (\<forall>t \<in> set (sv_threads s). th_local t = WsStart) \<and> getClients (sv_shared s) = [] \<and> sv_maxConnections s = m"
  unfolding WebSocketServer_new_def
proof (induction n)
  case 0
  then show ?case
    using started [OF refl, of "WebSocketServer W" strerr p h b m "WebSocketServer_shared secs" 3]
    by (auto simp: WebSocketServer_shared_def getClients_def)
next
  case (Suc n)
  then obtain s where s: "server_reachable (WebSocketServer W) strerr (SocketServer_new p h b m (WebSocketServer_shared secs)) s" "idle s"
    "length (sv_threads s) = n" "\<forall>t \<in> set (sv_threads s). th_local t = WsStart" "getClients (sv_shared s) = []" "sv_maxConnections s = m" by blast
  obtain fd where fd: "fd \<ge> 0" "sv_fds s fd = None" using fresh_fd [of "dom (sv_fds s)"] s(2) by (auto simp: idle_def)
  have "sc_count (WebSocketServer W) (sv_shared s) < sv_maxConnections s"
    using s(5,6) assms by (simp add: getClients_def getConnectedClientsCount_def)
  from accepts_one [OF s(1,2) fd this] show ?case using s(3-6) by fastforce
qed

text \<open>Then they enter themselves one by one.\<close>

lemma waiting_connections_enter:
  assumes "server_reachable (WebSocketServer W) strerr s0 s" "\<not> sv_aborted s"
    and "\<forall>t \<in> set (sv_threads s). th_local t = WsStart" "getClients (sv_shared s) = []" "k \<le> length (sv_threads s)"
  shows "\<exists>s'. server_reachable (WebSocketServer W) strerr s0 s' \<and> \<not> sv_aborted s' \<and> sv_maxConnections s' = sv_maxConnections s \<and>
    length (sv_threads s') = length (sv_threads s) \<and> (\<forall>t \<in> set (drop k (sv_threads s')). th_local t = WsStart) \<and>
    length (getClients (sv_shared s')) = k"
  using assms(5)
proof (induction k)
  case 0
  then show ?case using assms by (auto simp: getClients_def)
next
  case (Suc k)
  then obtain u where u: "server_reachable (WebSocketServer W) strerr s0 u" "\<not> sv_aborted u" "sv_maxConnections u = sv_maxConnections s"
    "length (sv_threads u) = length (sv_threads s)" "\<forall>t \<in> set (drop k (sv_threads u)). th_local t = WsStart"
    "length (getClients (sv_shared u)) = k" by auto
  let ?t = "sv_threads u ! k"
  have k: "k < length (sv_threads u)" using u(4) Suc(2) by simp
  then have "?t \<in> set (drop k (sv_threads u))" by (metis Cons_nth_drop_Suc list.set_intros(1))
  then have "th_local ?t = WsStart" using u(5) by blast
  then obtain g where h: "sc_step (WebSocketServer W) ?t (sv_shared u) = Went (set_local WsInserted ?t) g [] []"
    and g: "wg_clients g = wg_clients (sv_shared u) @ [th_conn ?t]"
    by (simp add: handleConnection_def handle_start_def Let_def put_object_def)
  let ?u = "close_fds [] (u\<lparr>sv_threads := (sv_threads u)[k := set_local WsInserted ?t], sv_shared := g, sv_log := sv_log u @ []\<rparr>)"
  have "server_reachable (WebSocketServer W) strerr s0 ?u" using reach_handler [OF u(1) k h u(2)] .
  moreover have "\<forall>t \<in> set (drop (Suc k) (sv_threads ?u)). th_local t = WsStart"
    using u(5) set_drop_subset_set_drop [of k "Suc k" "sv_threads u"] by auto
  ultimately show ?case using u g by (intro exI [of _ ?u]) (simp add: getClients_def)
qed

text \<open>
  The limit on connections is not enforced: the accepting thread compares it with the number of
  clients, which enter themselves later, so that whatever the limit, any number of connections can
  be served at the same time.
\<close>

theorem connection_limit_not_enforced:
  assumes "0 < m"
  shows "\<exists>s. server_reachable (WebSocketServer W) strerr (WebSocketServer_new p h b m secs) s \<and>
    sv_maxConnections s = m \<and> getConnectedClientsCount (sv_shared s) = n"
proof -
  obtain s where s: "server_reachable (WebSocketServer W) strerr (WebSocketServer_new p h b m secs) s" "idle s" "length (sv_threads s) = n"
    "\<forall>t \<in> set (sv_threads s). th_local t = WsStart" "getClients (sv_shared s) = []" "sv_maxConnections s = m"
    using waiting_connections [OF assms] by blast
  have "\<not> sv_aborted s" using s(2) by (simp add: idle_def)
  from waiting_connections_enter [OF s(1) this s(4,5), of n] show ?thesis
    using s(3,6) by (auto simp: getClients_def getConnectedClientsCount_def)
qed

subsection \<open>Stopping while a client connects\<close>

text \<open>The object of a new connection, before its handshake.\<close>

definition new_client :: "'z ws_world \<Rightarrow> bool \<Rightarrow> nat \<Rightarrow> 'z websocket" where
  "new_client W pong c =
     ws_setPong pong (setAutomaticReconnection False (wd_onConnection W c (WebSocket_new (wd_transport W c))))"

lemma first_client:
  assumes "0 < m" "fd \<ge> 0" "fd \<noteq> lfd"
  shows "\<exists>s t. server_reachable (WebSocketServer W) strerr (WebSocketServer_new p h b m secs) s \<and> idle s \<and> sv_threads s = [t] \<and>
    th_fd t = fd \<and> th_conn t = 0 \<and> th_local t = WsInserted \<and> sv_fds s = [lfd \<mapsto> Listener, fd \<mapsto> Connection 0] \<and>
    sv_accepted s = 1 \<and> sv_maxConnections s = m \<and>
    sv_shared s = \<lparr>wg_handshakeTimeoutSecs = secs, wg_enablePong = True, wg_clients = [0], wg_objects = [0 \<mapsto> new_client W True 0],
      wg_snapshot = [], wg_todo = []\<rparr>"
proof -
  obtain s where s: "server_reachable (WebSocketServer W) strerr (WebSocketServer_new p h b m secs) s" "idle s" "sv_threads s = []"
    "sv_shared s = WebSocketServer_shared secs" "sv_maxConnections s = m" "sv_accepted s = 0" "sv_fds s = [lfd \<mapsto> Listener]"
    using started [OF refl, of "WebSocketServer W" strerr p h b m "WebSocketServer_shared secs" lfd]
    unfolding WebSocketServer_new_def by blast
  have c: "sv_fds s fd = None" "sc_count (WebSocketServer W) (sv_shared s) < sv_maxConnections s"
    using s assms by (simp_all add: getConnectedClientsCount_def WebSocketServer_shared_def)
  obtain cs u where u: "server_reachable (WebSocketServer W) strerr (WebSocketServer_new p h b m secs) u" "idle u" "sv_shared u = sv_shared s"
    "sv_maxConnections u = sv_maxConnections s" "sv_accepted u = sv_accepted s + 1" "sv_fds u = (sv_fds s)(fd \<mapsto> Connection (sv_accepted s))"
    "sv_threads u = sv_threads s @ [\<lparr>th_fd = fd, th_conn = sv_accepted s, th_state = cs, th_local = sc_local (WebSocketServer W)\<rparr>]"
    using accepts_one [OF s(1,2) assms(2) c] by blast
  let ?t = "\<lparr>th_fd = fd, th_conn = 0, th_state = cs, th_local = WsStart\<rparr>"
  have ts: "sv_threads u = [?t]" using u(7) s(3,6) by simp
  let ?g = "\<lparr>wg_handshakeTimeoutSecs = secs, wg_enablePong = True, wg_clients = [0], wg_objects = [0 \<mapsto> new_client W True 0],
      wg_snapshot = [], wg_todo = []\<rparr>"
  have h: "sc_step (WebSocketServer W) (sv_threads u ! 0) (sv_shared u) = Went (set_local WsInserted ?t) ?g [] []"
    using ts u(3) s(4) by (simp add: handleConnection_def handle_start_def Let_def put_object_def new_client_def WebSocketServer_shared_def)
  let ?u = "close_fds [] (u\<lparr>sv_threads := (sv_threads u)[0 := set_local WsInserted ?t], sv_shared := ?g, sv_log := sv_log u @ []\<rparr>)"
  have "server_reachable (WebSocketServer W) strerr (WebSocketServer_new p h b m secs) ?u"
    using reach_handler [OF u(1) _ h] ts u(2) by (simp add: idle_def)
  moreover have "sv_fds u = [lfd \<mapsto> Listener, fd \<mapsto> Connection 0]" using u(6) s(6,7) by simp
  ultimately show ?thesis using u(2,4,5) s(5,6) ts
    by (intro exI [of _ ?u] exI [of _ "set_local WsInserted ?t"]) (simp add: idle_def set_local_def)
qed

text \<open>\<open>stop\<close> up to its loop over the clients, and from there to the point where it waits for the collector.\<close>

lemma stop_begins:
  assumes r: "server_reachable (WebSocketServer W) strerr s0 s" and i: "idle s"
  shows "\<exists>s'. server_reachable (WebSocketServer W) strerr s0 s' \<and> sv_stopper s' = StopClients \<and> \<not> sv_aborted s' \<and>
    sv_accept s' = AcceptTop \<and> sv_gc s' = GcTop \<and> sv_stop s' \<and> sv_threads s' = sv_threads s \<and> sv_shared s' = stop_begin (sv_shared s)"
proof -
  let ?s1 = "s\<lparr>sv_stop := True, sv_stopper := StopSnapshot\<rparr>"
  let ?s2 = "?s1\<lparr>sv_shared := stop_begin (sv_shared s), sv_stopper := StopClients\<rparr>"
  have 1: "server_reachable (WebSocketServer W) strerr s0 ?s1"
    using reach_owner [OF r stop_call] i by (simp add: stopAcceptingConnections_def idle_def)
  have 2: "server_reachable (WebSocketServer W) strerr s0 ?s2" using reach_owner [OF 1 snapshot] i by (simp add: idle_def)
  show ?thesis using 2 i by (intro exI [of _ ?s2]) (simp add: idle_def)
qed

lemma stop_joins:
  assumes r: "server_reachable (WebSocketServer W) strerr s0 s"
    and i: "sv_stopper s = StopClients" "wg_todo (sv_shared s) = []" "\<not> sv_aborted s" "sv_accept s = AcceptTop" "sv_gc s = GcTop" "sv_stop s"
  shows "\<exists>s'. server_reachable (WebSocketServer W) strerr s0 s' \<and> sv_stopper s' = StopJoinGc \<and> \<not> sv_aborted s' \<and>
    sv_threads s' = sv_threads s \<and> sv_shared s' = sv_shared s"
proof -
  let ?C = "WebSocketServer W"
  let ?s4 = "s\<lparr>sv_stopper := StopAccept\<rparr>"
  let ?s5 = "?s4\<lparr>sv_stop := True, sv_stopper := StopJoinAccept\<rparr>"
  let ?s6 = "?s5\<lparr>sv_accept := AcceptEnded\<rparr>"
  let ?s7 = "?s6\<lparr>sv_accept := AcceptNone, sv_stop := False, sv_stopper := StopGc\<rparr>"
  let ?s8 = "?s7\<lparr>sv_stopGc := True, sv_stopper := StopJoinGc\<rparr>"
  have 4: "server_reachable ?C strerr s0 ?s4" using reach_owner [OF r clients_closed] i by (simp add: stop_next_def)
  have 5: "server_reachable ?C strerr s0 ?s5" using reach_owner [OF 4 stop_accept [of ?s4 ?C]] i by simp
  have 6: "server_reachable ?C strerr s0 ?s6" using reach_accept [OF 5 accept_step.stopped [of ?s5]] i by simp
  have 7: "server_reachable ?C strerr s0 ?s7" using reach_owner [OF 6 join_accept [of ?s6 ?C]] i by simp
  have 8: "server_reachable ?C strerr s0 ?s8" using reach_owner [OF 7 stop_gc [of ?s7 ?C]] i by simp
  show ?thesis using 8 i by (intro exI [of _ ?s8]) simp
qed

lemma stop_reaches_join:
  assumes r: "server_reachable (WebSocketServer W) strerr s0 s" and i: "idle s"
    and g: "wg_clients (sv_shared s) = [0]" "wg_objects (sv_shared s) 0 = Some w"
  defines "w1 \<equiv> ws_close (wd_env W) kNormalClosureCode kNormalClosureMessage w"
  shows "\<exists>s'. server_reachable (WebSocketServer W) strerr s0 s' \<and> sv_stopper s' = StopJoinGc \<and> \<not> sv_aborted s' \<and>
    sv_threads s' = sv_threads s \<and>
    sv_shared s' = (sv_shared s)\<lparr>wg_snapshot := [0], wg_todo := [], wg_objects := (wg_objects (sv_shared s))(0 \<mapsto> w1)\<rparr>"
proof -
  obtain u where u: "server_reachable (WebSocketServer W) strerr s0 u" "sv_stopper u = StopClients" "\<not> sv_aborted u" "sv_accept u = AcceptTop"
    "sv_gc u = GcTop" "sv_stop u" "sv_threads u = sv_threads s" "sv_shared u = stop_begin (sv_shared s)"
    using stop_begins [OF r i] by blast
  let ?g = "(sv_shared s)\<lparr>wg_snapshot := [0], wg_todo := [], wg_objects := (wg_objects (sv_shared s))(0 \<mapsto> w1)\<rparr>"
  let ?v = "close_fds (newly_closed w w1) (u\<lparr>sv_shared := ?g\<rparr>)"
  have "sc_stopNext (WebSocketServer W) (sv_shared u) = Some (?g, newly_closed w w1)"
    using g u(8) by (simp add: stop_next_def Let_def put_object_def w1_def stop_begin_def getClients_def)
  then have v: "server_reachable (WebSocketServer W) strerr s0 ?v" using reach_owner [OF u(1) close_client] u by simp
  show ?thesis using stop_joins [OF v] u by simp
qed

lemma ws_connectToSocket_open:
  assumes "ws_connectToSocket env a fd secs w = Some (Init status, w1)" "init_success status"
  shows "readyState (ws_transport w1) = OPEN"
proof -
  obtain rt where c: "connectToSocket env a fd secs (ws_configure w) = Some rt" "after_connect rt w = (Init status, w1)"
    using assms(1) by (auto simp: ws_connectToSocket_def bind_eq_Some_conv)
  have f: "fst rt = Init status" "ws_transport w1 = snd rt"
    using c(2) by (auto simp: after_connect_def Let_def split: handshake_result.splits if_splits)
  have "readyState (snd rt) = (if succeeded (fst rt) then OPEN else readyState (ws_configure w))"
    using connect_state(2) [of env a _ _ secs "ws_configure w" "fst rt" "snd rt" fd] c(1) by simp
  then show ?thesis using f assms(2) by (simp add: succeeded_def)
qed

text \<open>
  \<open>stop\<close> can wait for a client it has closed: a client that is in the set but has not begun its
  handshake is closed without effect, since closing only raises the cancellation flag of the
  handshake, which the handshake clears when it begins. If the handshake then succeeds, \<open>stop\<close> has
  been through all its clients and waits for a connection that is open and has not been told to close.
\<close>

theorem stop_waits_for_open_client:
  assumes "0 < m" "fd \<ge> 0" "fd \<noteq> lfd"
    and "ws_connectToSocket (wd_env W) (wd_attempt W 0) fd secs
           (ws_close (wd_env W) kNormalClosureCode kNormalClosureMessage (new_client W True 0)) = Some (Init status, w1)"
    and "init_success status"
  shows "\<exists>s t. server_reachable (WebSocketServer W) strerr (WebSocketServer_new p h b m secs) s \<and>
    sv_stopper s = StopJoinGc \<and> wg_snapshot (sv_shared s) = [0] \<and> wg_todo (sv_shared s) = [] \<and>
    sv_threads s = [t] \<and> th_conn t = 0 \<and> th_local t = WsServing True \<and>
    wg_objects (sv_shared s) 0 = Some w1 \<and> readyState (ws_transport w1) = OPEN"
proof -
  obtain s t where s: "server_reachable (WebSocketServer W) strerr (WebSocketServer_new p h b m secs) s" "idle s" "sv_threads s = [t]"
    "th_fd t = fd" "th_conn t = 0" "th_local t = WsInserted"
    "sv_shared s = \<lparr>wg_handshakeTimeoutSecs = secs, wg_enablePong = True, wg_clients = [0], wg_objects = [0 \<mapsto> new_client W True 0],
      wg_snapshot = [], wg_todo = []\<rparr>"
    using first_client [OF assms(1-3)] by blast
  have g: "wg_clients (sv_shared s) = [0]" "wg_objects (sv_shared s) 0 = Some (new_client W True 0)" using s(7) by simp_all
  obtain u where u: "server_reachable (WebSocketServer W) strerr (WebSocketServer_new p h b m secs) u" "sv_stopper u = StopJoinGc"
    "\<not> sv_aborted u" "sv_threads u = sv_threads s"
    "sv_shared u = (sv_shared s)\<lparr>wg_snapshot := [0], wg_todo := [], wg_objects := (wg_objects (sv_shared s))(0 \<mapsto>
       ws_close (wd_env W) kNormalClosureCode kNormalClosureMessage (new_client W True 0))\<rparr>"
    using stop_reaches_join [OF s(1,2) g] by blast
  have h: "sc_step (WebSocketServer W) (sv_threads u ! 0) (sv_shared u) =
      Went (set_local (WsServing True) t) (put_object 0 w1 (sv_shared u)) [] []"
    using assms(4,5) u(4,5) s(3-7) by (simp add: handleConnection_def handle_connect_def)
  have "server_reachable (WebSocketServer W) strerr (WebSocketServer_new p h b m secs)
      (close_fds [] (u\<lparr>sv_threads := (sv_threads u)[0 := set_local (WsServing True) t], sv_shared := put_object 0 w1 (sv_shared u),
         sv_log := sv_log u @ []\<rparr>))" (is "server_reachable _ _ _ ?v")
    using reach_handler [OF u(1) _ h u(3)] u(4) s(3) by simp
  then show ?thesis using u s ws_connectToSocket_open [OF assms(4,5)]
    by (intro exI [of _ ?v] exI [of _ "set_local (WsServing True) t"]) (simp add: set_local_def put_object_def)
qed

subsection \<open>Descriptors closed twice\<close>

lemma idle_handler: "idle s \<Longrightarrow> idle (close_fds fds (s\<lparr>sv_threads := ts, sv_shared := g, sv_log := lg\<rparr>))"
  by (auto simp: idle_def close_fds_def)

lemma handler_goes:
  assumes "server_reachable C strerr s0 s" "idle s" "sv_threads s = [t]" "sc_step C t (sv_shared s) = Went t' g fds lg"
  shows "\<exists>s'. server_reachable C strerr s0 s' \<and> idle s' \<and> sv_threads s' = [t'] \<and> sv_shared s' = g \<and>
    sv_fds s' = sv_fds s |` (- set fds) \<and> sv_accepted s' = sv_accepted s \<and> sv_maxConnections s' = sv_maxConnections s"
proof -
  let ?s = "close_fds fds (s\<lparr>sv_threads := (sv_threads s)[0 := t'], sv_shared := g, sv_log := sv_log s @ lg\<rparr>)"
  have "server_reachable C strerr s0 ?s" using reach_handler [OF assms(1), of 0] assms by (simp add: idle_def)
  moreover have "idle ?s" using assms(2) by (rule idle_handler)
  ultimately show ?thesis using assms(3) by (intro exI [of _ ?s]) (simp add: close_fds_def)
qed

text \<open>A handler whose handshake failed, up to the point where it has closed its descriptor and has
  still to destroy its object.\<close>

lemma failed_client:
  assumes "0 < m" "fd \<ge> 0" "fd \<noteq> lfd"
    and "ws_connectToSocket (wd_env W) (wd_attempt W 0) fd secs (new_client W True 0) = Some (Init status, w1)"
    and "\<not> init_success status"
  shows "\<exists>s t. server_reachable (WebSocketServer W) strerr (WebSocketServer_new p h b m secs) s \<and> idle s \<and> sv_threads s = [t] \<and>
    th_conn t = 0 \<and> th_local t = WsDestroy \<and> sv_fds s fd = None \<and> sv_accepted s = 1 \<and> sv_maxConnections s = m \<and>
    wg_clients (sv_shared s) = [] \<and> wg_objects (sv_shared s) 0 = Some w1 \<and> wg_snapshot (sv_shared s) = []"
proof -
  obtain s t where s: "server_reachable (WebSocketServer W) strerr (WebSocketServer_new p h b m secs) s" "idle s" "sv_threads s = [t]"
    and t: "th_fd t = fd" "th_conn t = 0" "th_local t = WsInserted" and n: "sv_accepted s = 1" "sv_maxConnections s = m"
    and g: "sv_shared s = \<lparr>wg_handshakeTimeoutSecs = secs, wg_enablePong = True, wg_clients = [0], wg_objects = [0 \<mapsto> new_client W True 0],
      wg_snapshot = [], wg_todo = []\<rparr>"
    using first_client [OF assms(1-3)] by blast
  let ?C = "WebSocketServer W" and ?init = "WebSocketServer_new p h b m secs"
  let ?g1 = "put_object 0 w1 (sv_shared s)"
  obtain lg where h1: "sc_step ?C t (sv_shared s) = Went (set_local WsErase t) ?g1 [] lg"
    using assms(4,5) g t by (simp add: handleConnection_def handle_connect_def)
  obtain s1 where s1: "server_reachable ?C strerr ?init s1" "idle s1" "sv_threads s1 = [set_local WsErase t]" "sv_shared s1 = ?g1"
    "sv_accepted s1 = 1" "sv_maxConnections s1 = m"
    using handler_goes [OF s h1] n by auto
  let ?g2 = "?g1\<lparr>wg_clients := []\<rparr>"
  have "sc_step ?C (set_local WsErase t) (sv_shared s1) = Went (set_local WsTerminate t) ?g2 [] []"
    using t g s1(4) by (simp add: handleConnection_def handle_erase_def set_local_def put_object_def)
  then obtain s2 where s2: "server_reachable ?C strerr ?init s2" "idle s2" "sv_threads s2 = [set_local WsTerminate t]" "sv_shared s2 = ?g2"
    "sv_accepted s2 = 1" "sv_maxConnections s2 = m"
    using handler_goes [OF s1(1-3)] s1(5,6) by auto
  let ?t3 = "set_local WsCloseFd (t\<lparr>th_state := setTerminated (th_state t)\<rparr>)"
  have "sc_step ?C (set_local WsTerminate t) (sv_shared s2) = Went ?t3 ?g2 [] [''WebSocketServer::handleConnection() done'']"
    using s2(4) by (simp add: handleConnection_def set_local_def)
  then obtain s3 where s3: "server_reachable ?C strerr ?init s3" "idle s3" "sv_threads s3 = [?t3]" "sv_shared s3 = ?g2"
    "sv_accepted s3 = 1" "sv_maxConnections s3 = m"
    using handler_goes [OF s2(1-3)] s2(5,6) by auto
  have "sc_step ?C ?t3 (sv_shared s3) = Went (set_local WsDestroy ?t3) ?g2 [fd] []"
    using s3(4) t by (simp add: handleConnection_def set_local_def)
  then obtain s4 where s4: "server_reachable ?C strerr ?init s4" "idle s4" "sv_threads s4 = [set_local WsDestroy ?t3]" "sv_shared s4 = ?g2"
    "sv_fds s4 = sv_fds s3 |` (- {fd})" "sv_accepted s4 = 1" "sv_maxConnections s4 = m"
    using handler_goes [OF s3(1-3)] s3(5,6) by auto
  then show ?thesis using t g
    by (intro exI [of _ s4] exI [of _ "set_local WsDestroy ?t3"]) (simp add: set_local_def put_object_def)
qed

text \<open>
  A handler can close the descriptor of another connection: after a failed handshake it closes
  its descriptor, and the destructor of its socket closes the same number once more. If a connection
  is accepted in between and gets that number, as the lowest free one, it is the new connection's
  descriptor that is closed, and its handler goes on without one.
\<close>

theorem handler_closes_foreign_descriptor:
  assumes "0 < m" "fd \<ge> 0" "fd \<noteq> lfd"
    and "ws_connectToSocket (wd_env W) (wd_attempt W 0) fd secs (new_client W True 0) = Some (Init status, w1)"
    and "\<not> init_success status" "fd \<in> set (destroyed_fds (wd_env W) w1)"
  shows "\<exists>s s' t u. server_reachable (WebSocketServer W) strerr (WebSocketServer_new p h b m secs) s \<and>
    sv_threads s = [t, u] \<and> th_conn t = 0 \<and> th_conn u = 1 \<and> th_fd u = fd \<and> th_local u = WsStart \<and> sv_fds s fd = Some (Connection 1) \<and>
    server_step (WebSocketServer W) strerr s s' \<and> sv_threads s' = [set_local WsDone t, u] \<and> sv_fds s' fd = None"
proof -
  obtain s t where s: "server_reachable (WebSocketServer W) strerr (WebSocketServer_new p h b m secs) s" "idle s" "sv_threads s = [t]"
    and t: "th_conn t = 0" "th_local t = WsDestroy" and f: "sv_fds s fd = None" and n: "sv_accepted s = 1" "sv_maxConnections s = m"
    and g: "wg_clients (sv_shared s) = []" "wg_objects (sv_shared s) 0 = Some w1" "wg_snapshot (sv_shared s) = []"
    using failed_client [OF assms(1-5)] by blast
  have "sc_count (WebSocketServer W) (sv_shared s) < sv_maxConnections s" using g(1) n(2) assms(1) by (simp add: getConnectedClientsCount_def)
  then obtain cs v where v: "server_reachable (WebSocketServer W) strerr (WebSocketServer_new p h b m secs) v" "idle v"
    "sv_shared v = sv_shared s" "sv_fds v = (sv_fds s)(fd \<mapsto> Connection 1)"
    "sv_threads v = [t, \<lparr>th_fd = fd, th_conn = 1, th_state = cs, th_local = WsStart\<rparr>]"
    using accepts_one [OF s(1,2) assms(2) f] s(3) n(1) by auto
  obtain g' where h: "sc_step (WebSocketServer W) (sv_threads v ! 0) (sv_shared v) =
      Went (set_local WsDone t) g' (destroyed_fds (wd_env W) w1) []"
    using v(3,5) t g by (simp add: handleConnection_def handle_destroy_def)
  let ?v = "close_fds (destroyed_fds (wd_env W) w1)
      (v\<lparr>sv_threads := (sv_threads v)[0 := set_local WsDone t], sv_shared := g', sv_log := sv_log v @ []\<rparr>)"
  have "server_step (WebSocketServer W) strerr v ?v"
    using went [OF _ h] v(2,5) unfolding server_step_def idle_def by simp
  then show ?thesis using v t assms(6)
    by (intro exI [of _ v] exI [of _ ?v] exI [of _ t] exI [of _ "\<lparr>th_fd = fd, th_conn = 1, th_state = cs, th_local = WsStart\<rparr>"]) simp
qed

subsection \<open>Concrete servers\<close>

definition demo_world :: "string attempt \<Rightarrow> string ws_world" where
  "demo_world a = \<lparr>wd_env = demo_env, wd_attempt = (\<lambda>_. a), wd_retry = (\<lambda>_. a), wd_unfit = (\<lambda>_. 0),
     wd_transport = (\<lambda>_. Transport_new demo_env MSG_TEXT demo_socket), wd_onConnection = (\<lambda>_ w. w)\<rparr>"

definition demo_attempt :: "int \<Rightarrow> string attempt" where
  "demo_attempt clock =
     \<lparr>at_henv = demo_henv\<lparr>h_clock := (\<lambda>_. clock), h_errClock := (\<lambda>_. clock)\<rparr>,
      at_pipe = \<lparr>pipe_ret = Some (5, 6), fcntl_read_ok = True, fcntl_write_ok = True, pipe_strerror = []\<rparr>,
      at_socket = (Socket_new (-1) (SelectInterruptPipe_new 8))\<lparr>sys_recvs := [RecvData (bytes_of demo_request)],
        sys_sends := [SendAccept (length demo_response)]\<rparr>\<rparr>"

theorem clients_are_the_served_connections_witness:
  "\<exists>s. server_reachable (WebSocketServer (demo_world (demo_attempt 0))) (\<lambda>_. []) (WebSocketServer_new 8080 ''127.0.0.1'' 5 32 3) s \<and>
     length (getClients (sv_shared s)) = 2 \<and> distinct (getClients (sv_shared s)) \<and> ''Cannot delete client'' \<notin> set (sv_log s)"
proof -
  let ?C = "WebSocketServer (demo_world (demo_attempt 0))" and ?init = "WebSocketServer_new 8080 ''127.0.0.1'' 5 32 3"
  obtain s where s: "server_reachable ?C (\<lambda>_. []) ?init s" "idle s" "length (sv_threads s) = 2"
    "\<forall>t \<in> set (sv_threads s). th_local t = WsStart" "getClients (sv_shared s) = []"
    using waiting_connections [of 32 "demo_world (demo_attempt 0)" "\<lambda>_. []" 8080 "''127.0.0.1''" 5 3 2] by auto
  have "\<not> sv_aborted s" using s(2) by (simp add: idle_def)
  from waiting_connections_enter [OF s(1) this s(4,5), of 2]
  obtain u where u: "server_reachable ?C (\<lambda>_. []) ?init u" "length (getClients (sv_shared u)) = 2" using s(3) by auto
  then show ?thesis using clients_are_the_served_connections [OF u(1)] by blast
qed

theorem stop_leaves_nothing_witness:
  "\<exists>s. server_reachable (WebSocketServer (demo_world (demo_attempt 0))) (\<lambda>_. []) (WebSocketServer_new 8080 ''127.0.0.1'' 5 32 3) s \<and>
     sv_stopper s = StopFinish \<and> sv_threads s = [] \<and> getClients (sv_shared s) = []"
proof -
  let ?C = "WebSocketServer (demo_world (demo_attempt 0))" and ?init = "WebSocketServer_new 8080 ''127.0.0.1'' 5 32 3 :: (ws_local, string ws_shared) server"
  let ?s = "snd (server_listen (\<lambda>_. []) \<lparr>os_socket = Inr 3, os_setsockopt = None, os_bind = None, os_listen = None\<rparr> ?init)"
  let ?s1 = "?s\<lparr>sv_stop := True, sv_stopper := StopSnapshot\<rparr>"
  let ?s2 = "?s1\<lparr>sv_shared := stop_begin (sv_shared ?s1), sv_stopper := StopClients\<rparr>"
  let ?s3 = "?s2\<lparr>sv_stopper := StopAccept\<rparr>"
  let ?s4 = "?s3\<lparr>sv_stopper := StopGc\<rparr>"
  let ?s5 = "?s4\<lparr>sv_stopper := StopFinish\<rparr>"
  note new = WebSocketServer_new_def WebSocketServer_shared_def
  have 1: "server_reachable ?C (\<lambda>_. []) ?init ?s1"
    by (rule reach_owner [OF listening stop_call, unfolded stopAcceptingConnections_def]) (simp_all add: new)
  have 2: "server_reachable ?C (\<lambda>_. []) ?init ?s2" using reach_owner [OF 1 snapshot] by (simp add: new)
  have 3: "server_reachable ?C (\<lambda>_. []) ?init ?s3"
    using reach_owner [OF 2 clients_closed] by (simp add: new stop_next_def stop_begin_def getClients_def)
  have 4: "server_reachable ?C (\<lambda>_. []) ?init ?s4" using reach_owner [OF 3 stop_accept [of ?s3 ?C]] by (simp add: new)
  have 5: "server_reachable ?C (\<lambda>_. []) ?init ?s5" using reach_owner [OF 4 stop_gc [of ?s4 ?C]] by (simp add: new)
  have f: "sv_stopper ?s5 = StopFinish" by simp
  show ?thesis using stop_leaves_nothing [OF 5 f] 5 f by blast
qed

theorem stop_returns_witness:
  "\<exists>s s'. server_reachable (WebSocketServer (demo_world (demo_attempt 0))) (\<lambda>_. []) (WebSocketServer_new 8080 ''127.0.0.1'' 5 32 3) s \<and>
     sv_stopper s = StopJoinGc \<and> (server_step (WebSocketServer (demo_world (demo_attempt 0))) (\<lambda>_. []))\<^sup>*\<^sup>* s s' \<and> sv_stopper s' = StopIdle"
proof -
  let ?C = "WebSocketServer (demo_world (demo_attempt 0))" and ?init = "WebSocketServer_new 8080 ''127.0.0.1'' 5 32 3"
  obtain s where s: "server_reachable ?C (\<lambda>_. []) ?init s" "idle s" "sv_threads s = []" "sv_shared s = WebSocketServer_shared 3"
    using started [OF refl, of ?C "\<lambda>_. []" 8080 "''127.0.0.1''" 5 32 "WebSocketServer_shared 3" 3]
    unfolding WebSocketServer_new_def by blast
  obtain u where u: "server_reachable ?C (\<lambda>_. []) ?init u" "sv_stopper u = StopClients" "\<not> sv_aborted u" "sv_accept u = AcceptTop"
    "sv_gc u = GcTop" "sv_stop u" "sv_threads u = sv_threads s" "sv_shared u = stop_begin (sv_shared s)"
    using stop_begins [OF s(1,2)] by blast
  have "wg_todo (sv_shared u) = []" using u(8) s(4) by (simp add: stop_begin_def getClients_def WebSocketServer_shared_def)
  then obtain v where v: "server_reachable ?C (\<lambda>_. []) ?init v" "sv_stopper v = StopJoinGc" "\<not> sv_aborted v" "sv_threads v = sv_threads u"
    using stop_joins [OF u(1,2) _ u(3-6)] by blast
  have "\<forall>t \<in> set (sv_threads v). th_local t = WsDone" using v(4) u(7) s(3) by simp
  then show ?thesis using stop_returns [OF v(1-3)] v by blast
qed

theorem connection_limit_not_enforced_witness:
  "\<exists>s. server_reachable (WebSocketServer (demo_world (demo_attempt 0))) (\<lambda>_. []) (WebSocketServer_new 8080 ''127.0.0.1'' 5 1 3) s \<and>
     sv_maxConnections s = 1 \<and> getConnectedClientsCount (sv_shared s) = 5"
  using connection_limit_not_enforced [of 1] by simp

text \<open>A handshake that succeeds, and one that times out at once.\<close>

lemma demo_createSocket:
  "createSocket_fd (at_pipe (demo_attempt clock)) fd (at_socket (demo_attempt clock)) =
     Inr ((at_socket (demo_attempt clock))\<lparr>sockfd := fd, interrupt := (SelectInterruptPipe_new 8)\<lparr>fildes_read := 5, fildes_write := 6\<rparr>\<rparr>)"
  by (simp add: createSocket_fd_def socket_init_def Socket_make_def pipe_init_def SelectInterruptPipe_new_def demo_attempt_def Socket_new_def)

lemma demo_handshake_succeeds:
  "\<exists>status w1. ws_connectToSocket demo_env (demo_attempt 0) 4 3 w = Some (Init status, w1) \<and> init_success status"
proof -
  let ?t = "(ws_configure w)\<lparr>useMask := False\<rparr>"
  let ?s = "(at_socket (demo_attempt 0))\<lparr>sockfd := 4, interrupt := (SelectInterruptPipe_new 8)\<lparr>fildes_read := 5, fildes_write := 6\<rparr>\<rparr>"
  let ?h = "to_handshake ?t ?s"
  let ?env = "(at_henv (demo_attempt 0))\<lparr>h_zlib := zlib demo_env\<rparr>"
  let ?c = "demo_endpoint 4 [] 0"
  have ua: "userAgent ?env = userAgent demo_henv" by (simp add: userAgent_def demo_attempt_def)
  then have resp: "server_response ?env demo_key (offered ?c) = demo_response"
    using demo_messages(2) [of 4 "[]" 0] by (simp add: server_response_def)
  have in_s: "sockfd (hs_socket ?h) \<noteq> -1" "no_poll_failure (hs_socket ?h)"
    "arriving (sys_recvs (hs_socket ?h)) = bytes_of demo_request @ []" "accepting (sys_sends (hs_socket ?h)) (length demo_response)"
    using demo_messages(3,4) by (simp_all add: to_handshake_def demo_attempt_def Socket_new_def no_poll_failure_def bytes_of_def)
  have env: "zlib_windows (h_zlib ?env)" "never_cancelled ?env 3"
    using demo_params(6) by (simp_all add: demo_attempt_def demo_env_def demo_henv_def never_cancelled_def makeCancellationRequestWithTimeout_def)
  note msgs = demo_messages(1) [of 4 "[]" 0, unfolded demo_key_def] resp [unfolded demo_key_def]
  obtain headers h1 where "serverHandshake ?env 4 3 ?h = Some (initResult True 200 [] headers ''/chat'', h1)"
    using server_accepts [of demo_henv "''/chat''" "''example.com''" 80 "[]" ?c ?env ?h 3 "[]" 4, unfolded msgs,
        OF demo_params(1-3) _ _ demo_params(4) _ demo_params(5) env(1) in_s(1,2) env(2) in_s(3,4)] by auto
  then show ?thesis
    by (simp add: ws_connectToSocket_def connectToSocket_def Let_def demo_createSocket finish_connect_def after_connect_def initResult_def)
qed

lemma cancelled_transfers:
  assumes "\<forall>k. cancel k"
  shows "readLine cancel s = Some (False, [], s\<lparr>cancel_queries := cancel_queries s + 1\<rparr>)"
    and "writeBytes cancel m s = Some (False, s\<lparr>cancel_queries := cancel_queries s + 1\<rparr>)"
proof -
  have "readByte cancel s = Some (None, s\<lparr>cancel_queries := cancel_queries s + 1\<rparr>)"
    using assms by (subst readByte.simps) (simp add: ask_def)
  then show "readLine cancel s = Some (False, [], s\<lparr>cancel_queries := cancel_queries s + 1\<rparr>)"
    unfolding readLine_def by (subst readLine_loop.simps) (simp add: line_complete_def)
  show "writeBytes cancel m s = Some (False, s\<lparr>cancel_queries := cancel_queries s + 1\<rparr>)"
    using assms unfolding writeBytes_def by (subst writeBytes_loop.simps) (simp add: ask_def)
qed

lemma demo_handshake_times_out:
  "\<exists>status w1. ws_connectToSocket demo_env (demo_attempt 5000000000) 4 3 w = Some (Init status, w1) \<and> \<not> init_success status \<and>
     sockfd (sock (ws_transport w1)) = 4 \<and> closed_fds (sock (ws_transport w1)) = [] \<and>
     readyState (ws_transport w1) = readyState (ws_transport w)"
proof -
  let ?t = "(ws_configure w)\<lparr>useMask := False\<rparr>"
  let ?a = "demo_attempt 5000000000"
  let ?s = "(at_socket ?a)\<lparr>sockfd := 4, interrupt := (SelectInterruptPipe_new 8)\<lparr>fildes_read := 5, fildes_write := 6\<rparr>\<rparr>"
  let ?h = "to_handshake ?t ?s"
  let ?env = "(at_henv ?a)\<lparr>h_zlib := zlib demo_env\<rparr>"
  have c: "\<forall>k. makeCancellationRequestWithTimeout 3 (h_flag ?env) (h_start ?env) (h_clock ?env) k"
    "\<forall>k. makeCancellationRequestWithTimeout 1 (\<lambda>_. False) (h_errStart ?env) (h_errClock ?env) k"
    by (simp_all add: makeCancellationRequestWithTimeout_def demo_attempt_def demo_henv_def)
  have "serverHandshake ?env 4 3 ?h = Some (initError 500 ''Timed out while sending error response'',
      ?h\<lparr>hs_requestInitCancellation := False, hs_socket := ?s\<lparr>cancel_queries := 2\<rparr>\<rparr>)"
    unfolding serverHandshake_def Let_def sendErrorResponse_def
    by (simp only: handshake.simps cancelled_transfers(1) [OF c(1)] cancelled_transfers(2) [OF c(2)] Option.bind.bind_lunit prod.case if_True
        not_False_eq_True)
      (simp add: to_handshake_def demo_attempt_def Socket_new_def)
  then have "connectToSocket demo_env ?a 4 3 (ws_configure w) = Some (initError 500 ''Timed out while sending error response'',
      from_handshake (?h\<lparr>hs_requestInitCancellation := False, hs_socket := ?s\<lparr>cancel_queries := 2\<rparr>\<rparr>) ?t)"
    by (simp add: connectToSocket_def Let_def demo_createSocket finish_connect_def succeeded_def initResult_def)
  then have "\<exists>status w1. ws_connectToSocket demo_env ?a 4 3 w = Some (Init status, w1) \<and> \<not> init_success status \<and>
      ws_transport w1 = from_handshake (?h\<lparr>hs_requestInitCancellation := False, hs_socket := ?s\<lparr>cancel_queries := 2\<rparr>\<rparr>) ?t"
    by (simp add: ws_connectToSocket_def after_connect_def Let_def initResult_def)
  then show ?thesis
    by (auto simp: from_handshake_def ws_configure_def configure_def demo_attempt_def Socket_new_def)
qed

theorem stop_waits_for_open_client_witness:
  "\<exists>s t w. server_reachable (WebSocketServer (demo_world (demo_attempt 0))) (\<lambda>_. []) (WebSocketServer_new 8080 ''127.0.0.1'' 5 32 3) s \<and>
     sv_stopper s = StopJoinGc \<and> wg_todo (sv_shared s) = [] \<and> sv_threads s = [t] \<and> th_local t = WsServing True \<and>
     wg_objects (sv_shared s) 0 = Some w \<and> readyState (ws_transport w) = OPEN"
proof -
  let ?W = "demo_world (demo_attempt 0)"
  obtain status w1 where c: "ws_connectToSocket (wd_env ?W) (wd_attempt ?W 0) 4 3
      (ws_close (wd_env ?W) kNormalClosureCode kNormalClosureMessage (new_client ?W True 0)) = Some (Init status, w1)" "init_success status"
    using demo_handshake_succeeds [of "ws_close (wd_env ?W) kNormalClosureCode kNormalClosureMessage (new_client ?W True 0)"]
    by (auto simp: demo_world_def)
  have "\<exists>s t. server_reachable (WebSocketServer ?W) (\<lambda>_. []) (WebSocketServer_new 8080 ''127.0.0.1'' 5 32 3) s \<and>
     sv_stopper s = StopJoinGc \<and> wg_snapshot (sv_shared s) = [0] \<and> wg_todo (sv_shared s) = [] \<and>
     sv_threads s = [t] \<and> th_conn t = 0 \<and> th_local t = WsServing True \<and>
     wg_objects (sv_shared s) 0 = Some w1 \<and> readyState (ws_transport w1) = OPEN"
    by (rule stop_waits_for_open_client [where lfd = 3, OF _ _ _ c]) simp_all
  then show ?thesis by blast
qed

theorem handler_closes_foreign_descriptor_witness:
  "\<exists>s s' t u. server_reachable (WebSocketServer (demo_world (demo_attempt 5000000000))) (\<lambda>_. [])
       (WebSocketServer_new 8080 ''127.0.0.1'' 5 32 3) s \<and>
     sv_threads s = [t, u] \<and> th_fd u = 4 \<and> sv_fds s 4 = Some (Connection 1) \<and>
     server_step (WebSocketServer (demo_world (demo_attempt 5000000000))) (\<lambda>_. []) s s' \<and> sv_fds s' 4 = None"
proof -
  let ?W = "demo_world (demo_attempt 5000000000)"
  let ?w = "new_client ?W True 0"
  obtain status w1 where c: "ws_connectToSocket (wd_env ?W) (wd_attempt ?W 0) 4 3 ?w = Some (Init status, w1)" "\<not> init_success status"
    and f: "sockfd (sock (ws_transport w1)) = 4" "closed_fds (sock (ws_transport w1)) = []"
      "readyState (ws_transport w1) = readyState (ws_transport ?w)"
    using demo_handshake_times_out [of ?w] by (auto simp: demo_world_def)
  have "readyState (ws_transport ?w) = CLOSED"
    by (simp add: new_client_def demo_world_def ws_setPong_def setAutomaticReconnection_def WebSocket_new_def Transport_new_def)
  then have d: "4 \<in> set (destroyed_fds (wd_env ?W) w1)"
    using f by (simp add: destroyed_fds_def ws_close_def drain_def close_def Let_def socket_close_def)
  have "\<exists>s s' t u. server_reachable (WebSocketServer ?W) (\<lambda>_. []) (WebSocketServer_new 8080 ''127.0.0.1'' 5 32 3) s \<and>
    sv_threads s = [t, u] \<and> th_conn t = 0 \<and> th_conn u = 1 \<and> th_fd u = 4 \<and> th_local u = WsStart \<and> sv_fds s 4 = Some (Connection 1) \<and>
    server_step (WebSocketServer ?W) (\<lambda>_. []) s s' \<and> sv_threads s' = [set_local WsDone t, u] \<and> sv_fds s' 4 = None"
    by (rule handler_closes_foreign_descriptor [where lfd = 3, OF _ _ _ c d]) simp_all
  then show ?thesis by blast
qed

end
