(* ===== verification/Spec2Isabelle.thy ===== *)
theory Spec2Isabelle
  imports TlsProperties Drivers Sentry FileTransferProperties CobraPublisher HttpExchange HttpAsync HttpParameters MessageQueue SampleClient WebSocketServerProperties WebSocketProperties HandshakeSound Messages SendProperties Base64
begin

text \<open>
  \<^bold>\<open>IXWebSocket and the sample applications of the MMC API.\<close> The repository holds a WebSocket and HTTP library
  (\<^verbatim>\<open>src/IXWebSocket\<close>) and two programs that use it: a server that answers grade requests with made-up
  data (\<^verbatim>\<open>src/mtl-sample-api-server\<close>) and its client (\<^verbatim>\<open>src/mtl-sample-api-client\<close>). This development models
  the library from the system calls up to its WebSocket and HTTP objects, and both programs on top.

  \<^bold>\<open>How the parts interact.\<close> A socket wraps a descriptor and an interrupt that wakes it from a poll. The
  connector resolves a name and connects a socket; the handshake exchanges HTTP messages over it, by the
  blocking transfers of the socket, and settles the compression options. The transport then turns
  messages into frames and frames into messages; the WebSocket object runs it in a thread,
  reconnects, and calls the user back. The socket server accepts connections, each served by a thread
  of its own, and is specialised to a WebSocket server and an HTTP server. The HTTP client makes
  requests over the same sockets. The Cobra client speaks its protocol over a WebSocket object; its
  counterpart, the snake server, is a callback of a WebSocket server and passes messages on through a
  Redis server. A sender, a relay and a receiver of files are WebSocket programs too. The sample server
  is a callback of a WebSocket server, the sample client one of a WebSocket object.

  \<^bold>\<open>Theories and sources\<close> (paths under \<^verbatim>\<open>src/IXWebSocket/ixwebsocket\<close> where no other is given).

  \<^descr> \<open>Prelude\<close>: lists, options, words, the characters and number conversions of the C library.
  \<^descr> \<open>Utf8Validator\<close> (\<^verbatim>\<open>IXUtf8Validator.h\<close>), \<open>Base64\<close> (\<^verbatim>\<open>ixcrypto/IXBase64.cpp\<close>), \<open>HandshakeKeyGen\<close> (\<^verbatim>\<open>libwshandshake.hpp\<close>):
    each is proved equal to, or inverse of, a reference definition: the encodings of scalar values, the
    RFC 4648 alphabet, SHA-1 and the accept key.
  \<^descr> \<open>SelectInterrupt\<close> (\<^verbatim>\<open>IXSelectInterrupt*.cpp\<close>): pipe, eventfd and the base class; the locale \<open>wakeup_channel\<close> is the
    contract the pipe keeps and the eventfd does not.
  \<^descr> \<open>Socket\<close> (\<^verbatim>\<open>IXSocket.cpp\<close>, \<^verbatim>\<open>IXCancellationRequest.cpp\<close>), \<open>SocketConnect\<close> (\<^verbatim>\<open>IXSocketConnect.cpp\<close>, \<^verbatim>\<open>IXDNSLookup.cpp\<close>): the
    record \<open>socket\<close> holds the members and, as scripts, what the system calls will return; the
    transfers end at their timeout, connecting leaks no descriptor, and the lookup thread races with
    its caller.
  \<^descr> \<open>UrlParser\<close> (\<^verbatim>\<open>IXUrlParser.cpp\<close>, \<^verbatim>\<open>LUrlParser.cpp\<close>), \<open>HttpHeaders\<close> (\<^verbatim>\<open>IXWebSocketHttpHeaders.cpp\<close>), \<open>Http\<close> (\<^verbatim>\<open>IXHttp.cpp\<close>): parsers and
    printers with their round trips; the locale \<open>keyed_map\<close> is the contract of the header map.
  \<^descr> \<open>DeflateOptions\<close>, \<open>DeflateCodec\<close> (\<^verbatim>\<open>IXWebSocketPerMessageDeflate*.cpp\<close>): the extension header and the codec over a zlib
    that is a parameter.
  \<^descr> \<open>Frame\<close>, \<open>CloseConstants\<close>, \<open>Transport\<close>, \<open>Dispatch\<close> (\<^verbatim>\<open>IXWebSocketTransport.cpp\<close>, \<^verbatim>\<open>IXWebSocketCloseConstants.cpp\<close>): frame headers and
    masks, sending, and the reading of frames. \<open>SendProperties\<close>, \<open>Messages\<close> and \<open>TransportProperties\<close> hold their
    properties: bytes are conserved, messages arrive, the close callback runs once, the close
    handshake is answered. The locale \<open>framing\<close> states that a prefix code survives any segmentation, and
    \<open>transport_invariant\<close> lifts what every operation keeps to all reachable states.
  \<^descr> \<open>Handshake\<close>, \<open>HandshakeProperties\<close>, \<open>HandshakeSound\<close> (\<^verbatim>\<open>IXWebSocketHandshake.cpp\<close>, \<^verbatim>\<open>IXUserAgent.cpp\<close>, \<^verbatim>\<open>IXSocketFactory.cpp\<close>): client
    and server agree when they meet each other, report success only after the checks of the protocol,
    and return at their timeout.
  \<^descr> \<open>Connect\<close>, \<open>WebSocket\<close>, \<open>WebSocketProperties\<close> (\<^verbatim>\<open>IXWebSocket.cpp\<close>, \<^verbatim>\<open>IXExponentialBackoff.cpp\<close>): connecting with retries,
    the loop of the thread, sending; Open and Close callbacks are paired in every reachable state.
  \<^descr> \<open>Fifo\<close>, \<open>MessageQueue\<close> (\<^verbatim>\<open>IXWebSocketMessageQueue.cpp\<close>): the locale \<open>fifo_queue\<close> is the contract of a queue between
    threads; the message queue, the request queue of the HTTP client and the queue of the metrics
    publisher interpret it.
  \<^descr> \<open>SocketServer\<close>, \<open>SocketServerProperties\<close> (\<^verbatim>\<open>IXSocketServer.cpp\<close>, \<^verbatim>\<open>IXConnectionState.cpp\<close>): the accepting thread, the
    collecting thread, the threads of the connections and the owner as one interleaved step relation.
    The locale \<open>server_handler\<close> is what a connection handler promises; the two servers below interpret it.
  \<^descr> \<open>WebSocketServer\<close>, \<open>WebSocketServerProperties\<close> (\<^verbatim>\<open>IXWebSocketServer.cpp\<close>): the set of clients is exact in every
    interleaving, and \<open>stop\<close> returns and leaves nothing behind.
  \<^descr> \<open>HttpServer\<close> (\<^verbatim>\<open>IXHttpServer.cpp\<close>), \<open>HttpClient\<close>, \<open>HttpClientProperties\<close>, \<open>HttpParameters\<close>, \<open>HttpAsync\<close> (\<^verbatim>\<open>IXHttpClient.cpp\<close>): requests
    with every error path, bodies by length and in chunks, form parameters, and the thread that
    performs queued requests. \<open>HttpExchange\<close> joins client and server.
  \<^descr> \<open>Cobra\<close>, \<open>CobraProperties\<close>, \<open>CobraPublisher\<close> (\<^verbatim>\<open>src/IXWebSocket/ixcobra\<close>, \<^verbatim>\<open>ixcrypto/IXHMac.cpp\<close>): the publish/subscribe protocol on
    a WebSocket object, its authentication, its queue of unsent messages, and the metrics
    publisher with blacklist, rates and numbers on top of it.
  \<^descr> \<open>Uuid\<close> (\<^verbatim>\<open>ixcrypto/IXUuid.cpp\<close>, \<^verbatim>\<open>ixcrypto/IXHash.cpp\<close>): identifiers and the checksum of the file tools.
  \<^descr> \<open>Redis\<close>, \<open>RedisProperties\<close> (\<^verbatim>\<open>src/IXWebSocket/ws/IXRedisClient.cpp\<close>): commands, and the loop of a subscription; a
    decoder of the protocol of Redis is the reference for what is written.
  \<^descr> \<open>Snake\<close>, \<open>SnakeProperties\<close> (\<^verbatim>\<open>src/IXWebSocket/ws/snake\<close>, \<^verbatim>\<open>ws_snake.cpp\<close>): the server of the Cobra protocol. Client and
    server are joined: they authenticate each other's messages, and what one client publishes reaches
    the callback of another.
  \<^descr> \<open>FileTransfer\<close>, \<open>FileTransferProperties\<close> (\<^verbatim>\<open>src/IXWebSocket/ws/ws_send.cpp\<close>, \<^verbatim>\<open>ws_receive.cpp\<close>, \<^verbatim>\<open>ws_transfer.cpp\<close>): a file goes from
    sender to receiver through a message with a checksum; the relay passes messages on to all others.
  \<^descr> \<open>TlsSockets\<close>, \<open>TlsProperties\<close> (\<^verbatim>\<open>IXSocketOpenSSL.cpp\<close>, \<^verbatim>\<open>IXSocketMbedTLS.cpp\<close>, \<^verbatim>\<open>IXSocketAppleSSL.cpp\<close>, \<^verbatim>\<open>IXSocketSChannel.cpp\<close>):
    the locale \<open>byte_stream\<close> is what the transfers of a socket need of \<open>send\<close>; the plain socket and the four
    classes interpret it. A connect over OpenSSL succeeds only with a certificate that was checked.
  \<^descr> \<open>Tools\<close>, \<open>Drivers\<close>, \<open>Sentry\<close> (\<^verbatim>\<open>src/IXWebSocket/ws\<close>): the echo, broadcast, chat, connect, ping and HTTP tools, the
    Autobahn, Redis and file server drivers, and the bridges from Cobra to statsd and Sentry, the latter
    with its pool of sending threads.
  \<^descr> \<open>Float32\<close>, \<open>SampleDataStore\<close>, \<open>SampleServer\<close>, \<open>SampleServerProperties\<close> (\<^verbatim>\<open>src/mtl-sample-api-server\<close>), \<open>SampleClient\<close>
    (\<^verbatim>\<open>src/mtl-sample-api-client\<close>): binary32 arithmetic as the data store uses it, the message handlers and main
    loops; every request gets an answer under its number, and the client's request is served.

  \<^bold>\<open>Conventions.\<close> Members of a class are the fields of a record; a method is a function from the state to
  its result and the new state. Integers are words where they wrap (\<open>u8\<close> to \<open>u64\<close>), else \<open>int\<close> or \<open>nat\<close>;
  sizes of strings in memory are \<open>nat\<close>. What an object outside the process decides (system calls,
  clocks, random numbers, zlib, the resolver, files, the JSON parser) is a parameter: a script in the
  state, consumed in order, or a function. Undefined behaviour, exceptions and failed allocations are
  values of the result types. A loop without a bound of its own is a \<open>partial_function\<close>, whose value
  \<^const>\<open>None\<close> means that it does not return; the theorems on results prove that it does. No
  definition has fuel. Threads are step relations over shared state; a step goes from one access of
  shared state to the next.

  \<^bold>\<open>Not modelled.\<close> Socket options, thread names and Winsock have no effect that the model could show. The TLS
  libraries are parameters; the WebSocket object is modelled for the build without TLS, that of the
  sample applications. Progress callbacks are modelled for messages, not for HTTP requests. JSON text is
  read and printed by vendored libraries and is a parameter, and so is the parser of MessagePack; the
  operations on JSON values and the writer of MessagePack are modelled as far as the code uses them. The command line parser \<^verbatim>\<open>ws.cpp\<close> and two programs that only start Cobra clients and
  print are left out. Data races on plain members, as
  in the queue of the sample client, are outside the models, which interleave whole steps.
\<close>

end
